(* ===== verification/Prelude.thy ===== *)
theory Prelude
  imports Main "HOL-Library.Sublist" "HOL-Library.Char_ord" "HOL-Library.List_Lexorder"
    "HOL-Library.Product_Lexorder"
begin

text \<open>
  Shared by every component: the two layers of failure of a service call, the queries the
  services send to the database (lookup by id, the latest row, the next row id), text
  trimming, the length of a text in SQL, and the lemma collections the component proofs draw on.

  Rust's \<open>Result<Result<T, Refusal>>\<close> becomes \<open>'r failure + 'a\<close>: \<open>Refused\<close> is the inner,
  typed refusal, \<open>Aborted\<close> the outer error of a statement that failed (a constraint, a
  trigger, a \<open>fetch_one\<close> without a row). Both roll the transaction back, so neither
  carries a new database.
\<close>

named_theorems row_simps \<open>what an insert does to the tables\<close>
named_theorems guard_simps \<open>inversion of guard chains\<close>

section \<open>Failures and sequencing\<close>

datatype db_error =
    RowNotFound
  | ForeignKey
  | UniqueIndex
  | CheckConstraint
  | Raised string
  | Defect string

datatype 'r failure = Refused 'r | Aborted db_error

type_synonym ('r, 'a) outcome = "'r failure + 'a"

abbreviation refuse :: "'r \<Rightarrow> ('r, 'a) outcome" where
  "refuse r \<equiv> Inl (Refused r)"

abbreviation abort :: "db_error \<Rightarrow> ('r, 'a) outcome" where
  "abort e \<equiv> Inl (Aborted e)"

text \<open>One statement inside a transaction, then the rest of it (\<open>?\<close> after an \<open>execute\<close>).\<close>

definition run :: "db_error + 'a \<Rightarrow> ('a \<Rightarrow> ('r, 'b) outcome) \<Rightarrow> ('r, 'b) outcome" where
  "run m k = (case m of Inl e \<Rightarrow> abort e | Inr x \<Rightarrow> k x)"

text \<open>\<open>fetch_one\<close>: a missing row is an error, never a refusal.\<close>

definition fetch_one :: "'a option \<Rightarrow> ('a \<Rightarrow> ('r, 'b) outcome) \<Rightarrow> ('r, 'b) outcome" where
  "fetch_one r k = (case r of None \<Rightarrow> abort RowNotFound | Some x \<Rightarrow> k x)"

text \<open>Two statements of one helper, both below the refusal layer.\<close>

definition seq :: "db_error + 'a \<Rightarrow> ('a \<Rightarrow> db_error + 'b) \<Rightarrow> db_error + 'b" where
  "seq m k = (case m of Inl e \<Rightarrow> Inl e | Inr x \<Rightarrow> k x)"

text \<open>A constraint the database checks before it stores a row.\<close>

definition demand :: "bool \<Rightarrow> db_error \<Rightarrow> db_error + 'a \<Rightarrow> db_error + 'a" where
  "demand ok e m = (if ok then m else Inl e)"

lemma run_Inr_iff [guard_simps]: "run m k = Inr y \<longleftrightarrow> (\<exists>x. m = Inr x \<and> k x = Inr y)"
  by (cases m) (simp_all add: run_def)

lemma run_Refused_iff [guard_simps]:
  "run m k = Inl (Refused r) \<longleftrightarrow> (\<exists>x. m = Inr x \<and> k x = Inl (Refused r))"
  by (cases m) (simp_all add: run_def)

lemma run_Inr [simp]: "run (Inr x) k = k x"
  by (simp add: run_def)

lemma run_Inl [simp]: "run (Inl e) k = abort e"
  by (simp add: run_def)

lemma fetch_one_Inr_iff [guard_simps]:
  "fetch_one r k = Inr y \<longleftrightarrow> (\<exists>x. r = Some x \<and> k x = Inr y)"
  by (cases r) (simp_all add: fetch_one_def)

lemma fetch_one_Refused_iff [guard_simps]:
  "fetch_one m k = Inl (Refused r) \<longleftrightarrow> (\<exists>x. m = Some x \<and> k x = Inl (Refused r))"
  by (cases m) (simp_all add: fetch_one_def)

lemma fetch_one_Some [simp]: "fetch_one (Some x) k = k x"
  by (simp add: fetch_one_def)

lemma fetch_one_None [simp]: "fetch_one None k = abort RowNotFound"
  by (simp add: fetch_one_def)

lemma seq_Inr_iff [guard_simps]: "seq m k = Inr y \<longleftrightarrow> (\<exists>x. m = Inr x \<and> k x = Inr y)"
  by (cases m) (simp_all add: seq_def)

lemma seq_Inr [simp]: "seq (Inr x) k = k x"
  by (simp add: seq_def)

lemma seq_Inl [simp]: "seq (Inl e) k = Inl e"
  by (simp add: seq_def)

lemma demand_Inr_iff [guard_simps]: "demand ok e m = Inr y \<longleftrightarrow> ok \<and> m = Inr y"
  by (simp add: demand_def)

lemma demand_True [simp]: "demand True e m = m"
  by (simp add: demand_def)

lemma demand_False [simp]: "demand False e m = Inl e"
  by (simp add: demand_def)

text \<open>A guard that refuses, and a lookup or a helper that does.\<close>

lemma guard_Inr_iff [guard_simps]: "(if b then refuse r else m) = Inr y \<longleftrightarrow> \<not> b \<and> m = Inr y"
  by simp

lemma case_option_Inr_iff [guard_simps]:
  "(case m of None \<Rightarrow> refuse r | Some x \<Rightarrow> k x) = Inr y \<longleftrightarrow> (\<exists>x. m = Some x \<and> k x = Inr y)"
  by (cases m) simp_all

lemma case_option_refuse_Inr_iff [guard_simps]:
  "(case m of None \<Rightarrow> k | Some x \<Rightarrow> refuse (f x)) = Inr y \<longleftrightarrow> m = None \<and> k = Inr y"
  by (cases m) simp_all

lemma case_sum_Inr_iff [guard_simps]:
  "(case m of Inl e \<Rightarrow> refuse (f e) | Inr x \<Rightarrow> k x) = Inr y \<longleftrightarrow> (\<exists>x. m = Inr x \<and> k x = Inr y)"
  by (cases m) simp_all

lemma case_pass_Inr_iff [guard_simps]:
  "(case m of Inl e \<Rightarrow> Inl e | Inr x \<Rightarrow> k x) = Inr y \<longleftrightarrow> (\<exists>x. m = Inr x \<and> k x = Inr y)"
  by (cases m) simp_all

lemma case_prod_Inr_iff [guard_simps]:
  "(case p of (a, b) \<Rightarrow> k a b) = Inr y \<longleftrightarrow> (\<exists>a b. p = (a, b) \<and> k a b = Inr y)"
  by (cases p) simp

section \<open>Queries\<close>

text \<open>
  \<open>SELECT \<dots> WHERE id = ?\<close> on a table is \<open>find\<close>. \<open>ORDER BY k DESC LIMIT 1\<close> is
  \<open>latest_by k\<close>; every table it is used on has distinct keys, so the choice among equal
  keys (the later row) never shows.
\<close>

fun latest_by :: "('a \<Rightarrow> 'k::linorder) \<Rightarrow> 'a list \<Rightarrow> 'a option" where
  "latest_by k [] = None"
| "latest_by k (x # xs) =
     (case latest_by k xs of
        None \<Rightarrow> Some x
      | Some y \<Rightarrow> if k x \<le> k y then Some y else Some x)"

lemma latest_by_None_iff [simp]: "latest_by k xs = None \<longleftrightarrow> xs = []"
  by (cases xs) (auto split: option.splits)

lemma latest_by_in: "latest_by k xs = Some x \<Longrightarrow> x \<in> set xs"
  by (induction xs) (auto split: option.splits if_splits)

lemma latest_by_max: "latest_by k xs = Some x \<Longrightarrow> y \<in> set xs \<Longrightarrow> k y \<le> k x"
proof (induction xs arbitrary: x)
  case (Cons a xs)
  then show ?case
    by (fastforce split: option.splits if_splits)
qed simp

lemma latest_by_snoc:
  "(\<And>y. y \<in> set xs \<Longrightarrow> k y \<le> k x) \<Longrightarrow> latest_by k (xs @ [x]) = Some x"
  by (induction xs) auto

lemma latest_by_eqI:
  assumes "x \<in> set xs" and "\<And>y. y \<in> set xs \<Longrightarrow> k y \<le> k x"
    and "inj_on k (set xs)"
  shows "latest_by k xs = Some x"
proof -
  obtain z where z: "latest_by k xs = Some z"
    using assms(1) by (cases "latest_by k xs") auto
  have "k z = k x"
    using assms(1,2) z by (metis latest_by_in latest_by_max order_antisym)
  then show ?thesis
    using z assms(1,3) latest_by_in by (metis inj_onD)
qed

text \<open>\<open>MAX(id)\<close>, and the id SQLite gives a new row of an \<open>INTEGER PRIMARY KEY\<close> table.\<close>

definition max_id :: "int list \<Rightarrow> int option" where
  "max_id is = (if is = [] then None else Some (Max (set is)))"

definition next_id :: "int list \<Rightarrow> int" where
  "next_id is = (case max_id is of None \<Rightarrow> 1 | Some m \<Rightarrow> m + 1)"

lemma max_id_None_iff [simp]: "max_id is = None \<longleftrightarrow> is = []"
  by (simp add: max_id_def)

lemma max_id_ge: "max_id is = Some m \<Longrightarrow> i \<in> set is \<Longrightarrow> i \<le> m"
  by (auto simp: max_id_def split: if_splits)

lemma max_id_in: "max_id is = Some m \<Longrightarrow> m \<in> set is"
  by (auto simp: max_id_def split: if_splits)

lemma next_id_gt: "i \<in> set is \<Longrightarrow> i < next_id is"
  by (auto simp: next_id_def max_id_def)

lemma next_id_fresh: "next_id is \<notin> set is"
  using next_id_gt by blast

lemma max_id_eqI: "m \<in> set is \<Longrightarrow> (\<And>i. i \<in> set is \<Longrightarrow> i \<le> m) \<Longrightarrow> max_id is = Some m"
  by (auto simp: max_id_def intro!: Max_eqI)

text \<open>
  Row ids in insertion order: positive and strictly ascending. It holds of every table
  nothing is deleted from but at the end, and makes the latest row the last.
\<close>

definition ids_ok :: "int list \<Rightarrow> bool" where
  "ids_ok is \<longleftrightarrow> sorted_wrt (<) is \<and> (\<forall>i \<in> set is. 0 < i)"

lemma ids_ok_Nil [simp]: "ids_ok []"
  by (simp add: ids_ok_def)

lemma ids_ok_snoc: "ids_ok is \<Longrightarrow> (\<forall>i \<in> set is. i < n) \<Longrightarrow> 0 < n \<Longrightarrow> ids_ok (is @ [n])"
  by (auto simp: ids_ok_def sorted_wrt_append)

lemma next_id_pos: "ids_ok is \<Longrightarrow> 0 < next_id is"
  by (fastforce simp: next_id_def ids_ok_def split: option.splits dest: max_id_in)

lemma ids_ok_next [simp, intro]: "ids_ok is \<Longrightarrow> ids_ok (is @ [next_id is])"
  by (rule ids_ok_snoc) (auto simp: next_id_gt next_id_pos)

lemma ids_ok_distinct: "ids_ok is \<Longrightarrow> distinct is"
  unfolding ids_ok_def by (induction "is") auto

lemma ids_ok_filter: "ids_ok (map f xs) \<Longrightarrow> ids_ok (map f (filter P xs))"
  unfolding ids_ok_def by (induction xs) auto

lemma find_id_unique:
  "ids_ok (map f xs) \<Longrightarrow> x \<in> set xs \<Longrightarrow> find (\<lambda>y. f y = f x) xs = Some x"
  by (induction xs) (auto simp: ids_ok_def)

lemma find_eq_SomeD: "find P xs = Some x \<Longrightarrow> x \<in> set xs \<and> P x"
  by (induction xs) (auto split: if_splits)

lemma find_snoc:
  "find P (xs @ [x]) = (case find P xs of Some y \<Rightarrow> Some y | None \<Rightarrow> if P x then Some x else None)"
  by (induction xs) auto

lemma find_map_update:
  "(\<And>x. P (f x) = P x) \<Longrightarrow> find P (map f xs) = map_option f (find P xs)"
  by (induction xs) auto

lemma latest_by_last:
  "ids_ok (map f xs) \<Longrightarrow> latest_by f xs = (if xs = [] then None else Some (last xs))"
proof (induction xs rule: rev_induct)
  case (snoc x xs)
  then have "\<And>y. y \<in> set xs \<Longrightarrow> f y \<le> f x"
    by (auto simp: ids_ok_def sorted_wrt_append)
  then show ?case by (simp add: latest_by_snoc)
qed simp

section \<open>Text\<close>

text \<open>
  A Rust string is its UTF-8 bytes, one \<open>char\<close> each; its length counts bytes, as \<open>len\<close>
  does. \<open>str::trim\<close> removes Unicode \<open>White_Space\<close>, here as the UTF-8 encodings of the 25
  code points of that property (the list migration 0009 writes out in SQL).
\<close>

definition white_space :: "string list" where
  "white_space =
     [[CHR 0x09], [CHR 0x0A], [CHR 0x0B], [CHR 0x0C], [CHR 0x0D], [CHR 0x20],
      [CHR 0xC2, CHR 0x85], [CHR 0xC2, CHR 0xA0], [CHR 0xE1, CHR 0x9A, CHR 0x80],
      [CHR 0xE2, CHR 0x80, CHR 0x80], [CHR 0xE2, CHR 0x80, CHR 0x81],
      [CHR 0xE2, CHR 0x80, CHR 0x82], [CHR 0xE2, CHR 0x80, CHR 0x83],
      [CHR 0xE2, CHR 0x80, CHR 0x84], [CHR 0xE2, CHR 0x80, CHR 0x85],
      [CHR 0xE2, CHR 0x80, CHR 0x86], [CHR 0xE2, CHR 0x80, CHR 0x87],
      [CHR 0xE2, CHR 0x80, CHR 0x88], [CHR 0xE2, CHR 0x80, CHR 0x89],
      [CHR 0xE2, CHR 0x80, CHR 0x8A], [CHR 0xE2, CHR 0x80, CHR 0xA8],
      [CHR 0xE2, CHR 0x80, CHR 0xA9], [CHR 0xE2, CHR 0x80, CHR 0xAF],
      [CHR 0xE2, CHR 0x81, CHR 0x9F], [CHR 0xE3, CHR 0x80, CHR 0x80]]"

definition leading :: "string list \<Rightarrow> string \<Rightarrow> string option" where
  "leading ws s = find (\<lambda>w. w \<noteq> [] \<and> take (length w) s = w) ws"

function strip :: "string list \<Rightarrow> string \<Rightarrow> string" where
  "strip ws s = (case leading ws s of None \<Rightarrow> s | Some w \<Rightarrow> strip ws (drop (length w) s))"
  by pat_completeness auto
termination
proof (relation "measure (\<lambda>(ws, s). length s)", goal_cases)
  case (2 ws s w)
  then have "w \<noteq> []" and "take (length w) s = w"
    by (auto simp: leading_def dest: find_eq_SomeD)
  then show ?case
    by (metis case_prod_conv diff_less in_measure length_drop length_greater_0_conv take_Nil)
qed simp

declare strip.simps [simp del]

definition trim_start :: "string \<Rightarrow> string" where
  "trim_start s = strip white_space s"

definition trim_end :: "string \<Rightarrow> string" where
  "trim_end s = rev (strip (map rev white_space) (rev s))"

definition trim :: "string \<Rightarrow> string" where
  "trim s = trim_end (trim_start s)"

lemma leading_None_iff:
  "leading ws s = None \<longleftrightarrow> (\<forall>w \<in> set ws. w \<noteq> [] \<longrightarrow> \<not> prefix w s)"
proof -
  have "take (length w) s = w \<longleftrightarrow> prefix w s" for w :: string
    by (metis append_eq_conv_conj prefix_def take_is_prefix)
  then show ?thesis
    by (auto simp: leading_def find_None_iff)
qed

lemma strip_leading: "leading ws (strip ws s) = None"
proof (induction ws s rule: strip.induct)
  case (1 ws s)
  then show ?case
    by (cases "leading ws s") (simp_all add: strip.simps [of ws s])
qed

lemma strip_suffix: "suffix (strip ws s) s"
proof (induction ws s rule: strip.induct)
  case (1 ws s)
  show ?case
  proof (cases "leading ws s")
    case (Some w)
    with "1.IH" have "suffix (strip ws (drop (length w) s)) (drop (length w) s)"
      by blast
    with Some show ?thesis
      by (simp add: strip.simps [of ws s]) (meson suffix_drop suffix_order.trans)
  qed (simp add: strip.simps [of ws s])
qed

lemma strip_id: "leading ws s = None \<Longrightarrow> strip ws s = s"
  by (simp add: strip.simps [of ws s])

lemma trim_end_prefix: "prefix (trim_end s) s"
  using strip_suffix [of "map rev white_space" "rev s"]
  by (simp add: trim_end_def suffix_to_prefix)

lemma trim_start_trim: "trim_start (trim s) = trim s"
proof -
  have "leading white_space (trim_start s) = None"
    by (simp add: trim_start_def strip_leading)
  then have "leading white_space (trim s) = None"
    using trim_end_prefix [of "trim_start s"]
    by (metis leading_None_iff prefix_order.trans trim_def)
  then show ?thesis
    by (simp add: trim_start_def strip_id)
qed

lemma trim_trim [simp]: "trim (trim s) = trim s"
proof -
  have "trim_end (trim s) = trim s"
    by (simp add: trim_def trim_end_def strip_leading strip_id)
  then show ?thesis
    using trim_start_trim [of s] by (simp add: trim_def)
qed

lemma trim_Nil [simp]: "trim [] = []"
  using trim_end_prefix [of "[]"] strip_suffix [of white_space "[]"]
  by (simp add: trim_def trim_start_def)

section \<open>Text in SQL\<close>

text \<open>
  SQL's \<open>length\<close> counts the characters before the first U+0000; Rust's \<open>chars().count()\<close> counts
  them all. A continuation byte of UTF-8 starts no character.
\<close>

definition continuation :: "char \<Rightarrow> bool" where
  "continuation c \<longleftrightarrow> digit7 c \<and> \<not> digit6 c"

definition char_count :: "string \<Rightarrow> nat" where
  "char_count s = length (filter (\<lambda>c. \<not> continuation c) s)"

definition sql_length :: "string \<Rightarrow> nat" where
  "sql_length s = char_count (takeWhile (\<lambda>c. c \<noteq> CHR 0x00) s)"

definition no_nul :: "string \<Rightarrow> bool" where
  "no_nul s \<longleftrightarrow> CHR 0x00 \<notin> set s"

lemma takeWhile_absent: "x \<notin> set xs \<Longrightarrow> takeWhile (\<lambda>y. y \<noteq> x) xs = xs"
  by (induction xs) auto

lemma sql_length_no_nul: "no_nul s \<Longrightarrow> sql_length s = char_count s"
  unfolding sql_length_def no_nul_def by (intro arg_cong [where f = char_count] takeWhile_absent)

lemma sql_length_Nil [simp]: "sql_length [] = 0"
  by (simp add: sql_length_def char_count_def)

section \<open>Runs and simulation\<close>

text \<open>A run of labelled steps, and the contract of a component that refines a smaller machine.\<close>

fun run_path :: "('s \<Rightarrow> 'l \<Rightarrow> 's \<Rightarrow> bool) \<Rightarrow> 's \<Rightarrow> 'l list \<Rightarrow> 's \<Rightarrow> bool" where
  "run_path step s [] t = (s = t)"
| "run_path step s (l # ls) t = (\<exists>u. step s l u \<and> run_path step u ls t)"

locale invariant_steps =
  fixes step :: "'s \<Rightarrow> 'l \<Rightarrow> 's \<Rightarrow> bool"
    and inv :: "'s \<Rightarrow> bool"
  assumes inv_step: "inv s \<Longrightarrow> step s l t \<Longrightarrow> inv t"
begin

lemma inv_path: "inv s \<Longrightarrow> run_path step s ls t \<Longrightarrow> inv t"
  by (induction ls arbitrary: s) (auto intro: inv_step)

end

locale refinement = invariant_steps step inv
  for step :: "'s \<Rightarrow> 'l \<Rightarrow> 's \<Rightarrow> bool" and inv :: "'s \<Rightarrow> bool" +
  fixes abs :: "'s \<Rightarrow> 'a"
    and abs_step :: "'a \<Rightarrow> 'l \<Rightarrow> 'a \<Rightarrow> bool"
  assumes simulates: "inv s \<Longrightarrow> step s l t \<Longrightarrow> abs_step (abs s) l (abs t)"
begin

lemma path_simulates: "inv s \<Longrightarrow> run_path step s ls t \<Longrightarrow> run_path abs_step (abs s) ls (abs t)"
  by (induction ls arbitrary: s) (auto intro: inv_step simulates)

end

text \<open>An append-only table: every step extends it at its end.\<close>

locale append_only = invariant_steps step inv
  for step :: "'s \<Rightarrow> 'l \<Rightarrow> 's \<Rightarrow> bool" and inv :: "'s \<Rightarrow> bool" +
  fixes rows :: "'s \<Rightarrow> 'r list"
  assumes appends: "inv s \<Longrightarrow> step s l t \<Longrightarrow> prefix (rows s) (rows t)"
begin

lemma path_prefix: "inv s \<Longrightarrow> run_path step s ls t \<Longrightarrow> prefix (rows s) (rows t)"
proof (induction ls arbitrary: s)
  case (Cons l ls)
  then obtain u where u: "step s l u" "run_path step u ls t" by auto
  with Cons have "prefix (rows u) (rows t)"
    using inv_step by blast
  then show ?case
    using appends [OF Cons.prems(1) u(1)] prefix_order.trans by blast
qed simp

lemma path_keeps: "inv s \<Longrightarrow> run_path step s ls t \<Longrightarrow> r \<in> set (rows s) \<Longrightarrow> r \<in> set (rows t)"
  using path_prefix set_mono_prefix by blast

end

section \<open>The clock\<close>

text \<open>
  An operation reads the wall clock several times (the service, then each audit event and
  each notice); \<open>clk n\<close> is its \<open>n\<close>-th reading, in UTC unix seconds. Nothing relates the
  readings: the clock may be set back between two of them.
\<close>

type_synonym clock = "nat \<Rightarrow> int"

end
