(* ===== verification/Vocabulary.thy ===== *)
theory Vocabulary
  imports Prelude
begin

text \<open>
  The closed vocabularies stored as text (closed_vocabulary.rs and its users in
  capabilities.rs, audit.rs, notices.rs) and the service-level enums whose stored names the
  tables constrain with a \<open>CHECK\<close>. The macro's generated \<open>parse\<close> is a \<open>match\<close> over the stored
  names in declaration order: the first value whose name is the text. A column the migrations
  close with a \<open>CHECK (kind IN \<dots>)\<close> is modelled with the enum itself; a column without one
  (capability, audit kind, notice kind) holds the text.
\<close>

section \<open>The macro\<close>

definition vocabulary_parse :: "'a list \<Rightarrow> ('a \<Rightarrow> string) \<Rightarrow> string \<Rightarrow> 'a option" where
  "vocabulary_parse all as_str stored = find (\<lambda>v. as_str v = stored) all"

locale closed_vocabulary =
  fixes all :: "'a list"
    and as_str :: "'a \<Rightarrow> string"
    and parse :: "string \<Rightarrow> 'a option"
  assumes every_value: "v \<in> set all"
    and names_distinct: "distinct (map as_str all)"
    and parse_generated: "parse stored = vocabulary_parse all as_str stored"
begin

lemma as_str_inject: "as_str v = as_str w \<longleftrightarrow> v = w"
  using names_distinct every_value by (metis distinct_map inj_onD)

lemma parse_as_str: "parse (as_str v) = Some v"
proof -
  have "find (\<lambda>w. as_str w = as_str v) xs = Some v" if "v \<in> set xs" for xs
    using that by (induction xs) (auto simp: as_str_inject)
  then show ?thesis
    by (simp add: parse_generated vocabulary_parse_def every_value)
qed

lemma parse_Some_iff: "parse s = Some v \<longleftrightarrow> s = as_str v"
proof
  assume "parse s = Some v"
  then have "find (\<lambda>w. as_str w = s) all = Some v"
    by (simp add: parse_generated vocabulary_parse_def)
  then show "s = as_str v" by (blast dest: find_eq_SomeD)
qed (simp add: parse_as_str)

lemma parse_None_iff: "parse s = None \<longleftrightarrow> s \<notin> as_str ` set all"
  by (auto simp: parse_generated vocabulary_parse_def find_None_iff)

lemma all_once: "distinct all"
  using names_distinct by (simp add: distinct_map)

end

section \<open>Capabilities\<close>

datatype capability =
    ManageUsers
  | ManageRetention
  | ManagePrograms
  | AssignTraining
  | ExportRecords
  | AuthorEvaluation
  | ReviewEvaluation
  | ViewAssignedRecords
  | ViewOwnRecords
  | AcknowledgeOwnRecord

definition capability_all :: "capability list" where
  "capability_all =
    [ManageUsers, ManageRetention, ManagePrograms,
     AssignTraining, ExportRecords, AuthorEvaluation,
     ReviewEvaluation, ViewAssignedRecords, ViewOwnRecords,
     AcknowledgeOwnRecord]"

fun capability_as_str :: "capability \<Rightarrow> string" where
  "capability_as_str ManageUsers = ''manage_users''"
| "capability_as_str ManageRetention = ''manage_retention''"
| "capability_as_str ManagePrograms = ''manage_programs''"
| "capability_as_str AssignTraining = ''assign_training''"
| "capability_as_str ExportRecords = ''export_records''"
| "capability_as_str AuthorEvaluation = ''author_evaluation''"
| "capability_as_str ReviewEvaluation = ''review_evaluation''"
| "capability_as_str ViewAssignedRecords = ''view_assigned_records''"
| "capability_as_str ViewOwnRecords = ''view_own_records''"
| "capability_as_str AcknowledgeOwnRecord = ''acknowledge_own_record''"

definition capability_parse :: "string \<Rightarrow> capability option" where
  "capability_parse stored = vocabulary_parse capability_all capability_as_str stored"

interpretation cap: closed_vocabulary capability_all capability_as_str capability_parse
proof (unfold_locales, goal_cases)
  case (1 v)
  show ?case by (cases v) (simp_all add: capability_all_def)
next
  case 2
  show ?case by (simp add: capability_all_def)
next
  case (3 stored)
  show ?case by (rule capability_parse_def)
qed

section \<open>Audit event kinds\<close>

datatype event_kind =
    EvRetentionAuthorityGranted
  | EvRetentionAuthorityRevoked
  | EvRetentionPolicyCreated
  | EvRecordHoldCreated
  | EvRecordHoldReplaced
  | EvRecordHoldReleased
  | EvSetupCompleted
  | EvLoginSucceeded
  | EvLoginFailed
  | EvLogout
  | EvResetCodeIssued
  | EvResetCodeUsed
  | EvRecoveryCodeIssued
  | EvBackupCompleted
  | EvRestoreCompleted
  | EvProgramCreated
  | EvProgramVersionCreated
  | EvProgramVersionPublished
  | EvProgramVersionImported
  | EvProgramVersionDiscarded
  | EvUserCreated
  | EvEnrollmentCreated
  | EvEnrollmentWithdrawn
  | EvEnrollmentCompleted
  | EvEnrollmentReinstated
  | EvEnrollmentVersionChanged
  | EvPhaseEventRecorded
  | EvAssignmentCreated
  | EvAssignmentEnded
  | EvSessionCreated
  | EvSessionUpdated
  | EvSessionClosed
  | EvSessionTrainerAdded
  | EvSessionTrainerRemoved
  | EvDraftCreated
  | EvDraftOwnershipTransferred
  | EvDraftSubmitted
  | EvDraftReviewDecided
  | EvDraftFinalized
  | EvAcknowledgmentRecorded
  | EvAmendmentOpened
  | EvTaskSignoffRecorded
  | EvRecordExported
  | EvTraineePacketExported
  | EvInstallationExported

definition event_kind_all :: "event_kind list" where
  "event_kind_all =
    [EvRetentionAuthorityGranted, EvRetentionAuthorityRevoked, EvRetentionPolicyCreated,
     EvRecordHoldCreated, EvRecordHoldReplaced, EvRecordHoldReleased,
     EvSetupCompleted, EvLoginSucceeded, EvLoginFailed,
     EvLogout, EvResetCodeIssued, EvResetCodeUsed,
     EvRecoveryCodeIssued, EvBackupCompleted, EvRestoreCompleted,
     EvProgramCreated, EvProgramVersionCreated, EvProgramVersionPublished,
     EvProgramVersionImported, EvProgramVersionDiscarded, EvUserCreated,
     EvEnrollmentCreated, EvEnrollmentWithdrawn, EvEnrollmentCompleted,
     EvEnrollmentReinstated, EvEnrollmentVersionChanged, EvPhaseEventRecorded,
     EvAssignmentCreated, EvAssignmentEnded, EvSessionCreated,
     EvSessionUpdated, EvSessionClosed, EvSessionTrainerAdded,
     EvSessionTrainerRemoved, EvDraftCreated, EvDraftOwnershipTransferred,
     EvDraftSubmitted, EvDraftReviewDecided, EvDraftFinalized,
     EvAcknowledgmentRecorded, EvAmendmentOpened, EvTaskSignoffRecorded,
     EvRecordExported, EvTraineePacketExported, EvInstallationExported]"

fun event_kind_as_str :: "event_kind \<Rightarrow> string" where
  "event_kind_as_str EvRetentionAuthorityGranted = ''retention_authority_granted''"
| "event_kind_as_str EvRetentionAuthorityRevoked = ''retention_authority_revoked''"
| "event_kind_as_str EvRetentionPolicyCreated = ''retention_policy_created''"
| "event_kind_as_str EvRecordHoldCreated = ''record_hold_created''"
| "event_kind_as_str EvRecordHoldReplaced = ''record_hold_replaced''"
| "event_kind_as_str EvRecordHoldReleased = ''record_hold_released''"
| "event_kind_as_str EvSetupCompleted = ''setup_completed''"
| "event_kind_as_str EvLoginSucceeded = ''login_succeeded''"
| "event_kind_as_str EvLoginFailed = ''login_failed''"
| "event_kind_as_str EvLogout = ''logout''"
| "event_kind_as_str EvResetCodeIssued = ''reset_code_issued''"
| "event_kind_as_str EvResetCodeUsed = ''reset_code_used''"
| "event_kind_as_str EvRecoveryCodeIssued = ''recovery_code_issued''"
| "event_kind_as_str EvBackupCompleted = ''backup_completed''"
| "event_kind_as_str EvRestoreCompleted = ''restore_completed''"
| "event_kind_as_str EvProgramCreated = ''program_created''"
| "event_kind_as_str EvProgramVersionCreated = ''program_version_created''"
| "event_kind_as_str EvProgramVersionPublished = ''program_version_published''"
| "event_kind_as_str EvProgramVersionImported = ''program_version_imported''"
| "event_kind_as_str EvProgramVersionDiscarded = ''program_version_discarded''"
| "event_kind_as_str EvUserCreated = ''user_created''"
| "event_kind_as_str EvEnrollmentCreated = ''enrollment_created''"
| "event_kind_as_str EvEnrollmentWithdrawn = ''enrollment_withdrawn''"
| "event_kind_as_str EvEnrollmentCompleted = ''enrollment_completed''"
| "event_kind_as_str EvEnrollmentReinstated = ''enrollment_reinstated''"
| "event_kind_as_str EvEnrollmentVersionChanged = ''enrollment_version_changed''"
| "event_kind_as_str EvPhaseEventRecorded = ''phase_event_recorded''"
| "event_kind_as_str EvAssignmentCreated = ''assignment_created''"
| "event_kind_as_str EvAssignmentEnded = ''assignment_ended''"
| "event_kind_as_str EvSessionCreated = ''session_created''"
| "event_kind_as_str EvSessionUpdated = ''session_updated''"
| "event_kind_as_str EvSessionClosed = ''session_closed''"
| "event_kind_as_str EvSessionTrainerAdded = ''session_trainer_added''"
| "event_kind_as_str EvSessionTrainerRemoved = ''session_trainer_removed''"
| "event_kind_as_str EvDraftCreated = ''draft_created''"
| "event_kind_as_str EvDraftOwnershipTransferred = ''draft_ownership_transferred''"
| "event_kind_as_str EvDraftSubmitted = ''draft_submitted''"
| "event_kind_as_str EvDraftReviewDecided = ''draft_review_decided''"
| "event_kind_as_str EvDraftFinalized = ''draft_finalized''"
| "event_kind_as_str EvAcknowledgmentRecorded = ''acknowledgment_recorded''"
| "event_kind_as_str EvAmendmentOpened = ''amendment_opened''"
| "event_kind_as_str EvTaskSignoffRecorded = ''task_signoff_recorded''"
| "event_kind_as_str EvRecordExported = ''record_exported''"
| "event_kind_as_str EvTraineePacketExported = ''trainee_packet_exported''"
| "event_kind_as_str EvInstallationExported = ''installation_exported''"

definition event_kind_parse :: "string \<Rightarrow> event_kind option" where
  "event_kind_parse stored = vocabulary_parse event_kind_all event_kind_as_str stored"

interpretation evk: closed_vocabulary event_kind_all event_kind_as_str event_kind_parse
proof (unfold_locales, goal_cases)
  case (1 v)
  show ?case by (cases v) (simp_all add: event_kind_all_def)
next
  case 2
  show ?case by (simp add: event_kind_all_def)
next
  case (3 stored)
  show ?case by (rule event_kind_parse_def)
qed

section \<open>Audit subject kinds\<close>

datatype subject_kind =
    SkRetentionPolicy
  | SkRecordHold
  | SkProgram
  | SkProgramVersion
  | SkEnrollment
  | SkAssignment
  | SkSession
  | SkRecord

definition subject_kind_all :: "subject_kind list" where
  "subject_kind_all =
    [SkRetentionPolicy, SkRecordHold, SkProgram,
     SkProgramVersion, SkEnrollment, SkAssignment,
     SkSession, SkRecord]"

fun subject_kind_as_str :: "subject_kind \<Rightarrow> string" where
  "subject_kind_as_str SkRetentionPolicy = ''retention_policy''"
| "subject_kind_as_str SkRecordHold = ''record_hold''"
| "subject_kind_as_str SkProgram = ''program''"
| "subject_kind_as_str SkProgramVersion = ''program_version''"
| "subject_kind_as_str SkEnrollment = ''enrollment''"
| "subject_kind_as_str SkAssignment = ''assignment''"
| "subject_kind_as_str SkSession = ''session''"
| "subject_kind_as_str SkRecord = ''record''"

definition subject_kind_parse :: "string \<Rightarrow> subject_kind option" where
  "subject_kind_parse stored = vocabulary_parse subject_kind_all subject_kind_as_str stored"

interpretation sbk: closed_vocabulary subject_kind_all subject_kind_as_str subject_kind_parse
proof (unfold_locales, goal_cases)
  case (1 v)
  show ?case by (cases v) (simp_all add: subject_kind_all_def)
next
  case 2
  show ?case by (simp add: subject_kind_all_def)
next
  case (3 stored)
  show ?case by (rule subject_kind_parse_def)
qed

section \<open>Notice kinds\<close>

datatype notice_kind =
    NkBackupFailed
  | NkBackupCopyFailed
  | NkAssignmentCreated
  | NkDraftOwnershipReceived
  | NkDraftSubmittedForReview
  | NkDraftApproved
  | NkDraftChangesRequested
  | NkDraftReturned
  | NkDraftFinalized
  | NkRecordAwaitsAcknowledgment
  | NkAcknowledgmentResponse
  | NkAcknowledgmentRefused
  | NkAcknowledgmentAttested
  | NkAmendmentOpened

definition notice_kind_all :: "notice_kind list" where
  "notice_kind_all =
    [NkBackupFailed, NkBackupCopyFailed, NkAssignmentCreated,
     NkDraftOwnershipReceived, NkDraftSubmittedForReview, NkDraftApproved,
     NkDraftChangesRequested, NkDraftReturned, NkDraftFinalized,
     NkRecordAwaitsAcknowledgment, NkAcknowledgmentResponse, NkAcknowledgmentRefused,
     NkAcknowledgmentAttested, NkAmendmentOpened]"

fun notice_kind_as_str :: "notice_kind \<Rightarrow> string" where
  "notice_kind_as_str NkBackupFailed = ''backup_failed''"
| "notice_kind_as_str NkBackupCopyFailed = ''backup_copy_failed''"
| "notice_kind_as_str NkAssignmentCreated = ''assignment_created''"
| "notice_kind_as_str NkDraftOwnershipReceived = ''draft_ownership_received''"
| "notice_kind_as_str NkDraftSubmittedForReview = ''draft_submitted_for_review''"
| "notice_kind_as_str NkDraftApproved = ''draft_approved''"
| "notice_kind_as_str NkDraftChangesRequested = ''draft_changes_requested''"
| "notice_kind_as_str NkDraftReturned = ''draft_returned''"
| "notice_kind_as_str NkDraftFinalized = ''draft_finalized''"
| "notice_kind_as_str NkRecordAwaitsAcknowledgment = ''record_awaits_acknowledgment''"
| "notice_kind_as_str NkAcknowledgmentResponse = ''acknowledgment_response''"
| "notice_kind_as_str NkAcknowledgmentRefused = ''acknowledgment_refused''"
| "notice_kind_as_str NkAcknowledgmentAttested = ''acknowledgment_attested''"
| "notice_kind_as_str NkAmendmentOpened = ''amendment_opened''"

definition notice_kind_parse :: "string \<Rightarrow> notice_kind option" where
  "notice_kind_parse stored = vocabulary_parse notice_kind_all notice_kind_as_str stored"

interpretation ntk: closed_vocabulary notice_kind_all notice_kind_as_str notice_kind_parse
proof (unfold_locales, goal_cases)
  case (1 v)
  show ?case by (cases v) (simp_all add: notice_kind_all_def)
next
  case 2
  show ?case by (simp add: notice_kind_all_def)
next
  case (3 stored)
  show ?case by (rule notice_kind_parse_def)
qed

text \<open>A domain row an event acted on (audit.rs, \<open>Subject\<close>), with its stored kind and id.\<close>

datatype subject =
    SubjRetentionPolicy int
  | SubjRecordHold int
  | SubjProgram int
  | SubjProgramVersion int
  | SubjEnrollment int
  | SubjAssignment int
  | SubjSession int
  | SubjRecord int

fun subject_kind_of :: "subject \<Rightarrow> subject_kind" where
  "subject_kind_of (SubjRetentionPolicy _) = SkRetentionPolicy"
| "subject_kind_of (SubjRecordHold _) = SkRecordHold"
| "subject_kind_of (SubjProgram _) = SkProgram"
| "subject_kind_of (SubjProgramVersion _) = SkProgramVersion"
| "subject_kind_of (SubjEnrollment _) = SkEnrollment"
| "subject_kind_of (SubjAssignment _) = SkAssignment"
| "subject_kind_of (SubjSession _) = SkSession"
| "subject_kind_of (SubjRecord _) = SkRecord"

fun subject_id_of :: "subject \<Rightarrow> int" where
  "subject_id_of (SubjRetentionPolicy i) = i"
| "subject_id_of (SubjRecordHold i) = i"
| "subject_id_of (SubjProgram i) = i"
| "subject_id_of (SubjProgramVersion i) = i"
| "subject_id_of (SubjEnrollment i) = i"
| "subject_id_of (SubjAssignment i) = i"
| "subject_id_of (SubjSession i) = i"
| "subject_id_of (SubjRecord i) = i"

section \<open>Enums of the services\<close>

datatype enrollment_status = Active | Withdrawn | Completed

datatype enrollment_event_kind = EkVersionChange | EkWithdraw | EkComplete | EkReinstate

datatype phase_event_kind = PkAdvance | PkReturn | PkRestart | PkPause | PkResume | PkComplete

datatype transition_kind = TkAdvance | TkRemediation | TkSkip | TkRestart

datatype record_type = DailyReport | WeeklySummary | PhaseEvaluation

fun record_type_as_str :: "record_type \<Rightarrow> string" where
  "record_type_as_str DailyReport = ''daily_report''"
| "record_type_as_str WeeklySummary = ''weekly_summary''"
| "record_type_as_str PhaseEvaluation = ''phase_evaluation''"

datatype scale_kind = AnchoredNumeric | PassFail | NarrativeOnly

fun scale_kind_as_str :: "scale_kind \<Rightarrow> string" where
  "scale_kind_as_str AnchoredNumeric = ''anchored_numeric''"
| "scale_kind_as_str PassFail = ''pass_fail''"
| "scale_kind_as_str NarrativeOnly = ''narrative_only''"

datatype session_disposition = SdCompleted | SdInterrupted | SdCancelled

fun session_disposition_as_str :: "session_disposition \<Rightarrow> string" where
  "session_disposition_as_str SdCompleted = ''completed''"
| "session_disposition_as_str SdInterrupted = ''interrupted''"
| "session_disposition_as_str SdCancelled = ''cancelled''"

datatype contributor_kind =
    Created | Contributed | OwnershipTransferred | SubmittedForReview | ReviewDecided

fun contributor_kind_as_str :: "contributor_kind \<Rightarrow> string" where
  "contributor_kind_as_str Created = ''created''"
| "contributor_kind_as_str Contributed = ''contributed''"
| "contributor_kind_as_str OwnershipTransferred = ''ownership_transferred''"
| "contributor_kind_as_str SubmittedForReview = ''submitted_for_review''"
| "contributor_kind_as_str ReviewDecided = ''review_decided''"

datatype review_decision_kind = Approved | ChangesRequested | Returned

fun review_decision_kind_as_str :: "review_decision_kind \<Rightarrow> string" where
  "review_decision_kind_as_str Approved = ''approved''"
| "review_decision_kind_as_str ChangesRequested = ''changes_requested''"
| "review_decision_kind_as_str Returned = ''returned''"

datatype snapshot_reason = Submission | ChangeRequestReturn

datatype trainee_ack_kind = TaAcknowledged | TaAcknowledgedWithResponse | TaRefused

datatype attested_kind = AtSupervisorAttestedRefusal | AtUnavailable

datatype ack_kind =
    Acknowledged
  | AcknowledgedWithResponse
  | AckRefused
  | SupervisorAttestedRefusal
  | Unavailable

text \<open>The kinds store the names of \<open>AckKind\<close>: the trainee's own and the attested ones.\<close>

fun trainee_ack :: "trainee_ack_kind \<Rightarrow> ack_kind" where
  "trainee_ack TaAcknowledged = Acknowledged"
| "trainee_ack TaAcknowledgedWithResponse = AcknowledgedWithResponse"
| "trainee_ack TaRefused = AckRefused"

fun attested_ack :: "attested_kind \<Rightarrow> ack_kind" where
  "attested_ack AtSupervisorAttestedRefusal = SupervisorAttestedRefusal"
| "attested_ack AtUnavailable = Unavailable"

fun spoken_by_trainee :: "ack_kind \<Rightarrow> bool" where
  "spoken_by_trainee Acknowledged = True"
| "spoken_by_trainee AcknowledgedWithResponse = True"
| "spoken_by_trainee AckRefused = True"
| "spoken_by_trainee SupervisorAttestedRefusal = False"
| "spoken_by_trainee Unavailable = False"

lemma spoken_by_trainee_trainee_ack [simp]: "spoken_by_trainee (trainee_ack k)"
  by (cases k) simp_all

lemma spoken_by_trainee_attested_ack [simp]: "\<not> spoken_by_trainee (attested_ack k)"
  by (cases k) simp_all

end
