(* ===== verification/Schema.thy ===== *)
theory Schema
  imports Vocabulary
begin

text \<open>
  The database the services share (crates/consolebook-server/migrations): one record per
  table row, one list per table in insertion order. \<open>INTEGER\<close> columns are \<open>int\<close>, nullable ones
  \<open>option\<close>, a column a migration closes with \<open>CHECK (kind IN \<dots>)\<close> is the enum, a 0/1 column
  \<open>bool\<close>. The tables of program versions form \<open>catalog\<close>: the record services only read them,
  authoring (theory Publishing) writes them, and the migrations refuse that once a version is
  published.
\<close>

section \<open>Rows\<close>

record user_row =
  u_id :: int
  u_username :: string
  u_display_name :: string
  u_password_hash :: string
  u_created_at :: int
  u_employee_id :: string
  u_title :: string

record grant_row =
  g_user_id :: int
  g_capability :: string
  g_granted_at :: int
  g_granted_by :: "int option"

record program_version_row =
  pv_id :: int
  pv_program_id :: int
  pv_version_number :: int
  pv_label :: string
  pv_name :: string
  pv_description :: string
  pv_created_at :: int
  pv_created_by :: "int option"
  pv_published_at :: "int option"
  pv_published_by :: "int option"

record phase_row =
  ph_id :: int
  ph_version_id :: int
  ph_name :: string
  ph_description :: string
  ph_number :: int

record phase_transition_row =
  pt_id :: int
  pt_version_id :: int
  pt_from :: int
  pt_to :: int
  pt_kind :: transition_kind

record competency_row =
  co_id :: int
  co_version_id :: int
  co_category :: string
  co_name :: string
  co_description :: string
  co_sort :: int

record task_row =
  tk_id :: int
  tk_version_id :: int
  tk_competency_id :: int
  tk_prompt :: string
  tk_sort :: int

record rating_scale_row =
  rs_id :: int
  rs_version_id :: int
  rs_name :: string
  rs_kind :: scale_kind
  rs_min :: "int option"
  rs_max :: "int option"

record rating_anchor_row =
  ra_id :: int
  ra_version_id :: int
  ra_scale_id :: int
  ra_value :: int
  ra_label :: string
  ra_definition :: string

record rating_modifier_row =
  rm_id :: int
  rm_version_id :: int
  rm_code :: string
  rm_label :: string
  rm_description :: string

record evaluation_form_row =
  f_id :: int
  f_version_id :: int
  f_record_type :: record_type
  f_name :: string
  f_instructions :: string

record form_competency_row =
  fc_id :: int
  fc_version_id :: int
  fc_form_id :: int
  fc_competency_id :: int
  fc_scale_id :: int
  fc_sort :: int

record form_narrative_row =
  fn_id :: int
  fn_version_id :: int
  fn_form_id :: int
  fn_prompt :: string
  fn_required :: bool
  fn_sort :: int

record policy_row =
  fp_version_id :: int
  fp_review_approved :: bool
  fp_required_narratives :: bool
  fp_ratings_complete :: bool

record enrollment_row =
  e_id :: int
  e_user_id :: int
  e_version_id :: int
  e_enrolled_at :: int
  e_enrolled_by :: "int option"

record enrollment_event_row =
  ee_id :: int
  ee_enrollment_id :: int
  ee_kind :: enrollment_event_kind
  ee_occurred_at :: int
  ee_actor :: "int option"
  ee_reason :: string
  ee_from_version :: "int option"
  ee_to_version :: "int option"

record phase_event_row =
  pe_id :: int
  pe_enrollment_id :: int
  pe_kind :: phase_event_kind
  pe_from_phase :: "int option"
  pe_to_phase :: "int option"
  pe_effective_at :: int
  pe_recorded_at :: int
  pe_actor :: "int option"
  pe_reason :: string
  pe_epoch :: "int option"

record assignment_row =
  ta_id :: int
  ta_enrollment_id :: int
  ta_trainer :: int
  ta_assigned_at :: int
  ta_assigned_by :: "int option"
  ta_ended_at :: "int option"
  ta_ended_by :: "int option"

record training_session_row =
  ts_id :: int
  ts_enrollment_id :: int
  ts_version_id :: int
  ts_business_date :: string
  ts_timezone :: string
  ts_local_start :: string
  ts_local_end :: "string option"
  ts_utc_start :: int
  ts_utc_end :: "int option"
  ts_phase_id :: "int option"
  ts_disposition :: "session_disposition option"
  ts_created_at :: int
  ts_created_by :: "int option"
  ts_closed_at :: "int option"
  ts_closed_by :: "int option"

record session_trainer_row =
  st_id :: int
  st_session_id :: int
  st_trainer :: int
  st_added_at :: int
  st_added_by :: "int option"

record record_row =
  r_id :: int
  r_enrollment_id :: int
  r_version_id :: int
  r_form_id :: int
  r_owner :: int
  r_revision :: int
  r_created_at :: int
  r_created_by :: "int option"

record record_session_row =
  es_id :: int
  es_record_id :: int
  es_session_id :: int

record contributor_event_row =
  ce_id :: int
  ce_record_id :: int
  ce_kind :: contributor_kind
  ce_actor :: int
  ce_to :: "int option"
  ce_recorded_at :: int

record decision_row =
  rd_id :: int
  rd_record_id :: int
  rd_reviewer :: int
  rd_decision :: review_decision_kind
  rd_comment :: string
  rd_decided_at :: int

record snapshot_row =
  ds_id :: int
  ds_record_id :: int
  ds_reason :: snapshot_reason
  ds_content :: string
  ds_taken_at :: int
  ds_taken_by :: "int option"

record draft_rating_row =
  dr_id :: int
  dr_record_id :: int
  dr_version_id :: int
  dr_fc_id :: int
  dr_value :: "int option"
  dr_not_observed :: bool

record draft_modifier_row =
  dm_id :: int
  dm_rating_id :: int
  dm_version_id :: int
  dm_modifier_id :: int

record draft_narrative_row =
  dn_id :: int
  dn_record_id :: int
  dn_version_id :: int
  dn_fn_id :: int
  dn_text :: string

record version_row =
  v_id :: int
  v_record_id :: int
  v_number :: int
  v_schema :: int
  v_bytes :: string
  v_content_hash :: string
  v_chain_hash :: string
  v_predecessor :: "int option"
  v_finalized_at :: int
  v_finalized_by :: int

record amendment_row =
  am_id :: int
  am_record_id :: int
  am_predecessor :: int
  am_reason :: string
  am_opened_by :: int
  am_opened_by_name :: string
  am_opened_at :: int
  am_event_mark :: int
  am_decision_mark :: int

record ack_row =
  ak_id :: int
  ak_version_id :: int
  ak_user_id :: int
  ak_kind :: ack_kind
  ak_response :: string
  ak_recorded_by :: int
  ak_user_name :: string
  ak_recorder_name :: string
  ak_recorded_at :: int

record daily_link_row =
  sl_id :: int
  sl_summary_id :: int
  sl_version_id :: int

record audit_row =
  ae_id :: int
  ae_occurred_at :: int
  ae_kind :: string
  ae_actor :: "int option"
  ae_subject_user :: "int option"
  ae_subject_kind :: "string option"
  ae_subject_id :: "int option"

record notice_row =
  n_id :: int
  n_user_id :: int
  n_kind :: string
  n_message :: string
  n_created_at :: int
  n_read_at :: "int option"

section \<open>Tables\<close>

record catalog =
  program_versions :: "program_version_row list"
  phases :: "phase_row list"
  phase_transitions :: "phase_transition_row list"
  competencies :: "competency_row list"
  tasks :: "task_row list"
  rating_scales :: "rating_scale_row list"
  rating_anchors :: "rating_anchor_row list"
  rating_modifiers :: "rating_modifier_row list"
  evaluation_forms :: "evaluation_form_row list"
  form_competencies :: "form_competency_row list"
  form_narratives :: "form_narrative_row list"
  policies :: "policy_row list"

record db =
  instance_id :: "string option"
  catalog :: catalog
  users :: "user_row list"
  grants :: "grant_row list"
  enrollments :: "enrollment_row list"
  enrollment_events :: "enrollment_event_row list"
  phase_events :: "phase_event_row list"
  assignments :: "assignment_row list"
  training_sessions :: "training_session_row list"
  session_trainers :: "session_trainer_row list"
  records :: "record_row list"
  record_sessions :: "record_session_row list"
  contributor_events :: "contributor_event_row list"
  decisions :: "decision_row list"
  snapshots :: "snapshot_row list"
  draft_ratings :: "draft_rating_row list"
  draft_modifiers :: "draft_modifier_row list"
  draft_narratives :: "draft_narrative_row list"
  versions :: "version_row list"
  amendments :: "amendment_row list"
  acks :: "ack_row list"
  daily_links :: "daily_link_row list"
  audits :: "audit_row list"
  notices :: "notice_row list"

type_synonym 'r service = "('r, db) outcome"

section \<open>Lookups by id\<close>

definition user_of :: "db \<Rightarrow> int \<Rightarrow> user_row option" where
  "user_of d i = find (\<lambda>u. u_id u = i) (users d)"

definition version_of :: "db \<Rightarrow> int \<Rightarrow> program_version_row option" where
  "version_of d i = find (\<lambda>v. pv_id v = i) (program_versions (catalog d))"

definition phase_of :: "db \<Rightarrow> int \<Rightarrow> phase_row option" where
  "phase_of d i = find (\<lambda>p. ph_id p = i) (phases (catalog d))"

definition form_of :: "db \<Rightarrow> int \<Rightarrow> evaluation_form_row option" where
  "form_of d i = find (\<lambda>f. f_id f = i) (evaluation_forms (catalog d))"

definition enrollment_of :: "db \<Rightarrow> int \<Rightarrow> enrollment_row option" where
  "enrollment_of d i = find (\<lambda>e. e_id e = i) (enrollments d)"

definition session_of :: "db \<Rightarrow> int \<Rightarrow> training_session_row option" where
  "session_of d i = find (\<lambda>s. ts_id s = i) (training_sessions d)"

definition record_of :: "db \<Rightarrow> int \<Rightarrow> record_row option" where
  "record_of d i = find (\<lambda>r. r_id r = i) (records d)"

definition sealed_version_of :: "db \<Rightarrow> int \<Rightarrow> version_row option" where
  "sealed_version_of d i = find (\<lambda>v. v_id v = i) (versions d)"

lemmas lookup_defs =
  user_of_def version_of_def phase_of_def form_of_def enrollment_of_def session_of_def
  record_of_def sealed_version_of_def

text \<open>A nullable column that references a user.\<close>

definition opt_user_ok :: "db \<Rightarrow> int option \<Rightarrow> bool" where
  "opt_user_ok d u = (case u of None \<Rightarrow> True | Some i \<Rightarrow> user_of d i \<noteq> None)"

lemma opt_user_ok_simps [simp]:
  "opt_user_ok d None"
  "opt_user_ok d (Some i) \<longleftrightarrow> user_of d i \<noteq> None"
  by (simp_all add: opt_user_ok_def)

end
