(* ===== verification/Capabilities.thy ===== *)
theory Capabilities
  imports Schema
begin

text \<open>
  Capability grants (capabilities.rs, migration 0002): what a user may do is the set of their
  grant rows, never a role name. Bundles are applied once, when the grants are created.
\<close>

definition administrator_bundle :: "capability list" where
  "administrator_bundle = [ManageUsers, ManagePrograms, AssignTraining, ExportRecords]"

definition trainer_bundle :: "capability list" where
  "trainer_bundle = [AuthorEvaluation, ViewAssignedRecords]"

definition coordinator_bundle :: "capability list" where
  "coordinator_bundle = [AssignTraining, ReviewEvaluation, ViewAssignedRecords]"

definition trainee_bundle :: "capability list" where
  "trainee_bundle = [ViewOwnRecords, AcknowledgeOwnRecord]"

datatype role_bundle = RbAdministrator | RbCoordinator | RbTrainer | RbTrainee

fun role_capabilities :: "role_bundle \<Rightarrow> capability list" where
  "role_capabilities RbAdministrator = administrator_bundle"
| "role_capabilities RbCoordinator = coordinator_bundle"
| "role_capabilities RbTrainer = trainer_bundle"
| "role_capabilities RbTrainee = trainee_bundle"

definition held :: "db \<Rightarrow> int \<Rightarrow> string \<Rightarrow> bool" where
  "held d user_id capability \<longleftrightarrow>
     list_ex (\<lambda>g. g_user_id g = user_id \<and> g_capability g = capability) (grants d)"

text \<open>\<open>user_has\<close> and \<open>user_has_on\<close>: one query, on the pool or on a transaction.\<close>

definition user_has :: "db \<Rightarrow> int \<Rightarrow> capability \<Rightarrow> bool" where
  "user_has d user_id capability \<longleftrightarrow> held d user_id (capability_as_str capability)"

text \<open>The table's constraints: the primary key, then the foreign keys.\<close>

definition insert_grant :: "grant_row \<Rightarrow> db \<Rightarrow> db_error + db" where
  "insert_grant g d =
     demand (\<not> held d (g_user_id g) (g_capability g)) UniqueIndex
      (demand (user_of d (g_user_id g) \<noteq> None \<and> opt_user_ok d (g_granted_by g)) ForeignKey
        (Inr (d\<lparr>grants := grants d @ [g]\<rparr>)))"

fun grant_bundle :: "int \<Rightarrow> capability list \<Rightarrow> int option \<Rightarrow> int \<Rightarrow> db \<Rightarrow> db_error + db" where
  "grant_bundle user_id [] granted_by now d = Inr d"
| "grant_bundle user_id (c # bundle) granted_by now d =
     seq (insert_grant
            \<lparr>g_user_id = user_id, g_capability = capability_as_str c,
             g_granted_at = now, g_granted_by = granted_by\<rparr> d)
       (grant_bundle user_id bundle granted_by now)"

text \<open>\<open>ON CONFLICT (user_id, capability) DO NOTHING\<close>, as enrollment grants the trainee bundle.\<close>

fun grant_missing :: "int \<Rightarrow> capability list \<Rightarrow> int option \<Rightarrow> int \<Rightarrow> db \<Rightarrow> db_error + db" where
  "grant_missing user_id [] granted_by now d = Inr d"
| "grant_missing user_id (c # bundle) granted_by now d =
     seq (if user_has d user_id c then Inr d
          else insert_grant
            \<lparr>g_user_id = user_id, g_capability = capability_as_str c,
             g_granted_at = now, g_granted_by = granted_by\<rparr> d)
       (grant_missing user_id bundle granted_by now)"

text \<open>\<open>list_for_user\<close>: for session introspection, in the order of the names.\<close>

definition list_capabilities :: "db \<Rightarrow> int \<Rightarrow> string list" where
  "list_capabilities d user_id =
     sort (map g_capability (filter (\<lambda>g. g_user_id g = user_id) (grants d)))"

text \<open>\<open>SELECT user_id FROM capability_grant WHERE capability = ?\<close>, as notices use it.\<close>

definition holders :: "db \<Rightarrow> capability \<Rightarrow> int list" where
  "holders d c = map g_user_id (filter (\<lambda>g. g_capability g = capability_as_str c) (grants d))"

section \<open>What the grants guarantee\<close>

text \<open>The primary key, and the foreign keys of the table.\<close>

definition grants_ok :: "db \<Rightarrow> bool" where
  "grants_ok d \<longleftrightarrow>
     distinct (map (\<lambda>g. (g_user_id g, g_capability g)) (grants d)) \<and>
     (\<forall>g \<in> set (grants d). user_of d (g_user_id g) \<noteq> None)"

lemma held_iff: "held d u c \<longleftrightarrow> (\<exists>g \<in> set (grants d). g_user_id g = u \<and> g_capability g = c)"
  by (simp add: held_def list_ex_iff)

lemma user_has_holder: "user_has d u c \<longleftrightarrow> u \<in> set (holders d c)"
  by (auto simp: user_has_def held_iff holders_def)

lemma user_has_exists: "grants_ok d \<Longrightarrow> user_has d u c \<Longrightarrow> user_of d u \<noteq> None"
  by (auto simp: grants_ok_def user_has_def held_iff)

lemma user_of_grants [simp]: "user_of (d\<lparr>grants := gs\<rparr>) = user_of d"
  by (simp add: user_of_def fun_eq_iff)

lemma insert_grant_Inr [row_simps]:
  "insert_grant g d = Inr d' \<longleftrightarrow>
     \<not> held d (g_user_id g) (g_capability g) \<and> user_of d (g_user_id g) \<noteq> None \<and>
     opt_user_ok d (g_granted_by g) \<and> d' = d\<lparr>grants := grants d @ [g]\<rparr>"
  by (auto simp: insert_grant_def demand_def)

lemma insert_grant_ok: "grants_ok d \<Longrightarrow> insert_grant g d = Inr d' \<Longrightarrow> grants_ok d'"
  by (auto simp: row_simps grants_ok_def held_iff)

text \<open>
  Granting a bundle the user holds nothing of succeeds, and afterwards they hold exactly what
  they held and the bundle; granting the missing part of one always succeeds.
\<close>

lemma user_has_insert:
  "user_has (d\<lparr>grants := grants d @ [\<lparr>g_user_id = u, g_capability = capability_as_str c,
      g_granted_at = t, g_granted_by = b\<rparr>]\<rparr>) w k \<longleftrightarrow> user_has d w k \<or> w = u \<and> k = c"
  by (auto simp: user_has_def held_iff cap.as_str_inject)

lemma grant_missing_effect:
  assumes "grants_ok d" and "user_of d u \<noteq> None" and "opt_user_ok d b"
  shows "\<exists>gs. grant_missing u cs b now d = Inr (d\<lparr>grants := grants d @ gs\<rparr>) \<and>
    grants_ok (d\<lparr>grants := grants d @ gs\<rparr>) \<and>
    (\<forall>w k. user_has (d\<lparr>grants := grants d @ gs\<rparr>) w k \<longleftrightarrow> user_has d w k \<or> w = u \<and> k \<in> set cs)"
  using assms
proof (induction cs arbitrary: d)
  case Nil
  then show ?case by (auto intro!: exI [of _ "[]"])
next
  case (Cons c cs)
  let ?g = "\<lparr>g_user_id = u, g_capability = capability_as_str c, g_granted_at = now, g_granted_by = b\<rparr>"
  show ?case
  proof (cases "user_has d u c")
    case True
    with Cons show ?thesis by fastforce
  next
    case False
    let ?d = "d\<lparr>grants := grants d @ [?g]\<rparr>"
    have ins: "insert_grant ?g d = Inr ?d"
      using False Cons.prems by (simp add: row_simps user_has_def)
    then have "grants_ok ?d"
      using Cons.prems(1) insert_grant_ok by blast
    moreover have "opt_user_ok ?d b"
      using Cons.prems(3) by (cases b) simp_all
    ultimately obtain gs where
      "grant_missing u cs b now ?d = Inr (?d\<lparr>grants := grants ?d @ gs\<rparr>)"
      "grants_ok (?d\<lparr>grants := grants ?d @ gs\<rparr>)"
      "\<forall>w k. user_has (?d\<lparr>grants := grants ?d @ gs\<rparr>) w k \<longleftrightarrow> user_has ?d w k \<or> w = u \<and> k \<in> set cs"
      using Cons.IH [of ?d] Cons.prems(2) by auto
    with ins False show ?thesis
      by (intro exI [of _ "?g # gs"]) (auto simp: user_has_insert)
  qed
qed

lemma grant_bundle_eq_missing:
  "(\<forall>c \<in> set cs. \<not> user_has d u c) \<Longrightarrow> distinct cs \<Longrightarrow>
    grant_bundle u cs b now d = grant_missing u cs b now d"
proof (induction cs arbitrary: d)
  case (Cons c cs)
  have "grant_bundle u cs b now d' = grant_missing u cs b now d'"
    if "insert_grant \<lparr>g_user_id = u, g_capability = capability_as_str c,
          g_granted_at = now, g_granted_by = b\<rparr> d = Inr d'" for d'
    using that Cons by (intro Cons.IH) (auto simp: row_simps user_has_insert)
  with Cons.prems show ?case
    by (auto simp: seq_def split: sum.splits)
qed simp

lemma bundles_distinct: "distinct (role_capabilities r)"
  by (cases r) (simp_all add: administrator_bundle_def trainer_bundle_def
      coordinator_bundle_def trainee_bundle_def)

end
