(* ===== verification/Journal.thy ===== *)
theory Journal
  imports Capabilities
begin

text \<open>
  Audit events (audit.rs) and in-app notices (notices.rs). Both ride the transaction of the
  action they describe, so a rolled-back action leaves none behind; audit rows have no
  foreign key to their subject.
\<close>

section \<open>Audit\<close>

definition insert_audit :: "audit_row \<Rightarrow> db \<Rightarrow> db_error + db" where
  "insert_audit a d =
     demand (opt_user_ok d (ae_actor a) \<and> opt_user_ok d (ae_subject_user a)) ForeignKey
      (Inr (d\<lparr>audits := audits d @ [a]\<rparr>))"

definition record_audit ::
    "event_kind \<Rightarrow> int option \<Rightarrow> int option \<Rightarrow> int \<Rightarrow> db \<Rightarrow> db_error + db" where
  "record_audit kind actor subject_user now d =
     insert_audit
       \<lparr>ae_id = next_id (map ae_id (audits d)), ae_occurred_at = now,
        ae_kind = event_kind_as_str kind, ae_actor = actor, ae_subject_user = subject_user,
        ae_subject_kind = None, ae_subject_id = None\<rparr> d"

definition record_for_subject ::
    "event_kind \<Rightarrow> int option \<Rightarrow> int option \<Rightarrow> subject \<Rightarrow> int \<Rightarrow> db \<Rightarrow> db_error + db" where
  "record_for_subject kind actor subject_user subject now d =
     insert_audit
       \<lparr>ae_id = next_id (map ae_id (audits d)), ae_occurred_at = now,
        ae_kind = event_kind_as_str kind, ae_actor = actor, ae_subject_user = subject_user,
        ae_subject_kind = Some (subject_kind_as_str (subject_kind_of subject)),
        ae_subject_id = Some (subject_id_of subject)\<rparr> d"

section \<open>Notices\<close>

definition insert_notice :: "int \<Rightarrow> notice_kind \<Rightarrow> string \<Rightarrow> int \<Rightarrow> db \<Rightarrow> db_error + db" where
  "insert_notice user_id kind message now d =
     demand (user_of d user_id \<noteq> None) ForeignKey
      (Inr (d\<lparr>notices := notices d @
         [\<lparr>n_id = next_id (map n_id (notices d)), n_user_id = user_id,
           n_kind = notice_kind_as_str kind, n_message = message,
           n_created_at = now, n_read_at = None\<rparr>]\<rparr>))"

definition notify_user :: "int \<Rightarrow> notice_kind \<Rightarrow> string \<Rightarrow> int \<Rightarrow> db \<Rightarrow> db_error + db" where
  "notify_user user_id kind message now d = insert_notice user_id kind message now d"

text \<open>
  A loop of \<open>notify_user\<close> calls, each with its own clock reading, and one
  \<open>INSERT \<dots> SELECT\<close> with one reading.
\<close>

fun notify_each ::
    "int list \<Rightarrow> notice_kind \<Rightarrow> string \<Rightarrow> clock \<Rightarrow> nat \<Rightarrow> db \<Rightarrow> db_error + db" where
  "notify_each [] kind message clk n d = Inr d"
| "notify_each (u # us) kind message clk n d =
     seq (notify_user u kind message (clk n) d) (notify_each us kind message clk (Suc n))"

definition unread_of_kind :: "db \<Rightarrow> int \<Rightarrow> notice_kind \<Rightarrow> bool" where
  "unread_of_kind d u kind \<longleftrightarrow>
     list_ex (\<lambda>n. n_user_id n = u \<and> n_kind n = notice_kind_as_str kind \<and> n_read_at n = None)
       (notices d)"

text \<open>
  \<open>notify_capability_holders\<close>: the recipients are selected before any row is inserted
  (SQLite materialises a \<open>SELECT\<close> that reads the table it feeds); the result is how many.
\<close>

definition notify_capability_holders ::
    "capability \<Rightarrow> notice_kind \<Rightarrow> string \<Rightarrow> int \<Rightarrow> db \<Rightarrow> db_error + (db \<times> nat)" where
  "notify_capability_holders c kind message now d =
     (let us = filter (\<lambda>u. \<not> unread_of_kind d u kind) (holders d c) in
      seq (notify_each us kind message (\<lambda>_. now) 0 d) (\<lambda>d'. Inr (d', length us)))"

definition list_notices :: "db \<Rightarrow> int \<Rightarrow> notice_row list" where
  "list_notices d user_id =
     take 100 (sort_key (\<lambda>n. (n_read_at n \<noteq> None, - n_created_at n, - n_id n))
       (filter (\<lambda>n. n_user_id n = user_id) (notices d)))"

definition unread_count :: "db \<Rightarrow> int \<Rightarrow> nat" where
  "unread_count d user_id =
     length (filter (\<lambda>n. n_user_id n = user_id \<and> n_read_at n = None) (notices d))"

definition mark_read :: "int \<Rightarrow> int \<Rightarrow> int \<Rightarrow> db \<Rightarrow> db \<times> bool" where
  "mark_read user_id notice_id now d =
     (let hit = (\<lambda>n. n_id n = notice_id \<and> n_user_id n = user_id \<and> n_read_at n = None) in
      (d\<lparr>notices := map (\<lambda>n. if hit n then n\<lparr>n_read_at := Some now\<rparr> else n) (notices d)\<rparr>,
       length (filter hit (notices d)) = 1))"

section \<open>Frames\<close>

text \<open>
  What a service adds to the journal never matters to what it did: every journal operation
  returns the database with only its own table extended.
\<close>

definition journaled :: "db \<Rightarrow> db \<Rightarrow> bool" where
  "journaled d d' \<longleftrightarrow> (\<exists>as ns. d' = d\<lparr>audits := audits d @ as, notices := notices d @ ns\<rparr>)"

lemma journaledI: "journaled d (d\<lparr>audits := audits d @ as, notices := notices d @ ns\<rparr>)"
  unfolding journaled_def by blast

lemma journaled_refl [simp, intro]: "journaled d d"
  using journaledI [where d = d and as = "[]" and ns = "[]"] by simp

lemma journaled_audits: "journaled d (d\<lparr>audits := audits d @ as\<rparr>)"
  using journaledI [where d = d and as = as and ns = "[]"] by simp

lemma journaled_notices: "journaled d (d\<lparr>notices := notices d @ ns\<rparr>)"
  using journaledI [where d = d and as = "[]" and ns = ns] by simp

lemma journaled_trans [trans]:
  assumes "journaled d d'" and "journaled d' d''" shows "journaled d d''"
proof -
  obtain as ns as' ns' where "d' = d\<lparr>audits := audits d @ as, notices := notices d @ ns\<rparr>"
    "d'' = d'\<lparr>audits := audits d' @ as', notices := notices d' @ ns'\<rparr>"
    using assms by (auto simp: journaled_def)
  then show ?thesis
    using journaledI [where d = d and as = "as @ as'" and ns = "ns @ ns'"] by simp
qed

lemma journaled_audit: "insert_audit a d = Inr d' \<Longrightarrow> journaled d d'"
  by (auto simp: insert_audit_def guard_simps journaled_audits)

lemma journaled_record: "record_audit k a s t d = Inr d' \<Longrightarrow> journaled d d'"
  by (auto simp: record_audit_def intro: journaled_audit)

lemma journaled_record_for_subject: "record_for_subject k a s sub t d = Inr d' \<Longrightarrow> journaled d d'"
  by (auto simp: record_for_subject_def intro: journaled_audit)

lemma journaled_notify: "notify_user u k m t d = Inr d' \<Longrightarrow> journaled d d'"
  by (auto simp: notify_user_def insert_notice_def guard_simps journaled_notices)

lemma journaled_notify_each: "notify_each us k m clk n d = Inr d' \<Longrightarrow> journaled d d'"
  by (induction us arbitrary: d n) (auto simp: guard_simps dest: journaled_notify intro: journaled_trans)

lemmas journal_frames =
  journaled_record journaled_record_for_subject journaled_notify journaled_notify_each

text \<open>Every other table is the one before.\<close>

lemma journaled_tables:
  assumes "journaled d d'"
  shows "users d' = users d" "grants d' = grants d" "catalog d' = catalog d"
    "enrollments d' = enrollments d" "enrollment_events d' = enrollment_events d"
    "phase_events d' = phase_events d" "assignments d' = assignments d"
    "training_sessions d' = training_sessions d" "session_trainers d' = session_trainers d"
    "records d' = records d" "record_sessions d' = record_sessions d"
    "contributor_events d' = contributor_events d" "decisions d' = decisions d"
    "snapshots d' = snapshots d" "draft_ratings d' = draft_ratings d"
    "draft_modifiers d' = draft_modifiers d" "draft_narratives d' = draft_narratives d"
    "versions d' = versions d" "amendments d' = amendments d" "acks d' = acks d"
    "daily_links d' = daily_links d" "instance_id d' = instance_id d"
  using assms by (auto simp: journaled_def)

lemma user_of_journal [simp]:
  "user_of (d\<lparr>audits := as\<rparr>) = user_of d" "user_of (d\<lparr>notices := ns\<rparr>) = user_of d"
  by (simp_all add: user_of_def fun_eq_iff)

lemma journaled_user_of: "journaled d d' \<Longrightarrow> user_of d' = user_of d"
  by (simp add: user_of_def fun_eq_iff journaled_tables)

text \<open>And they succeed for users that exist.\<close>

lemma insert_audit_total:
  "opt_user_ok d (ae_actor a) \<Longrightarrow> opt_user_ok d (ae_subject_user a) \<Longrightarrow>
    \<exists>d'. insert_audit a d = Inr d'"
  by (simp add: insert_audit_def)

lemma record_for_subject_total:
  "opt_user_ok d a \<Longrightarrow> opt_user_ok d s \<Longrightarrow> \<exists>d'. record_for_subject k a s sub t d = Inr d'"
  unfolding record_for_subject_def by (rule insert_audit_total) simp_all

lemma notify_user_total: "user_of d u \<noteq> None \<Longrightarrow> \<exists>d'. notify_user u k m t d = Inr d'"
  by (simp add: notify_user_def insert_notice_def)

lemma notify_each_total:
  "(\<forall>u \<in> set us. user_of d u \<noteq> None) \<Longrightarrow> \<exists>d'. notify_each us k m clk n d = Inr d'"
proof (induction us arbitrary: d n)
  case (Cons u us)
  then obtain d1 where d1: "notify_user u k m (clk n) d = Inr d1"
    using notify_user_total by (metis list.set_intros(1))
  then have "\<forall>v \<in> set us. user_of d1 v \<noteq> None"
    using Cons.prems journaled_user_of [OF journaled_notify [OF d1]] by simp
  from Cons.IH [OF this] d1 show ?case by simp
qed simp

end
