(* ===== verification/Lifecycle.thy ===== *)
theory Lifecycle
  imports Journal
begin

text \<open>
  Enrollment lifecycle and phase history (lifecycle.rs, migrations 0005, 0006 and 0014): two
  append-only event streams, the state derived from them (status, current phase, paused), and
  the two operations that append. Every operation takes \<open>pre\<close>, the database its first checks
  read on the pool, and \<open>d\<close>, the committed database its write transaction works on; they
  differ when another writer committed in between.
\<close>

section \<open>Data\<close>

datatype lifecycle_refusal =
    LrCapabilityRequired
  | LrNoSuchEnrollment
  | LrNotActive
  | LrAlreadyActive
  | LrReasonRequired
  | LrNoSuchVersion
  | LrNotPublished
  | LrSameVersion
  | LrDifferentProgram
  | LrTargetAlreadyEnrolled
  | LrNoSuchPhase
  | LrTransitionNotAllowed
  | LrNoCurrentPhase
  | LrAlreadyPaused
  | LrNotPaused
  | LrPaused
  | LrOutOfOrder
  | LrEffectiveInFuture

record enrollment_event_view =
  ev_id :: int
  ev_kind :: enrollment_event_kind
  ev_occurred_at :: int
  ev_actor :: "int option"
  ev_actor_name :: "string option"
  ev_reason :: string
  ev_from_version :: "int option"
  ev_from_number :: "int option"
  ev_from_label :: "string option"
  ev_to_version :: "int option"
  ev_to_number :: "int option"
  ev_to_label :: "string option"

record phase_event_view =
  pw_id :: int
  pw_kind :: phase_event_kind
  pw_from_phase :: "int option"
  pw_from_name :: "string option"
  pw_to_phase :: "int option"
  pw_to_name :: "string option"
  pw_effective_at :: int
  pw_recorded_at :: int
  pw_actor :: "int option"
  pw_actor_name :: "string option"
  pw_reason :: string
  pw_epoch :: "int option"
  pw_version_number :: int
  pw_version_label :: string

section \<open>Derived state\<close>

definition is_assigned :: "db \<Rightarrow> int \<Rightarrow> int \<Rightarrow> bool" where
  "is_assigned d user_id enrollment_id \<longleftrightarrow>
     list_ex (\<lambda>a. ta_enrollment_id a = enrollment_id \<and> ta_trainer a = user_id
                \<and> ta_ended_at a = None) (assignments d)"

definition status_kind :: "enrollment_event_kind \<Rightarrow> bool" where
  "status_kind k \<longleftrightarrow> k = EkWithdraw \<or> k = EkComplete \<or> k = EkReinstate"

definition status_events :: "db \<Rightarrow> int \<Rightarrow> enrollment_event_row list" where
  "status_events d i =
     filter (\<lambda>e. ee_enrollment_id e = i \<and> status_kind (ee_kind e)) (enrollment_events d)"

definition status_of_latest :: "enrollment_event_row option \<Rightarrow> enrollment_status" where
  "status_of_latest latest =
     (case map_option ee_kind latest of
        Some EkWithdraw \<Rightarrow> Withdrawn
      | Some EkComplete \<Rightarrow> Completed
      | _ \<Rightarrow> Active)"

definition status :: "db \<Rightarrow> int \<Rightarrow> enrollment_status option" where
  "status d enrollment_id =
     (case enrollment_of d enrollment_id of
        None \<Rightarrow> None
      | Some _ \<Rightarrow> Some (status_of_latest (latest_by ee_id (status_events d enrollment_id))))"

text \<open>\<open>SELECT MAX(id) \<dots> kind = 'version_change'\<close>: the pin epoch, \<open>NULL\<close> under the first pin.\<close>

definition version_changes :: "db \<Rightarrow> int \<Rightarrow> enrollment_event_row list" where
  "version_changes d i =
     filter (\<lambda>e. ee_enrollment_id e = i \<and> ee_kind e = EkVersionChange) (enrollment_events d)"

definition epoch :: "db \<Rightarrow> int \<Rightarrow> int option" where
  "epoch d i = max_id (map ee_id (version_changes d i))"

definition moving :: "phase_event_kind \<Rightarrow> bool" where
  "moving k \<longleftrightarrow> k = PkAdvance \<or> k = PkReturn \<or> k = PkRestart"

definition effective_order :: "phase_event_row \<Rightarrow> int \<times> int" where
  "effective_order p = (pe_effective_at p, pe_id p)"

definition joined_phase :: "db \<Rightarrow> int option \<Rightarrow> phase_row option" where
  "joined_phase d i = (case i of None \<Rightarrow> None | Some p \<Rightarrow> phase_of d p)"

definition current_phase :: "db \<Rightarrow> int \<Rightarrow> (int \<times> string) option" where
  "current_phase d i =
     (case latest_by effective_order
        (filter (\<lambda>p. pe_enrollment_id p = i \<and> moving (pe_kind p) \<and> pe_epoch p = epoch d i
                   \<and> joined_phase d (pe_to_phase p) \<noteq> None) (phase_events d)) of
        None \<Rightarrow> None
      | Some p \<Rightarrow> map_option (\<lambda>ph. (ph_id ph, ph_name ph)) (joined_phase d (pe_to_phase p)))"

definition is_paused :: "db \<Rightarrow> int \<Rightarrow> bool" where
  "is_paused d i \<longleftrightarrow>
     map_option pe_kind (latest_by effective_order
       (filter (\<lambda>p. pe_enrollment_id p = i \<and> (pe_kind p = PkPause \<or> pe_kind p = PkResume)
                  \<and> pe_epoch p = epoch d i) (phase_events d))) = Some PkPause"

section \<open>The tables' constraints\<close>

text \<open>SQL's \<open>!=\<close> is not true when a side is \<open>NULL\<close>; \<open>IS NOT\<close> is inequality of options.\<close>

definition sql_neq :: "'a option \<Rightarrow> 'a option \<Rightarrow> bool" where
  "sql_neq a b \<longleftrightarrow> a \<noteq> None \<and> b \<noteq> None \<and> a \<noteq> b"

definition published :: "db \<Rightarrow> int \<Rightarrow> bool" where
  "published d v \<longleftrightarrow> (case version_of d v of None \<Rightarrow> False | Some p \<Rightarrow> pv_published_at p \<noteq> None)"

definition opt_version_ok :: "db \<Rightarrow> int option \<Rightarrow> bool" where
  "opt_version_ok d v = (case v of None \<Rightarrow> True | Some i \<Rightarrow> version_of d i \<noteq> None)"

definition insert_enrollment_event :: "enrollment_event_row \<Rightarrow> db \<Rightarrow> db_error + db" where
  "insert_enrollment_event e d =
     demand (ee_kind e = EkVersionChange \<longrightarrow>
              (case ee_to_version e of None \<Rightarrow> False | Some v \<Rightarrow> published d v))
       (Raised ''enrollment_event_requires_published_version'')
    (demand ((ee_kind e = EkVersionChange) = (ee_from_version e \<noteq> None \<and> ee_to_version e \<noteq> None)
             \<and> (ee_kind e \<noteq> EkVersionChange \<longrightarrow> ee_from_version e = None \<and> ee_to_version e = None))
       (Raised ''enrollment_event_version_reference_shape'')
    (demand ((ee_from_version e = None \<or> ee_from_version e \<noteq> ee_to_version e)
             \<and> (ee_kind e = EkVersionChange \<longrightarrow> 0 < sql_length (ee_reason e)))
       CheckConstraint
    (demand (enrollment_of d (ee_enrollment_id e) \<noteq> None \<and> opt_user_ok d (ee_actor e)
             \<and> opt_version_ok d (ee_from_version e) \<and> opt_version_ok d (ee_to_version e))
       ForeignKey
    (Inr (d\<lparr>enrollment_events := enrollment_events d @ [e]\<rparr>)))))"

text \<open>\<open>UPDATE enrollment SET program_version_id\<close>, with the triggers of migration 0006.\<close>

definition repoint :: "int \<Rightarrow> int \<Rightarrow> db \<Rightarrow> db_error + db" where
  "repoint enrollment_id to d =
     (case enrollment_of d enrollment_id of
        None \<Rightarrow> Inr d
      | Some e \<Rightarrow>
          demand (e_version_id e \<noteq> to \<longrightarrow>
              (case latest_by ee_id (filter (\<lambda>v. ee_enrollment_id v = enrollment_id) (enrollment_events d)) of
                 None \<Rightarrow> False
               | Some v \<Rightarrow> ee_kind v = EkVersionChange
                   \<and> ee_from_version v = Some (e_version_id e) \<and> ee_to_version v = Some to))
            (Raised ''enrollment_version_change_requires_event'')
         (demand (e_version_id e \<noteq> to \<longrightarrow> published d to)
            (Raised ''enrollment_update_requires_published_version'')
         (demand (\<not> list_ex (\<lambda>o'. e_id o' \<noteq> enrollment_id \<and> e_user_id o' = e_user_id e
                              \<and> e_version_id o' = to) (enrollments d)) UniqueIndex
         (demand (version_of d to \<noteq> None) ForeignKey
         (Inr (d\<lparr>enrollments := map (\<lambda>r. if e_id r = enrollment_id
                                      then r\<lparr>e_version_id := to\<rparr> else r) (enrollments d)\<rparr>))))))"

definition phase_event_shape :: "phase_event_row \<Rightarrow> bool" where
  "phase_event_shape p =
     (case pe_kind p of
        PkAdvance \<Rightarrow> pe_to_phase p \<noteq> None
      | PkReturn \<Rightarrow> pe_from_phase p \<noteq> None \<and> pe_to_phase p \<noteq> None
      | PkRestart \<Rightarrow> pe_from_phase p \<noteq> None \<and> pe_to_phase p \<noteq> None
      | _ \<Rightarrow> pe_from_phase p \<noteq> None \<and> pe_to_phase p = None)"

definition phase_version :: "db \<Rightarrow> int option \<Rightarrow> int option" where
  "phase_version d i = map_option ph_version_id (joined_phase d i)"

definition insert_phase_event :: "phase_event_row \<Rightarrow> db \<Rightarrow> db_error + db" where
  "insert_phase_event p d =
     demand (pe_epoch p = epoch d (pe_enrollment_id p)) (Raised ''phase_event_stamps_current_epoch'')
    (demand (let pin = map_option e_version_id (enrollment_of d (pe_enrollment_id p)) in
             \<not> sql_neq (phase_version d (pe_from_phase p)) pin
             \<and> \<not> sql_neq (phase_version d (pe_to_phase p)) pin)
       (Raised ''phase_event_pins_enrollment_version'')
    (demand (pe_effective_at p \<le> pe_recorded_at p \<and> phase_event_shape p) CheckConstraint
    (demand (enrollment_of d (pe_enrollment_id p) \<noteq> None \<and> opt_user_ok d (pe_actor p)
             \<and> (pe_from_phase p \<noteq> None \<longrightarrow> joined_phase d (pe_from_phase p) \<noteq> None)
             \<and> (pe_to_phase p \<noteq> None \<longrightarrow> joined_phase d (pe_to_phase p) \<noteq> None)
             \<and> (pe_epoch p \<noteq> None \<longrightarrow> pe_epoch p \<in> Some ` ee_id ` set (enrollment_events d)))
       ForeignKey
    (Inr (d\<lparr>phase_events := phase_events d @ [p]\<rparr>)))))"

section \<open>Enrollment events\<close>

definition version_change_refusal ::
    "db \<Rightarrow> int \<Rightarrow> int \<Rightarrow> int \<Rightarrow> int \<Rightarrow> db_error + lifecycle_refusal option" where
  "version_change_refusal d enrollment_id trainee from to =
     (if to = from then Inr (Some LrSameVersion)
      else case version_of d to of
        None \<Rightarrow> Inr (Some LrNoSuchVersion)
      | Some target \<Rightarrow>
          if pv_published_at target = None then Inr (Some LrNotPublished)
          else case version_of d from of
            None \<Rightarrow> Inl RowNotFound
          | Some current \<Rightarrow>
              if pv_program_id target \<noteq> pv_program_id current then Inr (Some LrDifferentProgram)
              else if list_ex (\<lambda>e. e_user_id e = trainee \<and> e_version_id e = to \<and> e_id e \<noteq> enrollment_id)
                        (enrollments d)
              then Inr (Some LrTargetAlreadyEnrolled)
              else Inr None)"

text \<open>The rows the two operations insert, from the database they read.\<close>

definition new_enrollment_event ::
    "db \<Rightarrow> int \<Rightarrow> int \<Rightarrow> int \<Rightarrow> enrollment_event_kind \<Rightarrow> string \<Rightarrow> int option \<Rightarrow> int option
      \<Rightarrow> enrollment_event_row" where
  "new_enrollment_event d now actor enrollment_id kind reason from_version to_version =
     \<lparr>ee_id = next_id (map ee_id (enrollment_events d)), ee_enrollment_id = enrollment_id,
      ee_kind = kind, ee_occurred_at = now, ee_actor = Some actor, ee_reason = reason,
      ee_from_version = from_version, ee_to_version = to_version\<rparr>"

definition new_phase_event ::
    "db \<Rightarrow> int \<Rightarrow> int \<Rightarrow> int \<Rightarrow> phase_event_kind \<Rightarrow> int option \<Rightarrow> int option \<Rightarrow> int \<Rightarrow> string
      \<Rightarrow> phase_event_row" where
  "new_phase_event d now actor enrollment_id kind from_phase to_phase effective reason =
     \<lparr>pe_id = next_id (map pe_id (phase_events d)), pe_enrollment_id = enrollment_id,
      pe_kind = kind, pe_from_phase = from_phase, pe_to_phase = to_phase,
      pe_effective_at = effective, pe_recorded_at = now, pe_actor = Some actor,
      pe_reason = reason, pe_epoch = epoch d enrollment_id\<rparr>"

lemma new_enrollment_event_fields [simp]:
  "ee_id (new_enrollment_event d now a i k r f t) = next_id (map ee_id (enrollment_events d))"
  "ee_enrollment_id (new_enrollment_event d now a i k r f t) = i"
  "ee_kind (new_enrollment_event d now a i k r f t) = k"
  "ee_occurred_at (new_enrollment_event d now a i k r f t) = now"
  "ee_actor (new_enrollment_event d now a i k r f t) = Some a"
  "ee_reason (new_enrollment_event d now a i k r f t) = r"
  "ee_from_version (new_enrollment_event d now a i k r f t) = f"
  "ee_to_version (new_enrollment_event d now a i k r f t) = t"
  by (simp_all add: new_enrollment_event_def)

lemma new_phase_event_fields [simp]:
  "pe_id (new_phase_event d now a i k f t eff r) = next_id (map pe_id (phase_events d))"
  "pe_enrollment_id (new_phase_event d now a i k f t eff r) = i"
  "pe_kind (new_phase_event d now a i k f t eff r) = k"
  "pe_from_phase (new_phase_event d now a i k f t eff r) = f"
  "pe_to_phase (new_phase_event d now a i k f t eff r) = t"
  "pe_effective_at (new_phase_event d now a i k f t eff r) = eff"
  "pe_recorded_at (new_phase_event d now a i k f t eff r) = now"
  "pe_actor (new_phase_event d now a i k f t eff r) = Some a"
  "pe_reason (new_phase_event d now a i k f t eff r) = r"
  "pe_epoch (new_phase_event d now a i k f t eff r) = epoch d i"
  by (simp_all add: new_phase_event_def)

definition write_enrollment_event ::
    "clock \<Rightarrow> db \<Rightarrow> int \<Rightarrow> int \<Rightarrow> enrollment_event_kind \<Rightarrow> string \<Rightarrow> int option \<Rightarrow> int option
      \<Rightarrow> event_kind \<Rightarrow> int \<Rightarrow> (lifecycle_refusal, db \<times> int) outcome" where
  "write_enrollment_event clk d actor enrollment_id kind reason from_version to_version audit_kind trainee =
     (let e = new_enrollment_event d (clk 0) actor enrollment_id kind reason from_version to_version in
      run (insert_enrollment_event e d) (\<lambda>d.
      run (case to_version of None \<Rightarrow> Inr d | Some to \<Rightarrow> repoint enrollment_id to d) (\<lambda>d.
      run (record_for_subject audit_kind (Some actor) (Some trainee)
             (SubjEnrollment enrollment_id) (clk 1) d) (\<lambda>d.
      Inr (d, ee_id e)))))"

definition record_enrollment_event ::
    "db \<Rightarrow> clock \<Rightarrow> db \<Rightarrow> int \<Rightarrow> int \<Rightarrow> enrollment_event_kind \<Rightarrow> string \<Rightarrow> int option
      \<Rightarrow> (lifecycle_refusal, db \<times> int) outcome" where
  "record_enrollment_event pre clk d actor enrollment_id kind reason to_version_id =
     (if \<not> user_has pre actor AssignTraining then refuse LrCapabilityRequired
      else let reason = trim reason in
      if kind \<noteq> EkComplete \<and> reason = [] then refuse LrReasonRequired
      else case status d enrollment_id of
        None \<Rightarrow> refuse LrNoSuchEnrollment
      | Some current_status \<Rightarrow>
          if kind = EkReinstate \<and> current_status = Active then refuse LrAlreadyActive
          else if kind \<noteq> EkReinstate \<and> current_status \<noteq> Active then refuse LrNotActive
          else fetch_one (enrollment_of d enrollment_id) (\<lambda>e.
            let write = (\<lambda>from_version to_version audit_kind.
                  write_enrollment_event clk d actor enrollment_id kind reason
                    from_version to_version audit_kind (e_user_id e)) in
            case kind of
              EkVersionChange \<Rightarrow>
                (case to_version_id of
                   None \<Rightarrow> refuse LrNoSuchVersion
                 | Some to \<Rightarrow>
                     run (version_change_refusal d enrollment_id (e_user_id e) (e_version_id e) to)
                       (\<lambda>r. case r of
                          Some refusal \<Rightarrow> refuse refusal
                        | None \<Rightarrow> write (Some (e_version_id e)) (Some to) EvEnrollmentVersionChanged))
            | EkWithdraw \<Rightarrow> write None None EvEnrollmentWithdrawn
            | EkComplete \<Rightarrow> write None None EvEnrollmentCompleted
            | EkReinstate \<Rightarrow> write None None EvEnrollmentReinstated))"

section \<open>Phase events\<close>

definition edge_kind :: "catalog \<Rightarrow> int \<Rightarrow> int \<Rightarrow> int \<Rightarrow> transition_kind option" where
  "edge_kind c pinned from to =
     map_option pt_kind (find (\<lambda>t. pt_version_id t = pinned \<and> pt_from t = from \<and> pt_to t = to)
       (phase_transitions c))"

fun edge_allows :: "phase_event_kind \<Rightarrow> transition_kind option \<Rightarrow> bool" where
  "edge_allows PkAdvance edge = (edge = Some TkAdvance \<or> edge = Some TkSkip)"
| "edge_allows PkReturn edge = (edge = Some TkRemediation)"
| "edge_allows _ edge = (edge = Some TkRestart)"

text \<open>The \<open>match kind\<close> of \<open>record_phase_event\<close>: the event's two phases, or a refusal.\<close>

definition phase_move ::
    "db \<Rightarrow> int \<Rightarrow> int option \<Rightarrow> bool \<Rightarrow> phase_event_kind \<Rightarrow> int option
      \<Rightarrow> lifecycle_refusal + (int option \<times> int option)" where
  "phase_move d pinned current paused kind to_phase_id =
     (if moving kind then
        if paused then Inl LrPaused
        else case to_phase_id of
          None \<Rightarrow> Inl LrNoSuchPhase
        | Some to \<Rightarrow>
            if find (\<lambda>p. ph_id p = to \<and> ph_version_id p = pinned) (phases (catalog d)) = None
            then Inl LrNoSuchPhase
            else case current of
              None \<Rightarrow> if kind = PkAdvance then Inr (None, Some to) else Inl LrNoCurrentPhase
            | Some from \<Rightarrow>
                if \<not> edge_allows kind (edge_kind (catalog d) pinned from to) then Inl LrTransitionNotAllowed
                else Inr (Some from, Some to)
      else case current of
        None \<Rightarrow> Inl LrNoCurrentPhase
      | Some from \<Rightarrow>
          if kind = PkPause \<and> paused then Inl LrAlreadyPaused
          else if kind = PkResume \<and> \<not> paused then Inl LrNotPaused
          else if kind = PkComplete \<and> paused then Inl LrPaused
          else Inr (Some from, None))"

definition latest_effective :: "db \<Rightarrow> int \<Rightarrow> int option" where
  "latest_effective d i =
     max_id (map pe_effective_at (filter (\<lambda>p. pe_enrollment_id p = i) (phase_events d)))"

definition epoch_opened :: "db \<Rightarrow> int \<Rightarrow> int option" where
  "epoch_opened d i = map_option ee_occurred_at (latest_by ee_id (version_changes d i))"

definition before :: "int \<Rightarrow> int option \<Rightarrow> bool" where
  "before effective mark = (case mark of None \<Rightarrow> False | Some m \<Rightarrow> effective < m)"

definition record_phase_event ::
    "db \<Rightarrow> clock \<Rightarrow> db \<Rightarrow> int \<Rightarrow> int \<Rightarrow> phase_event_kind \<Rightarrow> int option \<Rightarrow> int option \<Rightarrow> string
      \<Rightarrow> (lifecycle_refusal, db \<times> int) outcome" where
  "record_phase_event pre clk d actor enrollment_id kind to_phase_id effective_at reason =
     (if \<not> user_has pre actor AssignTraining then refuse LrCapabilityRequired
      else let reason = trim reason in
      if (kind = PkReturn \<or> kind = PkRestart) \<and> reason = [] then refuse LrReasonRequired
      else let now = clk 0; effective = (case effective_at of None \<Rightarrow> now | Some t \<Rightarrow> t) in
      if now < effective then refuse LrEffectiveInFuture
      else case status d enrollment_id of
        None \<Rightarrow> refuse LrNoSuchEnrollment
      | Some current_status \<Rightarrow>
          if current_status \<noteq> Active then refuse LrNotActive
          else if before effective (latest_effective d enrollment_id) then refuse LrOutOfOrder
          else if before effective (epoch_opened d enrollment_id) then refuse LrOutOfOrder
          else fetch_one (enrollment_of d enrollment_id) (\<lambda>e.
            case phase_move d (e_version_id e) (map_option fst (current_phase d enrollment_id))
                   (is_paused d enrollment_id) kind to_phase_id of
              Inl refusal \<Rightarrow> refuse refusal
            | Inr (from_phase, to_phase) \<Rightarrow>
                let p = new_phase_event d now actor enrollment_id kind from_phase to_phase
                          effective reason in
                run (insert_phase_event p d) (\<lambda>d.
                run (record_for_subject EvPhaseEventRecorded (Some actor) (Some (e_user_id e))
                       (SubjEnrollment enrollment_id) (clk 1) d) (\<lambda>d.
                Inr (d, pe_id p)))))"

section \<open>Reads\<close>

definition may_read_enrollment :: "db \<Rightarrow> int \<Rightarrow> int \<Rightarrow> bool" where
  "may_read_enrollment d actor enrollment_id \<longleftrightarrow>
     user_has d actor AssignTraining
     \<or> user_has d actor ViewAssignedRecords \<and> is_assigned d actor enrollment_id"

definition display_name_of :: "db \<Rightarrow> int option \<Rightarrow> string option" where
  "display_name_of d u =
     (case u of None \<Rightarrow> None | Some i \<Rightarrow> map_option u_display_name (user_of d i))"

definition joined_version :: "db \<Rightarrow> int option \<Rightarrow> program_version_row option" where
  "joined_version d v = (case v of None \<Rightarrow> None | Some i \<Rightarrow> version_of d i)"

definition list_events :: "db \<Rightarrow> int \<Rightarrow> enrollment_event_view list" where
  "list_events d enrollment_id =
     map (\<lambda>e. \<lparr>ev_id = ee_id e, ev_kind = ee_kind e, ev_occurred_at = ee_occurred_at e,
                ev_actor = ee_actor e, ev_actor_name = display_name_of d (ee_actor e),
                ev_reason = ee_reason e,
                ev_from_version = ee_from_version e,
                ev_from_number = map_option pv_version_number (joined_version d (ee_from_version e)),
                ev_from_label = map_option pv_label (joined_version d (ee_from_version e)),
                ev_to_version = ee_to_version e,
                ev_to_number = map_option pv_version_number (joined_version d (ee_to_version e)),
                ev_to_label = map_option pv_label (joined_version d (ee_to_version e))\<rparr>)
       (sort_key ee_id (filter (\<lambda>e. ee_enrollment_id e = enrollment_id) (enrollment_events d)))"

definition event_version :: "db \<Rightarrow> phase_event_row \<Rightarrow> program_version_row option" where
  "event_version d p =
     joined_version d (phase_version d (case pe_to_phase p of None \<Rightarrow> pe_from_phase p | t \<Rightarrow> t))"

definition list_phase_events :: "db \<Rightarrow> int \<Rightarrow> phase_event_view list" where
  "list_phase_events d enrollment_id =
     concat (map (\<lambda>p. case event_version d p of
         None \<Rightarrow> []
       | Some pv \<Rightarrow>
          [\<lparr>pw_id = pe_id p, pw_kind = pe_kind p,
            pw_from_phase = pe_from_phase p,
            pw_from_name = map_option ph_name (joined_phase d (pe_from_phase p)),
            pw_to_phase = pe_to_phase p,
            pw_to_name = map_option ph_name (joined_phase d (pe_to_phase p)),
            pw_effective_at = pe_effective_at p, pw_recorded_at = pe_recorded_at p,
            pw_actor = pe_actor p, pw_actor_name = display_name_of d (pe_actor p),
            pw_reason = pe_reason p, pw_epoch = pe_epoch p,
            pw_version_number = pv_version_number pv, pw_version_label = pv_label pv\<rparr>])
       (sort_key effective_order
         (filter (\<lambda>p. pe_enrollment_id p = enrollment_id) (phase_events d))))"

end
