(* ===== verification/Workflow.thy ===== *)
theory Workflow
  imports Lifecycle
begin

text \<open>
  The workflow of an evaluation record as the streams state it (evaluation_drafts.rs,
  amendments.rs, migrations 0008 to 0012): the derived status, the reopened cycle of an open
  amendment, the database's own derivation of the frozen state, and the constraints and
  triggers of the tables the draft services write. No status column exists: the service reads
  the streams (\<open>status_of\<close>), the database reads them again in the view
  \<open>evaluation_record_frozen\<close>, and the two have to agree.
\<close>

section \<open>Refusals and status\<close>

datatype draft_refusal =
    DrCapabilityRequired
  | DrNoSuchSession
  | DrSessionCancelled
  | DrDraftAlreadyExists
  | DrNoDailyForm
  | DrFormRequired
  | DrNoSuchForm
  | DrNoSuchRecord
  | DrDraftSubmitted
  | DrNoSuchUser
  | DrNotEligible
  | DrAlreadyOwner
  | DrNoSuchFormCompetency
  | DrNoSuchFormNarrative
  | DrNoSuchModifier
  | DrValueOutOfRange
  | DrValueNotAllowed
  | DrDuplicateEntry
  | DrStaleSave
  | DrDraftApproved
  | DrSelfReview
  | DrNotSubmitted
  | DrCommentRequired
  | DrDraftFinalized
  | DrNarrativesIncomplete
  | DrRatingsIncomplete
  | DrNoSuchEnrollment
  | DrNoSummaryForm
  | DrNotASummary
  | DrNotADaily
  | DrWrongEnrollment
  | DrNoSuchVersion
  | DrDuplicateLink
  | DrNoSuchLink

datatype draft_status = StDraft | StSubmitted | StChangesRequested | StReturned | StApproved | StFinalized

fun frozen_refusal :: "draft_status \<Rightarrow> draft_refusal option" where
  "frozen_refusal StSubmitted = Some DrDraftSubmitted"
| "frozen_refusal StApproved = Some DrDraftApproved"
| "frozen_refusal StFinalized = Some DrDraftFinalized"
| "frozen_refusal StDraft = None"
| "frozen_refusal StChangesRequested = None"
| "frozen_refusal StReturned = None"

text \<open>\<open>load_record\<close>: the columns of \<open>RecordRow\<close> are read off the row.\<close>

definition load_record :: "db \<Rightarrow> int \<Rightarrow> record_row option" where
  "load_record d record_id = record_of d record_id"

section \<open>The streams of one record\<close>

definition record_events :: "db \<Rightarrow> int \<Rightarrow> contributor_event_row list" where
  "record_events d r = filter (\<lambda>e. ce_record_id e = r) (contributor_events d)"

definition record_decisions :: "db \<Rightarrow> int \<Rightarrow> decision_row list" where
  "record_decisions d r = filter (\<lambda>e. rd_record_id e = r) (decisions d)"

definition record_snapshots :: "db \<Rightarrow> int \<Rightarrow> snapshot_row list" where
  "record_snapshots d r = filter (\<lambda>s. ds_record_id s = r) (snapshots d)"

definition record_versions :: "db \<Rightarrow> int \<Rightarrow> version_row list" where
  "record_versions d r = filter (\<lambda>v. v_record_id v = r) (versions d)"

definition events_after :: "db \<Rightarrow> int \<Rightarrow> int \<Rightarrow> contributor_event_row list" where
  "events_after d r mark = filter (\<lambda>e. mark < ce_id e) (record_events d r)"

definition decisions_after :: "db \<Rightarrow> int \<Rightarrow> int \<Rightarrow> decision_row list" where
  "decisions_after d r mark = filter (\<lambda>e. mark < rd_id e) (record_decisions d r)"

definition latest_version :: "db \<Rightarrow> int \<Rightarrow> version_row option" where
  "latest_version d r = latest_by v_number (record_versions d r)"

text \<open>The amendment of a version: \<open>predecessor_version_id\<close> is unique.\<close>

definition amendment_of :: "db \<Rightarrow> int \<Rightarrow> amendment_row option" where
  "amendment_of d v = find (\<lambda>a. am_predecessor a = v) (amendments d)"

record open_amendment =
  oa_reason :: string
  oa_opened_by_name :: string
  oa_opened_at :: int
  oa_version_id :: int
  oa_version_number :: int
  oa_content_hash :: string
  oa_event_mark :: int
  oa_decision_mark :: int

definition open_scope :: "db \<Rightarrow> int \<Rightarrow> open_amendment option" where
  "open_scope d record_id =
     (case latest_version d record_id of
        None \<Rightarrow> None
      | Some v \<Rightarrow>
          map_option (\<lambda>a. \<lparr>oa_reason = am_reason a, oa_opened_by_name = am_opened_by_name a,
              oa_opened_at = am_opened_at a, oa_version_id = v_id v, oa_version_number = v_number v,
              oa_content_hash = v_content_hash v, oa_event_mark = am_event_mark a,
              oa_decision_mark = am_decision_mark a\<rparr>)
            (amendment_of d (v_id v)))"

fun decision_status :: "review_decision_kind option \<Rightarrow> draft_status" where
  "decision_status (Some Approved) = StApproved"
| "decision_status (Some ChangesRequested) = StChangesRequested"
| "decision_status (Some Returned) = StReturned"
| "decision_status None = StDraft"

definition cycle_status :: "contributor_kind option \<Rightarrow> review_decision_kind option \<Rightarrow> draft_status" where
  "cycle_status latest decision =
     (case latest of
        Some SubmittedForReview \<Rightarrow> StSubmitted
      | Some ReviewDecided \<Rightarrow> decision_status decision
      | _ \<Rightarrow> StDraft)"

definition status_since :: "db \<Rightarrow> int \<Rightarrow> int \<Rightarrow> int \<Rightarrow> draft_status" where
  "status_since d r event_mark decision_mark =
     cycle_status (map_option ce_kind (latest_by ce_id (events_after d r event_mark)))
       (map_option rd_decision (latest_by rd_id (decisions_after d r decision_mark)))"

definition status_of :: "db \<Rightarrow> int \<Rightarrow> draft_status" where
  "status_of d record_id =
     (if record_versions d record_id \<noteq> [] then
        case open_scope d record_id of
          None \<Rightarrow> StFinalized
        | Some scope \<Rightarrow> status_since d record_id (oa_event_mark scope) (oa_decision_mark scope)
      else status_since d record_id 0 0)"

section \<open>The database's derivation\<close>

text \<open>
  The view \<open>evaluation_record_frozen\<close> of migration 0012. Its first branch reads the whole
  stream, without a mark; the view has no row for a record that does not exist, and
  \<open>NULL = 1\<close> is not true.
\<close>

definition cycle_frozen :: "contributor_kind option \<Rightarrow> review_decision_kind option \<Rightarrow> bool" where
  "cycle_frozen latest decision \<longleftrightarrow>
     (case latest of
        Some SubmittedForReview \<Rightarrow> True
      | Some ReviewDecided \<Rightarrow> decision = Some Approved
      | _ \<Rightarrow> False)"

definition record_frozen :: "db \<Rightarrow> int \<Rightarrow> bool" where
  "record_frozen d r \<longleftrightarrow>
     record_of d r \<noteq> None \<and>
     (case latest_version d r of
        None \<Rightarrow> cycle_frozen (map_option ce_kind (latest_by ce_id (record_events d r)))
                  (map_option rd_decision (latest_by rd_id (record_decisions d r)))
      | Some v \<Rightarrow>
          (case amendment_of d (v_id v) of
             None \<Rightarrow> True
           | Some a \<Rightarrow>
               cycle_frozen
                 (map_option ce_kind (latest_by ce_id (events_after d r (am_event_mark a))))
                 (map_option rd_decision (latest_by rd_id (decisions_after d r (am_decision_mark a))))))"

section \<open>Inserts\<close>

definition insert_contributor_event :: "contributor_event_row \<Rightarrow> db \<Rightarrow> db_error + db" where
  "insert_contributor_event e d =
     demand (ce_kind e \<noteq> ReviewDecided \<longrightarrow> \<not> record_frozen d (ce_record_id e))
       (Raised ''contributor_event_frozen_insert'')
    (demand (ce_kind e = ReviewDecided \<longrightarrow>
        length (record_decisions d (ce_record_id e)) =
        length (filter (\<lambda>x. ce_kind x = ReviewDecided) (record_events d (ce_record_id e))) + 1)
       (Raised ''contributor_event_review_pairs_decision'')
    (demand ((ce_kind e = OwnershipTransferred) = (ce_to e \<noteq> None)) CheckConstraint
    (demand (record_of d (ce_record_id e) \<noteq> None \<and> user_of d (ce_actor e) \<noteq> None
        \<and> opt_user_ok d (ce_to e)) ForeignKey
    (Inr (d\<lparr>contributor_events := contributor_events d @ [e]\<rparr>)))))"

definition new_event ::
    "db \<Rightarrow> int \<Rightarrow> contributor_kind \<Rightarrow> int \<Rightarrow> int option \<Rightarrow> int \<Rightarrow> contributor_event_row" where
  "new_event d record_id kind actor to now =
     \<lparr>ce_id = next_id (map ce_id (contributor_events d)), ce_record_id = record_id,
      ce_kind = kind, ce_actor = actor, ce_to = to, ce_recorded_at = now\<rparr>"

lemma new_event_fields [simp]:
  "ce_id (new_event d r k a t n) = next_id (map ce_id (contributor_events d))"
  "ce_record_id (new_event d r k a t n) = r"
  "ce_kind (new_event d r k a t n) = k"
  "ce_actor (new_event d r k a t n) = a"
  "ce_to (new_event d r k a t n) = t"
  "ce_recorded_at (new_event d r k a t n) = n"
  by (simp_all add: new_event_def)

definition append_event ::
    "int \<Rightarrow> contributor_kind \<Rightarrow> int \<Rightarrow> int option \<Rightarrow> int \<Rightarrow> db \<Rightarrow> db_error + db" where
  "append_event record_id kind actor to now d =
     insert_contributor_event (new_event d record_id kind actor to now) d"

definition insert_snapshot ::
    "int \<Rightarrow> snapshot_reason \<Rightarrow> string \<Rightarrow> int \<Rightarrow> int \<Rightarrow> db \<Rightarrow> db_error + db" where
  "insert_snapshot record_id reason content now actor d =
     demand (record_of d record_id \<noteq> None \<and> user_of d actor \<noteq> None) ForeignKey
       (Inr (d\<lparr>snapshots := snapshots d @
          [\<lparr>ds_id = next_id (map ds_id (snapshots d)), ds_record_id = record_id, ds_reason = reason,
            ds_content = content, ds_taken_at = now, ds_taken_by = Some actor\<rparr>]\<rparr>))"

text \<open>
  Who contributed, as the trigger \<open>review_decision_refuses_contributors\<close> and the service's
  \<open>is_contributor\<close> both state it.
\<close>

definition contributed_by :: "int \<Rightarrow> contributor_event_row \<Rightarrow> bool" where
  "contributed_by user_id e \<longleftrightarrow>
     ce_kind e \<in> {Created, Contributed, SubmittedForReview} \<and> ce_actor e = user_id
     \<or> ce_kind e = OwnershipTransferred \<and> ce_to e = Some user_id"

definition insert_decision :: "decision_row \<Rightarrow> db \<Rightarrow> db_error + db" where
  "insert_decision v d =
     (let r = rd_record_id v in
     demand (map_option ce_kind (latest_by ce_id (record_events d r)) = Some SubmittedForReview)
       (Raised ''review_decision_decides_submitted'')
    (demand (rd_decision v = ChangesRequested \<longrightarrow>
        \<not> length (filter (\<lambda>s. ds_reason s = ChangeRequestReturn) (record_snapshots d r))
          < length (filter (\<lambda>x. rd_decision x = ChangesRequested) (record_decisions d r)) + 1)
       (Raised ''review_decision_change_request_snapshots'')
    (demand (\<not> (map_option r_owner (record_of d r) = Some (rd_reviewer v)
              \<or> list_ex (contributed_by (rd_reviewer v)) (record_events d r)))
       (Raised ''review_decision_refuses_contributors'')
    (demand (rd_decision v = ChangesRequested \<longrightarrow> 0 < sql_length (trim (rd_comment v))) CheckConstraint
    (demand (record_of d r \<noteq> None \<and> user_of d (rd_reviewer v) \<noteq> None) ForeignKey
    (append_event r ReviewDecided (rd_reviewer v) None (rd_decided_at v)
       (d\<lparr>decisions := decisions d @ [v]\<rparr>)))))))"

definition form_pinned :: "db \<Rightarrow> int \<Rightarrow> int \<Rightarrow> bool" where
  "form_pinned d form version \<longleftrightarrow>
     list_ex (\<lambda>f. f_id f = form \<and> f_version_id f = version) (evaluation_forms (catalog d))"

definition insert_record :: "record_row \<Rightarrow> db \<Rightarrow> db_error + db" where
  "insert_record r d =
     demand (enrollment_of d (r_enrollment_id r) \<noteq> None \<and> version_of d (r_version_id r) \<noteq> None
        \<and> form_pinned d (r_form_id r) (r_version_id r) \<and> user_of d (r_owner r) \<noteq> None
        \<and> opt_user_ok d (r_created_by r)) ForeignKey
       (Inr (d\<lparr>records := records d @ [r]\<rparr>))"

definition covered_sessions :: "db \<Rightarrow> int \<Rightarrow> int list" where
  "covered_sessions d r = map es_session_id (filter (\<lambda>e. es_record_id e = r) (record_sessions d))"

definition insert_record_session :: "int \<Rightarrow> int \<Rightarrow> db \<Rightarrow> db_error + db" where
  "insert_record_session record_id session_id d =
     (let r = record_of d record_id; s = session_of d session_id in
     demand (\<not> sql_neq (map_option r_enrollment_id r) (map_option ts_enrollment_id s)
             \<and> \<not> sql_neq (map_option r_version_id r) (map_option ts_version_id s))
       (Raised ''evaluation_session_agrees'')
    (demand (Option.bind s ts_disposition \<noteq> Some SdCancelled)
       (Raised ''evaluation_session_covers_live_sessions'')
    (demand (\<not> record_frozen d record_id) (Raised ''evaluation_session_frozen_insert'')
    (demand (session_id \<notin> set (covered_sessions d record_id)) UniqueIndex
    (demand (r \<noteq> None \<and> s \<noteq> None) ForeignKey
    (Inr (d\<lparr>record_sessions := record_sessions d @
       [\<lparr>es_id = next_id (map es_id (record_sessions d)), es_record_id = record_id,
         es_session_id = session_id\<rparr>]\<rparr>)))))))"

definition map_record :: "int \<Rightarrow> (record_row \<Rightarrow> record_row) \<Rightarrow> db \<Rightarrow> db" where
  "map_record i f d = d\<lparr>records := map (\<lambda>r. if r_id r = i then f r else r) (records d)\<rparr>"

text \<open>\<open>UPDATE evaluation_record SET owner_user_id\<close>, with its trigger.\<close>

definition update_owner :: "int \<Rightarrow> int \<Rightarrow> db \<Rightarrow> db_error + db" where
  "update_owner record_id to d =
     (case record_of d record_id of
        None \<Rightarrow> Inr d
      | Some r \<Rightarrow>
          demand (r_owner r \<noteq> to \<longrightarrow>
              (case latest_by ce_id (record_events d record_id) of
                 None \<Rightarrow> False
               | Some e \<Rightarrow> ce_kind e = OwnershipTransferred \<and> ce_to e = Some to))
            (Raised ''evaluation_record_owner_change_requires_event'')
         (demand (user_of d to \<noteq> None) ForeignKey
         (Inr (map_record record_id (\<lambda>r. r\<lparr>r_owner := to\<rparr>) d))))"

definition set_revision :: "int \<Rightarrow> int \<Rightarrow> db \<Rightarrow> db" where
  "set_revision record_id n d = map_record record_id (\<lambda>r. r\<lparr>r_revision := n\<rparr>) d"

section \<open>What the inserts do\<close>

lemma append_event_Inr:
  "append_event r k a t n d = Inr d' \<Longrightarrow>
    d' = d\<lparr>contributor_events := contributor_events d @ [new_event d r k a t n]\<rparr> \<and>
    (k \<noteq> ReviewDecided \<longrightarrow> \<not> record_frozen d r) \<and> (k = OwnershipTransferred \<longleftrightarrow> t \<noteq> None) \<and>
    record_of d r \<noteq> None \<and> user_of d a \<noteq> None \<and> opt_user_ok d t"
  by (auto simp: append_event_def insert_contributor_event_def guard_simps)

lemma insert_snapshot_Inr:
  "insert_snapshot r k c n a d = Inr d' \<Longrightarrow>
    d' = d\<lparr>snapshots := snapshots d @
      [\<lparr>ds_id = next_id (map ds_id (snapshots d)), ds_record_id = r, ds_reason = k,
        ds_content = c, ds_taken_at = n, ds_taken_by = Some a\<rparr>]\<rparr>"
  by (simp add: insert_snapshot_def guard_simps)

lemma insert_decision_Inr:
  "insert_decision v d = Inr d' \<Longrightarrow>
    d' = d\<lparr>decisions := decisions d @ [v], contributor_events := contributor_events d @
      [new_event d (rd_record_id v) ReviewDecided (rd_reviewer v) None (rd_decided_at v)]\<rparr>"
  by (auto simp: insert_decision_def guard_simps Let_def new_event_def dest!: append_event_Inr)

lemma insert_record_Inr:
  "insert_record r d = Inr d' \<Longrightarrow> d' = d\<lparr>records := records d @ [r]\<rparr> \<and>
    enrollment_of d (r_enrollment_id r) \<noteq> None \<and> form_pinned d (r_form_id r) (r_version_id r)"
  by (simp add: insert_record_def guard_simps)

lemma insert_record_session_Inr:
  "insert_record_session r s d = Inr d' \<Longrightarrow>
    d' = d\<lparr>record_sessions := record_sessions d @
       [\<lparr>es_id = next_id (map es_id (record_sessions d)), es_record_id = r, es_session_id = s\<rparr>]\<rparr> \<and>
    s \<notin> set (covered_sessions d r) \<and> record_of d r \<noteq> None \<and> session_of d s \<noteq> None"
  by (simp add: insert_record_session_def guard_simps Let_def)

lemma map_record_absent: "record_of d i = None \<Longrightarrow> map_record i f d = d"
proof -
  assume "record_of d i = None"
  then have "map (\<lambda>r. if r_id r = i then f r else r) (records d) = records d"
    by (intro map_idI) (auto simp: record_of_def find_None_iff)
  then show ?thesis by (simp add: map_record_def)
qed

lemma update_owner_Inr:
  "update_owner r to d = Inr d' \<Longrightarrow> d' = map_record r (\<lambda>x. x\<lparr>r_owner := to\<rparr>) d"
  by (auto simp: update_owner_def guard_simps map_record_absent split: option.splits)

lemmas insert_effects =
  append_event_Inr insert_snapshot_Inr insert_decision_Inr insert_record_Inr
  insert_record_session_Inr update_owner_Inr

end
