(* ===== verification/Access.thy ===== *)
theory Access
  imports Workflow
begin

text \<open>
  Who may act on an evaluation draft (draft_access.rs): contributor identity, authoring scope,
  the read rule and its two bases, and who may start a session's draft.
\<close>

definition is_member :: "db \<Rightarrow> int \<Rightarrow> int \<Rightarrow> bool" where
  "is_member d user_id session_id \<longleftrightarrow>
     list_ex (\<lambda>s. st_session_id s = session_id \<and> st_trainer s = user_id) (session_trainers d)"

definition is_contributor :: "db \<Rightarrow> int \<Rightarrow> int \<Rightarrow> db_error + bool" where
  "is_contributor d record_id user_id =
     (case record_of d record_id of
        None \<Rightarrow> Inl RowNotFound
      | Some r \<Rightarrow> Inr (r_owner r = user_id \<or> list_ex (contributed_by user_id) (record_events d record_id)))"

definition in_scope :: "db \<Rightarrow> int \<Rightarrow> record_row \<Rightarrow> bool" where
  "in_scope d user_id r \<longleftrightarrow>
     is_assigned d user_id (r_enrollment_id r)
     \<or> list_ex (\<lambda>s. st_session_id s \<in> set (covered_sessions d (r_id r)) \<and> st_trainer s = user_id)
         (session_trainers d)"

definition may_contribute :: "db \<Rightarrow> int \<Rightarrow> record_row \<Rightarrow> bool" where
  "may_contribute d actor r \<longleftrightarrow>
     user_has d actor AssignTraining
     \<or> user_has d actor AuthorEvaluation \<and> in_scope d actor r"

datatype read_basis = RgWorkflow | RgOwnRecord

definition ever_submitted :: "db \<Rightarrow> int \<Rightarrow> bool" where
  "ever_submitted d r \<longleftrightarrow> list_ex (\<lambda>e. ce_kind e = SubmittedForReview) (record_events d r)"

definition own_finalized :: "db \<Rightarrow> int \<Rightarrow> record_row \<Rightarrow> bool" where
  "own_finalized d actor r \<longleftrightarrow>
     (case enrollment_of d (r_enrollment_id r) of
        None \<Rightarrow> False
      | Some e \<Rightarrow> e_user_id e = actor \<and> record_versions d (r_id r) \<noteq> [])"

definition read_grant :: "db \<Rightarrow> int \<Rightarrow> record_row \<Rightarrow> read_basis option" where
  "read_grant d actor r =
     (if may_contribute d actor r then Some RgWorkflow
      else if may_read_enrollment d actor (r_enrollment_id r) then Some RgWorkflow
      else if user_has d actor ReviewEvaluation \<and> ever_submitted d (r_id r) then Some RgWorkflow
      else if user_has d actor ViewOwnRecords \<and> own_finalized d actor r then Some RgOwnRecord
      else None)"

definition may_read :: "db \<Rightarrow> int \<Rightarrow> record_row \<Rightarrow> bool" where
  "may_read d actor r \<longleftrightarrow> read_grant d actor r \<noteq> None"

definition may_start :: "db \<Rightarrow> int \<Rightarrow> int \<Rightarrow> int \<Rightarrow> bool" where
  "may_start d actor session_id enrollment_id \<longleftrightarrow>
     user_has d actor AssignTraining
     \<or> user_has d actor AuthorEvaluation
       \<and> (is_member d actor session_id \<or> is_assigned d actor enrollment_id)"

section \<open>What the gates mean\<close>

text \<open>
  The two bases are disjoint, and a reader with neither a staff capability nor a finalized
  record of their own reads nothing.
\<close>

lemma read_grant_cases:
  "read_grant d actor r = Some RgOwnRecord \<Longrightarrow>
    user_has d actor ViewOwnRecords \<and> record_versions d (r_id r) \<noteq> [] \<and>
    (\<exists>e. enrollment_of d (r_enrollment_id r) = Some e \<and> e_user_id e = actor)"
  by (auto simp: read_grant_def own_finalized_def split: if_splits option.splits)

lemma read_grant_workflow:
  "read_grant d actor r = Some RgWorkflow \<Longrightarrow>
    user_has d actor AssignTraining \<or> user_has d actor AuthorEvaluation \<or>
    user_has d actor ViewAssignedRecords \<or> user_has d actor ReviewEvaluation"
  by (auto simp: read_grant_def may_contribute_def may_read_enrollment_def split: if_splits)

lemma contributor_reads: "may_contribute d actor r \<Longrightarrow> read_grant d actor r = Some RgWorkflow"
  by (simp add: read_grant_def)

text \<open>A contributor stays one: the stream only grows and ownership is part of it.\<close>

lemma is_contributor_journal:
  "journaled d d' \<Longrightarrow> is_contributor d' = is_contributor d"
  by (auto simp: is_contributor_def fun_eq_iff record_of_def record_events_def journaled_tables
      split: option.splits)

end
