(* ===== verification/Content.thy ===== *)
theory Content
  imports Access
begin

text \<open>
  The working copy of a draft (draft_content.rs, migrations 0008 to 0010): reading it, its
  validation against the pinned vocabulary, the full replacement a save makes, and the
  attribution of the save. \<open>serde_json::to_string\<close> on the content is the parameter \<open>ser\<close>.
\<close>

section \<open>Data\<close>

record rating_entry =
  re_fc :: int
  re_value :: "int option"
  re_not_observed :: bool
  re_modifiers :: "int list"

record narrative_entry =
  ne_fn :: int
  ne_text :: string

record draft_content =
  dc_ratings :: "rating_entry list"
  dc_narratives :: "narrative_entry list"

section \<open>Read\<close>

definition record_ratings :: "db \<Rightarrow> int \<Rightarrow> draft_rating_row list" where
  "record_ratings d r = filter (\<lambda>x. dr_record_id x = r) (draft_ratings d)"

definition record_narratives :: "db \<Rightarrow> int \<Rightarrow> draft_narrative_row list" where
  "record_narratives d r = filter (\<lambda>x. dn_record_id x = r) (draft_narratives d)"

definition rating_modifiers_of :: "db \<Rightarrow> int \<Rightarrow> int list" where
  "rating_modifiers_of d rating_id =
     sort (map dm_modifier_id (filter (\<lambda>m. dm_rating_id m = rating_id) (draft_modifiers d)))"

definition rating_entry_of :: "db \<Rightarrow> draft_rating_row \<Rightarrow> rating_entry" where
  "rating_entry_of d x =
     \<lparr>re_fc = dr_fc_id x, re_value = dr_value x, re_not_observed = dr_not_observed x,
      re_modifiers = rating_modifiers_of d (dr_id x)\<rparr>"

definition content :: "db \<Rightarrow> int \<Rightarrow> draft_content" where
  "content d record_id =
     \<lparr>dc_ratings = map (rating_entry_of d) (sort_key dr_fc_id (record_ratings d record_id)),
      dc_narratives = map (\<lambda>n. \<lparr>ne_fn = dn_fn_id n, ne_text = dn_text n\<rparr>)
        (sort_key dn_fn_id (record_narratives d record_id))\<rparr>"

definition content_json :: "(draft_content \<Rightarrow> string option) \<Rightarrow> db \<Rightarrow> int \<Rightarrow> db_error + string" where
  "content_json ser d record_id =
     (case ser (content d record_id) of
        None \<Rightarrow> Inl (Defect ''serializing content'')
      | Some s \<Rightarrow> Inr s)"

section \<open>Validation\<close>

definition scale_of :: "catalog \<Rightarrow> int \<Rightarrow> int \<Rightarrow> int \<Rightarrow> rating_scale_row option" where
  "scale_of c fc version form =
     Option.bind (find (\<lambda>x. fc_id x = fc \<and> fc_version_id x = version \<and> fc_form_id x = form)
         (form_competencies c))
       (\<lambda>x. find (\<lambda>s. rs_id s = fc_scale_id x) (rating_scales c))"

definition check_value :: "rating_scale_row \<Rightarrow> rating_entry \<Rightarrow> (draft_refusal, unit) outcome" where
  "check_value scale rating =
     (if re_not_observed rating then
        if re_value rating \<noteq> None \<or> rs_kind scale = NarrativeOnly then refuse DrValueNotAllowed
        else Inr ()
      else case (rs_kind scale, re_value rating) of
        (NarrativeOnly, Some _) \<Rightarrow> refuse DrValueNotAllowed
      | (NarrativeOnly, None) \<Rightarrow> Inr ()
      | (PassFail, Some v) \<Rightarrow> if v = 0 \<or> v = 1 then Inr () else refuse DrValueOutOfRange
      | (AnchoredNumeric, Some v) \<Rightarrow>
          (case (rs_min scale, rs_max scale) of
             (Some lo, Some hi) \<Rightarrow> if v < lo \<or> hi < v then refuse DrValueOutOfRange else Inr ()
           | _ \<Rightarrow> abort (Defect ''an anchored scale without bounds''))
      | _ \<Rightarrow> refuse DrValueOutOfRange)"

definition modifier_pinned :: "catalog \<Rightarrow> int \<Rightarrow> int \<Rightarrow> bool" where
  "modifier_pinned c version m \<longleftrightarrow>
     list_ex (\<lambda>x. rm_id x = m \<and> rm_version_id x = version) (rating_modifiers c)"

definition narrative_pinned :: "catalog \<Rightarrow> record_row \<Rightarrow> int \<Rightarrow> bool" where
  "narrative_pinned c r n \<longleftrightarrow>
     list_ex (\<lambda>x. fn_id x = n \<and> fn_version_id x = r_version_id r \<and> fn_form_id x = r_form_id r)
       (form_narratives c)"

fun check_ratings ::
    "catalog \<Rightarrow> record_row \<Rightarrow> int list \<Rightarrow> rating_entry list \<Rightarrow> (draft_refusal, unit) outcome" where
  "check_ratings c r seen [] = Inr ()"
| "check_ratings c r seen (x # xs) =
     (if re_fc x \<in> set seen then refuse DrDuplicateEntry
      else case scale_of c (re_fc x) (r_version_id r) (r_form_id r) of
        None \<Rightarrow> refuse DrNoSuchFormCompetency
      | Some scale \<Rightarrow>
          (case check_value scale x of
             Inl e \<Rightarrow> Inl e
           | Inr _ \<Rightarrow>
               if list_ex (\<lambda>m. \<not> modifier_pinned c (r_version_id r) m) (re_modifiers x)
               then refuse DrNoSuchModifier
               else check_ratings c r (re_fc x # seen) xs))"

fun check_narratives ::
    "catalog \<Rightarrow> record_row \<Rightarrow> int list \<Rightarrow> narrative_entry list \<Rightarrow> (draft_refusal, unit) outcome" where
  "check_narratives c r seen [] = Inr ()"
| "check_narratives c r seen (x # xs) =
     (if ne_fn x \<in> set seen then refuse DrDuplicateEntry
      else if \<not> narrative_pinned c r (ne_fn x) then refuse DrNoSuchFormNarrative
      else check_narratives c r (ne_fn x # seen) xs)"

section \<open>Replacement\<close>

text \<open>
  The three deletes, with the freeze triggers that run for each row, and the inserts with
  theirs. A new rating's id is what \<open>last_insert_rowid\<close> returns.
\<close>

definition clear_copy :: "int \<Rightarrow> db \<Rightarrow> db_error + db" where
  "clear_copy record_id d =
     (let mine = set (map dr_id (record_ratings d record_id));
          hit = filter (\<lambda>m. dm_rating_id m \<in> mine) (draft_modifiers d) in
     demand (hit = [] \<or> \<not> record_frozen d record_id) (Raised ''draft_rating_modifier_frozen_delete'')
    (demand (record_ratings d record_id = [] \<or> \<not> record_frozen d record_id)
       (Raised ''draft_rating_frozen_delete'')
    (demand (record_narratives d record_id = [] \<or> \<not> record_frozen d record_id)
       (Raised ''draft_narrative_frozen_delete'')
    (Inr (d\<lparr>draft_modifiers := filter (\<lambda>m. dm_rating_id m \<notin> mine) (draft_modifiers d),
            draft_ratings := filter (\<lambda>x. dr_record_id x \<noteq> record_id) (draft_ratings d),
            draft_narratives := filter (\<lambda>x. dn_record_id x \<noteq> record_id) (draft_narratives d)\<rparr>)))))"

text \<open>The composite foreign key \<open>(evaluation_record_id, program_version_id)\<close>.\<close>

definition record_pinned :: "db \<Rightarrow> int \<Rightarrow> int \<Rightarrow> bool" where
  "record_pinned d r version \<longleftrightarrow> list_ex (\<lambda>x. r_id x = r \<and> r_version_id x = version) (records d)"

definition insert_rating :: "draft_rating_row \<Rightarrow> db \<Rightarrow> db_error + db" where
  "insert_rating x d =
     demand (\<not> (dr_not_observed x \<and> dr_value x \<noteq> None)) (Raised ''draft_rating_not_observed_shape_insert'')
    (demand (\<not> record_frozen d (dr_record_id x)) (Raised ''draft_rating_frozen_insert'')
    (demand (dr_fc_id x \<notin> set (map dr_fc_id (record_ratings d (dr_record_id x)))) UniqueIndex
    (demand (record_pinned d (dr_record_id x) (dr_version_id x)
        \<and> list_ex (\<lambda>f. fc_id f = dr_fc_id x \<and> fc_version_id f = dr_version_id x)
            (form_competencies (catalog d))) ForeignKey
    (Inr (d\<lparr>draft_ratings := draft_ratings d @ [x]\<rparr>)))))"

definition insert_modifier :: "int \<Rightarrow> int \<Rightarrow> int \<Rightarrow> db \<Rightarrow> db_error + db" where
  "insert_modifier rating_id version modifier d =
     demand (\<not> (case find (\<lambda>x. dr_id x = rating_id) (draft_ratings d) of
                  None \<Rightarrow> False | Some x \<Rightarrow> record_frozen d (dr_record_id x)))
       (Raised ''draft_rating_modifier_frozen_insert'')
    (demand (\<not> list_ex (\<lambda>m. dm_rating_id m = rating_id \<and> dm_modifier_id m = modifier) (draft_modifiers d))
       UniqueIndex
    (demand (list_ex (\<lambda>x. dr_id x = rating_id \<and> dr_version_id x = version) (draft_ratings d)
        \<and> modifier_pinned (catalog d) version modifier) ForeignKey
    (Inr (d\<lparr>draft_modifiers := draft_modifiers d @
       [\<lparr>dm_id = next_id (map dm_id (draft_modifiers d)), dm_rating_id = rating_id,
         dm_version_id = version, dm_modifier_id = modifier\<rparr>]\<rparr>))))"

definition insert_narrative :: "draft_narrative_row \<Rightarrow> db \<Rightarrow> db_error + db" where
  "insert_narrative x d =
     demand (\<not> record_frozen d (dn_record_id x)) (Raised ''draft_narrative_frozen_insert'')
    (demand (dn_fn_id x \<notin> set (map dn_fn_id (record_narratives d (dn_record_id x)))) UniqueIndex
    (demand (record_pinned d (dn_record_id x) (dn_version_id x)
        \<and> list_ex (\<lambda>f. fn_id f = dn_fn_id x \<and> fn_version_id f = dn_version_id x)
            (form_narratives (catalog d))) ForeignKey
    (Inr (d\<lparr>draft_narratives := draft_narratives d @ [x]\<rparr>))))"

fun write_modifiers :: "int \<Rightarrow> int \<Rightarrow> int list \<Rightarrow> int list \<Rightarrow> db \<Rightarrow> db_error + db" where
  "write_modifiers rating_id version applied [] d = Inr d"
| "write_modifiers rating_id version applied (m # ms) d =
     (if m \<in> set applied then write_modifiers rating_id version applied ms d
      else seq (insert_modifier rating_id version m d)
             (write_modifiers rating_id version (m # applied) ms))"

fun write_ratings :: "record_row \<Rightarrow> rating_entry list \<Rightarrow> db \<Rightarrow> db_error + db" where
  "write_ratings r [] d = Inr d"
| "write_ratings r (x # xs) d =
     (let i = next_id (map dr_id (draft_ratings d)) in
      seq (insert_rating
             \<lparr>dr_id = i, dr_record_id = r_id r, dr_version_id = r_version_id r, dr_fc_id = re_fc x,
              dr_value = re_value x, dr_not_observed = re_not_observed x\<rparr> d) (\<lambda>d.
      seq (write_modifiers i (r_version_id r) [] (re_modifiers x) d)
        (write_ratings r xs)))"

fun write_narratives :: "record_row \<Rightarrow> narrative_entry list \<Rightarrow> db \<Rightarrow> db_error + db" where
  "write_narratives r [] d = Inr d"
| "write_narratives r (x # xs) d =
     seq (insert_narrative
            \<lparr>dn_id = next_id (map dn_id (draft_narratives d)), dn_record_id = r_id r,
             dn_version_id = r_version_id r, dn_fn_id = ne_fn x, dn_text = ne_text x\<rparr> d)
       (write_narratives r xs)"

definition event_mark_of :: "db \<Rightarrow> int \<Rightarrow> int" where
  "event_mark_of d record_id = (case open_scope d record_id of None \<Rightarrow> 0 | Some s \<Rightarrow> oa_event_mark s)"

definition attribute_contribution :: "int \<Rightarrow> int \<Rightarrow> int \<Rightarrow> db \<Rightarrow> db_error + db" where
  "attribute_contribution record_id actor now d =
     (let coalesce =
        (case latest_by ce_id (events_after d record_id (event_mark_of d record_id)) of
           None \<Rightarrow> False
         | Some e \<Rightarrow> ce_kind e = Contributed \<and> ce_actor e = actor) in
      if coalesce then Inr d else append_event record_id Contributed actor None now d)"

definition save ::
    "db \<Rightarrow> clock \<Rightarrow> db \<Rightarrow> int \<Rightarrow> int \<Rightarrow> int \<Rightarrow> draft_content \<Rightarrow> (draft_refusal, db \<times> int) outcome" where
  "save pre clk d actor record_id revision input =
     (case load_record pre record_id of
        None \<Rightarrow> refuse DrNoSuchRecord
      | Some r \<Rightarrow>
          if \<not> may_contribute pre actor r then refuse DrCapabilityRequired
          else case frozen_refusal (status_of d record_id) of
            Some refusal \<Rightarrow> refuse refusal
          | None \<Rightarrow>
              fetch_one (map_option r_revision (record_of d record_id)) (\<lambda>current.
              if revision \<noteq> current then refuse DrStaleSave
              else case check_ratings (catalog d) r [] (dc_ratings input) of
                Inl e \<Rightarrow> Inl e
              | Inr _ \<Rightarrow>
                  (case check_narratives (catalog d) r [] (dc_narratives input) of
                     Inl e \<Rightarrow> Inl e
                   | Inr _ \<Rightarrow>
                       run (clear_copy record_id d) (\<lambda>d.
                       run (write_ratings r (dc_ratings input) d) (\<lambda>d.
                       run (write_narratives r (dc_narratives input) d) (\<lambda>d.
                       run (attribute_contribution record_id actor (clk 0)
                              (set_revision record_id (current + 1) d)) (\<lambda>d.
                       Inr (d, current + 1))))))))"

end
