(* ===== verification/Copies.thy ===== *)
theory Copies
  imports Content
begin

text \<open>
  Correctness of the working copy: a save that succeeds stores exactly its input, up to the
  order of entries and repeated modifiers, in its own record only, and moves the revision by
  one; a save based on another revision is refused.
\<close>

section \<open>The copy's tables\<close>

definition copy_ok :: "db \<Rightarrow> bool" where
  "copy_ok d \<longleftrightarrow>
     ids_ok (map dr_id (draft_ratings d)) \<and>
     (\<forall>m \<in> set (draft_modifiers d). dm_rating_id m \<in> dr_id ` set (draft_ratings d))"

definition norm_entry :: "rating_entry \<Rightarrow> rating_entry" where
  "norm_entry x = x\<lparr>re_modifiers := sort (remdups (re_modifiers x))\<rparr>"

definition norm_content :: "draft_content \<Rightarrow> draft_content" where
  "norm_content c =
     \<lparr>dc_ratings = sort_key re_fc (map norm_entry (dc_ratings c)),
      dc_narratives = sort_key ne_fn (dc_narratives c)\<rparr>"

lemma insort_key_map: "map f (insort_key (\<lambda>x. g (f x)) a xs) = insort_key g (f a) (map f xs)"
  by (induction xs) auto

lemma sort_key_map: "map f (sort_key (\<lambda>x. g (f x)) xs) = sort_key g (map f xs)"
  by (induction xs) (simp_all add: insort_key_map)

text \<open>The entries of a record in the order of their rows; \<open>content\<close> sorts them.\<close>

definition entries :: "db \<Rightarrow> int \<Rightarrow> rating_entry list" where
  "entries d r = map (rating_entry_of d) (record_ratings d r)"

definition texts :: "db \<Rightarrow> int \<Rightarrow> narrative_entry list" where
  "texts d r = map (\<lambda>n. \<lparr>ne_fn = dn_fn_id n, ne_text = dn_text n\<rparr>) (record_narratives d r)"

lemma content_eq: "content d r = \<lparr>dc_ratings = sort_key re_fc (entries d r),
    dc_narratives = sort_key ne_fn (texts d r)\<rparr>"
proof -
  have "map (rating_entry_of d) (sort_key dr_fc_id xs) = sort_key re_fc (map (rating_entry_of d) xs)"
    for xs
    using sort_key_map [where f = "rating_entry_of d" and g = re_fc] by (simp add: rating_entry_of_def)
  moreover have "map (\<lambda>n. \<lparr>ne_fn = dn_fn_id n, ne_text = dn_text n\<rparr>) (sort_key dn_fn_id xs) =
      sort_key ne_fn (map (\<lambda>n. \<lparr>ne_fn = dn_fn_id n, ne_text = dn_text n\<rparr>) xs)" for xs
    using sort_key_map [where f = "\<lambda>n. \<lparr>ne_fn = dn_fn_id n, ne_text = dn_text n\<rparr>" and g = ne_fn]
    by simp
  ultimately show ?thesis
    by (simp add: content_def entries_def texts_def)
qed

section \<open>The writes\<close>

fun unapplied :: "int list \<Rightarrow> int list \<Rightarrow> int list" where
  "unapplied seen [] = []"
| "unapplied seen (m # ms) =
     (if m \<in> set seen then unapplied seen ms else m # unapplied (m # seen) ms)"

lemma unapplied_distinct: "distinct (unapplied seen ms) \<and> set (unapplied seen ms) = set ms - set seen"
  by (induction seen ms rule: unapplied.induct) auto

lemma sort_unapplied: "sort (unapplied [] ms) = sort (remdups ms)"
  using unapplied_distinct [of "[]" ms]
  by (intro sorted_distinct_set_unique) simp_all

lemma insert_modifier_Inr:
  "insert_modifier i v m d = Inr d' \<Longrightarrow> \<exists>x. dm_rating_id x = i \<and> dm_modifier_id x = m \<and>
     d' = d\<lparr>draft_modifiers := draft_modifiers d @ [x]\<rparr>"
  by (rule exI [of _ "\<lparr>dm_id = next_id (map dm_id (draft_modifiers d)), dm_rating_id = i,
      dm_version_id = v, dm_modifier_id = m\<rparr>"]) (simp add: insert_modifier_def guard_simps)

lemma write_modifiers_Inr:
  "write_modifiers i v applied ms d = Inr d' \<Longrightarrow>
    \<exists>xs. d' = d\<lparr>draft_modifiers := draft_modifiers d @ xs\<rparr> \<and>
      (\<forall>x \<in> set xs. dm_rating_id x = i) \<and> map dm_modifier_id xs = unapplied applied ms"
proof (induction applied ms arbitrary: d rule: unapplied.induct)
  case (1 seen)
  then show ?case by (auto intro: exI [of _ "[]"])
next
  case (2 seen m ms)
  show ?case
  proof (cases "m \<in> set seen")
    case True
    with 2 show ?thesis by simp
  next
    case False
    with 2(3) obtain d1 where d1: "insert_modifier i v m d = Inr d1"
      "write_modifiers i v (m # seen) ms d1 = Inr d'"
      by (auto simp: guard_simps)
    obtain x where x: "dm_rating_id x = i" "dm_modifier_id x = m"
      "d1 = d\<lparr>draft_modifiers := draft_modifiers d @ [x]\<rparr>"
      using insert_modifier_Inr [OF d1(1)] by blast
    obtain xs where xs: "d' = d1\<lparr>draft_modifiers := draft_modifiers d1 @ xs\<rparr>"
      "\<forall>x \<in> set xs. dm_rating_id x = i" "map dm_modifier_id xs = unapplied (m # seen) ms"
      using 2(2) [OF False d1(2)] by blast
    show ?thesis
      using x xs False by (intro exI [of _ "x # xs"]) simp
  qed
qed

definition new_rating :: "db \<Rightarrow> record_row \<Rightarrow> rating_entry \<Rightarrow> draft_rating_row" where
  "new_rating d r x =
     \<lparr>dr_id = next_id (map dr_id (draft_ratings d)), dr_record_id = r_id r,
      dr_version_id = r_version_id r, dr_fc_id = re_fc x, dr_value = re_value x,
      dr_not_observed = re_not_observed x\<rparr>"

lemma insert_rating_Inr:
  "insert_rating x d = Inr d' \<Longrightarrow> d' = d\<lparr>draft_ratings := draft_ratings d @ [x]\<rparr>"
  by (simp add: insert_rating_def guard_simps)

text \<open>One rating with its modifiers.\<close>

lemma rating_written:
  assumes ok: "copy_ok d"
    and xs: "\<forall>m \<in> set ms. dm_rating_id m = dr_id (new_rating d r x)"
      "map dm_modifier_id ms = unapplied [] (re_modifiers x)"
    and d': "d' = d\<lparr>draft_ratings := draft_ratings d @ [new_rating d r x],
      draft_modifiers := draft_modifiers d @ ms\<rparr>"
  shows "copy_ok d'" and "rating_entry_of d' (new_rating d r x) = norm_entry x"
    and "y \<in> set (draft_ratings d) \<Longrightarrow> rating_modifiers_of d' (dr_id y) = rating_modifiers_of d (dr_id y)"
proof -
  let ?i = "dr_id (new_rating d r x)"
  have fresh: "?i \<notin> dr_id ` set (draft_ratings d)"
    using next_id_fresh [of "map dr_id (draft_ratings d)"] by (simp add: new_rating_def)
  show "copy_ok d'"
    using ok xs(1) by (auto simp: copy_ok_def d' new_rating_def)
  have none: "filter (\<lambda>m. dm_rating_id m = ?i) (draft_modifiers d) = []"
    using ok fresh unfolding copy_ok_def filter_empty_conv by metis
  have "filter (\<lambda>m. dm_rating_id m = ?i) ms = ms"
    using xs(1) by (simp add: filter_id_conv)
  then have "rating_modifiers_of d' ?i = sort (remdups (re_modifiers x))"
    using none xs(2) by (simp add: rating_modifiers_of_def d' sort_unapplied)
  then show "rating_entry_of d' (new_rating d r x) = norm_entry x"
    by (simp add: rating_entry_of_def norm_entry_def new_rating_def)
  assume "y \<in> set (draft_ratings d)"
  then have "dr_id y \<noteq> ?i" using fresh by (metis imageI)
  then have "filter (\<lambda>m. dm_rating_id m = dr_id y) ms = []"
    using xs(1) by (auto simp: filter_empty_conv)
  then show "rating_modifiers_of d' (dr_id y) = rating_modifiers_of d (dr_id y)"
    by (simp add: rating_modifiers_of_def d')
qed

lemma write_ratings_effect:
  "write_ratings r xs d = Inr d' \<Longrightarrow> copy_ok d \<Longrightarrow>
    copy_ok d' \<and>
    (\<exists>rs ms. d' = d\<lparr>draft_ratings := draft_ratings d @ rs, draft_modifiers := draft_modifiers d @ ms\<rparr> \<and>
      (\<forall>x \<in> set rs. dr_record_id x = r_id r) \<and> map (rating_entry_of d') rs = map norm_entry xs \<and>
      (\<forall>y \<in> set (draft_ratings d). rating_modifiers_of d' (dr_id y) = rating_modifiers_of d (dr_id y)))"
proof (induction xs arbitrary: d)
  case Nil
  then show ?case by (auto intro!: exI [of _ "[]"])
next
  case (Cons x xs)
  let ?x = "new_rating d r x"
  from Cons.prems(1) obtain d1 d2 where d1: "insert_rating ?x d = Inr d1"
    and d2: "write_modifiers (dr_id ?x) (r_version_id r) [] (re_modifiers x) d1 = Inr d2"
    and rest: "write_ratings r xs d2 = Inr d'"
    by (auto simp: guard_simps Let_def new_rating_def)
  obtain ms where ms: "d2 = d1\<lparr>draft_modifiers := draft_modifiers d1 @ ms\<rparr>"
    "\<forall>m \<in> set ms. dm_rating_id m = dr_id ?x" "map dm_modifier_id ms = unapplied [] (re_modifiers x)"
    using write_modifiers_Inr [OF d2] by blast
  then have d2': "d2 = d\<lparr>draft_ratings := draft_ratings d @ [?x], draft_modifiers := draft_modifiers d @ ms\<rparr>"
    using insert_rating_Inr [OF d1] by simp
  note w = rating_written [OF Cons.prems(2) ms(2,3) d2']
  obtain rs ms' where IH: "copy_ok d'"
    "d' = d2\<lparr>draft_ratings := draft_ratings d2 @ rs, draft_modifiers := draft_modifiers d2 @ ms'\<rparr>"
    "\<forall>x \<in> set rs. dr_record_id x = r_id r" "map (rating_entry_of d') rs = map norm_entry xs"
    "\<forall>y \<in> set (draft_ratings d2). rating_modifiers_of d' (dr_id y) = rating_modifiers_of d2 (dr_id y)"
    using Cons.IH [OF rest w(1)] by blast
  have "rating_entry_of d' ?x = norm_entry x"
    using IH(5) w(2) by (simp add: d2' rating_entry_of_def)
  moreover have "\<forall>y \<in> set (draft_ratings d). rating_modifiers_of d' (dr_id y) = rating_modifiers_of d (dr_id y)"
    using IH(5) w(3) by (simp add: d2')
  moreover have "d' = d\<lparr>draft_ratings := draft_ratings d @ (?x # rs),
      draft_modifiers := draft_modifiers d @ (ms @ ms')\<rparr>"
    using IH(2) d2' by simp
  ultimately show ?case
    using IH(1,3,4) by (intro conjI exI [of _ "?x # rs"] exI [of _ "ms @ ms'"]) (simp_all add: new_rating_def)
qed

lemma write_narratives_effect:
  "write_narratives r xs d = Inr d' \<Longrightarrow>
    \<exists>ns. d' = d\<lparr>draft_narratives := draft_narratives d @ ns\<rparr> \<and>
      (\<forall>n \<in> set ns. dn_record_id n = r_id r) \<and>
      map (\<lambda>n. \<lparr>ne_fn = dn_fn_id n, ne_text = dn_text n\<rparr>) ns = xs"
proof (induction xs arbitrary: d)
  case Nil
  then show ?case by (auto intro: exI [of _ "[]"])
next
  case (Cons x xs)
  let ?n = "\<lparr>dn_id = next_id (map dn_id (draft_narratives d)), dn_record_id = r_id r,
    dn_version_id = r_version_id r, dn_fn_id = ne_fn x, dn_text = ne_text x\<rparr>"
  from Cons.prems obtain d1 where d1: "insert_narrative ?n d = Inr d1" "write_narratives r xs d1 = Inr d'"
    by (auto simp: guard_simps)
  from d1(1) have "d1 = d\<lparr>draft_narratives := draft_narratives d @ [?n]\<rparr>"
    by (simp add: insert_narrative_def guard_simps)
  moreover obtain ns where "d' = d1\<lparr>draft_narratives := draft_narratives d1 @ ns\<rparr>"
    "\<forall>n \<in> set ns. dn_record_id n = r_id r"
    "map (\<lambda>n. \<lparr>ne_fn = dn_fn_id n, ne_text = dn_text n\<rparr>) ns = xs"
    using Cons.IH [OF d1(2)] by blast
  ultimately show ?case
    by (intro exI [of _ "?n # ns"]) simp
qed


section \<open>A save\<close>

lemma clear_copy_Inr:
  "clear_copy r d = Inr d' \<Longrightarrow>
    d' = d\<lparr>draft_modifiers := filter (\<lambda>m. dm_rating_id m \<notin> dr_id ` set (record_ratings d r)) (draft_modifiers d),
            draft_ratings := filter (\<lambda>x. dr_record_id x \<noteq> r) (draft_ratings d),
            draft_narratives := filter (\<lambda>x. dn_record_id x \<noteq> r) (draft_narratives d)\<rparr>"
  by (simp add: clear_copy_def guard_simps Let_def)

lemma clear_copy_effect:
  assumes ok: "copy_ok d" and c: "clear_copy r d = Inr d'"
  shows "copy_ok d'" and "entries d' r = []" and "texts d' r = []"
    and "q \<noteq> r \<Longrightarrow> entries d' q = entries d q \<and> texts d' q = texts d q"
proof -
  note d' = clear_copy_Inr [OF c]
  have uniq: "x = y" if "x \<in> set (draft_ratings d)" "y \<in> set (draft_ratings d)" "dr_id x = dr_id y" for x y
    using that ok ids_ok_distinct unfolding copy_ok_def by (metis (full_types) distinct_map inj_onD)
  show "copy_ok d'"
    unfolding copy_ok_def
  proof (intro conjI ballI)
    show "ids_ok (map dr_id (draft_ratings d'))"
      using ok by (simp add: d' copy_ok_def ids_ok_filter)
    fix m assume "m \<in> set (draft_modifiers d')"
    then have m: "m \<in> set (draft_modifiers d)" "dm_rating_id m \<notin> dr_id ` set (record_ratings d r)"
      by (auto simp: d')
    then obtain x where "x \<in> set (draft_ratings d)" "dm_rating_id m = dr_id x"
      using ok by (auto simp: copy_ok_def)
    with m(2) show "dm_rating_id m \<in> dr_id ` set (draft_ratings d')"
      by (auto simp: d' record_ratings_def)
  qed
  show "entries d' r = []" "texts d' r = []"
    by (simp_all add: d' entries_def texts_def record_ratings_def record_narratives_def)
  assume q: "q \<noteq> r"
  then have rows: "record_ratings d' q = record_ratings d q" "record_narratives d' q = record_narratives d q"
    by (simp_all add: d' record_ratings_def record_narratives_def)
      (metis (mono_tags, lifting) filter_cong)+
  have "rating_modifiers_of d' (dr_id x) = rating_modifiers_of d (dr_id x)" if "x \<in> set (record_ratings d q)" for x
  proof -
    have "\<forall>y \<in> set (record_ratings d r). dr_id y \<noteq> dr_id x"
      using that q uniq by (auto simp: record_ratings_def)
    then have "filter (\<lambda>m. dm_rating_id m = dr_id x) (draft_modifiers d') =
        filter (\<lambda>m. dm_rating_id m = dr_id x) (draft_modifiers d)"
      by (auto simp: d' intro!: filter_cong )
    then show ?thesis by (simp add: rating_modifiers_of_def)
  qed
  with rows show "entries d' q = entries d q \<and> texts d' q = texts d q"
    by (simp add: entries_def texts_def rating_entry_of_def)
qed


text \<open>What a successful save did, in one statement.\<close>

lemma attribute_contribution_Inr:
  "attribute_contribution r a n d = Inr d' \<Longrightarrow>
    d' = d \<or> d' = d\<lparr>contributor_events := contributor_events d @ [new_event d r Contributed a None n]\<rparr>"
  by (auto simp: attribute_contribution_def Let_def dest!: append_event_Inr split: if_splits)

lemma copy_frame:
  assumes "draft_ratings d' = draft_ratings d" "draft_modifiers d' = draft_modifiers d"
    "draft_narratives d' = draft_narratives d"
  shows "copy_ok d' = copy_ok d" "entries d' = entries d" "texts d' = texts d" "content d' = content d"
proof -
  have "rating_entry_of d' = rating_entry_of d"
    using assms by (simp add: fun_eq_iff rating_entry_of_def rating_modifiers_of_def)
  then show e: "entries d' = entries d" "texts d' = texts d"
    using assms by (simp_all add: entries_def texts_def record_ratings_def record_narratives_def fun_eq_iff)
  then show "content d' = content d"
    by (simp add: content_eq fun_eq_iff)
  show "copy_ok d' = copy_ok d"
    using assms by (simp add: copy_ok_def)
qed

definition save_frame :: "db \<Rightarrow> db \<Rightarrow> bool" where
  "save_frame d d' \<longleftrightarrow>
     (\<exists>rs ms ns. d' = d\<lparr>draft_ratings := rs, draft_modifiers := ms, draft_narratives := ns\<rparr>)"

lemma replacement_effect:
  assumes ok: "copy_ok d"
    and da: "clear_copy r d = Inr da" and db: "write_ratings w (dc_ratings input) da = Inr db"
    and dc: "write_narratives w (dc_narratives input) db = Inr dc" and wid: "r_id w = r"
  shows "save_frame d dc" and "copy_ok dc" and "content dc r = norm_content input"
    and "q \<noteq> r \<Longrightarrow> content dc q = content d q"
proof -
  note cleared = clear_copy_effect [OF ok da]
  obtain rs ms where rs: "copy_ok db"
    "db = da\<lparr>draft_ratings := draft_ratings da @ rs, draft_modifiers := draft_modifiers da @ ms\<rparr>"
    "\<forall>x \<in> set rs. dr_record_id x = r" "map (rating_entry_of db) rs = map norm_entry (dc_ratings input)"
    "\<forall>y \<in> set (draft_ratings da). rating_modifiers_of db (dr_id y) = rating_modifiers_of da (dr_id y)"
    using write_ratings_effect [OF db cleared(1)] wid by blast
  obtain ns where ns: "dc = db\<lparr>draft_narratives := draft_narratives db @ ns\<rparr>"
    "\<forall>n \<in> set ns. dn_record_id n = r"
    "map (\<lambda>n. \<lparr>ne_fn = dn_fn_id n, ne_text = dn_text n\<rparr>) ns = dc_narratives input"
    using write_narratives_effect [OF dc] wid by blast
  have same: "rating_entry_of dc = rating_entry_of db"
    by (simp add: fun_eq_iff rating_entry_of_def rating_modifiers_of_def ns(1))
  have keep: "map (rating_entry_of db) (record_ratings da q) = entries da q" for q
    using rs(5) by (auto simp: entries_def rating_entry_of_def record_ratings_def)
  have new: "filter (\<lambda>x. dr_record_id x = q) rs = (if q = r then rs else [])"
    "filter (\<lambda>x. dn_record_id x = q) ns = (if q = r then ns else [])" for q
    using rs(3) ns(2) by (auto simp: filter_id_conv filter_empty_conv)
  have e: "entries dc q = entries da q @ (if q = r then map norm_entry (dc_ratings input) else [])" for q
  proof -
    have "record_ratings dc q = record_ratings da q @ (if q = r then rs else [])"
      using new(1) [of q] by (simp add: record_ratings_def ns(1) rs(2))
    then show ?thesis
      using keep [of q] rs(4) by (simp add: entries_def [of dc] same)
  qed
  have t: "texts dc q = texts da q @ (if q = r then dc_narratives input else [])" for q
    using new(2) [of q] ns(3) by (simp add: texts_def record_narratives_def ns(1) rs(2))
  show "save_frame d dc"
    unfolding save_frame_def
    by (intro exI [of _ "draft_ratings dc"] exI [of _ "draft_modifiers dc"] exI [of _ "draft_narratives dc"])
      (simp add: ns(1) rs(2) clear_copy_Inr [OF da])
  show "copy_ok dc"
    using rs(1) by (simp add: copy_ok_def ns(1))
  show "content dc r = norm_content input"
    by (simp add: content_eq norm_content_def e t cleared(2,3))
  assume "q \<noteq> r"
  then show "content dc q = content d q"
    using cleared(4) [of q] by (simp add: content_eq e t)
qed

lemma save_effect:
  assumes call: "save pre clk d actor r rv input = Inr (d', n)" and ok: "copy_ok d"
  shows "\<exists>w cur d1. load_record pre r = Some w \<and> may_contribute pre actor w \<and>
    frozen_refusal (status_of d r) = None \<and> record_of d r = Some cur \<and> rv = r_revision cur \<and>
    n = rv + 1 \<and> save_frame d d1 \<and> copy_ok d1 \<and>
    check_ratings (catalog d) w [] (dc_ratings input) = Inr () \<and>
    check_narratives (catalog d) w [] (dc_narratives input) = Inr () \<and>
    attribute_contribution r actor (clk 0) (set_revision r n d1) = Inr d' \<and>
    content d1 r = norm_content input \<and> (\<forall>q. q \<noteq> r \<longrightarrow> content d1 q = content d q)"
proof -
  obtain w cur da db dc where w: "load_record pre r = Some w" "may_contribute pre actor w"
    and fr: "frozen_refusal (status_of d r) = None" and cur: "record_of d r = Some cur" "rv = r_revision cur"
    and n: "n = rv + 1"
    and checks: "check_ratings (catalog d) w [] (dc_ratings input) = Inr ()"
      "check_narratives (catalog d) w [] (dc_narratives input) = Inr ()"
    and da: "clear_copy r d = Inr da" and db: "write_ratings w (dc_ratings input) da = Inr db"
    and dc: "write_narratives w (dc_narratives input) db = Inr dc"
    and att: "attribute_contribution r actor (clk 0) (set_revision r n dc) = Inr d'"
    using call unfolding save_def guard_simps
    by (auto simp: guard_simps split: if_splits)
  have wid: "r_id w = r"
    using w(1) by (auto simp: load_record_def record_of_def dest: find_eq_SomeD)
  show ?thesis
    using w fr cur n checks att replacement_effect [OF ok da db dc wid] by blast
qed

text \<open>The saved copy reads back as what was saved, and no other record's copy changed.\<close>

lemma save_content:
  assumes call: "save pre clk d actor r rv input = Inr (d', n)" and ok: "copy_ok d"
  shows "content d' r = norm_content input" and "q \<noteq> r \<Longrightarrow> content d' q = content d q" and "copy_ok d'"
proof -
  obtain d1 where d1: "copy_ok d1" "content d1 r = norm_content input"
    "\<forall>q. q \<noteq> r \<longrightarrow> content d1 q = content d q"
    and att: "attribute_contribution r actor (clk 0) (set_revision r n d1) = Inr d'"
    using save_effect [OF call ok] by blast
  have t: "draft_ratings d' = draft_ratings d1" "draft_modifiers d' = draft_modifiers d1"
    "draft_narratives d' = draft_narratives d1"
    using attribute_contribution_Inr [OF att] by (auto simp: set_revision_def map_record_def)
  show "content d' r = norm_content input" "q \<noteq> r \<Longrightarrow> content d' q = content d q" "copy_ok d'"
    using d1 copy_frame [OF t] by simp_all
qed

end
