(* ===== verification/Completion.thy ===== *)
theory Completion
  imports Content
begin

text \<open>
  The completion rules of a pinned version (finalization.rs, migration 0010): submission and
  finalization share them. A missing policy row fails closed.
\<close>

record policy =
  po_review_approved :: bool
  po_required_narratives :: bool
  po_ratings_complete :: bool

definition policy_of :: "catalog \<Rightarrow> int \<Rightarrow> policy" where
  "policy_of c version =
     (case find (\<lambda>p. fp_version_id p = version) (policies c) of
        None \<Rightarrow> \<lparr>po_review_approved = True, po_required_narratives = True, po_ratings_complete = True\<rparr>
      | Some p \<Rightarrow> \<lparr>po_review_approved = fp_review_approved p,
                   po_required_narratives = fp_required_narratives p,
                   po_ratings_complete = fp_ratings_complete p\<rparr>)"

definition form_prompts :: "catalog \<Rightarrow> record_row \<Rightarrow> form_narrative_row list" where
  "form_prompts c r =
     filter (\<lambda>n. fn_form_id n = r_form_id r \<and> fn_version_id n = r_version_id r) (form_narratives c)"

definition form_lines :: "catalog \<Rightarrow> record_row \<Rightarrow> form_competency_row list" where
  "form_lines c r =
     filter (\<lambda>x. fc_form_id x = r_form_id r \<and> fc_version_id x = r_version_id r) (form_competencies c)"

definition narrative_text :: "db \<Rightarrow> int \<Rightarrow> int \<Rightarrow> string option" where
  "narrative_text d r n = map_option dn_text (find (\<lambda>x. dn_fn_id x = n) (record_narratives d r))"

definition rating_of :: "db \<Rightarrow> int \<Rightarrow> int \<Rightarrow> draft_rating_row option" where
  "rating_of d r fc = find (\<lambda>x. dr_fc_id x = fc) (record_ratings d r)"

definition narratives_incomplete :: "db \<Rightarrow> record_row \<Rightarrow> bool" where
  "narratives_incomplete d r \<longleftrightarrow>
     list_ex (\<lambda>n. case narrative_text d (r_id r) (fn_id n) of None \<Rightarrow> True | Some t \<Rightarrow> trim t = [])
       (filter fn_required (form_prompts (catalog d) r))"

definition joined_scale :: "catalog \<Rightarrow> form_competency_row \<Rightarrow> rating_scale_row option" where
  "joined_scale c x = find (\<lambda>s. rs_id s = fc_scale_id x) (rating_scales c)"

definition unrated :: "db \<Rightarrow> int \<Rightarrow> form_competency_row \<Rightarrow> bool" where
  "unrated d r x \<longleftrightarrow>
     (case joined_scale (catalog d) x of
        None \<Rightarrow> False
      | Some s \<Rightarrow> rs_kind s \<noteq> NarrativeOnly \<and>
          (case rating_of d r (fc_id x) of
             None \<Rightarrow> True
           | Some v \<Rightarrow> dr_value v = None \<and> \<not> dr_not_observed v))"

definition ratings_incomplete :: "db \<Rightarrow> record_row \<Rightarrow> bool" where
  "ratings_incomplete d r \<longleftrightarrow> list_ex (unrated d (r_id r)) (form_lines (catalog d) r)"

text \<open>The rules a policy switches on, met.\<close>

definition complete :: "db \<Rightarrow> record_row \<Rightarrow> bool" where
  "complete d r \<longleftrightarrow>
     (po_required_narratives (policy_of (catalog d) (r_version_id r)) \<longrightarrow> \<not> narratives_incomplete d r) \<and>
     (po_ratings_complete (policy_of (catalog d) (r_version_id r)) \<longrightarrow> \<not> ratings_incomplete d r)"

text \<open>Completeness reads the working copy and the catalog only.\<close>

lemma complete_frame:
  assumes "draft_ratings d' = draft_ratings d" "draft_narratives d' = draft_narratives d"
    "catalog d' = catalog d"
  shows "complete d' = complete d"
proof -
  have rows: "record_ratings d' = record_ratings d" "record_narratives d' = record_narratives d"
    using assms by (simp_all add: record_ratings_def record_narratives_def fun_eq_iff)
  have "unrated d' = unrated d" "narrative_text d' = narrative_text d"
    unfolding unrated_def [abs_def] narrative_text_def [abs_def] rating_of_def [abs_def] assms(3) rows
    by (rule refl)+
  then show ?thesis
    unfolding complete_def [abs_def] narratives_incomplete_def [abs_def]
      ratings_incomplete_def [abs_def] assms(3)
    by simp
qed

end
