(* ===== verification/Histories.thy ===== *)
theory Histories
  imports Lifecycle
begin

text \<open>
  Correctness of the lifecycle streams: what a successful call changed, the invariant of both
  streams, and the two small machines (enrollment status, phase position) that the derived
  state refines.
\<close>

section \<open>What a successful call did\<close>

text \<open>
  An insert extends its table with exactly the row, whatever constraints it passed.
\<close>

lemma insert_enrollment_event_Inr [row_simps]:
  "insert_enrollment_event e d = Inr d' \<Longrightarrow>
     d' = d\<lparr>enrollment_events := enrollment_events d @ [e]\<rparr>"
  by (simp add: insert_enrollment_event_def guard_simps)

lemma insert_phase_event_Inr:
  "insert_phase_event p d = Inr d' \<Longrightarrow> d' = d\<lparr>phase_events := phase_events d @ [p]\<rparr>"
  by (simp add: insert_phase_event_def guard_simps)

definition repinned :: "int \<Rightarrow> int \<Rightarrow> enrollment_row \<Rightarrow> enrollment_row" where
  "repinned i to r = (if e_id r = i then r\<lparr>e_version_id := to\<rparr> else r)"

lemma repoint_Inr:
  "repoint i to d = Inr d' \<Longrightarrow> d' = d\<lparr>enrollments := map (repinned i to) (enrollments d)\<rparr>"
proof (cases "enrollment_of d i")
  case None
  then have "map (repinned i to) (enrollments d) = enrollments d"
    by (intro map_idI) (auto simp: enrollment_of_def find_None_iff repinned_def)
  moreover assume "repoint i to d = Inr d'"
  ultimately show ?thesis using None by (simp add: repoint_def)
qed (simp add: repoint_def guard_simps repinned_def [abs_def])

definition pinned_enrollments :: "int \<Rightarrow> int option \<Rightarrow> enrollment_row list \<Rightarrow> enrollment_row list" where
  "pinned_enrollments i to es = (case to of None \<Rightarrow> es | Some v \<Rightarrow> map (repinned i v) es)"

text \<open>The event a successful call recorded, and the database it left.\<close>

definition after_enrollment_event :: "db \<Rightarrow> enrollment_event_row \<Rightarrow> db" where
  "after_enrollment_event d ev =
     d\<lparr>enrollment_events := enrollment_events d @ [ev],
       enrollments := pinned_enrollments (ee_enrollment_id ev) (ee_to_version ev) (enrollments d)\<rparr>"

definition after_phase_event :: "db \<Rightarrow> phase_event_row \<Rightarrow> db" where
  "after_phase_event d p = d\<lparr>phase_events := phase_events d @ [p]\<rparr>"

lemma write_enrollment_event_effect:
  assumes "write_enrollment_event clk d actor i kind reason fv tv ak tr = Inr (d', eid)"
  shows "journaled (after_enrollment_event d (new_enrollment_event d (clk 0) actor i kind reason fv tv)) d'
    \<and> eid = next_id (map ee_id (enrollment_events d))"
  using assms
  by (cases tv) (auto simp: write_enrollment_event_def guard_simps Let_def pinned_enrollments_def
      after_enrollment_event_def
      dest!: insert_enrollment_event_Inr repoint_Inr journaled_record_for_subject)

lemma record_enrollment_event_effect:
  assumes "record_enrollment_event pre clk d actor i kind reason tov = Inr (d', eid)"
  shows "\<exists>e st fv tv.
    user_has pre actor AssignTraining \<and> enrollment_of d i = Some e \<and> status d i = Some st \<and>
    (kind = EkReinstate \<longleftrightarrow> st \<noteq> Active) \<and> (kind \<noteq> EkComplete \<longrightarrow> trim reason \<noteq> []) \<and>
    (if kind = EkVersionChange
     then fv = Some (e_version_id e) \<and> tv = tov \<and> tov \<noteq> None \<and>
       version_change_refusal d i (e_user_id e) (e_version_id e) (the tov) = Inr None
     else fv = None \<and> tv = None) \<and>
    eid = next_id (map ee_id (enrollment_events d)) \<and>
    journaled (after_enrollment_event d
      (new_enrollment_event d (clk 0) actor i kind (trim reason) fv tv)) d'"
  using assms
  by (cases kind)
    (auto simp: record_enrollment_event_def guard_simps Let_def
      split: if_splits option.splits dest!: write_enrollment_event_effect)

lemma record_phase_event_effect:
  assumes "record_phase_event pre clk d actor i kind to eff reason = Inr (d', pid)"
  shows "\<exists>e fp tp t p.
    user_has pre actor AssignTraining \<and> enrollment_of d i = Some e \<and> status d i = Some Active \<and>
    phase_move d (e_version_id e) (map_option fst (current_phase d i)) (is_paused d i) kind to
      = Inr (fp, tp) \<and>
    t = (case eff of None \<Rightarrow> clk 0 | Some t \<Rightarrow> t) \<and> t \<le> clk 0 \<and>
    \<not> before t (latest_effective d i) \<and> \<not> before t (epoch_opened d i) \<and>
    pid = next_id (map pe_id (phase_events d)) \<and>
    p = new_phase_event d (clk 0) actor i kind fp tp t (trim reason) \<and>
    insert_phase_event p d = Inr (after_phase_event d p) \<and>
    journaled (after_phase_event d p) d'"
  using assms
  by (auto simp: record_phase_event_def guard_simps Let_def not_less after_phase_event_def
      dest: insert_phase_event_Inr dest!: journaled_record_for_subject)

section \<open>The invariant of the streams\<close>

definition per_enrollment_order :: "phase_event_row list \<Rightarrow> bool" where
  "per_enrollment_order ps \<longleftrightarrow>
     sorted_wrt (\<lambda>a b. pe_enrollment_id a = pe_enrollment_id b \<longrightarrow>
       pe_effective_at a \<le> pe_effective_at b) ps"

definition pin_follows_stream :: "db \<Rightarrow> bool" where
  "pin_follows_stream d \<longleftrightarrow>
     (\<forall>e \<in> set (enrollments d).
        case latest_by ee_id (version_changes d (e_id e)) of
          None \<Rightarrow> True
        | Some v \<Rightarrow> ee_to_version v = Some (e_version_id e))"

definition streams_ok :: "db \<Rightarrow> bool" where
  "streams_ok d \<longleftrightarrow>
     ids_ok (map ee_id (enrollment_events d)) \<and>
     ids_ok (map pe_id (phase_events d)) \<and>
     ids_ok (map e_id (enrollments d)) \<and>
     per_enrollment_order (phase_events d) \<and>
     (\<forall>p \<in> set (phase_events d).
        pe_effective_at p \<le> pe_recorded_at p \<and>
        (pe_epoch p = None \<or> pe_epoch p \<in> Some ` ee_id ` set (enrollment_events d)) \<and>
        (moving (pe_kind p) \<longrightarrow> joined_phase d (pe_to_phase p) \<noteq> None)) \<and>
     pin_follows_stream d"

lemma joined_phase_catalog: "catalog d' = catalog d \<Longrightarrow> joined_phase d' = joined_phase d"
  by (simp add: joined_phase_def phase_of_def fun_eq_iff split: option.splits)

lemma streams_ok_cong:
  assumes "enrollment_events d' = enrollment_events d" "phase_events d' = phase_events d"
    "enrollments d' = enrollments d" "catalog d' = catalog d"
  shows "streams_ok d' = streams_ok d"
  using assms joined_phase_catalog [of d' d]
  by (simp add: streams_ok_def pin_follows_stream_def version_changes_def)

lemma streams_ok_journaled: "journaled d d' \<Longrightarrow> streams_ok d' = streams_ok d"
  by (rule streams_ok_cong) (simp_all add: journaled_tables)

lemma phase_move_target:
  "phase_move d pin cur paused kind to = Inr (fp, tp) \<Longrightarrow> moving kind \<Longrightarrow>
    \<exists>t ph. tp = Some t \<and> phase_of d t = Some ph"
proof -
  assume a: "phase_move d pin cur paused kind to = Inr (fp, tp)" "moving kind"
  then obtain t where t: "tp = Some t"
    "find (\<lambda>p. ph_id p = t \<and> ph_version_id p = pin) (phases (catalog d)) \<noteq> None"
    by (auto simp: phase_move_def split: if_splits option.splits)
  then obtain p where "p \<in> set (phases (catalog d))" "ph_id p = t"
    by (auto simp: find_None_iff)
  then have "phase_of d t \<noteq> None"
    by (auto simp: phase_of_def find_None_iff)
  with t show ?thesis by auto
qed

lemma latest_effective_bound:
  "\<not> before t (latest_effective d i) \<Longrightarrow> q \<in> set (phase_events d) \<Longrightarrow> pe_enrollment_id q = i \<Longrightarrow>
    pe_effective_at q \<le> t"
proof -
  assume nb: "\<not> before t (latest_effective d i)" and q: "q \<in> set (phase_events d)" "pe_enrollment_id q = i"
  then have ne: "latest_effective d i \<noteq> None"
    by (auto simp: latest_effective_def filter_empty_conv)
  then obtain m where m: "latest_effective d i = Some m" by blast
  with q have "pe_effective_at q \<le> m"
    unfolding latest_effective_def by (intro max_id_ge) auto
  with nb m show ?thesis by (simp add: before_def)
qed

lemma record_phase_event_streams_ok:
  assumes ok: "streams_ok d"
    and call: "record_phase_event pre clk d actor i kind to eff reason = Inr (d', pid)"
  shows "streams_ok d'"
proof -
  obtain e fp tp t p where e: "enrollment_of d i = Some e"
    and mv: "phase_move d (e_version_id e) (map_option fst (current_phase d i)) (is_paused d i) kind to
      = Inr (fp, tp)"
    and t: "t \<le> clk 0" and nb: "\<not> before t (latest_effective d i)"
    and p: "p = new_phase_event d (clk 0) actor i kind fp tp t (trim reason)"
    and j: "journaled (after_phase_event d p) d'"
    using record_phase_event_effect [OF call] by blast
  let ?d = "after_phase_event d p"
  have order: "per_enrollment_order (phase_events d @ [p])"
    using ok latest_effective_bound [OF nb]
    by (auto simp: per_enrollment_order_def streams_ok_def sorted_wrt_append p)
  have ep: "pe_epoch p = None \<or> pe_epoch p \<in> Some ` ee_id ` set (enrollment_events d)"
    by (cases "epoch d i") (auto simp: p epoch_def version_changes_def dest!: max_id_in)
  have mvp: "moving (pe_kind p) \<longrightarrow> joined_phase d (pe_to_phase p) \<noteq> None"
    using phase_move_target [OF mv] by (auto simp: joined_phase_def p)
  have jp: "joined_phase ?d = joined_phase d"
    by (rule joined_phase_catalog) (simp add: after_phase_event_def)
  have "streams_ok ?d"
    using ok order ep mvp t jp
    by (simp add: streams_ok_def pin_follows_stream_def version_changes_def after_phase_event_def p)
  then show ?thesis
    using streams_ok_journaled [OF j] by simp
qed

lemma enrollment_of_in: "enrollment_of d i = Some e \<Longrightarrow> e \<in> set (enrollments d) \<and> e_id e = i"
  unfolding enrollment_of_def by (blast dest: find_eq_SomeD)

lemma version_change_refusal_None:
  "version_change_refusal d i u from to = Inr None \<Longrightarrow>
    to \<noteq> from \<and> published d to \<and>
    (\<exists>a b. version_of d from = Some a \<and> version_of d to = Some b \<and> pv_program_id b = pv_program_id a) \<and>
    \<not> (\<exists>e \<in> set (enrollments d). e_user_id e = u \<and> e_version_id e = to \<and> e_id e \<noteq> i)"
  by (auto simp: version_change_refusal_def published_def list_ex_iff
      split: if_splits option.splits)

lemma record_enrollment_event_streams_ok:
  assumes ok: "streams_ok d"
    and call: "record_enrollment_event pre clk d actor i kind reason tov = Inr (d', eid)"
  shows "streams_ok d'"
proof -
  obtain e fv tv ev where e: "enrollment_of d i = Some e"
    and v: "if kind = EkVersionChange then fv = Some (e_version_id e) \<and> tv = tov \<and> tov \<noteq> None \<and>
       version_change_refusal d i (e_user_id e) (e_version_id e) (the tov) = Inr None
     else fv = None \<and> tv = None"
    and ev: "ev = new_enrollment_event d (clk 0) actor i kind (trim reason) fv tv"
    and j: "journaled (after_enrollment_event d ev) d'"
    using record_enrollment_event_effect [OF call] by blast
  let ?d = "after_enrollment_event d ev"
  have ids: "map e_id (pinned_enrollments k w es) = map e_id es" for k w es
    by (auto simp: pinned_enrollments_def repinned_def split: option.splits)
  have fresh: "ee_id x \<le> ee_id ev" if "x \<in> set (enrollment_events d)" for x
    using that next_id_gt [of "ee_id x" "map ee_id (enrollment_events d)"] by (simp add: ev)
  have pins: "pin_follows_stream ?d"
  proof (cases "kind = EkVersionChange")
    case True
    with v obtain t where t: "tv = Some t" by auto
    have "version_changes ?d i = version_changes d i @ [ev]"
      using True by (simp add: version_changes_def after_enrollment_event_def ev)
    then have "latest_by ee_id (version_changes ?d i) = Some ev"
      using fresh by (auto simp: version_changes_def intro!: latest_by_snoc)
    moreover have "version_changes ?d k = version_changes d k" if "k \<noteq> i" for k
      using that by (simp add: version_changes_def after_enrollment_event_def ev)
    moreover have "ee_to_version ev = Some t" "ee_enrollment_id ev = i"
      by (simp_all add: ev t)
    ultimately show ?thesis
      using ok
      by (auto simp: pin_follows_stream_def pinned_enrollments_def repinned_def streams_ok_def
          after_enrollment_event_def)
  next
    case False
    then have "version_changes ?d k = version_changes d k" for k
      by (simp add: version_changes_def after_enrollment_event_def ev)
    with False v ok show ?thesis
      by (simp add: pin_follows_stream_def pinned_enrollments_def streams_ok_def
          after_enrollment_event_def ev)
  qed
  have jp: "joined_phase ?d = joined_phase d"
    by (rule joined_phase_catalog) (simp add: after_enrollment_event_def)
  have "ids_ok (map ee_id (enrollment_events ?d))"
    using ok by (simp add: streams_ok_def after_enrollment_event_def ev)
  moreover have "ids_ok (map e_id (enrollments ?d))"
    using ok ids by (simp add: streams_ok_def after_enrollment_event_def ev)
  ultimately have "streams_ok ?d"
    using ok pins jp by (auto simp: streams_ok_def after_enrollment_event_def)
  then show ?thesis
    using streams_ok_journaled [OF j] by simp
qed

section \<open>The machine of one enrollment\<close>

text \<open>
  What the two streams say of one enrollment: its status, the version it pins, the phase it is
  in, and whether it is paused. The relation is the documented life cycle; \<open>c\<close> is the catalog,
  whose graph of the pinned version the moves follow.
\<close>

datatype lifecycle_call =
    EventCall int enrollment_event_kind "int option"
  | PhaseCall int phase_event_kind "int option"

fun call_enrollment :: "lifecycle_call \<Rightarrow> int" where
  "call_enrollment (EventCall i _ _) = i"
| "call_enrollment (PhaseCall i _ _) = i"

record position =
  pos_status :: enrollment_status
  pos_pin :: int
  pos_phase :: "int option"
  pos_paused :: bool

definition phase_in :: "catalog \<Rightarrow> int \<Rightarrow> int \<Rightarrow> bool" where
  "phase_in c v t \<longleftrightarrow> find (\<lambda>p. ph_id p = t \<and> ph_version_id p = v) (phases c) \<noteq> None"

inductive machine_step :: "catalog \<Rightarrow> int \<Rightarrow> position \<Rightarrow> lifecycle_call \<Rightarrow> position \<Rightarrow> bool"
  for c :: catalog and i :: int where
  other: "call_enrollment l \<noteq> i \<Longrightarrow> machine_step c i m l m"
| withdraw: "pos_status m = Active \<Longrightarrow>
    machine_step c i m (EventCall i EkWithdraw v) (m\<lparr>pos_status := Withdrawn\<rparr>)"
| complete: "pos_status m = Active \<Longrightarrow>
    machine_step c i m (EventCall i EkComplete v) (m\<lparr>pos_status := Completed\<rparr>)"
| reinstate: "pos_status m \<noteq> Active \<Longrightarrow>
    machine_step c i m (EventCall i EkReinstate v) (m\<lparr>pos_status := Active\<rparr>)"
| change: "pos_status m = Active \<Longrightarrow> v \<noteq> pos_pin m \<Longrightarrow>
    machine_step c i m (EventCall i EkVersionChange (Some v))
      (m\<lparr>pos_pin := v, pos_phase := None, pos_paused := False\<rparr>)"
| enter: "pos_status m = Active \<Longrightarrow> pos_phase m = None \<Longrightarrow> \<not> pos_paused m \<Longrightarrow>
    phase_in c (pos_pin m) t \<Longrightarrow>
    machine_step c i m (PhaseCall i PkAdvance (Some t)) (m\<lparr>pos_phase := Some t\<rparr>)"
| move: "pos_status m = Active \<Longrightarrow> pos_phase m = Some f \<Longrightarrow> \<not> pos_paused m \<Longrightarrow> moving k \<Longrightarrow>
    phase_in c (pos_pin m) t \<Longrightarrow> edge_allows k (edge_kind c (pos_pin m) f t) \<Longrightarrow>
    machine_step c i m (PhaseCall i k (Some t)) (m\<lparr>pos_phase := Some t\<rparr>)"
| pause: "pos_status m = Active \<Longrightarrow> pos_phase m = Some f \<Longrightarrow> \<not> pos_paused m \<Longrightarrow>
    machine_step c i m (PhaseCall i PkPause to) (m\<lparr>pos_paused := True\<rparr>)"
| resume: "pos_status m = Active \<Longrightarrow> pos_phase m = Some f \<Longrightarrow> pos_paused m \<Longrightarrow>
    machine_step c i m (PhaseCall i PkResume to) (m\<lparr>pos_paused := False\<rparr>)"
| finish: "pos_status m = Active \<Longrightarrow> pos_phase m = Some f \<Longrightarrow> \<not> pos_paused m \<Longrightarrow>
    machine_step c i m (PhaseCall i PkComplete to) m"

inductive_simps machine_step_other: "machine_step c i m (EventCall j k v) m'"
inductive_simps machine_step_phase: "machine_step c i m (PhaseCall j k t) m'"

definition position_of :: "db \<Rightarrow> int \<Rightarrow> position option" where
  "position_of d i =
     (case enrollment_of d i of
        None \<Rightarrow> None
      | Some e \<Rightarrow> Some
          \<lparr>pos_status = status_of_latest (latest_by ee_id (status_events d i)),
           pos_pin = e_version_id e,
           pos_phase = map_option fst (current_phase d i),
           pos_paused = is_paused d i\<rparr>)"

subsection \<open>What the new event does to the derived state\<close>

lemma phase_of_id: "phase_of d t = Some ph \<Longrightarrow> ph_id ph = t"
  unfolding phase_of_def by (blast dest: find_eq_SomeD)

lemma effective_order_max:
  assumes "\<not> before t (latest_effective d i)"
    and "p = new_phase_event d now a i k fp tp t r"
    and "q \<in> set (phase_events d)" and "pe_enrollment_id q = i"
  shows "effective_order q \<le> effective_order p"
  using latest_effective_bound [OF assms(1,3,4)] assms(2,3)
    next_id_gt [of "pe_id q" "map pe_id (phase_events d)"]
  by (auto simp: effective_order_def)

lemma after_phase_event_frame:
  "phase_events (after_phase_event d p) = phase_events d @ [p]"
  "enrollments (after_phase_event d p) = enrollments d"
  "enrollment_events (after_phase_event d p) = enrollment_events d"
  "catalog (after_phase_event d p) = catalog d"
  by (simp_all add: after_phase_event_def)

lemma filter_snoc_out: "\<not> P x \<Longrightarrow> filter P (xs @ [x]) = filter P xs"
  by simp

lemma epoch_cong: "enrollment_events d' = enrollment_events d \<Longrightarrow> epoch d' = epoch d"
  by (simp add: epoch_def version_changes_def fun_eq_iff)

lemma current_phase_after:
  assumes nb: "\<not> before t (latest_effective d i)"
    and p: "p = new_phase_event d now a i k fp tp t r"
    and tgt: "moving k \<Longrightarrow> tp = Some s \<and> phase_of d s = Some ph"
  shows "map_option fst (current_phase (after_phase_event d p) j) =
    (if j = i \<and> moving k then tp else map_option fst (current_phase d j))"
proof -
  let ?d = "after_phase_event d p"
  have jp: "joined_phase ?d = joined_phase d" and ep: "epoch ?d = epoch d"
    by (rule joined_phase_catalog epoch_cong, simp add: after_phase_event_frame)+
  show ?thesis
  proof (cases "j = i \<and> moving k")
    case True
    let ?P = "\<lambda>p. pe_enrollment_id p = i \<and> moving (pe_kind p) \<and> pe_epoch p = epoch d i
                   \<and> joined_phase d (pe_to_phase p) \<noteq> None"
    have "filter ?P (phase_events ?d) = filter ?P (phase_events d) @ [p]"
      using True tgt by (simp add: after_phase_event_def p joined_phase_def)
    moreover have "latest_by effective_order (filter ?P (phase_events d) @ [p]) = Some p"
      by (rule latest_by_snoc) (use effective_order_max [OF nb p] in auto)
    ultimately have "current_phase ?d j = Some (ph_id ph, ph_name ph)"
      using True tgt jp ep by (simp add: current_phase_def joined_phase_def p)
    with True tgt show ?thesis by (auto dest: phase_of_id)
  next
    case False
    let ?P = "\<lambda>p. pe_enrollment_id p = j \<and> moving (pe_kind p) \<and> pe_epoch p = epoch d j
                   \<and> joined_phase d (pe_to_phase p) \<noteq> None"
    have "\<not> ?P p" using False by (auto simp: p)
    then have "filter ?P (phase_events ?d) = filter ?P (phase_events d)"
      unfolding after_phase_event_frame by (rule filter_snoc_out)
    then have "current_phase ?d j = current_phase d j"
      unfolding current_phase_def ep jp by simp
    with False show ?thesis by auto
  qed
qed

lemma is_paused_after:
  assumes nb: "\<not> before t (latest_effective d i)"
    and p: "p = new_phase_event d now a i k fp tp t r"
  shows "is_paused (after_phase_event d p) j =
    (if j = i \<and> (k = PkPause \<or> k = PkResume) then k = PkPause else is_paused d j)"
proof -
  let ?d = "after_phase_event d p"
  have ep: "epoch ?d = epoch d"
    by (rule epoch_cong) (simp add: after_phase_event_frame)
  let ?P = "\<lambda>p. pe_enrollment_id p = j \<and> (pe_kind p = PkPause \<or> pe_kind p = PkResume)
                  \<and> pe_epoch p = epoch d j"
  show ?thesis
  proof (cases "j = i \<and> (k = PkPause \<or> k = PkResume)")
    case True
    then have "filter ?P (phase_events ?d) = filter ?P (phase_events d) @ [p]"
      by (auto simp: after_phase_event_def p)
    moreover have "latest_by effective_order (filter ?P (phase_events d) @ [p]) = Some p"
      by (rule latest_by_snoc) (use True effective_order_max [OF nb p] in auto)
    ultimately show ?thesis
      using True ep by (auto simp: is_paused_def p)
  next
    case False
    then have "\<not> ?P p" by (auto simp: p)
    then have "filter ?P (phase_events ?d) = filter ?P (phase_events d)"
      unfolding after_phase_event_frame by (rule filter_snoc_out)
    with False show ?thesis
      unfolding is_paused_def ep by argo
  qed
qed


lemma status_events_after:
  "status_events (after_enrollment_event d ev) j =
     status_events d j @ (if ee_enrollment_id ev = j \<and> status_kind (ee_kind ev) then [ev] else [])"
  by (simp add: status_events_def after_enrollment_event_def)

lemma status_latest_after:
  assumes "ev = new_enrollment_event d now a i k r f t"
  shows "status_of_latest (latest_by ee_id (status_events (after_enrollment_event d ev) j)) =
    (if j = i \<and> status_kind k
     then (if k = EkWithdraw then Withdrawn else if k = EkComplete then Completed else Active)
     else status_of_latest (latest_by ee_id (status_events d j)))"
proof (cases "j = i \<and> status_kind k")
  case True
  have "latest_by ee_id (status_events d j @ [ev]) = Some ev"
    using next_id_gt [of _ "map ee_id (enrollment_events d)"]
    by (intro latest_by_snoc) (force simp: status_events_def assms intro: less_imp_le)
  with True show ?thesis
    by (auto simp: status_events_after assms status_of_latest_def status_kind_def)
qed (auto simp: status_events_after assms)

lemma after_enrollment_event_frame:
  "phase_events (after_enrollment_event d ev) = phase_events d"
  "catalog (after_enrollment_event d ev) = catalog d"
  "enrollment_events (after_enrollment_event d ev) = enrollment_events d @ [ev]"
  by (simp_all add: after_enrollment_event_def)

lemma repinned_id [simp]: "e_id (repinned i v e) = e_id e"
  by (simp add: repinned_def)

lemma enrollment_of_after:
  "enrollment_of (after_enrollment_event d ev) j =
     map_option (\<lambda>e. case ee_to_version ev of None \<Rightarrow> e | Some v \<Rightarrow> repinned (ee_enrollment_id ev) v e)
       (enrollment_of d j)"
proof (cases "ee_to_version ev")
  case None
  then show ?thesis
    by (simp add: enrollment_of_def after_enrollment_event_def pinned_enrollments_def option.map_ident)
next
  case (Some v)
  then show ?thesis
    by (simp add: enrollment_of_def after_enrollment_event_def pinned_enrollments_def
        find_map_update [where f = "repinned (ee_enrollment_id ev) v"] repinned_id)
qed

lemma epoch_after:
  assumes "ev = new_enrollment_event d now a i k r f t"
  shows "epoch (after_enrollment_event d ev) j =
    (if j = i \<and> k = EkVersionChange then Some (ee_id ev) else epoch d j)"
proof (cases "j = i \<and> k = EkVersionChange")
  case True
  then have "version_changes (after_enrollment_event d ev) j = version_changes d j @ [ev]"
    by (simp add: version_changes_def after_enrollment_event_frame assms)
  moreover have "max_id (map ee_id (version_changes d j @ [ev])) = Some (ee_id ev)"
    using next_id_gt [of _ "map ee_id (enrollment_events d)"]
    by (intro max_id_eqI) (force simp: version_changes_def assms intro: less_imp_le)+
  ultimately show ?thesis
    using True by (simp add: epoch_def)
qed (auto simp: epoch_def version_changes_def after_enrollment_event_frame assms)

text \<open>No phase event can carry the epoch a version change opens.\<close>

lemma epoch_fresh:
  assumes "streams_ok d" and "ev = new_enrollment_event d now a i k r f t"
    and "p \<in> set (phase_events d)"
  shows "pe_epoch p \<noteq> Some (ee_id ev)"
proof -
  have "pe_epoch p = None \<or> pe_epoch p \<in> Some ` ee_id ` set (enrollment_events d)"
    using assms(1,3) by (auto simp: streams_ok_def)
  then show ?thesis
    using next_id_fresh [of "map ee_id (enrollment_events d)"]
    by (auto simp: assms(2) image_iff)
qed

lemma phase_state_after_event:
  assumes ok: "streams_ok d" and ev: "ev = new_enrollment_event d now a i k r f t"
  shows "current_phase (after_enrollment_event d ev) j =
      (if j = i \<and> k = EkVersionChange then None else current_phase d j)" (is ?phase)
    and "is_paused (after_enrollment_event d ev) j \<longleftrightarrow>
      \<not> (j = i \<and> k = EkVersionChange) \<and> is_paused d j" (is ?paused)
proof -
  let ?d = "after_enrollment_event d ev"
  have jp: "joined_phase ?d = joined_phase d"
    by (rule joined_phase_catalog) (simp add: after_enrollment_event_frame)
  have "filter (\<lambda>p. pe_enrollment_id p = i \<and> moving (pe_kind p) \<and> pe_epoch p = Some (ee_id ev)
      \<and> joined_phase d (pe_to_phase p) \<noteq> None) (phase_events d) = []"
    and "filter (\<lambda>p. pe_enrollment_id p = i \<and> (pe_kind p = PkPause \<or> pe_kind p = PkResume)
      \<and> pe_epoch p = Some (ee_id ev)) (phase_events d) = []"
    using epoch_fresh [OF ok ev] by (auto simp: filter_empty_conv)
  then show ?phase ?paused
    unfolding current_phase_def is_paused_def jp after_enrollment_event_frame epoch_after [OF ev]
    by simp_all
qed

subsection \<open>The services refine the machine\<close>

inductive lifecycle_step :: "db \<Rightarrow> lifecycle_call \<Rightarrow> db \<Rightarrow> bool" where
  event: "record_enrollment_event pre clk d actor i kind reason to = Inr (d', eid) \<Longrightarrow>
    lifecycle_step d (EventCall i kind to) d'"
| phase: "record_phase_event pre clk d actor i kind to eff reason = Inr (d', pid) \<Longrightarrow>
    lifecycle_step d (PhaseCall i kind to) d'"

fun machine_moves :: "catalog \<Rightarrow> int \<Rightarrow> position option \<Rightarrow> lifecycle_call \<Rightarrow> position option \<Rightarrow> bool" where
  "machine_moves c i (Some m) l (Some m') = machine_step c i m l m'"
| "machine_moves c i None l m' = (m' = None \<and> call_enrollment l \<noteq> i)"
| "machine_moves c i (Some m) l None = False"

lemma position_cong:
  assumes "enrollment_events d' = enrollment_events d" "phase_events d' = phase_events d"
    "enrollments d' = enrollments d" "catalog d' = catalog d"
  shows "position_of d' = position_of d"
  using assms joined_phase_catalog [OF assms(4)] epoch_cong [OF assms(1)]
  by (simp add: position_of_def fun_eq_iff enrollment_of_def status_events_def
      current_phase_def is_paused_def split: option.splits)

lemma position_journaled: "journaled d d' \<Longrightarrow> position_of d' = position_of d"
  by (rule position_cong) (simp_all add: journaled_tables)


lemma position_after_event:
  assumes ok: "streams_ok d"
    and call: "record_enrollment_event pre clk d actor j kind reason tov = Inr (d', eid)"
  shows "machine_moves (catalog d) i (position_of d i) (EventCall j kind tov) (position_of d' i)"
proof -
  obtain e st fv tv ev where e: "enrollment_of d j = Some e" and st: "status d j = Some st"
    and k: "kind = EkReinstate \<longleftrightarrow> st \<noteq> Active"
    and v: "if kind = EkVersionChange then fv = Some (e_version_id e) \<and> tv = tov \<and> tov \<noteq> None \<and>
       version_change_refusal d j (e_user_id e) (e_version_id e) (the tov) = Inr None
     else fv = None \<and> tv = None"
    and ev: "ev = new_enrollment_event d (clk 0) actor j kind (trim reason) fv tv"
    and jr: "journaled (after_enrollment_event d ev) d'"
    using record_enrollment_event_effect [OF call] by blast
  note after = position_journaled [OF jr]
  have sl: "status_of_latest (latest_by ee_id (status_events d j)) = st"
    using st e by (simp add: status_def)
  show ?thesis
  proof (cases "i = j")
    case True
    let ?m = "\<lparr>pos_status = st, pos_pin = e_version_id e,
        pos_phase = map_option fst (current_phase d i), pos_paused = is_paused d i\<rparr>"
    have pre: "position_of d i = Some ?m"
      using True e sl by (simp add: position_of_def)
    have e': "enrollment_of (after_enrollment_event d ev) i = Some (case tv of None \<Rightarrow> e | Some v \<Rightarrow> repinned j v e)"
      using True e by (cases tv) (simp_all add: enrollment_of_after ev)
    have post: "position_of d' i = Some
       \<lparr>pos_status = (if status_kind kind then (if kind = EkWithdraw then Withdrawn
            else if kind = EkComplete then Completed else Active) else st),
        pos_pin = (case tv of None \<Rightarrow> e_version_id e | Some v \<Rightarrow> v),
        pos_phase = (if kind = EkVersionChange then None else map_option fst (current_phase d i)),
        pos_paused = (kind \<noteq> EkVersionChange \<and> is_paused d i)\<rparr>"
      using e e' True phase_state_after_event [OF ok ev, of i] status_latest_after [OF ev, of i] sl
      by (auto simp: after position_of_def repinned_def enrollment_of_in split: option.splits)
    show ?thesis
      using pre post k v True
      by (cases kind) (auto simp: machine_step_other status_kind_def
          dest!: version_change_refusal_None)
  next
    case False
    have "enrollment_of (after_enrollment_event d ev) i = enrollment_of d i"
      using False by (cases "enrollment_of d i")
        (auto simp: enrollment_of_after ev repinned_def enrollment_of_in split: option.splits)
    then have "position_of d' i = position_of d i"
      using False phase_state_after_event [OF ok ev, of i] status_latest_after [OF ev, of i]
      by (simp add: after position_of_def split: option.split)
    with False show ?thesis
      by (cases "position_of d i") (auto intro: machine_step.other)
  qed
qed


lemma phase_move_machine:
  assumes mv: "phase_move d pin (map_option fst (current_phase d i)) (is_paused d i) k to = Inr (fp, tp)"
  shows "machine_step (catalog d) i
      \<lparr>pos_status = Active, pos_pin = pin, pos_phase = map_option fst (current_phase d i),
       pos_paused = is_paused d i\<rparr> (PhaseCall i k to)
      \<lparr>pos_status = Active, pos_pin = pin,
       pos_phase = (if moving k then tp else map_option fst (current_phase d i)),
       pos_paused = (if k = PkPause \<or> k = PkResume then k = PkPause else is_paused d i)\<rparr>"
proof (cases "moving k")
  case True
  with mv obtain t where t: "to = Some t" "tp = Some t" "\<not> is_paused d i" "phase_in (catalog d) pin t"
    by (auto simp: phase_move_def phase_in_def split: if_splits option.splits)
  show ?thesis
  proof (cases "current_phase d i")
    case None
    with mv True t show ?thesis
      by (auto simp: phase_move_def machine_step_phase moving_def split: if_splits)
  next
    case (Some c)
    with mv True t have "edge_allows k (edge_kind (catalog d) pin (fst c) t)"
      by (auto simp: phase_move_def split: if_splits)
    with Some True t show ?thesis
      by (auto simp: machine_step_phase moving_def)
  qed
next
  case False
  with mv show ?thesis
    by (cases k) (auto simp: phase_move_def machine_step_phase moving_def split: if_splits option.splits)
qed

lemma position_after_phase:
  assumes call: "record_phase_event pre clk d actor j kind to eff reason = Inr (d', pid)"
  shows "machine_moves (catalog d) i (position_of d i) (PhaseCall j kind to) (position_of d' i)"
proof -
  obtain e fp tp t p where e: "enrollment_of d j = Some e" and st: "status d j = Some Active"
    and mv: "phase_move d (e_version_id e) (map_option fst (current_phase d j)) (is_paused d j) kind to
      = Inr (fp, tp)"
    and nb: "\<not> before t (latest_effective d j)"
    and p: "p = new_phase_event d (clk 0) actor j kind fp tp t (trim reason)"
    and jr: "journaled (after_phase_event d p) d'"
    using record_phase_event_effect [OF call] by blast
  have sl: "status_of_latest (latest_by ee_id (status_events d j)) = Active"
    using st e by (simp add: status_def)
  have cur: "map_option fst (current_phase (after_phase_event d p) i) =
      (if i = j \<and> moving kind then tp else map_option fst (current_phase d i))"
    using phase_move_target [OF mv] current_phase_after [OF nb p, where j = i]
    by (cases "moving kind") auto
  have post: "position_of d' i = (case enrollment_of d i of None \<Rightarrow> None | Some e \<Rightarrow> Some
       \<lparr>pos_status = status_of_latest (latest_by ee_id (status_events d i)),
        pos_pin = e_version_id e,
        pos_phase = (if i = j \<and> moving kind then tp else map_option fst (current_phase d i)),
        pos_paused = (if i = j \<and> (kind = PkPause \<or> kind = PkResume) then kind = PkPause
          else is_paused d i)\<rparr>)"
    unfolding position_journaled [OF jr] position_of_def cur is_paused_after [OF nb p]
      enrollment_of_def status_events_def after_phase_event_frame
    by (rule refl)
  show ?thesis
  proof (cases "i = j")
    case True
    have pre: "position_of d j = Some \<lparr>pos_status = Active, pos_pin = e_version_id e,
        pos_phase = map_option fst (current_phase d j), pos_paused = is_paused d j\<rparr>"
      using e sl by (simp add: position_of_def)
    show ?thesis
      unfolding post unfolding True pre e option.case sl machine_moves.simps simp_thms
      by (rule phase_move_machine [OF mv])
  next
    case False
    then have "position_of d' i = position_of d i"
      using post by (simp add: position_of_def split: option.splits)
    with False show ?thesis
      by (cases "position_of d i") (auto intro: machine_step.other)
  qed
qed

lemma lifecycle_step_tables:
  assumes "lifecycle_step d l d'"
  shows "catalog d' = catalog d" "prefix (enrollment_events d) (enrollment_events d')"
    "prefix (phase_events d) (phase_events d')"
proof -
  from assms obtain x where "journaled x d'" "catalog x = catalog d"
    "prefix (enrollment_events d) (enrollment_events x)" "prefix (phase_events d) (phase_events x)"
  proof cases
    case event
    from record_enrollment_event_effect [OF event(2)] obtain ev where
      "journaled (after_enrollment_event d ev) d'" by blast
    then show thesis by (rule that) (simp_all add: after_enrollment_event_frame)
  next
    case phase
    from record_phase_event_effect [OF phase(2)] obtain p where
      "journaled (after_phase_event d p) d'" by blast
    then show thesis by (rule that) (simp_all add: after_phase_event_frame)
  qed
  then show "catalog d' = catalog d" "prefix (enrollment_events d) (enrollment_events d')"
    "prefix (phase_events d) (phase_events d')"
    by (simp_all add: journaled_tables)
qed

lemma lifecycle_step_streams:
  assumes "streams_ok d" and "lifecycle_step d l d'" shows "streams_ok d'"
  using assms(2)
proof cases
  case event
  from record_enrollment_event_streams_ok [OF assms(1) event(2)] show ?thesis .
next
  case phase
  from record_phase_event_streams_ok [OF assms(1) phase(2)] show ?thesis .
qed

interpretation machine: refinement lifecycle_step "\<lambda>d. streams_ok d \<and> catalog d = c"
    "\<lambda>d. position_of d i" "machine_moves c i" for c i
proof (unfold_locales, goal_cases)
  case (1 s l t)
  then show ?case
    using lifecycle_step_streams [OF _ 1(2)] lifecycle_step_tables(1) [OF 1(2)] by simp
next
  case (2 s l t)
  from 2(2) show ?case
  proof cases
    case event
    with position_after_event [OF conjunct1 [OF 2(1)] event(2)] 2(1) show ?thesis by simp
  next
    case phase
    with position_after_phase [OF phase(2)] 2(1) show ?thesis by simp
  qed
qed

text \<open>Both streams only grow at their end.\<close>

interpretation enrollment_stream: append_only lifecycle_step streams_ok enrollment_events
  by unfold_locales (simp_all add: lifecycle_step_streams lifecycle_step_tables)

interpretation phase_stream: append_only lifecycle_step streams_ok phase_events
  by unfold_locales (simp_all add: lifecycle_step_streams lifecycle_step_tables)


section \<open>What the machine guarantees\<close>

text \<open>A paused enrollment is in a phase, and the phase it is in belongs to the version it pins.\<close>

definition machine_ok :: "catalog \<Rightarrow> position \<Rightarrow> bool" where
  "machine_ok c m \<longleftrightarrow>
     (pos_paused m \<longrightarrow> pos_phase m \<noteq> None) \<and>
     (case pos_phase m of None \<Rightarrow> True | Some t \<Rightarrow> phase_in c (pos_pin m) t)"

lemma machine_step_ok: "machine_step c i m l m' \<Longrightarrow> machine_ok c m \<Longrightarrow> machine_ok c m'"
  by (induction rule: machine_step.induct) (auto simp: machine_ok_def split: option.splits)

definition position_ok :: "catalog \<Rightarrow> position option \<Rightarrow> bool" where
  "position_ok c p = (case p of None \<Rightarrow> True | Some m \<Rightarrow> machine_ok c m)"

interpretation moves: invariant_steps "machine_moves c i" "position_ok c" for c i
proof
  fix p p' and l
  assume "position_ok c p" "machine_moves c i p l p'"
  then show "position_ok c p'"
    by (cases p; cases p') (auto simp: position_ok_def intro: machine_step_ok)
qed

lemma lifecycle_step_position_ok:
  assumes "streams_ok d" and "lifecycle_step d l d'" and "position_ok (catalog d) (position_of d i)"
  shows "position_ok (catalog d') (position_of d' i)"
  using machine.simulates [of d "catalog d" l d' i] moves.inv_step assms lifecycle_step_tables(1)
  by metis

section \<open>The database never refuses a move\<close>

text \<open>
  The triggers and constraints repeat what the service checks: in a sound database no
  statement of an admitted call fails, so a caller sees a result or a typed refusal.
\<close>

lemma phase_in_lookup:
  "distinct (map ph_id (phases c)) \<Longrightarrow> phase_in c v t \<Longrightarrow>
    \<exists>ph. find (\<lambda>p. ph_id p = t) (phases c) = Some ph \<and> ph_version_id ph = v"
proof -
  assume d: "distinct (map ph_id (phases c))" and "phase_in c v t"
  then obtain q where q: "q \<in> set (phases c)" "ph_id q = t" "ph_version_id q = v"
    by (auto simp: phase_in_def find_None_iff)
  moreover from q obtain ph where "find (\<lambda>p. ph_id p = t) (phases c) = Some ph"
    by (cases "find (\<lambda>p. ph_id p = t) (phases c)") (auto simp: find_None_iff)
  ultimately show ?thesis
    using d find_eq_SomeD by (metis (full_types) distinct_map inj_onD)
qed

lemma phase_move_shape:
  assumes mv: "phase_move d pin cur paused k to = Inr (fp, tp)"
  shows "fp = cur \<and> (if moving k then tp = to \<and> to \<noteq> None \<and> phase_in (catalog d) pin (the to)
      else tp = None) \<and> (k \<noteq> PkAdvance \<longrightarrow> cur \<noteq> None)"
  using mv by (cases k)
    (auto simp: phase_move_def phase_in_def moving_def split: if_splits option.splits)

lemma insert_phase_event_total:
  assumes streams: "streams_ok d" and cat: "distinct (map ph_id (phases (catalog d)))"
    and e: "enrollment_of d i = Some e" and pos: "position_ok (catalog d) (position_of d i)"
    and actor: "user_of d actor \<noteq> None"
    and mv: "phase_move d (e_version_id e) (map_option fst (current_phase d i)) paused k to = Inr (fp, tp)"
    and t: "t \<le> now"
  shows "insert_phase_event (new_phase_event d now actor i k fp tp t r) d =
    Inr (after_phase_event d (new_phase_event d now actor i k fp tp t r))"
proof -
  note shape = phase_move_shape [OF mv]
  have pinned: "\<exists>ph. joined_phase d (Some x) = Some ph \<and> ph_version_id ph = e_version_id e"
    if "phase_in (catalog d) (e_version_id e) x" for x
    using phase_in_lookup [OF cat that] by (simp add: joined_phase_def phase_of_def)
  have from_ok: "fp = None \<or> (\<exists>ph. joined_phase d fp = Some ph \<and> ph_version_id ph = e_version_id e)"
    using shape pos e pinned
    by (cases "current_phase d i") (auto simp: position_ok_def machine_ok_def position_of_def)
  have to_ok: "tp = None \<or> (\<exists>ph. joined_phase d tp = Some ph \<and> ph_version_id ph = e_version_id e)"
    using shape pinned by (auto split: if_splits)
  have ep: "epoch d i \<noteq> None \<longrightarrow> epoch d i \<in> Some ` ee_id ` set (enrollment_events d)"
    by (cases "epoch d i") (auto simp: epoch_def version_changes_def dest!: max_id_in)
  have versions: "phase_version d x = None \<or> phase_version d x = Some (e_version_id e)"
    if "x = fp \<or> x = tp" for x
    using that from_ok to_ok by (auto simp: phase_version_def joined_phase_def)
  have "phase_event_shape (new_phase_event d now actor i k fp tp t r)"
    using shape by (cases k) (auto simp: phase_event_shape_def moving_def)
  moreover have "\<not> sql_neq (phase_version d fp) (Some (e_version_id e))"
    "\<not> sql_neq (phase_version d tp) (Some (e_version_id e))"
    using versions by (auto simp: sql_neq_def)
  moreover have "fp \<noteq> None \<longrightarrow> joined_phase d fp \<noteq> None" "tp \<noteq> None \<longrightarrow> joined_phase d tp \<noteq> None"
    using from_ok to_ok by auto
  ultimately show ?thesis
    using e actor t ep
    by (simp add: insert_phase_event_def after_phase_event_def)
qed

lemma record_phase_event_no_abort:
  assumes "streams_ok d" and "distinct (map ph_id (phases (catalog d)))"
    and "position_ok (catalog d) (position_of d i)"
    and actor: "user_of d actor \<noteq> None"
    and trainee: "\<And>e. enrollment_of d i = Some e \<Longrightarrow> user_of d (e_user_id e) \<noteq> None"
  shows "record_phase_event pre clk d actor i k to eff reason \<noteq> abort x"
proof
  assume ab: "record_phase_event pre clk d actor i k to eff reason = abort x"
  let ?t = "case eff of None \<Rightarrow> clk 0 | Some t \<Rightarrow> t"
  obtain e where e: "enrollment_of d i = Some e"
    using ab by (cases "enrollment_of d i")
      (auto simp: record_phase_event_def status_def Let_def split: if_splits)
  then obtain fp tp where mv: "phase_move d (e_version_id e) (map_option fst (current_phase d i))
      (is_paused d i) k to = Inr (fp, tp)" and t: "?t \<le> clk 0"
    using ab by (auto simp: record_phase_event_def Let_def not_less
        split: if_splits option.splits sum.splits)
  let ?p = "new_phase_event d (clk 0) actor i k fp tp ?t (trim reason)"
  have ins: "insert_phase_event ?p d = Inr (after_phase_event d ?p)"
    using assms e mv t by (intro insert_phase_event_total)
  have "user_of (after_phase_event d ?p) = user_of d"
    by (simp add: user_of_def after_phase_event_def fun_eq_iff)
  then have "\<exists>d'. record_for_subject EvPhaseEventRecorded (Some actor) (Some (e_user_id e))
      (SubjEnrollment i) (clk 1) (after_phase_event d ?p) = Inr d'"
    using actor trainee [OF e] by (intro record_for_subject_total) simp_all
  then obtain d' where "record_for_subject EvPhaseEventRecorded (Some actor) (Some (e_user_id e))
      (SubjEnrollment i) (clk 1) (after_phase_event d ?p) = Inr d'" by blast
  with ab e mv ins show False
    by (auto simp: record_phase_event_def Let_def split: if_splits option.splits)
qed

end
