(* ===== verification/Enrollments.thy ===== *)
theory Enrollments
  imports Histories
begin

text \<open>
  Enrollment pinning (enrollments.rs, migration 0005), trainer assignments (assignments.rs,
  migration 0006) and the enrollment page (\<open>enrollment_detail\<close> of lifecycle.rs), which reads
  both.
\<close>

section \<open>Enrolling\<close>

datatype enroll_refusal =
    NrCapabilityRequired
  | NrNoSuchVersion
  | NrNotPublished
  | NrNoSuchUser
  | NrAlreadyEnrolled

definition insert_enrollment :: "enrollment_row \<Rightarrow> db \<Rightarrow> db_error + db" where
  "insert_enrollment e d =
     demand (published d (e_version_id e)) (Raised ''enrollment_requires_published_version'')
    (demand (\<not> list_ex (\<lambda>x. e_user_id x = e_user_id e \<and> e_version_id x = e_version_id e) (enrollments d))
       UniqueIndex
    (demand (user_of d (e_user_id e) \<noteq> None \<and> version_of d (e_version_id e) \<noteq> None
        \<and> opt_user_ok d (e_enrolled_by e)) ForeignKey
    (Inr (d\<lparr>enrollments := enrollments d @ [e]\<rparr>))))"

definition new_enrollment :: "db \<Rightarrow> int \<Rightarrow> int \<Rightarrow> int \<Rightarrow> int \<Rightarrow> enrollment_row" where
  "new_enrollment d user_id version_id now actor =
     \<lparr>e_id = next_id (map e_id (enrollments d)), e_user_id = user_id, e_version_id = version_id,
      e_enrolled_at = now, e_enrolled_by = Some actor\<rparr>"

lemma new_enrollment_fields [simp]:
  "e_id (new_enrollment d u v n a) = next_id (map e_id (enrollments d))"
  "e_user_id (new_enrollment d u v n a) = u"
  "e_version_id (new_enrollment d u v n a) = v"
  "e_enrolled_by (new_enrollment d u v n a) = Some a"
  by (simp_all add: new_enrollment_def)

definition enroll ::
    "db \<Rightarrow> clock \<Rightarrow> db \<Rightarrow> int \<Rightarrow> int \<Rightarrow> int \<Rightarrow> (enroll_refusal, db \<times> int) outcome" where
  "enroll pre clk d actor version_id user_id =
     (if \<not> user_has pre actor AssignTraining then refuse NrCapabilityRequired
      else case version_of d version_id of
        None \<Rightarrow> refuse NrNoSuchVersion
      | Some v \<Rightarrow>
          if pv_published_at v = None then refuse NrNotPublished
          else if user_of d user_id = None then refuse NrNoSuchUser
          else if list_ex (\<lambda>x. e_user_id x = user_id \<and> e_version_id x = version_id) (enrollments d)
          then refuse NrAlreadyEnrolled
          else
            let e = new_enrollment d user_id version_id (clk 0) actor in
            run (insert_enrollment e d) (\<lambda>d.
            run (grant_missing user_id trainee_bundle (Some actor) (clk 0) d) (\<lambda>d.
            run (record_for_subject EvEnrollmentCreated (Some actor) (Some user_id)
                   (SubjEnrollment (e_id e)) (clk 1) d) (\<lambda>d.
            Inr (d, e_id e)))))"

record enrollee =
  en_enrollment_id :: int
  en_user_id :: int
  en_username :: string
  en_display_name :: string
  en_enrolled_at :: int
  en_enrolled_by :: "int option"

text \<open>\<open>COLLATE NOCASE\<close> folds the 26 ASCII capitals and then compares bytes.\<close>

definition fold_ascii :: "char \<Rightarrow> char" where
  "fold_ascii c = (let n = (of_char c :: nat) in if 65 \<le> n \<and> n \<le> 90 then char_of (n + 32) else c)"

definition nocase :: "string \<Rightarrow> string" where
  "nocase s = map fold_ascii s"

definition list_for_version :: "db \<Rightarrow> int \<Rightarrow> int \<Rightarrow> (enroll_refusal, enrollee list) outcome" where
  "list_for_version d actor version_id =
     (if \<not> user_has d actor AssignTraining then refuse NrCapabilityRequired
      else if version_of d version_id = None then refuse NrNoSuchVersion
      else Inr (sort_key (\<lambda>x. (nocase (en_display_name x), nocase (en_username x)))
        (List.map_filter (\<lambda>e. map_option (\<lambda>u.
            \<lparr>en_enrollment_id = e_id e, en_user_id = e_user_id e, en_username = u_username u,
             en_display_name = u_display_name u, en_enrolled_at = e_enrolled_at e,
             en_enrolled_by = e_enrolled_by e\<rparr>) (user_of d (e_user_id e)))
          (filter (\<lambda>e. e_version_id e = version_id) (enrollments d)))))"

section \<open>Assignments\<close>

datatype assign_refusal =
    SrCapabilityRequired
  | SrNoSuchEnrollment
  | SrEnrollmentInactive
  | SrNoSuchUser
  | SrTrainerLacksCapability
  | SrAlreadyAssigned
  | SrNoSuchAssignment
  | SrAlreadyEnded

definition insert_assignment :: "assignment_row \<Rightarrow> db \<Rightarrow> db_error + db" where
  "insert_assignment a d =
     demand (\<not> is_assigned d (ta_trainer a) (ta_enrollment_id a)) UniqueIndex
    (demand (enrollment_of d (ta_enrollment_id a) \<noteq> None \<and> user_of d (ta_trainer a) \<noteq> None
        \<and> opt_user_ok d (ta_assigned_by a)) ForeignKey
    (Inr (d\<lparr>assignments := assignments d @ [a]\<rparr>)))"

definition dash :: string where
  "dash = [CHR 0x20, CHR 0xE2, CHR 0x80, CHR 0x94, CHR 0x20]"

definition create_assignment ::
    "db \<Rightarrow> clock \<Rightarrow> db \<Rightarrow> int \<Rightarrow> int \<Rightarrow> int \<Rightarrow> (assign_refusal, db \<times> int) outcome" where
  "create_assignment pre clk d actor enrollment_id trainer =
     (if \<not> user_has pre actor AssignTraining then refuse SrCapabilityRequired
      else case status d enrollment_id of
        None \<Rightarrow> refuse SrNoSuchEnrollment
      | Some st \<Rightarrow>
          if st \<noteq> Active then refuse SrEnrollmentInactive
          else if user_of d trainer = None then refuse SrNoSuchUser
          else if \<not> user_has d trainer ViewAssignedRecords then refuse SrTrainerLacksCapability
          else if is_assigned d trainer enrollment_id then refuse SrAlreadyAssigned
          else
            let a = \<lparr>ta_id = next_id (map ta_id (assignments d)), ta_enrollment_id = enrollment_id,
                     ta_trainer = trainer, ta_assigned_at = clk 0, ta_assigned_by = Some actor,
                     ta_ended_at = None, ta_ended_by = None\<rparr> in
            run (insert_assignment a d) (\<lambda>d.
            fetch_one (Option.bind (enrollment_of d enrollment_id) (\<lambda>e.
                Option.bind (user_of d (e_user_id e)) (\<lambda>u.
                map_option (\<lambda>pv. (u_display_name u, pv_name pv)) (version_of d (e_version_id e))))) (\<lambda>names.
            run (notify_user trainer NkAssignmentCreated
                   (''New training assignment: '' @ fst names @ dash @ snd names) (clk 1) d) (\<lambda>d.
            run (record_for_subject EvAssignmentCreated (Some actor) (Some trainer)
                   (SubjAssignment (ta_id a)) (clk 2) d) (\<lambda>d.
            Inr (d, ta_id a)))))) "

text \<open>The update, with the table's two checks: an end is not before its start.\<close>

definition end_row :: "int \<Rightarrow> int \<Rightarrow> assignment_row \<Rightarrow> assignment_row" where
  "end_row now actor a = a\<lparr>ta_ended_at := Some now, ta_ended_by := Some actor\<rparr>"

definition end_assignment ::
    "db \<Rightarrow> clock \<Rightarrow> db \<Rightarrow> int \<Rightarrow> int \<Rightarrow> assign_refusal service" where
  "end_assignment pre clk d actor assignment_id =
     (if \<not> user_has pre actor AssignTraining then refuse SrCapabilityRequired
      else case find (\<lambda>a. ta_id a = assignment_id) (assignments d) of
        None \<Rightarrow> refuse SrNoSuchAssignment
      | Some a \<Rightarrow>
          if ta_ended_at a \<noteq> None then refuse SrAlreadyEnded
          else
            run (demand (ta_assigned_at a \<le> clk 0) CheckConstraint
                (demand (user_of d actor \<noteq> None) ForeignKey
                (Inr (d\<lparr>assignments := map (\<lambda>x. if ta_id x = assignment_id then end_row (clk 0) actor x else x)
                   (assignments d)\<rparr>)))) (\<lambda>d.
            run (record_for_subject EvAssignmentEnded (Some actor) None
                   (SubjAssignment assignment_id) (clk 1) d) (\<lambda>d. Inr d)))"

record assignment_view =
  sv_id :: int
  sv_enrollment_id :: int
  sv_trainer :: int
  sv_trainer_username :: string
  sv_trainer_name :: string
  sv_assigned_at :: int
  sv_assigned_by :: "int option"
  sv_ended_at :: "int option"
  sv_ended_by :: "int option"

definition list_for_enrollment :: "db \<Rightarrow> int \<Rightarrow> assignment_view list" where
  "list_for_enrollment d enrollment_id =
     sort_key (\<lambda>s. (sv_ended_at s \<noteq> None, sv_assigned_at s, sv_id s))
       (List.map_filter (\<lambda>a. map_option (\<lambda>u.
           \<lparr>sv_id = ta_id a, sv_enrollment_id = ta_enrollment_id a, sv_trainer = ta_trainer a,
            sv_trainer_username = u_username u, sv_trainer_name = u_display_name u,
            sv_assigned_at = ta_assigned_at a, sv_assigned_by = ta_assigned_by a,
            sv_ended_at = ta_ended_at a, sv_ended_by = ta_ended_by a\<rparr>) (user_of d (ta_trainer a)))
         (filter (\<lambda>a. ta_enrollment_id a = enrollment_id) (assignments d)))"

record assigned_trainee =
  tt_assignment_id :: int
  tt_enrollment_id :: int
  tt_trainee :: int
  tt_username :: string
  tt_display_name :: string
  tt_version_id :: int
  tt_program_name :: string
  tt_version_number :: int
  tt_version_label :: string
  tt_assigned_at :: int

definition list_for_trainer :: "db \<Rightarrow> int \<Rightarrow> assigned_trainee list" where
  "list_for_trainer d trainer =
     sort_key (\<lambda>t. (nocase (tt_display_name t), tt_assignment_id t))
       (List.map_filter (\<lambda>a.
           Option.bind (enrollment_of d (ta_enrollment_id a)) (\<lambda>e.
           Option.bind (user_of d (e_user_id e)) (\<lambda>u.
           map_option (\<lambda>pv.
             \<lparr>tt_assignment_id = ta_id a, tt_enrollment_id = ta_enrollment_id a,
              tt_trainee = e_user_id e, tt_username = u_username u, tt_display_name = u_display_name u,
              tt_version_id = e_version_id e, tt_program_name = pv_name pv,
              tt_version_number = pv_version_number pv, tt_version_label = pv_label pv,
              tt_assigned_at = ta_assigned_at a\<rparr>) (version_of d (e_version_id e)))))
         (filter (\<lambda>a. ta_trainer a = trainer \<and> ta_ended_at a = None) (assignments d)))"

section \<open>The enrollment page\<close>

record enrollment_detail =
  ed_enrollment_id :: int
  ed_trainee :: int
  ed_username :: string
  ed_display_name :: string
  ed_enrolled_at :: int
  ed_program_id :: int
  ed_version_id :: int
  ed_program_name :: string
  ed_version_number :: int
  ed_version_label :: string
  ed_status :: enrollment_status
  ed_paused :: bool
  ed_current_phase_id :: "int option"
  ed_current_phase_name :: "string option"
  ed_events :: "enrollment_event_view list"
  ed_phase_events :: "phase_event_view list"
  ed_assignments :: "assignment_view list"
  ed_phases :: "(int \<times> string \<times> int) list"
  ed_transitions :: "(int \<times> int \<times> transition_kind) list"

definition pinned_vocabulary ::
    "catalog \<Rightarrow> int \<Rightarrow> (int \<times> string \<times> int) list \<times> (int \<times> int \<times> transition_kind) list" where
  "pinned_vocabulary c version =
     (map (\<lambda>p. (ph_id p, ph_name p, ph_number p))
        (sort_key (\<lambda>p. (ph_number p, nocase (ph_name p))) (filter (\<lambda>p. ph_version_id p = version) (phases c))),
      map (\<lambda>t. (pt_from t, pt_to t, pt_kind t))
        (filter (\<lambda>t. pt_version_id t = version) (phase_transitions c)))"

definition enrollment_page :: "db \<Rightarrow> db \<Rightarrow> int \<Rightarrow> int \<Rightarrow> (lifecycle_refusal, enrollment_detail) outcome" where
  "enrollment_page pre d actor enrollment_id =
     (if \<not> may_read_enrollment pre actor enrollment_id then refuse LrCapabilityRequired
      else case Option.bind (enrollment_of d enrollment_id) (\<lambda>e.
            Option.bind (user_of d (e_user_id e)) (\<lambda>u.
            map_option (\<lambda>pv. (e, u, pv)) (version_of d (e_version_id e)))) of
        None \<Rightarrow> refuse LrNoSuchEnrollment
      | Some (e, u, pv) \<Rightarrow>
          Inr \<lparr>ed_enrollment_id = e_id e, ed_trainee = e_user_id e, ed_username = u_username u,
            ed_display_name = u_display_name u, ed_enrolled_at = e_enrolled_at e,
            ed_program_id = pv_program_id pv, ed_version_id = e_version_id e,
            ed_program_name = pv_name pv, ed_version_number = pv_version_number pv,
            ed_version_label = pv_label pv,
            ed_status = (case status d enrollment_id of None \<Rightarrow> Active | Some s \<Rightarrow> s),
            ed_paused = is_paused d enrollment_id,
            ed_current_phase_id = map_option fst (current_phase d enrollment_id),
            ed_current_phase_name = map_option snd (current_phase d enrollment_id),
            ed_events = list_events d enrollment_id,
            ed_phase_events = list_phase_events d enrollment_id,
            ed_assignments = list_for_enrollment d enrollment_id,
            ed_phases = fst (pinned_vocabulary (catalog d) (e_version_id e)),
            ed_transitions = snd (pinned_vocabulary (catalog d) (e_version_id e))\<rparr>)"

section \<open>What enrolling and assigning do\<close>

text \<open>
  A successful enrollment adds one pin, to a published version its user had none on, and its
  user holds the trainee bundle afterwards.
\<close>

lemma enroll_effect:
  assumes call: "enroll pre clk d actor v u = Inr (d', i)" and gr: "grants_ok d"
  shows "published d v \<and> i = next_id (map e_id (enrollments d)) \<and>
    (\<nexists>x. x \<in> set (enrollments d) \<and> e_user_id x = u \<and> e_version_id x = v) \<and>
    (\<exists>gs. journaled (d\<lparr>enrollments := enrollments d @ [new_enrollment d u v (clk 0) actor],
        grants := grants d @ gs\<rparr>) d') \<and>
    (\<forall>c \<in> set trainee_bundle. user_has d' u c)"
proof -
  let ?e = "new_enrollment d u v (clk 0) actor"
  let ?d = "d\<lparr>enrollments := enrollments d @ [?e]\<rparr>"
  obtain d1 d2 where d1: "insert_enrollment ?e d = Inr d1"
    and d2: "grant_missing u trainee_bundle (Some actor) (clk 0) d1 = Inr d2"
    and d3: "record_for_subject EvEnrollmentCreated (Some actor) (Some u)
        (SubjEnrollment (e_id ?e)) (clk 1) d2 = Inr d'"
    and i: "i = e_id ?e"
    using call by (auto simp: enroll_def guard_simps Let_def)
  have e: "d1 = ?d" "published d v" "\<not> list_ex (\<lambda>x. e_user_id x = u \<and> e_version_id x = v) (enrollments d)"
    "user_of d u \<noteq> None" "opt_user_ok d (Some actor)"
    using d1 by (auto simp: insert_enrollment_def guard_simps)
  have same: "user_of ?d = user_of d" "grants_ok ?d = grants_ok d"
    by (simp_all add: user_of_def grants_ok_def fun_eq_iff)
  obtain gs where gs: "d2 = ?d\<lparr>grants := grants ?d @ gs\<rparr>"
    "\<forall>w k. user_has d2 w k \<longleftrightarrow> user_has ?d w k \<or> w = u \<and> k \<in> set trainee_bundle"
    using grant_missing_effect [of ?d u "Some actor" trainee_bundle "clk 0"] gr e d2 same by auto
  have j: "journaled d2 d'"
    using d3 by (rule journaled_record_for_subject)
  then have "\<forall>c \<in> set trainee_bundle. user_has d' u c"
    using gs(2) journaled_tables(2) [OF j] by (simp add: user_has_def held_def)
  moreover have "\<exists>gs. journaled (d\<lparr>enrollments := enrollments d @ [?e], grants := grants d @ gs\<rparr>) d'"
    using j gs(1) by (intro exI [of _ gs]) simp
  ultimately show ?thesis
    using e i by (auto simp: list_ex_iff)
qed

lemma create_assignment_effect:
  assumes "create_assignment pre clk d actor i t = Inr (d', n)"
  shows "user_has pre actor AssignTraining \<and> status d i = Some Active \<and>
    user_has d t ViewAssignedRecords \<and> \<not> is_assigned d t i \<and>
    (\<exists>a. ta_enrollment_id a = i \<and> ta_trainer a = t \<and> ta_ended_at a = None \<and> ta_id a = n \<and>
      journaled (d\<lparr>assignments := assignments d @ [a]\<rparr>) d')"
proof -
  define a where "a = \<lparr>ta_id = next_id (map ta_id (assignments d)), ta_enrollment_id = i,
    ta_trainer = t, ta_assigned_at = clk 0, ta_assigned_by = Some actor,
    ta_ended_at = None, ta_ended_by = None\<rparr>"
  from assms obtain d1 d2 m where "insert_assignment a d = Inr d1"
    "notify_user t NkAssignmentCreated m (clk 1) d1 = Inr d2"
    "record_for_subject EvAssignmentCreated (Some actor) (Some t) (SubjAssignment (ta_id a)) (clk 2) d2 = Inr d'"
    and n: "n = ta_id a" and pre: "user_has pre actor AssignTraining" "status d i = Some Active"
    "user_has d t ViewAssignedRecords" "\<not> is_assigned d t i"
    by (auto simp: create_assignment_def guard_simps Let_def a_def)
  then have "journaled (d\<lparr>assignments := assignments d @ [a]\<rparr>) d'"
    by (auto simp: insert_assignment_def guard_simps intro: journal_frames journaled_trans)
  with n pre show ?thesis
    by (intro conjI exI [of _ a]) (simp_all add: a_def)
qed

text \<open>An ended assignment grants nothing: the trainer is no longer assigned.\<close>

definition active_unique :: "db \<Rightarrow> bool" where
  "active_unique d \<longleftrightarrow>
     distinct (map (\<lambda>a. (ta_enrollment_id a, ta_trainer a)) (filter (\<lambda>a. ta_ended_at a = None) (assignments d)))"

lemma end_assignment_effect:
  assumes call: "end_assignment pre clk d actor n = Inr d'"
  shows "\<exists>a. find (\<lambda>a. ta_id a = n) (assignments d) = Some a \<and> ta_ended_at a = None \<and>
    ta_assigned_at a \<le> clk 0 \<and>
    journaled (d\<lparr>assignments := map (\<lambda>x. if ta_id x = n then end_row (clk 0) actor x else x) (assignments d)\<rparr>) d'"
  using call
  by (auto simp: end_assignment_def guard_simps dest!: journaled_record_for_subject)

text \<open>One open assignment per enrollment and trainer: both writes keep it.\<close>

lemma active_unique_journaled: "journaled d d' \<Longrightarrow> active_unique d' = active_unique d"
  by (simp add: active_unique_def journaled_tables)

lemma create_assignment_unique:
  assumes call: "create_assignment pre clk d actor i t = Inr (d', n)" and u: "active_unique d"
  shows "active_unique d'"
proof -
  obtain a where a: "ta_enrollment_id a = i" "ta_trainer a = t" "ta_ended_at a = None"
    and n: "\<not> is_assigned d t i" and j: "journaled (d\<lparr>assignments := assignments d @ [a]\<rparr>) d'"
    using create_assignment_effect [OF call] by blast
  have "active_unique (d\<lparr>assignments := assignments d @ [a]\<rparr>)"
    using u n a by (auto simp: active_unique_def is_assigned_def list_ex_iff)
  then show ?thesis
    using active_unique_journaled [OF j] by simp
qed

lemma end_assignment_unique:
  assumes call: "end_assignment pre clk d actor n = Inr d'" and u: "active_unique d"
  shows "active_unique d'"
proof -
  let ?f = "\<lambda>x. if ta_id x = n then end_row (clk 0) actor x else x"
  have j: "journaled (d\<lparr>assignments := map ?f (assignments d)\<rparr>) d'"
    using end_assignment_effect [OF call] by blast
  have "filter (\<lambda>a. ta_ended_at a = None) (map ?f xs) =
      filter (\<lambda>a. ta_id a \<noteq> n) (filter (\<lambda>a. ta_ended_at a = None) xs)" for xs
    by (induction xs) (auto simp: end_row_def)
  then have "active_unique (d\<lparr>assignments := map ?f (assignments d)\<rparr>)"
    using u by (simp add: active_unique_def distinct_map_filter del: filter_filter)
  then show ?thesis
    using active_unique_journaled [OF j] by simp
qed

end
