(* ===== verification/Drafts.thy ===== *)
theory Drafts
  imports Completion Enrollments
begin

text \<open>
  The draft services (evaluation_drafts.rs): creation, ownership transfer and submission. As in
  every service, \<open>pre\<close> is what the checks before the write transaction read and \<open>d\<close> what the
  transaction reads; the rechecks inside close the gap between them.
\<close>

definition forms_of_type :: "catalog \<Rightarrow> int \<Rightarrow> record_type \<Rightarrow> evaluation_form_row list" where
  "forms_of_type c version t =
     filter (\<lambda>f. f_version_id f = version \<and> f_record_type f = t) (evaluation_forms c)"

definition list_daily_forms :: "db \<Rightarrow> int \<Rightarrow> int \<Rightarrow> (draft_refusal, (int \<times> string) list) outcome" where
  "list_daily_forms d actor session_id =
     (case session_of d session_id of
        None \<Rightarrow> refuse DrNoSuchSession
      | Some s \<Rightarrow>
          if \<not> may_start d actor session_id (ts_enrollment_id s) then refuse DrCapabilityRequired
          else Inr (map (\<lambda>f. (f_id f, f_name f))
            (sort_key (\<lambda>f. (nocase (f_name f), f_id f))
              (forms_of_type (catalog d) (ts_version_id s) DailyReport))))"

definition resolve_form :: "catalog \<Rightarrow> int \<Rightarrow> int option \<Rightarrow> draft_refusal + int" where
  "resolve_form c version form_id =
     (case form_id of
        Some f \<Rightarrow>
          if list_ex (\<lambda>x. f_id x = f) (forms_of_type c version DailyReport) then Inr f
          else Inl DrNoSuchForm
      | None \<Rightarrow>
          (case sort (map f_id (forms_of_type c version DailyReport)) of
             [] \<Rightarrow> Inl DrNoDailyForm
           | [only] \<Rightarrow> Inr only
           | _ \<Rightarrow> Inl DrFormRequired))"

definition new_record :: "db \<Rightarrow> int \<Rightarrow> int \<Rightarrow> int \<Rightarrow> int \<Rightarrow> int \<Rightarrow> record_row" where
  "new_record d enrollment version form actor now =
     \<lparr>r_id = next_id (map r_id (records d)), r_enrollment_id = enrollment, r_version_id = version,
      r_form_id = form, r_owner = actor, r_revision = 0, r_created_at = now,
      r_created_by = Some actor\<rparr>"

lemma new_record_fields [simp]:
  "r_id (new_record d e v f a n) = next_id (map r_id (records d))"
  "r_enrollment_id (new_record d e v f a n) = e"
  "r_version_id (new_record d e v f a n) = v"
  "r_form_id (new_record d e v f a n) = f"
  "r_owner (new_record d e v f a n) = a"
  "r_revision (new_record d e v f a n) = 0"
  by (simp_all add: new_record_def)

definition create ::
    "db \<Rightarrow> clock \<Rightarrow> db \<Rightarrow> int \<Rightarrow> int \<Rightarrow> int option \<Rightarrow> (draft_refusal, db \<times> int) outcome" where
  "create pre clk d actor session_id form_id =
     (case session_of pre session_id of
        None \<Rightarrow> refuse DrNoSuchSession
      | Some s0 \<Rightarrow>
          if ts_disposition s0 = Some SdCancelled then refuse DrSessionCancelled
          else if \<not> may_start pre actor session_id (ts_enrollment_id s0) then refuse DrCapabilityRequired
          else case session_of d session_id of
            None \<Rightarrow> refuse DrNoSuchSession
          | Some s \<Rightarrow>
              if ts_disposition s = Some SdCancelled then refuse DrSessionCancelled
              else if list_ex (\<lambda>e. es_session_id e = session_id) (record_sessions d)
              then refuse DrDraftAlreadyExists
              else case resolve_form (catalog d) (ts_version_id s) form_id of
                Inl refusal \<Rightarrow> refuse refusal
              | Inr form \<Rightarrow>
                  let r = new_record d (ts_enrollment_id s) (ts_version_id s) form actor (clk 0) in
                  run (insert_record r d) (\<lambda>d.
                  run (append_event (r_id r) Created actor None (clk 0) d) (\<lambda>d.
                  run (insert_record_session (r_id r) session_id d) (\<lambda>d.
                  fetch_one (map_option e_user_id (enrollment_of d (ts_enrollment_id s))) (\<lambda>trainee.
                  run (record_for_subject EvDraftCreated (Some actor) (Some trainee)
                         (SubjRecord (r_id r)) (clk 1) d) (\<lambda>d.
                  Inr (d, r_id r)))))))"

text \<open>The trainee's display name, by the join every notice of this module reads.\<close>

definition trainee_name :: "db \<Rightarrow> int \<Rightarrow> string option" where
  "trainee_name d enrollment =
     Option.bind (enrollment_of d enrollment)
       (\<lambda>e. map_option u_display_name (user_of d (e_user_id e)))"

definition transfer ::
    "db \<Rightarrow> clock \<Rightarrow> db \<Rightarrow> int \<Rightarrow> int \<Rightarrow> int \<Rightarrow> draft_refusal service" where
  "transfer pre clk d actor record_id to =
     (case load_record pre record_id of
        None \<Rightarrow> refuse DrNoSuchRecord
      | Some r \<Rightarrow>
          let coordinator = user_has pre actor AssignTraining in
          if actor \<noteq> r_owner r \<and> \<not> coordinator then refuse DrCapabilityRequired
          else if to = r_owner r then refuse DrAlreadyOwner
          else if user_of pre to = None then refuse DrNoSuchUser
          else if \<not> user_has pre to AuthorEvaluation \<or> \<not> in_scope pre to r then refuse DrNotEligible
          else case frozen_refusal (status_of d record_id) of
            Some refusal \<Rightarrow> refuse refusal
          | None \<Rightarrow>
              fetch_one (map_option r_owner (record_of d record_id)) (\<lambda>owner_now.
              if actor \<noteq> owner_now \<and> \<not> coordinator then refuse DrCapabilityRequired
              else if to = owner_now then refuse DrAlreadyOwner
              else
                run (append_event record_id OwnershipTransferred actor (Some to) (clk 0) d) (\<lambda>d.
                run (update_owner record_id to d) (\<lambda>d.
                run (record_for_subject EvDraftOwnershipTransferred (Some actor) (Some to)
                       (SubjRecord record_id) (clk 1) d) (\<lambda>d.
                fetch_one (trainee_name d (r_enrollment_id r)) (\<lambda>name.
                run (notify_user to NkDraftOwnershipReceived
                       (''You are now the owner of the draft evaluation for '' @ name @ ''.'') (clk 2) d)
                  (\<lambda>d. Inr d)))))))"

definition submit ::
    "(draft_content \<Rightarrow> string option) \<Rightarrow> db \<Rightarrow> clock \<Rightarrow> db \<Rightarrow> int \<Rightarrow> int \<Rightarrow> int \<Rightarrow> draft_refusal service" where
  "submit ser pre clk d actor record_id expected_revision =
     (case load_record pre record_id of
        None \<Rightarrow> refuse DrNoSuchRecord
      | Some r \<Rightarrow>
          let coordinator = user_has pre actor AssignTraining in
          if actor \<noteq> r_owner r \<and> \<not> coordinator then refuse DrCapabilityRequired
          else case frozen_refusal (status_of d record_id) of
            Some refusal \<Rightarrow> refuse refusal
          | None \<Rightarrow>
              fetch_one (record_of d record_id) (\<lambda>now_row.
              if actor \<noteq> r_owner now_row \<and> \<not> coordinator then refuse DrCapabilityRequired
              else if expected_revision \<noteq> r_revision now_row then refuse DrStaleSave
              else let policy = policy_of (catalog d) (r_version_id r) in
              if po_required_narratives policy \<and> narratives_incomplete d r
              then refuse DrNarrativesIncomplete
              else if po_ratings_complete policy \<and> ratings_incomplete d r
              then refuse DrRatingsIncomplete
              else
                run (content_json ser d record_id) (\<lambda>json.
                run (insert_snapshot record_id Submission json (clk 0) actor d) (\<lambda>d.
                run (append_event record_id SubmittedForReview actor None (clk 0) d) (\<lambda>d.
                run (record_for_subject EvDraftSubmitted (Some actor) None
                       (SubjRecord record_id) (clk 1) d) (\<lambda>d.
                fetch_one (trainee_name d (r_enrollment_id r)) (\<lambda>name.
                run (notify_each (filter (\<lambda>u. u \<noteq> actor) (holders d ReviewEvaluation))
                       NkDraftSubmittedForReview
                       (''A draft evaluation for '' @ name @ '' awaits review.'') clk 2 d)
                  (\<lambda>d. Inr d))))))))"

end
