(* ===== verification/Summaries.thy ===== *)
theory Summaries
  imports Drafts
begin

text \<open>
  Weekly summaries (summaries.rs, migration 0013): records whose working copy also carries
  links to the finalized daily versions it covers, edited under the same revision and freeze
  rules as the content. \<open>json_extract\<close> of stored bytes is SQLite's: the parameter \<open>labels\<close>
  gives the form name and the first session's date.
\<close>

definition summary_may_start :: "db \<Rightarrow> int \<Rightarrow> int \<Rightarrow> bool" where
  "summary_may_start d actor enrollment_id \<longleftrightarrow>
     user_has d actor AssignTraining
     \<or> user_has d actor AuthorEvaluation \<and> is_assigned d actor enrollment_id"

definition enrollment_version :: "db \<Rightarrow> int \<Rightarrow> int option" where
  "enrollment_version d enrollment_id = map_option e_version_id (enrollment_of d enrollment_id)"

definition list_summary_forms :: "db \<Rightarrow> int \<Rightarrow> int \<Rightarrow> (draft_refusal, (int \<times> string) list) outcome" where
  "list_summary_forms d actor enrollment_id =
     (case enrollment_version d enrollment_id of
        None \<Rightarrow> refuse DrNoSuchEnrollment
      | Some version \<Rightarrow>
          if \<not> summary_may_start d actor enrollment_id then refuse DrCapabilityRequired
          else Inr (map (\<lambda>f. (f_id f, f_name f))
            (sort_key (\<lambda>f. (nocase (f_name f), f_id f))
              (forms_of_type (catalog d) version WeeklySummary))))"

definition resolve_summary_form :: "catalog \<Rightarrow> int \<Rightarrow> int option \<Rightarrow> draft_refusal + int" where
  "resolve_summary_form c version form_id =
     (case form_id of
        Some f \<Rightarrow>
          if list_ex (\<lambda>x. f_id x = f) (forms_of_type c version WeeklySummary) then Inr f
          else Inl DrNoSuchForm
      | None \<Rightarrow>
          (case sort (map f_id (forms_of_type c version WeeklySummary)) of
             [] \<Rightarrow> Inl DrNoSummaryForm
           | [only] \<Rightarrow> Inr only
           | _ \<Rightarrow> Inl DrFormRequired))"

definition create_summary ::
    "db \<Rightarrow> clock \<Rightarrow> db \<Rightarrow> int \<Rightarrow> int \<Rightarrow> int option \<Rightarrow> (draft_refusal, db \<times> int) outcome" where
  "create_summary pre clk d actor enrollment_id form_id =
     (if enrollment_version pre enrollment_id = None then refuse DrNoSuchEnrollment
      else if \<not> summary_may_start pre actor enrollment_id then refuse DrCapabilityRequired
      else case enrollment_version d enrollment_id of
        None \<Rightarrow> refuse DrNoSuchEnrollment
      | Some version \<Rightarrow>
          (case resolve_summary_form (catalog d) version form_id of
             Inl refusal \<Rightarrow> refuse refusal
           | Inr form \<Rightarrow>
               let r = new_record d enrollment_id version form actor (clk 0) in
               run (insert_record r d) (\<lambda>d.
               run (append_event (r_id r) Created actor None (clk 0) d) (\<lambda>d.
               fetch_one (map_option e_user_id (enrollment_of d enrollment_id)) (\<lambda>trainee.
               run (record_for_subject EvDraftCreated (Some actor) (Some trainee)
                      (SubjRecord (r_id r)) (clk 1) d) (\<lambda>d.
               Inr (d, r_id r))))))) "

section \<open>Links\<close>

record summary_link =
  sk_version_id :: int
  sk_record_id :: int
  sk_version_number :: int
  sk_content_hash :: string
  sk_finalized_at :: int
  sk_form_name :: "string option"
  sk_business_date :: "string option"

definition link_view :: "(string \<Rightarrow> string option \<times> string option) \<Rightarrow> version_row \<Rightarrow> summary_link" where
  "link_view labels v =
     \<lparr>sk_version_id = v_id v, sk_record_id = v_record_id v, sk_version_number = v_number v,
      sk_content_hash = v_content_hash v, sk_finalized_at = v_finalized_at v,
      sk_form_name = fst (labels (v_bytes v)), sk_business_date = snd (labels (v_bytes v))\<rparr>"

definition record_links :: "db \<Rightarrow> int \<Rightarrow> daily_link_row list" where
  "record_links d r = filter (\<lambda>l. sl_summary_id l = r) (daily_links d)"

definition links :: "(string \<Rightarrow> string option \<times> string option) \<Rightarrow> db \<Rightarrow> int \<Rightarrow> summary_link list" where
  "links labels d record_id =
     map (link_view labels)
       (sort_key (\<lambda>v. (v_record_id v, v_number v))
         (List.map_filter (\<lambda>l. sealed_version_of d (sl_version_id l)) (record_links d record_id)))"

definition linked :: "db \<Rightarrow> int \<Rightarrow> int \<Rightarrow> bool" where
  "linked d r v \<longleftrightarrow> list_ex (\<lambda>l. sl_version_id l = v) (record_links d r)"

text \<open>The record type of a record's form, by the join on the form id.\<close>

definition record_type_of :: "db \<Rightarrow> int \<Rightarrow> record_type option" where
  "record_type_of d r =
     Option.bind (record_of d r) (\<lambda>x. map_option f_record_type (form_of d (r_form_id x)))"

text \<open>A sealed version's enrollment and record type.\<close>

definition version_home :: "db \<Rightarrow> int \<Rightarrow> (int \<times> record_type) option" where
  "version_home d v =
     Option.bind (sealed_version_of d v) (\<lambda>x.
     Option.bind (record_of d (v_record_id x)) (\<lambda>r.
     map_option (\<lambda>f. (r_enrollment_id r, f_record_type f)) (form_of d (r_form_id r))))"

definition linkable ::
    "(string \<Rightarrow> string option \<times> string option) \<Rightarrow> db \<Rightarrow> int \<Rightarrow> int \<Rightarrow> (draft_refusal, summary_link list) outcome" where
  "linkable labels d actor record_id =
     (case load_record d record_id of
        None \<Rightarrow> refuse DrNoSuchRecord
      | Some r \<Rightarrow>
          if \<not> may_contribute d actor r then refuse DrCapabilityRequired
          else Inr (map (link_view labels)
            (sort_key (\<lambda>v. (- v_finalized_at v, - v_id v))
              (filter (\<lambda>v. version_home d (v_id v) = Some (r_enrollment_id r, DailyReport)
                         \<and> \<not> linked d record_id (v_id v)) (versions d)))))"

definition insert_link :: "int \<Rightarrow> int \<Rightarrow> db \<Rightarrow> db_error + db" where
  "insert_link record_id version d =
     demand (record_type_of d record_id = Some WeeklySummary)
       (Raised ''summary_daily_link_takes_a_summary'')
    (demand (Option.bind (sealed_version_of d version) (\<lambda>v. map_option r_enrollment_id (record_of d (v_record_id v)))
             = map_option r_enrollment_id (record_of d record_id))
       (Raised ''summary_daily_link_stays_home'')
    (demand (map_option snd (version_home d version) = Some DailyReport)
       (Raised ''summary_daily_link_takes_dailies'')
    (demand (\<not> record_frozen d record_id) (Raised ''summary_daily_link_frozen_insert'')
    (demand (\<not> linked d record_id version) UniqueIndex
    (demand (record_of d record_id \<noteq> None \<and> sealed_version_of d version \<noteq> None) ForeignKey
    (Inr (d\<lparr>daily_links := daily_links d @
       [\<lparr>sl_id = next_id (map sl_id (daily_links d)), sl_summary_id = record_id,
         sl_version_id = version\<rparr>]\<rparr>)))))))"

definition delete_link :: "int \<Rightarrow> int \<Rightarrow> db \<Rightarrow> db_error + (db \<times> nat)" where
  "delete_link record_id version d =
     (let hit = (\<lambda>l. sl_summary_id l = record_id \<and> sl_version_id l = version) in
      demand (\<not> list_ex hit (daily_links d) \<or> \<not> record_frozen d record_id)
        (Raised ''summary_daily_link_frozen_delete'')
        (Inr (d\<lparr>daily_links := filter (\<lambda>l. \<not> hit l) (daily_links d)\<rparr>,
              length (filter hit (daily_links d)))))"

definition link_write ::
    "bool \<Rightarrow> db \<Rightarrow> record_row \<Rightarrow> int \<Rightarrow> int \<Rightarrow> (draft_refusal, db) outcome" where
  "link_write add d r record_id version =
     (if add then
        case version_home d version of
          None \<Rightarrow> refuse DrNoSuchVersion
        | Some (enrollment, kind) \<Rightarrow>
            if enrollment \<noteq> r_enrollment_id r then refuse DrWrongEnrollment
            else if kind \<noteq> DailyReport then refuse DrNotADaily
            else if linked d record_id version then refuse DrDuplicateLink
            else run (insert_link record_id version d) (\<lambda>d. Inr d)
      else run (delete_link record_id version d) (\<lambda>p. case p of (d, n) \<Rightarrow>
             if n = 0 then refuse DrNoSuchLink else Inr d))"

definition edit_links ::
    "bool \<Rightarrow> db \<Rightarrow> clock \<Rightarrow> db \<Rightarrow> int \<Rightarrow> int \<Rightarrow> int \<Rightarrow> int \<Rightarrow> (draft_refusal, db \<times> int) outcome" where
  "edit_links add pre clk d actor record_id version expected_revision =
     (case load_record pre record_id of
        None \<Rightarrow> refuse DrNoSuchRecord
      | Some r \<Rightarrow>
          if \<not> may_contribute pre actor r then refuse DrCapabilityRequired
          else case frozen_refusal (status_of d record_id) of
            Some refusal \<Rightarrow> refuse refusal
          | None \<Rightarrow>
              fetch_one (record_type_of d record_id) (\<lambda>kind.
              if kind \<noteq> WeeklySummary then refuse DrNotASummary
              else fetch_one (map_option r_revision (record_of d record_id)) (\<lambda>revision_now.
              if expected_revision \<noteq> revision_now then refuse DrStaleSave
              else case link_write add d r record_id version of
                Inl e \<Rightarrow> Inl e
              | Inr d \<Rightarrow>
                  run (attribute_contribution record_id actor (clk 0)
                         (set_revision record_id (revision_now + 1) d)) (\<lambda>d.
                  Inr (d, revision_now + 1)))))"

definition add_link ::
    "db \<Rightarrow> clock \<Rightarrow> db \<Rightarrow> int \<Rightarrow> int \<Rightarrow> int \<Rightarrow> int \<Rightarrow> (draft_refusal, db \<times> int) outcome" where
  "add_link = edit_links True"

definition remove_link ::
    "db \<Rightarrow> clock \<Rightarrow> db \<Rightarrow> int \<Rightarrow> int \<Rightarrow> int \<Rightarrow> int \<Rightarrow> (draft_refusal, db \<times> int) outcome" where
  "remove_link = edit_links False"

end
