(* ===== verification/Review.thy ===== *)
theory Review
  imports Drafts
begin

text \<open>
  The single-step review (draft_review.rs, migration 0009): deciding a submitted draft, and the
  reviewers' queue.
\<close>

fun decision_notice :: "review_decision_kind \<Rightarrow> notice_kind" where
  "decision_notice Approved = NkDraftApproved"
| "decision_notice ChangesRequested = NkDraftChangesRequested"
| "decision_notice Returned = NkDraftReturned"

fun verdict :: "review_decision_kind \<Rightarrow> string" where
  "verdict Approved = ''was approved''"
| "verdict ChangesRequested = ''needs changes''"
| "verdict Returned = ''was returned''"

definition new_decision :: "db \<Rightarrow> int \<Rightarrow> int \<Rightarrow> review_decision_kind \<Rightarrow> string \<Rightarrow> int \<Rightarrow> decision_row" where
  "new_decision d record_id actor decision comment now =
     \<lparr>rd_id = next_id (map rd_id (decisions d)), rd_record_id = record_id, rd_reviewer = actor,
      rd_decision = decision, rd_comment = comment, rd_decided_at = now\<rparr>"

lemma new_decision_fields [simp]:
  "rd_id (new_decision d r a k c n) = next_id (map rd_id (decisions d))"
  "rd_record_id (new_decision d r a k c n) = r"
  "rd_reviewer (new_decision d r a k c n) = a"
  "rd_decision (new_decision d r a k c n) = k"
  "rd_comment (new_decision d r a k c n) = c"
  "rd_decided_at (new_decision d r a k c n) = n"
  by (simp_all add: new_decision_def)

definition decide ::
    "(draft_content \<Rightarrow> string option) \<Rightarrow> db \<Rightarrow> clock \<Rightarrow> db \<Rightarrow> int \<Rightarrow> int \<Rightarrow> review_decision_kind
      \<Rightarrow> string option \<Rightarrow> draft_refusal service" where
  "decide ser pre clk d actor record_id decision comment =
     (case load_record pre record_id of
        None \<Rightarrow> refuse DrNoSuchRecord
      | Some r \<Rightarrow>
          if \<not> user_has pre actor ReviewEvaluation then refuse DrCapabilityRequired
          else let comment = (case comment of None \<Rightarrow> [] | Some c \<Rightarrow> trim c) in
          if decision = ChangesRequested \<and> comment = [] then refuse DrCommentRequired
          else if status_of d record_id \<noteq> StSubmitted then refuse DrNotSubmitted
          else run (is_contributor d record_id actor) (\<lambda>contributor.
            if contributor then refuse DrSelfReview
            else
              run (if decision = ChangesRequested
                   then seq (content_json ser d record_id) (\<lambda>json.
                          insert_snapshot record_id ChangeRequestReturn json (clk 0) actor d)
                   else Inr d) (\<lambda>d.
              run (insert_decision (new_decision d record_id actor decision comment (clk 0)) d) (\<lambda>d.
              fetch_one (map_option r_owner (record_of d record_id)) (\<lambda>owner.
              run (record_for_subject EvDraftReviewDecided (Some actor) (Some owner)
                     (SubjRecord record_id) (clk 1) d) (\<lambda>d.
              fetch_one (trainee_name d (r_enrollment_id r)) (\<lambda>name.
              run (notify_user owner (decision_notice decision)
                     (''Your draft evaluation for '' @ name @ '' '' @ verdict decision @ ''.'') (clk 2) d)
                (\<lambda>d. Inr d)))))))) "

section \<open>The queue\<close>

record queue_row =
  q_record_id :: int
  q_trainee :: int
  q_trainee_name :: string
  q_owner_name :: string
  q_program_name :: string
  q_version_number :: int
  q_submitted_at :: "int option"
  q_eligible :: bool

definition awaits :: "db \<Rightarrow> int \<Rightarrow> bool" where
  "awaits d r \<longleftrightarrow>
     map_option ce_kind (latest_by ce_id (record_events d r)) = Some SubmittedForReview"

text \<open>
  One row of the query's join: \<open>None\<close> when an inner join finds nothing. \<open>submitted_at\<close> is
  \<open>NULL\<close> only of a record that was never submitted, and the filter excludes those.
\<close>

definition queue_row_of :: "db \<Rightarrow> int \<Rightarrow> record_row \<Rightarrow> queue_row option" where
  "queue_row_of d actor r =
     Option.bind (enrollment_of d (r_enrollment_id r)) (\<lambda>e.
     Option.bind (user_of d (e_user_id e)) (\<lambda>tu.
     Option.bind (user_of d (r_owner r)) (\<lambda>ou.
     Option.bind (version_of d (r_version_id r)) (\<lambda>pv.
     Some \<lparr>q_record_id = r_id r, q_trainee = e_user_id e, q_trainee_name = u_display_name tu,
        q_owner_name = u_display_name ou, q_program_name = pv_name pv,
        q_version_number = pv_version_number pv,
        q_submitted_at = map_option ce_recorded_at
          (latest_by ce_id (filter (\<lambda>e. ce_kind e = SubmittedForReview) (record_events d (r_id r)))),
        q_eligible = (r_owner r \<noteq> actor \<and>
          \<not> list_ex (contributed_by actor) (record_events d (r_id r)))\<rparr>))))"

definition queue :: "db \<Rightarrow> int \<Rightarrow> (draft_refusal, queue_row list) outcome" where
  "queue d actor =
     (if \<not> user_has d actor ReviewEvaluation then refuse DrCapabilityRequired
      else Inr (sort_key (\<lambda>q. (case q_submitted_at q of None \<Rightarrow> (0::nat, 0) | Some t \<Rightarrow> (1, t), q_record_id q))
        (List.map_filter (queue_row_of d actor) (filter (\<lambda>r. awaits d (r_id r)) (records d)))))"

end
