(* ===== verification/Acknowledgments.thy ===== *)
theory Acknowledgments
  imports Drafts
begin

text \<open>
  Acknowledgments (acknowledgments.rs, migration 0011): the trainee's own act on the latest
  finalized version, the attestation someone else makes about them, the reads, and the
  constraints that bind each row to the version's trainee.
\<close>

datatype ack_refusal =
    ArNoSuchRecord
  | ArNotFinalized
  | ArCapabilityRequired
  | ArNotYourRecord
  | ArSelfAttestation
  | ArAlreadyAcknowledged
  | ArResponseRequired
  | ArResponseNotAllowed

record ack_view =
  aw_kind :: ack_kind
  aw_response :: string
  aw_user_name :: string
  aw_recorded_by :: int
  aw_recorder_name :: string
  aw_recorded_at :: int

section \<open>The table\<close>

definition trainee_of_record :: "db \<Rightarrow> int \<Rightarrow> int option" where
  "trainee_of_record d r =
     Option.bind (record_of d r) (\<lambda>x. map_option e_user_id (enrollment_of d (r_enrollment_id x)))"

definition trainee_of_version :: "db \<Rightarrow> int \<Rightarrow> int option" where
  "trainee_of_version d v =
     Option.bind (sealed_version_of d v) (\<lambda>x. trainee_of_record d (v_record_id x))"

definition already_acknowledged :: "db \<Rightarrow> int \<Rightarrow> int \<Rightarrow> bool" where
  "already_acknowledged d version user \<longleftrightarrow>
     list_ex (\<lambda>a. ak_version_id a = version \<and> ak_user_id a = user) (acks d)"

definition ack_shape :: "ack_row \<Rightarrow> bool" where
  "ack_shape a \<longleftrightarrow>
     (if ak_kind a = Acknowledged then ak_response a = [] else 0 < sql_length (trim (ak_response a))) \<and>
     spoken_by_trainee (ak_kind a) = (ak_recorded_by a = ak_user_id a) \<and>
     0 < sql_length (ak_user_name a) \<and> 0 < sql_length (ak_recorder_name a)"

definition insert_ack :: "ack_row \<Rightarrow> db \<Rightarrow> db_error + db" where
  "insert_ack a d =
     demand (\<not> sql_neq (Some (ak_user_id a)) (trainee_of_version d (ak_version_id a)))
       (Raised ''acknowledgment_binds_the_trainee'')
    (demand (ack_shape a) CheckConstraint
    (demand (\<not> already_acknowledged d (ak_version_id a) (ak_user_id a)) UniqueIndex
    (demand (sealed_version_of d (ak_version_id a) \<noteq> None \<and> user_of d (ak_user_id a) \<noteq> None
        \<and> user_of d (ak_recorded_by a) \<noteq> None) ForeignKey
    (Inr (d\<lparr>acks := acks d @ [a]\<rparr>)))))"

definition new_ack ::
    "db \<Rightarrow> int \<Rightarrow> int \<Rightarrow> ack_kind \<Rightarrow> string \<Rightarrow> int \<Rightarrow> string \<Rightarrow> string \<Rightarrow> int \<Rightarrow> ack_row" where
  "new_ack d version user kind response recorder user_name recorder_name now =
     \<lparr>ak_id = next_id (map ak_id (acks d)), ak_version_id = version, ak_user_id = user,
      ak_kind = kind, ak_response = response, ak_recorded_by = recorder, ak_user_name = user_name,
      ak_recorder_name = recorder_name, ak_recorded_at = now\<rparr>"

lemma new_ack_fields [simp]:
  "ak_id (new_ack d v u k r b n m t) = next_id (map ak_id (acks d))"
  "ak_version_id (new_ack d v u k r b n m t) = v"
  "ak_user_id (new_ack d v u k r b n m t) = u"
  "ak_kind (new_ack d v u k r b n m t) = k"
  "ak_response (new_ack d v u k r b n m t) = r"
  "ak_recorded_by (new_ack d v u k r b n m t) = b"
  "ak_user_name (new_ack d v u k r b n m t) = n"
  "ak_recorder_name (new_ack d v u k r b n m t) = m"
  by (simp_all add: new_ack_def)

section \<open>Acts\<close>

text \<open>\<open>latest_version\<close>: the latest version's id and the record's trainee.\<close>

definition latest_with_trainee :: "db \<Rightarrow> int \<Rightarrow> (int \<times> int) option" where
  "latest_with_trainee d record_id =
     Option.bind (latest_version d record_id) (\<lambda>v.
       map_option (Pair (v_id v)) (trainee_of_record d record_id))"

definition display_name :: "db \<Rightarrow> int \<Rightarrow> string option" where
  "display_name d u = map_option u_display_name (user_of d u)"

definition response_refusal :: "trainee_ack_kind \<Rightarrow> string \<Rightarrow> ack_refusal option" where
  "response_refusal kind response =
     (case kind of
        TaAcknowledged \<Rightarrow> if response \<noteq> [] then Some ArResponseNotAllowed else None
      | _ \<Rightarrow> if response = [] then Some ArResponseRequired else None)"

text \<open>The notices of each kind; the escalation reads the clock of the act once.\<close>

definition ack_notices ::
    "trainee_ack_kind \<Rightarrow> int \<Rightarrow> string \<Rightarrow> clock \<Rightarrow> db \<Rightarrow> (ack_refusal, db) outcome" where
  "ack_notices kind record_id name clk d =
     (case kind of
        TaAcknowledged \<Rightarrow> Inr d
      | TaAcknowledgedWithResponse \<Rightarrow>
          fetch_one (map_option r_owner (record_of d record_id)) (\<lambda>owner.
          run (notify_user owner NkAcknowledgmentResponse
                 (name @ '' acknowledged a finalized evaluation record with a response.'') (clk 2) d) (\<lambda>d. Inr d))
      | TaRefused \<Rightarrow>
          run (notify_each (holders d ReviewEvaluation) NkAcknowledgmentRefused
                 (name @ '' refused to acknowledge a finalized evaluation record.'') (\<lambda>_. clk 0) 0 d) (\<lambda>d. Inr d))"

definition acknowledge ::
    "db \<Rightarrow> clock \<Rightarrow> db \<Rightarrow> int \<Rightarrow> int \<Rightarrow> trainee_ack_kind \<Rightarrow> string \<Rightarrow> ack_refusal service" where
  "acknowledge pre clk d actor record_id kind response =
     (if load_record pre record_id = None then refuse ArNoSuchRecord
      else if \<not> user_has pre actor AcknowledgeOwnRecord then refuse ArCapabilityRequired
      else let response = trim response in
      case response_refusal kind response of
        Some refusal \<Rightarrow> refuse refusal
      | None \<Rightarrow>
      (case latest_with_trainee d record_id of
        None \<Rightarrow> refuse ArNotFinalized
      | Some (version, trainee) \<Rightarrow>
          if trainee \<noteq> actor then refuse ArNotYourRecord
          else if already_acknowledged d version actor then refuse ArAlreadyAcknowledged
          else
            fetch_one (display_name d actor) (\<lambda>name.
            run (insert_ack (new_ack d version actor (trainee_ack kind) response actor name name (clk 0)) d) (\<lambda>d.
            run (record_for_subject EvAcknowledgmentRecorded (Some actor) (Some actor)
                   (SubjRecord record_id) (clk 1) d) (\<lambda>d.
            ack_notices kind record_id name clk d)))))"

fun attested_statement :: "attested_kind \<Rightarrow> string" where
  "attested_statement AtSupervisorAttestedRefusal = ''a refusal to acknowledge was attested on your behalf''"
| "attested_statement AtUnavailable = ''you were recorded as unavailable to acknowledge''"

definition attest ::
    "db \<Rightarrow> clock \<Rightarrow> db \<Rightarrow> int \<Rightarrow> int \<Rightarrow> attested_kind \<Rightarrow> string \<Rightarrow> ack_refusal service" where
  "attest pre clk d actor record_id kind reason =
     (if load_record pre record_id = None then refuse ArNoSuchRecord
      else if \<not> user_has pre actor ReviewEvaluation then refuse ArCapabilityRequired
      else let reason = trim reason in
      if reason = [] then refuse ArResponseRequired
      else case latest_with_trainee d record_id of
        None \<Rightarrow> refuse ArNotFinalized
      | Some (version, trainee) \<Rightarrow>
          if trainee = actor then refuse ArSelfAttestation
          else if already_acknowledged d version trainee then refuse ArAlreadyAcknowledged
          else
            fetch_one (display_name d trainee) (\<lambda>trainee_nm.
            fetch_one (display_name d actor) (\<lambda>attester_nm.
            run (insert_ack (new_ack d version trainee (attested_ack kind) reason actor trainee_nm
                   attester_nm (clk 0)) d) (\<lambda>d.
            run (record_for_subject EvAcknowledgmentRecorded (Some actor) (Some trainee)
                   (SubjRecord record_id) (clk 1) d) (\<lambda>d.
            run (notify_user trainee NkAcknowledgmentAttested
                   (''On a finalized evaluation record, '' @ attested_statement kind @ ''.'') (clk 2) d)
              (\<lambda>d. Inr d))))))"

section \<open>Reads\<close>

definition ack_view_of :: "ack_row \<Rightarrow> ack_view" where
  "ack_view_of a =
     \<lparr>aw_kind = ak_kind a, aw_response = ak_response a, aw_user_name = ak_user_name a,
      aw_recorded_by = ak_recorded_by a, aw_recorder_name = ak_recorder_name a,
      aw_recorded_at = ak_recorded_at a\<rparr>"

text \<open>
  \<open>LEFT JOIN acknowledgment\<close> on the version alone: at most one row joins, because a row's
  person is always the version's trainee and the pair is unique.
\<close>

definition ack_of_version :: "db \<Rightarrow> int \<Rightarrow> ack_row option" where
  "ack_of_version d v = find (\<lambda>a. ak_version_id a = v) (acks d)"

definition acknowledgment_of :: "db \<Rightarrow> int \<Rightarrow> int \<Rightarrow> (ack_refusal, ack_view option) outcome" where
  "acknowledgment_of d actor record_id =
     (case load_record d record_id of
        None \<Rightarrow> refuse ArNoSuchRecord
      | Some r \<Rightarrow>
          if \<not> may_read d actor r then refuse ArCapabilityRequired
          else Inr (Option.bind (latest_version d record_id)
            (\<lambda>v. map_option ack_view_of (ack_of_version d (v_id v)))))"

record timeline_row =
  tl_record_id :: int
  tl_program_name :: string
  tl_version_number :: int
  tl_form_name :: string
  tl_business_date :: "string option"
  tl_finalized_at :: int
  tl_record_version_number :: int
  tl_ack_kind :: "ack_kind option"
  tl_ack_at :: "int option"

definition covered_date :: "db \<Rightarrow> int \<Rightarrow> string option" where
  "covered_date d r =
     (let ds = map ts_business_date (List.map_filter (session_of d) (covered_sessions d r)) in
      if ds = [] then None else Some (Min (set ds)))"

definition timeline_row_of :: "db \<Rightarrow> int \<Rightarrow> version_row \<Rightarrow> timeline_row option" where
  "timeline_row_of d actor v =
     Option.bind (record_of d (v_record_id v)) (\<lambda>r.
     Option.bind (enrollment_of d (r_enrollment_id r)) (\<lambda>e.
     Option.bind (version_of d (r_version_id r)) (\<lambda>pv.
     Option.bind (form_of d (r_form_id r)) (\<lambda>f.
     let a = find (\<lambda>a. ak_version_id a = v_id v \<and> ak_user_id a = e_user_id e) (acks d) in
     if e_user_id e = actor \<and> latest_version d (r_id r) = Some v then
       Some \<lparr>tl_record_id = r_id r, tl_program_name = pv_name pv,
         tl_version_number = pv_version_number pv, tl_form_name = f_name f,
         tl_business_date = covered_date d (r_id r), tl_finalized_at = v_finalized_at v,
         tl_record_version_number = v_number v, tl_ack_kind = map_option ak_kind a,
         tl_ack_at = map_option ak_recorded_at a\<rparr>
     else None))))"

definition own_records :: "db \<Rightarrow> int \<Rightarrow> (ack_refusal, timeline_row list) outcome" where
  "own_records d actor =
     (if \<not> user_has d actor ViewOwnRecords then refuse ArCapabilityRequired
      else Inr (sort_key (\<lambda>t. (- tl_finalized_at t, - tl_record_id t))
        (List.map_filter (timeline_row_of d actor) (versions d))))"

end
