(* ===== verification/Amendments.thy ===== *)
theory Amendments
  imports Acknowledgments
begin

text \<open>
  Amendments and version history (amendments.rs, migration 0012): opening an amendment on the
  latest finalized version, and the history read. \<open>open_scope\<close>, which every workflow
  derivation reads, is in \<open>Workflow\<close>.
\<close>

datatype amend_refusal =
    MrNoSuchRecord
  | MrCapabilityRequired
  | MrNotFinalized
  | MrAmendmentOpen
  | MrReasonRequired

definition mark_of :: "int list \<Rightarrow> int" where
  "mark_of ids = (case max_id ids of None \<Rightarrow> 0 | Some m \<Rightarrow> m)"

definition event_mark :: "db \<Rightarrow> int \<Rightarrow> int" where
  "event_mark d r = mark_of (map ce_id (record_events d r))"

definition decision_mark :: "db \<Rightarrow> int \<Rightarrow> int" where
  "decision_mark d r = mark_of (map rd_id (record_decisions d r))"

definition insert_amendment :: "amendment_row \<Rightarrow> db \<Rightarrow> db_error + db" where
  "insert_amendment a d =
     (let r = am_record_id a in
     demand (Some (am_predecessor a) = map_option v_id (latest_version d r))
       (Raised ''amendment_amends_the_latest'')
    (demand (am_event_mark a = event_mark d r \<and> am_decision_mark a = decision_mark d r)
       (Raised ''amendment_marks_are_truthful'')
    (demand (0 < sql_length (trim (am_reason a)) \<and> 0 < sql_length (am_opened_by_name a)) CheckConstraint
    (demand (amendment_of d (am_predecessor a) = None) UniqueIndex
    (demand (record_of d r \<noteq> None \<and> sealed_version_of d (am_predecessor a) \<noteq> None
        \<and> user_of d (am_opened_by a) \<noteq> None) ForeignKey
    (Inr (d\<lparr>amendments := amendments d @ [a]\<rparr>)))))))"

definition new_amendment ::
    "db \<Rightarrow> int \<Rightarrow> int \<Rightarrow> string \<Rightarrow> int \<Rightarrow> string \<Rightarrow> int \<Rightarrow> amendment_row" where
  "new_amendment d record_id version reason actor name now =
     \<lparr>am_id = next_id (map am_id (amendments d)), am_record_id = record_id, am_predecessor = version,
      am_reason = reason, am_opened_by = actor, am_opened_by_name = name, am_opened_at = now,
      am_event_mark = event_mark d record_id, am_decision_mark = decision_mark d record_id\<rparr>"

lemma new_amendment_fields [simp]:
  "am_id (new_amendment d r v s a n t) = next_id (map am_id (amendments d))"
  "am_record_id (new_amendment d r v s a n t) = r"
  "am_predecessor (new_amendment d r v s a n t) = v"
  "am_reason (new_amendment d r v s a n t) = s"
  "am_opened_by (new_amendment d r v s a n t) = a"
  "am_opened_by_name (new_amendment d r v s a n t) = n"
  "am_event_mark (new_amendment d r v s a n t) = event_mark d r"
  "am_decision_mark (new_amendment d r v s a n t) = decision_mark d r"
  by (simp_all add: new_amendment_def)

text \<open>\<open>open\<close>.\<close>

definition open_amendment_on ::
    "db \<Rightarrow> clock \<Rightarrow> db \<Rightarrow> int \<Rightarrow> int \<Rightarrow> string \<Rightarrow> amend_refusal service" where
  "open_amendment_on pre clk d actor record_id reason =
     (if load_record pre record_id = None then refuse MrNoSuchRecord
      else if \<not> user_has pre actor ReviewEvaluation then refuse MrCapabilityRequired
      else let reason = trim reason in
      if reason = [] then refuse MrReasonRequired
      else case latest_version d record_id of
        None \<Rightarrow> refuse MrNotFinalized
      | Some v \<Rightarrow>
          if amendment_of d (v_id v) \<noteq> None then refuse MrAmendmentOpen
          else
            fetch_one (display_name d actor) (\<lambda>name.
            run (insert_amendment (new_amendment d record_id (v_id v) reason actor name (clk 0)) d) (\<lambda>d.
            let d = map_record record_id (\<lambda>r. r\<lparr>r_revision := r_revision r + 1\<rparr>) d in
            fetch_one (record_of d record_id) (\<lambda>row.
            fetch_one (enrollment_of d (r_enrollment_id row)) (\<lambda>e.
            fetch_one (display_name d (e_user_id e)) (\<lambda>trainee_nm.
            run (record_for_subject EvAmendmentOpened (Some actor) (Some (e_user_id e))
                   (SubjRecord record_id) (clk 1) d) (\<lambda>d.
            run (notify_user (r_owner row) NkAmendmentOpened
                   (''The finalized evaluation for '' @ trainee_nm @ '' was reopened for amendment.'')
                   (clk 2) d) (\<lambda>d. Inr d))))))))"

section \<open>History\<close>

record amendment_view =
  av_reason :: string
  av_opened_by_name :: string
  av_opened_at :: int

record version_history_row =
  vh_version_number :: int
  vh_record_schema :: int
  vh_content_hash :: string
  vh_chain_hash :: string
  vh_finalized_at :: int
  vh_finalized_by_name :: string
  vh_amendment :: "amendment_view option"
  vh_acknowledgment :: "ack_view option"

text \<open>
  \<open>json_extract\<close> of the stored bytes is SQLite's: the parameter \<open>finalizer_name\<close> is its result
  at \<open>$.finalization.finalized_by.display_name\<close>.
\<close>

definition history ::
    "(string \<Rightarrow> string option) \<Rightarrow> db \<Rightarrow> int \<Rightarrow> int \<Rightarrow> (amend_refusal, version_history_row list) outcome" where
  "history finalizer_name d actor record_id =
     (case load_record d record_id of
        None \<Rightarrow> refuse MrNoSuchRecord
      | Some r \<Rightarrow>
          if \<not> may_read d actor r then refuse MrCapabilityRequired
          else Inr (map (\<lambda>v.
              \<lparr>vh_version_number = v_number v, vh_record_schema = v_schema v,
               vh_content_hash = v_content_hash v, vh_chain_hash = v_chain_hash v,
               vh_finalized_at = v_finalized_at v,
               vh_finalized_by_name = (case finalizer_name (v_bytes v) of None \<Rightarrow> [] | Some n \<Rightarrow> n),
               vh_amendment = map_option (\<lambda>a. \<lparr>av_reason = am_reason a,
                 av_opened_by_name = am_opened_by_name a, av_opened_at = am_opened_at a\<rparr>)
                 (Option.bind (v_predecessor v) (amendment_of d)),
               vh_acknowledgment = map_option ack_view_of (ack_of_version d (v_id v))\<rparr>)
            (sort_key (\<lambda>v. - v_number v) (record_versions d record_id))))"

end
