(* ===== verification/Canonical.thy ===== *)
theory Canonical
  imports Prelude "HOL-Library.Word"
begin

text \<open>
  The canonical byte serializer (canonical.rs): the document type of \<open>serde_json\<close>, the
  validation of the closed subset, the content hash and the chain hash with their lowercase
  hex encoding. \<open>serde_json::to_vec\<close> and SHA-256 are not part of the repository: they are the
  parameters \<open>to_vec\<close> (\<open>None\<close> when it fails) and \<open>sha\<close>. Byte strings are lists of \<open>char\<close>.
\<close>

section \<open>JSON documents\<close>

text \<open>
  A \<open>serde_json\<close> number is a \<open>u64\<close>, a negative \<open>i64\<close> (its 64 bits in two's complement) or a
  float (its bits). An object is the list of its members, in the order of its map.
\<close>

datatype json_number = NPos "64 word" | NNeg "64 word" | NFloat "64 word"

datatype json =
    JNull
  | JBool bool
  | JNum json_number
  | JStr string
  | JArr "json list"
  | JObj "(string \<times> json) list"

fun as_i64 :: "json_number \<Rightarrow> int option" where
  "as_i64 (NPos n) = (if uint n < 2 ^ 63 then Some (uint n) else None)"
| "as_i64 (NNeg n) = Some (sint n)"
| "as_i64 (NFloat _) = None"

text \<open>The \<open>json!\<close> macro's conversions: an \<open>i64\<close>, an \<open>Option\<close>, a sorted map.\<close>

definition jint :: "int \<Rightarrow> json" where
  "jint i = JNum (if 0 \<le> i then NPos (word_of_int i) else NNeg (word_of_int i))"

definition jopt :: "('a \<Rightarrow> json) \<Rightarrow> 'a option \<Rightarrow> json" where
  "jopt f x = (case x of None \<Rightarrow> JNull | Some y \<Rightarrow> f y)"

fun obj_insert :: "string \<Rightarrow> json \<Rightarrow> (string \<times> json) list \<Rightarrow> (string \<times> json) list" where
  "obj_insert k v [] = [(k, v)]"
| "obj_insert k v ((k', v') # r) =
     (if k < k' then (k, v) # (k', v') # r
      else if k = k' then (k, v) # r
      else (k', v') # obj_insert k v r)"

definition jobj :: "(string \<times> json) list \<Rightarrow> json" where
  "jobj kvs = JObj (fold (\<lambda>(k, v). obj_insert k v) kvs [])"

section \<open>Validation\<close>

definition max_magnitude :: int where
  "max_magnitude = 2 ^ 53 - 1"

definition is_ascii :: "string \<Rightarrow> bool" where
  "is_ascii s \<longleftrightarrow> list_all (\<lambda>c. (of_char c :: nat) < 128) s"

fun nat_str :: "nat \<Rightarrow> string" where
  "nat_str n =
     (if n < 10 then [char_of (48 + n)] else nat_str (n div 10) @ [char_of (48 + n mod 10)])"

declare nat_str.simps [simp del]

datatype canonical_error =
    NotAnInteger string
  | MagnitudeExceeded string
  | NonAsciiName string string
  | Serializing
  | HashLength nat
  | HashEncoding

text \<open>\<open>Ok(())\<close> is \<open>None\<close>; the first defect in document order, with its path, is \<open>Some\<close>.\<close>

fun validate :: "json \<Rightarrow> string \<Rightarrow> canonical_error option"
  and validate_items :: "json list \<Rightarrow> nat \<Rightarrow> string \<Rightarrow> canonical_error option"
  and validate_members :: "(string \<times> json) list \<Rightarrow> string \<Rightarrow> canonical_error option" where
  "validate JNull path = None"
| "validate (JBool _) path = None"
| "validate (JStr _) path = None"
| "validate (JNum number) path =
     (case as_i64 number of
        None \<Rightarrow> Some (NotAnInteger path)
      | Some i \<Rightarrow>
          if - max_magnitude \<le> i \<and> i \<le> max_magnitude then None
          else Some (MagnitudeExceeded path))"
| "validate (JArr items) path = validate_items items 0 path"
| "validate (JObj members) path = validate_members members path"
| "validate_items [] index path = None"
| "validate_items (item # items) index path =
     (case validate item (path @ ''['' @ nat_str index @ '']'') of
        Some e \<Rightarrow> Some e
      | None \<Rightarrow> validate_items items (Suc index) path)"
| "validate_members [] path = None"
| "validate_members ((name, member) # members) path =
     (if \<not> is_ascii name then Some (NonAsciiName name path)
      else case validate member (path @ ''.'' @ name) of
        Some e \<Rightarrow> Some e
      | None \<Rightarrow> validate_members members path)"

definition canonical_bytes :: "(json \<Rightarrow> string option) \<Rightarrow> json \<Rightarrow> canonical_error + string" where
  "canonical_bytes to_vec value =
     (case validate value ''$'' of
        Some e \<Rightarrow> Inl e
      | None \<Rightarrow> (case to_vec value of None \<Rightarrow> Inl Serializing | Some bytes \<Rightarrow> Inr bytes))"

text \<open>
  The closed subset the format permits, stated of the numbers and the member names that occur
  anywhere in a document, with nothing taken from the validator: a positive number is its 64 bits
  unsigned, a negative one in two's complement, a float has no integer value.
\<close>

fun numbers :: "json \<Rightarrow> json_number list" where
  "numbers (JNum n) = [n]"
| "numbers (JArr items) = concat (map numbers items)"
| "numbers (JObj members) = concat (map (\<lambda>(name, member). numbers member) members)"
| "numbers _ = []"

fun member_names :: "json \<Rightarrow> string list" where
  "member_names (JArr items) = concat (map member_names items)"
| "member_names (JObj members) = concat (map (\<lambda>(name, member). name # member_names member) members)"
| "member_names _ = []"

fun integer_value :: "json_number \<Rightarrow> int option" where
  "integer_value (NPos n) = Some (uint n)"
| "integer_value (NNeg n) = Some (if uint n < 2 ^ 63 then uint n else uint n - 2 ^ 64)"
| "integer_value (NFloat _) = None"

definition in_subset :: "json \<Rightarrow> bool" where
  "in_subset v \<longleftrightarrow>
     (\<forall>n \<in> set (numbers v). \<exists>i. integer_value n = Some i \<and> - 9007199254740991 \<le> i \<and> i \<le> 9007199254740991) \<and>
     (\<forall>name \<in> set (member_names v). \<forall>c \<in> set name. (of_char c :: nat) < 128)"

lemma in_subset_simps [simp]:
  "in_subset JNull" "in_subset (JBool b)" "in_subset (JStr s)"
  "in_subset (JArr items) \<longleftrightarrow> (\<forall>item \<in> set items. in_subset item)"
  "in_subset (JObj members) \<longleftrightarrow> (\<forall>(name, member) \<in> set members. is_ascii name \<and> in_subset member)"
  by (auto simp: in_subset_def is_ascii_def list_all_iff)

lemma sint_as_unsigned: "sint (n :: 64 word) = (if uint n < 2 ^ 63 then uint n else uint n - 2 ^ 64)"
proof (cases "uint n < 2 ^ 63")
  case True
  moreover have "- (2 ^ 63) \<le> uint n" by (rule order_trans [OF _ uint_ge_0]) simp
  ultimately show ?thesis by (simp add: sint_uint signed_take_bit_int_eq_self)
next
  case False
  have "signed_take_bit 63 (uint n) = signed_take_bit 63 (uint n - 2 ^ 64)"
    by (simp add: signed_take_bit_eq_iff_take_bit_eq take_bit_eq_mod)
  also have "\<dots> = uint n - 2 ^ 64"
    using False uint_lt2p [of n] by (intro signed_take_bit_int_eq_self) simp_all
  finally show ?thesis using False by (simp add: sint_uint)
qed

text \<open>The validator reads a number through \<open>as_i64\<close>; past \<open>i64\<close> nothing is in the subset.\<close>

lemma in_subset_number: "in_subset (JNum n) \<longleftrightarrow> (\<exists>i. as_i64 n = Some i \<and> \<bar>i\<bar> \<le> max_magnitude)"
proof -
  have "- 9007199254740991 \<le> uint k" for k :: "64 word" using uint_ge_0 [of k] by linarith
  then show ?thesis by (cases n) (auto simp: in_subset_def max_magnitude_def sint_as_unsigned)
qed

lemma validate_iff:
  "validate v p = None \<longleftrightarrow> in_subset v"
  "validate_items items n p = None \<longleftrightarrow> (\<forall>item \<in> set items. in_subset item)"
  "validate_members members p = None \<longleftrightarrow>
     (\<forall>(name, member) \<in> set members. is_ascii name \<and> in_subset member)"
  by (induction v p and items n p and members p
      rule: validate_validate_items_validate_members.induct)
    (auto simp: in_subset_number split: option.splits)

lemma canonical_bytes_Inr_iff:
  "canonical_bytes to_vec v = Inr b \<longleftrightarrow> in_subset v \<and> to_vec v = Some b"
  using validate_iff(1) [of v "''$''"] by (auto simp: canonical_bytes_def split: option.splits)

subsection \<open>Documents the producer builds\<close>

lemma in_subset_jint: "\<bar>i\<bar> \<le> max_magnitude \<Longrightarrow> in_subset (jint i)"
proof -
  assume i: "\<bar>i\<bar> \<le> max_magnitude"
  have "uint (word_of_int i :: 64 word) = i" if "0 \<le> i"
    using that i by (simp add: max_magnitude_def uint_word_of_int_eq take_bit_int_eq_self)
  moreover have "sint (word_of_int i :: 64 word) = i"
    using i by (simp add: max_magnitude_def sint_sbintrunc' signed_take_bit_int_eq_self)
  ultimately show ?thesis
    using i by (auto simp: jint_def max_magnitude_def in_subset_number)
qed

lemma in_subset_jopt: "(\<And>y. x = Some y \<Longrightarrow> in_subset (f y)) \<Longrightarrow> in_subset (jopt f x)"
  by (auto simp: jopt_def split: option.splits)

lemma set_obj_insert: "set (obj_insert k v r) \<subseteq> insert (k, v) (set r)"
  by (induction k v r rule: obj_insert.induct) auto

lemma set_fold_obj_insert:
  "set (fold (\<lambda>(k, v). obj_insert k v) kvs acc) \<subseteq> set kvs \<union> set acc"
proof (induction kvs arbitrary: acc)
  case (Cons kv kvs)
  obtain k v where kv: "kv = (k, v)" by force
  show ?case
    using Cons [of "obj_insert k v acc"] set_obj_insert [of k v acc] by (auto simp: kv)
qed simp

lemma in_subset_jobj:
  "(\<And>k v. (k, v) \<in> set kvs \<Longrightarrow> is_ascii k \<and> in_subset v) \<Longrightarrow> in_subset (jobj kvs)"
  using set_fold_obj_insert [of kvs "[]"] by (fastforce simp: jobj_def)

text \<open>The map's invariant: member names strictly ascending, so each occurs once.\<close>

lemma sorted_obj_insert:
  "sorted_wrt (<) (map fst r) \<Longrightarrow> sorted_wrt (<) (map fst (obj_insert k v r))"
proof (induction k v r rule: obj_insert.induct)
  case (2 k v k' v' r)
  have "k' < fst x" if "x \<in> set (obj_insert k v r)" "k' < k" "\<forall>x\<in>set r. k' < fst x" for x
    using that set_obj_insert [of k v r] by auto
  with 2 show ?case by (auto simp: not_less_iff_gr_or_eq)
qed simp

lemma jobj_sorted: "\<exists>ms. jobj kvs = JObj ms \<and> sorted_wrt (<) (map fst ms)"
proof -
  have "sorted_wrt (<) (map fst acc) \<Longrightarrow>
    sorted_wrt (<) (map fst (fold (\<lambda>(k, v). obj_insert k v) kvs acc))" for acc
    by (induction kvs arbitrary: acc) (auto simp: sorted_obj_insert)
  from this [of "[]"] show ?thesis by (simp add: jobj_def)
qed

section \<open>Hex\<close>

definition hex_digit :: "nat \<Rightarrow> char" where
  "hex_digit n = char_of (if n < 10 then 48 + n else 87 + n)"

definition to_hex :: "string \<Rightarrow> string" where
  "to_hex bytes =
     concat (map (\<lambda>b. [hex_digit (of_char b div 16), hex_digit (of_char b mod 16)]) bytes)"

text \<open>\<open>char::to_digit(16)\<close>, and \<open>u8::from_str_radix(_, 16)\<close> on two bytes: it accepts one
  leading \<open>+\<close>.\<close>

definition digit_value :: "char \<Rightarrow> nat option" where
  "digit_value c =
     (let n = of_char c in
      if 48 \<le> n \<and> n \<le> 57 then Some (n - 48)
      else if 97 \<le> n \<and> n \<le> 102 then Some (n - 87)
      else if 65 \<le> n \<and> n \<le> 70 then Some (n - 55)
      else None)"

definition pair_value :: "char \<Rightarrow> char \<Rightarrow> nat option" where
  "pair_value a b =
     (if a = CHR ''+'' then digit_value b
      else case (digit_value a, digit_value b) of
        (Some x, Some y) \<Rightarrow> Some (16 * x + y)
      | _ \<Rightarrow> None)"

fun hex_pairs :: "string \<Rightarrow> string option" where
  "hex_pairs (a # b # rest) =
     (case pair_value a b of
        None \<Rightarrow> None
      | Some n \<Rightarrow> map_option ((#) (char_of n)) (hex_pairs rest))"
| "hex_pairs _ = Some []"

definition from_hex32 :: "string \<Rightarrow> canonical_error + string" where
  "from_hex32 hex =
     (if length hex \<noteq> 64 then Inl (HashLength (length hex))
      else case hex_pairs hex of None \<Rightarrow> Inl HashEncoding | Some bytes \<Rightarrow> Inr bytes)"

text \<open>Lowercase hex, as the \<open>GLOB\<close> checks of the version table ask for it.\<close>

definition lower_hex :: "string \<Rightarrow> bool" where
  "lower_hex s \<longleftrightarrow>
     list_all (\<lambda>c. let n = (of_char c :: nat) in 48 \<le> n \<and> n \<le> 57 \<or> 97 \<le> n \<and> n \<le> 102) s"

lemma of_char_less_256: "(of_char c :: nat) < 256"
  by (metis of_char_mod_256 mod_less_divisor zero_less_numeral)

lemma of_char_hex_digit: "n < 16 \<Longrightarrow> of_char (hex_digit n) = (if n < 10 then 48 + n else 87 + n)"
  by (simp add: hex_digit_def)

lemma hex_digit_16:
  assumes "n < 16"
  shows digit_value_hex_digit: "digit_value (hex_digit n) = Some n"
    and hex_digit_lower: "lower_hex [hex_digit n]"
    and hex_digit_not_plus: "hex_digit n \<noteq> CHR ''+''"
proof -
  show "digit_value (hex_digit n) = Some n" and "lower_hex [hex_digit n]"
    using assms by (simp_all add: digit_value_def lower_hex_def of_char_hex_digit)
  have plus: "(of_char (CHR ''+'') :: nat) = 43" by simp
  have "(of_char (hex_digit n) :: nat) \<noteq> 43"
    using assms by (simp add: of_char_hex_digit)
  with plus show "hex_digit n \<noteq> CHR ''+''"
    by (auto simp del: of_char_Char)
qed

lemma pair_value_to_hex:
  "pair_value (hex_digit (of_char c div 16)) (hex_digit (of_char c mod 16)) = Some (of_char c)"
proof -
  have "(of_char c :: nat) div 16 < 16"
    using of_char_less_256 [of c] by (simp add: less_mult_imp_div_less)
  then show ?thesis
    by (simp add: pair_value_def hex_digit_not_plus digit_value_hex_digit)
qed

lemma hex_pairs_to_hex: "hex_pairs (to_hex bytes) = Some bytes"
  by (induction bytes) (simp_all add: to_hex_def pair_value_to_hex)

lemma length_to_hex: "length (to_hex bytes) = 2 * length bytes"
  by (induction bytes) (simp_all add: to_hex_def)

lemma lower_hex_append [simp]: "lower_hex (a @ b) \<longleftrightarrow> lower_hex a \<and> lower_hex b"
  by (simp add: lower_hex_def)

lemma lower_hex_to_hex: "lower_hex (to_hex bytes)"
proof (induction bytes)
  case (Cons c bytes)
  have "(of_char c :: nat) div 16 < 16"
    using of_char_less_256 [of c] by (simp add: less_mult_imp_div_less)
  then have "lower_hex ([hex_digit (of_char c div 16)] @ [hex_digit (of_char c mod 16)])"
    by (simp only: lower_hex_append hex_digit_lower mod_less_divisor zero_less_numeral)
  with Cons show ?case by (simp add: to_hex_def lower_hex_def)
qed (simp add: to_hex_def lower_hex_def)

lemma to_hex_inject: "to_hex a = to_hex b \<longleftrightarrow> a = b"
  by (metis hex_pairs_to_hex option.inject)

lemma from_hex32_to_hex: "length bytes = 32 \<Longrightarrow> from_hex32 (to_hex bytes) = Inr bytes"
  by (simp add: from_hex32_def length_to_hex hex_pairs_to_hex)

lemma length_hex_pairs: "hex_pairs s = Some bytes \<Longrightarrow> length bytes = length s div 2"
  by (induction s arbitrary: bytes rule: hex_pairs.induct) (auto split: option.splits)

lemma from_hex32_length: "from_hex32 hex = Inr bytes \<Longrightarrow> length bytes = 32"
  by (auto simp: from_hex32_def dest: length_hex_pairs split: if_splits option.splits)

lemma hex_pairs_plus: "hex_pairs (concat (replicate n ''+a'')) = Some (replicate n (CHR 0x0A))"
proof -
  have "pair_value CHR ''+'' CHR ''a'' = Some 10"
    by (simp add: pair_value_def digit_value_def)
  moreover have "(char_of (10 :: nat) :: char) = CHR 0x0A"
    by (simp add: char_of_def bit_iff_odd)
  ultimately show ?thesis by (induction n) simp_all
qed

section \<open>Hashes\<close>

definition chain_domain :: string where
  "chain_domain = ''consolebook-version-v1''"

definition zero_byte :: char where
  "zero_byte = CHR 0x00"

definition content_hash_hex :: "(string \<Rightarrow> string) \<Rightarrow> string \<Rightarrow> string" where
  "content_hash_hex sha canonical = to_hex (sha canonical)"

text \<open>The bytes the chain hash covers, with the predecessor's raw 32-byte hash.\<close>

definition chain_preimage :: "string \<Rightarrow> string \<Rightarrow> string" where
  "chain_preimage predecessor canonical = chain_domain @ [zero_byte] @ predecessor @ canonical"

definition chain_hash_hex ::
    "(string \<Rightarrow> string) \<Rightarrow> string option \<Rightarrow> string \<Rightarrow> canonical_error + string" where
  "chain_hash_hex sha predecessor_content_hash canonical =
     (case predecessor_content_hash of
        None \<Rightarrow> Inr (to_hex (sha (chain_preimage (replicate 32 zero_byte) canonical)))
      | Some hex \<Rightarrow>
          (case from_hex32 hex of
             Inl e \<Rightarrow> Inl e
           | Inr raw \<Rightarrow> Inr (to_hex (sha (chain_preimage raw canonical)))))"

lemma chain_preimage_inject:
  "length p = length q \<Longrightarrow> chain_preimage p a = chain_preimage q b \<longleftrightarrow> p = q \<and> a = b"
  by (simp add: chain_preimage_def)

definition predecessor_bytes :: "string option \<Rightarrow> canonical_error + string" where
  "predecessor_bytes h = (case h of None \<Rightarrow> Inr (replicate 32 zero_byte) | Some hex \<Rightarrow> from_hex32 hex)"

lemma chain_hash_hex_eq:
  "chain_hash_hex sha h b =
     (case predecessor_bytes h of
        Inl e \<Rightarrow> Inl e
      | Inr raw \<Rightarrow> Inr (to_hex (sha (chain_preimage raw b))))"
  by (simp add: chain_hash_hex_def predecessor_bytes_def split: option.splits)

lemma predecessor_bytes_length: "predecessor_bytes h = Inr raw \<Longrightarrow> length raw = 32"
  by (auto simp: predecessor_bytes_def from_hex32_length split: option.splits)

lemma chain_hash_hex_ok:
  assumes "\<And>x. length (sha x) = 32"
  shows "chain_hash_hex sha (Some (content_hash_hex sha a)) b =
    Inr (to_hex (sha (chain_preimage (sha a) b)))"
  using assms by (simp add: chain_hash_hex_def content_hash_hex_def from_hex32_to_hex)

end
