(* ===== verification/Envelope.thy ===== *)
theory Envelope
  imports Completion Canonical
begin

text \<open>
  The record-schema-2 envelope (\<open>envelope\<close> of finalization.rs): the complete presentation of a
  record as one JSON document, built inside the sealing transaction from committed rows. One
  definition per member; each query's joins and orders are written out. An inner join that
  finds nothing drops the row.
\<close>

definition canonicalization_id :: string where
  "canonicalization_id = ''jcs-v1''"

definition record_schema :: int where
  "record_schema = 2"

definition person_json :: "user_row \<Rightarrow> json" where
  "person_json u =
     jobj [(''id'', jint (u_id u)), (''username'', JStr (u_username u)),
           (''display_name'', JStr (u_display_name u))]"

definition joined_user :: "db \<Rightarrow> int option \<Rightarrow> user_row option" where
  "joined_user d u = (case u of None \<Rightarrow> None | Some i \<Rightarrow> user_of d i)"

definition attribution_row :: "db \<Rightarrow> contributor_event_row \<Rightarrow> json option" where
  "attribution_row d e =
     map_option (\<lambda>a. jobj
         [(''kind'', JStr (contributor_kind_as_str (ce_kind e))),
          (''actor'', person_json a),
          (''to'', jopt person_json (joined_user d (ce_to e))),
          (''recorded_at'', jint (ce_recorded_at e))])
       (user_of d (ce_actor e))"

definition attribution_json :: "db \<Rightarrow> int \<Rightarrow> json list" where
  "attribution_json d r =
     List.map_filter (attribution_row d) (sort_key ce_id (record_events d r))"

definition review_row :: "db \<Rightarrow> decision_row \<Rightarrow> json option" where
  "review_row d v =
     map_option (\<lambda>u. jobj
         [(''reviewer'', person_json u),
          (''decision'', JStr (review_decision_kind_as_str (rd_decision v))),
          (''comment'', JStr (rd_comment v)),
          (''decided_at'', jint (rd_decided_at v))])
       (user_of d (rd_reviewer v))"

definition review_json :: "db \<Rightarrow> int \<Rightarrow> json list" where
  "review_json d r = List.map_filter (review_row d) (sort_key rd_id (record_decisions d r))"

section \<open>Content\<close>

definition tasks_json :: "catalog \<Rightarrow> int \<Rightarrow> int \<Rightarrow> json list" where
  "tasks_json c version competency =
     map (\<lambda>t. JStr (tk_prompt t))
       (sort_key (\<lambda>t. (tk_sort t, tk_id t))
         (filter (\<lambda>t. tk_version_id t = version \<and> tk_competency_id t = competency) (tasks c)))"

definition anchors_json :: "catalog \<Rightarrow> int \<Rightarrow> int \<Rightarrow> json list" where
  "anchors_json c version scale =
     map (\<lambda>a. jobj [(''value'', jint (ra_value a)), (''label'', JStr (ra_label a)),
                    (''definition'', JStr (ra_definition a))])
       (sort_key ra_value
         (filter (\<lambda>a. ra_version_id a = version \<and> ra_scale_id a = scale) (rating_anchors c)))"

definition modifiers_json :: "db \<Rightarrow> int option \<Rightarrow> json list" where
  "modifiers_json d rating_id =
     map (\<lambda>m. jobj [(''code'', JStr (rm_code m)), (''label'', JStr (rm_label m)),
                    (''description'', JStr (rm_description m))])
       (sort_key rm_code
         (List.map_filter (\<lambda>x. find (\<lambda>m. rm_id m = dm_modifier_id x) (rating_modifiers (catalog d)))
           (filter (\<lambda>x. Some (dm_rating_id x) = rating_id) (draft_modifiers d))))"

definition rating_row_json :: "db \<Rightarrow> record_row \<Rightarrow> form_competency_row \<Rightarrow> json option" where
  "rating_row_json d r x =
     (let c = catalog d; dr = rating_of d (r_id r) (fc_id x) in
      Option.bind (find (\<lambda>y. co_id y = fc_competency_id x) (competencies c)) (\<lambda>co.
      Option.bind (joined_scale c x) (\<lambda>s.
      Some (jobj
        [(''competency'', jobj
            [(''category'', JStr (co_category co)), (''name'', JStr (co_name co)),
             (''description'', JStr (co_description co)),
             (''tasks'', JArr (tasks_json c (r_version_id r) (co_id co)))]),
         (''scale'', jobj
            [(''name'', JStr (rs_name s)), (''kind'', JStr (scale_kind_as_str (rs_kind s))),
             (''min_value'', jopt jint (rs_min s)), (''max_value'', jopt jint (rs_max s)),
             (''anchors'', JArr (anchors_json c (r_version_id r) (rs_id s)))]),
         (''value'', jopt jint (Option.bind dr dr_value)),
         (''not_observed'', JBool (case dr of None \<Rightarrow> False | Some y \<Rightarrow> dr_not_observed y)),
         (''modifiers'', JArr (modifiers_json d (map_option dr_id dr)))]))))"

definition ratings_json :: "db \<Rightarrow> record_row \<Rightarrow> json list" where
  "ratings_json d r =
     List.map_filter (rating_row_json d r)
       (sort_key (\<lambda>x. (fc_sort x, fc_id x)) (form_lines (catalog d) r))"

definition narratives_json :: "db \<Rightarrow> record_row \<Rightarrow> json list" where
  "narratives_json d r =
     map (\<lambda>n. jobj [(''prompt'', JStr (fn_prompt n)), (''required'', JBool (fn_required n)),
                    (''text'', jopt JStr (narrative_text d (r_id r) (fn_id n)))])
       (sort_key (\<lambda>n. (fn_sort n, fn_id n)) (form_prompts (catalog d) r))"

section \<open>Coverage\<close>

definition trainers_json :: "db \<Rightarrow> int \<Rightarrow> json list" where
  "trainers_json d session =
     List.map_filter (\<lambda>t. map_option person_json (user_of d (st_trainer t)))
       (sort_key st_id (filter (\<lambda>t. st_session_id t = session) (session_trainers d)))"

definition session_json :: "db \<Rightarrow> training_session_row \<Rightarrow> json" where
  "session_json d s =
     jobj [(''business_date'', JStr (ts_business_date s)), (''timezone'', JStr (ts_timezone s)),
           (''local_start'', JStr (ts_local_start s)), (''local_end'', jopt JStr (ts_local_end s)),
           (''utc_start'', jint (ts_utc_start s)), (''utc_end'', jopt jint (ts_utc_end s)),
           (''disposition'', jopt (\<lambda>x. JStr (session_disposition_as_str x)) (ts_disposition s)),
           (''phase'', jopt (\<lambda>p. jobj [(''name'', JStr (ph_name p)),
                                         (''presentation_number'', jint (ph_number p))])
              (joined_phase d (ts_phase_id s))),
           (''trainers'', JArr (trainers_json d (ts_id s)))]"

definition record_sessions_of :: "db \<Rightarrow> int \<Rightarrow> training_session_row list" where
  "record_sessions_of d r =
     sort_key (\<lambda>s. (ts_utc_start s, ts_id s)) (List.map_filter (session_of d) (covered_sessions d r))"

definition sessions_json :: "db \<Rightarrow> int \<Rightarrow> json list" where
  "sessions_json d r = map (session_json d) (record_sessions_of d r)"

definition linked_versions :: "db \<Rightarrow> int \<Rightarrow> version_row list" where
  "linked_versions d r =
     sort_key (\<lambda>v. (v_record_id v, v_number v))
       (List.map_filter (\<lambda>l. sealed_version_of d (sl_version_id l))
         (filter (\<lambda>l. sl_summary_id l = r) (daily_links d)))"

definition daily_reports_json :: "db \<Rightarrow> int \<Rightarrow> json list" where
  "daily_reports_json d r =
     map (\<lambda>v. jobj [(''content_hash'', JStr (v_content_hash v)),
                    (''record_id'', jint (v_record_id v)),
                    (''version_number'', jint (v_number v))])
       (linked_versions d r)"

section \<open>The document\<close>

definition finalization_json :: "user_row \<Rightarrow> int \<Rightarrow> policy \<Rightarrow> json" where
  "finalization_json finalizer now p =
     jobj [(''finalized_at'', jint now), (''finalized_by'', person_json finalizer),
           (''policy'', jobj [(''review_approved'', JBool (po_review_approved p)),
                              (''required_narratives'', JBool (po_required_narratives p)),
                              (''ratings_complete'', JBool (po_ratings_complete p))])]"

definition record_json :: "int \<Rightarrow> int \<Rightarrow> string option \<Rightarrow> json" where
  "record_json record_id version_number predecessor =
     jobj [(''id'', jint record_id), (''version_number'', jint version_number),
           (''record_schema'', jint record_schema),
           (''predecessor_content_hash'', jopt JStr predecessor)]"

definition trainee_json :: "user_row \<Rightarrow> json" where
  "trainee_json u =
     jobj [(''id'', jint (u_id u)), (''username'', JStr (u_username u)),
           (''display_name'', JStr (u_display_name u)), (''employee_id'', JStr (u_employee_id u)),
           (''title'', JStr (u_title u))]"

definition form_json :: "evaluation_form_row \<Rightarrow> json" where
  "form_json f =
     jobj [(''name'', JStr (f_name f)), (''instructions'', JStr (f_instructions f)),
           (''record_type'', JStr (record_type_as_str (f_record_type f)))]"

definition program_json :: "program_version_row \<Rightarrow> json" where
  "program_json p =
     jobj [(''name'', JStr (pv_name p)), (''version_number'', jint (pv_version_number p)),
           (''label'', JStr (pv_label p))]"

definition content_member :: "db \<Rightarrow> record_row \<Rightarrow> json" where
  "content_member d r =
     jobj [(''narratives'', JArr (narratives_json d r)), (''ratings'', JArr (ratings_json d r))]"

definition envelope ::
    "db \<Rightarrow> record_row \<Rightarrow> int \<Rightarrow> int \<Rightarrow> policy \<Rightarrow> int \<Rightarrow> string option \<Rightarrow> ('r, json) outcome" where
  "envelope d r finalized_by finalized_at p version_number predecessor =
     fetch_one (instance_id d) (\<lambda>inst.
     fetch_one (Option.bind (enrollment_of d (r_enrollment_id r)) (\<lambda>e. user_of d (e_user_id e))) (\<lambda>trainee.
     fetch_one (version_of d (r_version_id r)) (\<lambda>program.
     fetch_one (form_of d (r_form_id r)) (\<lambda>form.
     fetch_one (user_of d finalized_by) (\<lambda>finalizer.
     Inr (jobj
       [(''attachments'', JArr []),
        (''attribution'', JArr (attribution_json d (r_id r))),
        (''canonicalization'', JStr canonicalization_id),
        (''content'', content_member d r),
        (''daily_reports'', JArr (daily_reports_json d (r_id r))),
        (''finalization'', finalization_json finalizer finalized_at p),
        (''form'', form_json form),
        (''instance'', JStr inst),
        (''program'', program_json program),
        (''record'', record_json (r_id r) version_number predecessor),
        (''review'', JArr (review_json d (r_id r))),
        (''sessions'', JArr (sessions_json d (r_id r))),
        (''trainee'', trainee_json trainee)]))))))"

end
