(* ===== verification/Finalization.thy ===== *)
theory Finalization
  imports Envelope Drafts
begin

text \<open>
  Sealing a record (finalization.rs, migrations 0010 and 0012): the completion gate, the
  envelope's canonical bytes with their content hash and chain hash, the version row and its
  triggers, and the reads that present and verify what was sealed. \<open>to_vec\<close> and \<open>sha\<close> are
  the parameters of the canonical serializer, \<open>parse\<close> stands for \<open>serde_json::from_slice\<close>.
\<close>

datatype finalize_refusal =
    FrNoSuchRecord
  | FrCapabilityRequired
  | FrAlreadyFinalized
  | FrNotApproved
  | FrNarrativesIncomplete
  | FrRatingsIncomplete
  | FrStaleSave

record version_meta =
  vm_version_number :: int
  vm_record_schema :: int
  vm_content_hash :: string
  vm_chain_hash :: string
  vm_finalized_at :: int
  vm_finalized_by :: int
  vm_finalized_by_name :: string

section \<open>The version table\<close>

text \<open>The marks the approval trigger reads: those of the predecessor's amendment, else zero.\<close>

definition cycle_marks :: "db \<Rightarrow> int option \<Rightarrow> int \<times> int" where
  "cycle_marks d predecessor =
     (case Option.bind predecessor (amendment_of d) of
        None \<Rightarrow> (0, 0)
      | Some a \<Rightarrow> (am_event_mark a, am_decision_mark a))"

definition approved_since :: "db \<Rightarrow> int \<Rightarrow> int \<times> int \<Rightarrow> bool" where
  "approved_since d r marks \<longleftrightarrow>
     map_option ce_kind (latest_by ce_id (events_after d r (fst marks))) = Some ReviewDecided \<and>
     map_option rd_decision (latest_by rd_id (decisions_after d r (snd marks))) = Some Approved"

definition hex64 :: "string \<Rightarrow> bool" where
  "hex64 s \<longleftrightarrow> length s = 64 \<and> lower_hex s"

definition insert_version :: "version_row \<Rightarrow> db \<Rightarrow> db_error + db" where
  "insert_version v d =
     (let r = v_record_id v; latest = latest_version d r in
     demand (v_predecessor v \<noteq> None \<longrightarrow>
        v_predecessor v = map_option v_id latest
        \<and> Some (v_number v) = map_option (\<lambda>l. v_number l + 1) latest)
       (Raised ''evaluation_version_successors_in_order'')
    (demand (case v_predecessor v of None \<Rightarrow> True | Some p \<Rightarrow> amendment_of d p \<noteq> None)
       (Raised ''evaluation_version_successors_take_amendments'')
    (demand ((case record_of d r of
                None \<Rightarrow> True
              | Some x \<Rightarrow> po_review_approved (policy_of (catalog d) (r_version_id x)))
             \<longrightarrow> approved_since d r (cycle_marks d (v_predecessor v)))
       (Raised ''evaluation_version_requires_approval'')
    (demand (1 \<le> v_number v \<and> 1 \<le> v_schema v \<and> v_bytes v \<noteq> [] \<and> hex64 (v_content_hash v)
        \<and> hex64 (v_chain_hash v) \<and> (v_number v = 1) = (v_predecessor v = None)) CheckConstraint
    (demand (v_number v \<notin> set (map v_number (record_versions d r))) UniqueIndex
    (demand (record_of d r \<noteq> None \<and> user_of d (v_finalized_by v) \<noteq> None
        \<and> (case v_predecessor v of None \<Rightarrow> True | Some p \<Rightarrow> sealed_version_of d p \<noteq> None)) ForeignKey
    (Inr (d\<lparr>versions := versions d @ [v]\<rparr>))))))))"

section \<open>Sealing\<close>

definition sealed_row ::
    "db \<Rightarrow> int \<Rightarrow> int \<Rightarrow> int option \<Rightarrow> string \<Rightarrow> string \<Rightarrow> string \<Rightarrow> int \<Rightarrow> int \<Rightarrow> version_row" where
  "sealed_row d record_id number predecessor bytes content_hash chain_hash now actor =
     \<lparr>v_id = next_id (map v_id (versions d)), v_record_id = record_id, v_number = number,
      v_schema = record_schema, v_bytes = bytes, v_content_hash = content_hash,
      v_chain_hash = chain_hash, v_predecessor = predecessor, v_finalized_at = now,
      v_finalized_by = actor\<rparr>"

definition canonical_outcome :: "canonical_error + 'a \<Rightarrow> db_error + 'a" where
  "canonical_outcome x = (case x of Inl _ \<Rightarrow> Inl (Defect ''canonical form'') | Inr y \<Rightarrow> Inr y)"

text \<open>The statements after the gate: what \<open>finalize\<close> does once nothing refuses it.\<close>

definition seal ::
    "(json \<Rightarrow> string option) \<Rightarrow> (string \<Rightarrow> string) \<Rightarrow> clock \<Rightarrow> db \<Rightarrow> record_row \<Rightarrow> int \<Rightarrow> policy
      \<Rightarrow> open_amendment option \<Rightarrow> (finalize_refusal, db \<times> version_meta) outcome" where
  "seal to_vec sha clk d r actor policy amendment =
     (let now = clk 0;
          number = (case amendment of None \<Rightarrow> 1 | Some s \<Rightarrow> oa_version_number s + 1);
          predecessor_hash = map_option oa_content_hash amendment in
      case envelope d r actor now policy number predecessor_hash of
        Inl e \<Rightarrow> Inl e
      | Inr doc \<Rightarrow>
          run (canonical_outcome (canonical_bytes to_vec doc)) (\<lambda>bytes.
          let content_hash = content_hash_hex sha bytes in
          run (canonical_outcome (chain_hash_hex sha predecessor_hash bytes)) (\<lambda>chain_hash.
          run (insert_version (sealed_row d (r_id r) number (map_option oa_version_id amendment) bytes
                 content_hash chain_hash now actor) d) (\<lambda>d.
          fetch_one (map_option e_user_id (enrollment_of d (r_enrollment_id r))) (\<lambda>trainee.
          run (record_for_subject EvDraftFinalized (Some actor) (Some trainee)
                 (SubjRecord (r_id r)) (clk 1) d) (\<lambda>d.
          fetch_one (record_of d (r_id r)) (\<lambda>row.
          fetch_one (trainee_name d (r_enrollment_id row)) (\<lambda>name.
          run (notify_user (r_owner row) NkDraftFinalized
                 (''The evaluation for '' @ name @ '' was finalized.'') (clk 2) d) (\<lambda>d.
          run (notify_user trainee NkRecordAwaitsAcknowledgment
                 ''A finalized evaluation record awaits your acknowledgment.'' (clk 3) d) (\<lambda>d.
          fetch_one (map_option u_display_name (user_of d actor)) (\<lambda>sealer.
          Inr (d, \<lparr>vm_version_number = number, vm_record_schema = record_schema,
                   vm_content_hash = content_hash, vm_chain_hash = chain_hash,
                   vm_finalized_at = now, vm_finalized_by = actor,
                   vm_finalized_by_name = sealer\<rparr>))))))))))))"

definition finalize ::
    "(json \<Rightarrow> string option) \<Rightarrow> (string \<Rightarrow> string) \<Rightarrow> db \<Rightarrow> clock \<Rightarrow> db \<Rightarrow> int \<Rightarrow> int \<Rightarrow> int
      \<Rightarrow> (finalize_refusal, db \<times> version_meta) outcome" where
  "finalize to_vec sha pre clk d actor record_id expected_revision =
     (case load_record pre record_id of
        None \<Rightarrow> refuse FrNoSuchRecord
      | Some r \<Rightarrow>
          if \<not> user_has pre actor ReviewEvaluation then refuse FrCapabilityRequired
          else let finalized = record_versions d record_id \<noteq> [];
                   amendment = (if finalized then open_scope d record_id else None) in
          if finalized \<and> amendment = None then refuse FrAlreadyFinalized
          else fetch_one (map_option r_revision (record_of d record_id)) (\<lambda>revision_now.
          if expected_revision \<noteq> revision_now then refuse FrStaleSave
          else let policy = policy_of (catalog d) (r_version_id r) in
          if po_review_approved policy \<and> status_of d record_id \<noteq> StApproved then refuse FrNotApproved
          else if po_required_narratives policy \<and> narratives_incomplete d r
          then refuse FrNarrativesIncomplete
          else if po_ratings_complete policy \<and> ratings_incomplete d r then refuse FrRatingsIncomplete
          else seal to_vec sha clk d r actor policy amendment))"

section \<open>Reads\<close>

definition asked_version :: "db \<Rightarrow> int \<Rightarrow> int option \<Rightarrow> version_row option" where
  "asked_version d record_id number =
     latest_by v_number (filter (\<lambda>v. number = None \<or> number = Some (v_number v))
       (record_versions d record_id))"

definition finalized_view_at ::
    "(string \<Rightarrow> json option) \<Rightarrow> db \<Rightarrow> int \<Rightarrow> int \<Rightarrow> int option
      \<Rightarrow> (finalize_refusal, (version_meta \<times> json) option) outcome" where
  "finalized_view_at parse d actor record_id number =
     (case load_record d record_id of
        None \<Rightarrow> refuse FrNoSuchRecord
      | Some r \<Rightarrow>
          if \<not> may_read d actor r then refuse FrCapabilityRequired
          else case latest_by (\<lambda>p. v_number (fst p))
              (List.map_filter (\<lambda>v. map_option (Pair v) (user_of d (v_finalized_by v)))
                (filter (\<lambda>v. number = None \<or> number = Some (v_number v)) (record_versions d record_id))) of
            None \<Rightarrow> Inr None
          | Some (v, u) \<Rightarrow>
              (case parse (v_bytes v) of
                 None \<Rightarrow> abort (Defect ''parsing stored canonical bytes'')
               | Some doc \<Rightarrow> Inr (Some
                   (\<lparr>vm_version_number = v_number v, vm_record_schema = v_schema v,
                     vm_content_hash = v_content_hash v, vm_chain_hash = v_chain_hash v,
                     vm_finalized_at = v_finalized_at v, vm_finalized_by = v_finalized_by v,
                     vm_finalized_by_name = u_display_name u\<rparr>, doc))))"

definition finalized_view ::
    "(string \<Rightarrow> json option) \<Rightarrow> db \<Rightarrow> int \<Rightarrow> int
      \<Rightarrow> (finalize_refusal, (version_meta \<times> json) option) outcome" where
  "finalized_view parse d actor record_id = finalized_view_at parse d actor record_id None"

record verification =
  content_hash_ok :: bool
  chain_hash_ok :: bool

definition verify_version :: "(string \<Rightarrow> string) \<Rightarrow> db \<Rightarrow> version_row \<Rightarrow> ('r, verification) outcome" where
  "verify_version sha d v =
     (let content_ok = (content_hash_hex sha (v_bytes v) = v_content_hash v);
          check = (\<lambda>predecessor_hash.
            run (canonical_outcome (chain_hash_hex sha predecessor_hash (v_bytes v))) (\<lambda>chain.
            Inr \<lparr>content_hash_ok = content_ok, chain_hash_ok = (chain = v_chain_hash v)\<rparr>)) in
      case v_predecessor v of
        None \<Rightarrow> check None
      | Some p \<Rightarrow> fetch_one (map_option v_content_hash (sealed_version_of d p)) (\<lambda>h. check (Some h)))"

definition verify_at ::
    "(string \<Rightarrow> string) \<Rightarrow> db \<Rightarrow> int \<Rightarrow> int \<Rightarrow> int option
      \<Rightarrow> (finalize_refusal, verification option) outcome" where
  "verify_at sha d actor record_id number =
     (case load_record d record_id of
        None \<Rightarrow> refuse FrNoSuchRecord
      | Some r \<Rightarrow>
          if \<not> may_read d actor r then refuse FrCapabilityRequired
          else case asked_version d record_id number of
            None \<Rightarrow> Inr None
          | Some v \<Rightarrow>
              (case verify_version sha d v of Inl e \<Rightarrow> Inl e | Inr x \<Rightarrow> Inr (Some x)))"

definition verify :: "(string \<Rightarrow> string) \<Rightarrow> db \<Rightarrow> int \<Rightarrow> int
      \<Rightarrow> (finalize_refusal, verification option) outcome" where
  "verify sha d actor record_id = verify_at sha d actor record_id None"

end
