(* ===== verification/Changes.thy ===== *)
theory Changes
  imports Copies Summaries Review Amendments Finalization
begin

text \<open>
  What each service does to the record tables, in one relation: \<open>change\<close> has one rule per kind
  of write, with the facts its guards established. Every service of the draft, review,
  summary, finalization, amendment and acknowledgment modules is shown to make exactly one
  change and then only to add to the journal; the invariants of records are then proved over
  \<open>change\<close> alone.
\<close>

section \<open>Changes\<close>

text \<open>An edit of one record's working copy: its ratings, narratives and links.\<close>

definition edit_frame :: "int \<Rightarrow> db \<Rightarrow> db \<Rightarrow> bool" where
  "edit_frame r d d' \<longleftrightarrow>
     (\<exists>rs ms ns ls. d' = d\<lparr>draft_ratings := rs, draft_modifiers := ms, draft_narratives := ns,
        daily_links := ls\<rparr>) \<and>
     copy_ok d' \<and> (\<forall>q. q \<noteq> r \<longrightarrow> content d' q = content d q \<and> record_links d' q = record_links d q)"

definition coalesced :: "db \<Rightarrow> int \<Rightarrow> bool" where
  "coalesced d r \<longleftrightarrow>
     map_option ce_kind (latest_by ce_id (events_after d r (event_mark_of d r))) = Some Contributed"

definition pred_hash :: "db \<Rightarrow> int option \<Rightarrow> string option" where
  "pred_hash d p = Option.bind p (\<lambda>i. map_option v_content_hash (sealed_version_of d i))"

text \<open>The number and predecessor the next version of a record takes.\<close>

definition next_version :: "db \<Rightarrow> int \<Rightarrow> (int \<times> int option) option" where
  "next_version d r =
     (case latest_version d r of
        None \<Rightarrow> Some (1, None)
      | Some v \<Rightarrow> if amendment_of d (v_id v) = None then None else Some (v_number v + 1, Some (v_id v)))"

datatype write_kind =
  WCreate | WEdit | WTransfer | WSubmit | WDecide review_decision_kind | WSeal | WAmend | WAck

inductive writes ::
    "(draft_content \<Rightarrow> string option) \<Rightarrow> (string \<Rightarrow> string) \<Rightarrow> db \<Rightarrow> int \<Rightarrow> write_kind \<Rightarrow> db \<Rightarrow> bool"
  for ser :: "draft_content \<Rightarrow> string option" and sha :: "string \<Rightarrow> string" where
  created:
    "r_id R = next_id (map r_id (records d)) \<Longrightarrow> r_owner R = a \<Longrightarrow>
     xs = [] \<or> (\<exists>i s. xs = [\<lparr>es_id = i, es_record_id = r_id R, es_session_id = s\<rparr>] \<and>
       s \<notin> set (map es_session_id (record_sessions d))) \<Longrightarrow>
     writes ser sha d (r_id R) WCreate (d\<lparr>records := records d @ [R],
       contributor_events := contributor_events d @ [new_event d (r_id R) Created a None t],
       record_sessions := record_sessions d @ xs\<rparr>)"
| edited:
    "frozen_refusal (status_of d r) = None \<Longrightarrow> record_of d r = Some cur \<Longrightarrow> edit_frame r d d1 \<Longrightarrow>
     es = [] \<and> coalesced d r \<or> es = [new_event d r Contributed a None t] \<Longrightarrow>
     writes ser sha d r WEdit ((set_revision r (r_revision cur + 1) d1)
       \<lparr>contributor_events := contributor_events d @ es\<rparr>)"
| transferred:
    "frozen_refusal (status_of d r) = None \<Longrightarrow> record_of d r \<noteq> None \<Longrightarrow>
     writes ser sha d r WTransfer (map_record r (\<lambda>x. x\<lparr>r_owner := to\<rparr>)
       (d\<lparr>contributor_events := contributor_events d @ [new_event d r OwnershipTransferred a (Some to) t]\<rparr>))"
| submitted:
    "frozen_refusal (status_of d r) = None \<Longrightarrow> record_of d r \<noteq> None \<Longrightarrow>
     ser (content d r) = Some json \<Longrightarrow>
     writes ser sha d r WSubmit (d\<lparr>
       snapshots := snapshots d @ [\<lparr>ds_id = next_id (map ds_id (snapshots d)), ds_record_id = r,
         ds_reason = Submission, ds_content = json, ds_taken_at = t, ds_taken_by = Some a\<rparr>],
       contributor_events := contributor_events d @ [new_event d r SubmittedForReview a None t]\<rparr>)"
| decided:
    "status_of d r = StSubmitted \<Longrightarrow> record_of d r \<noteq> None \<Longrightarrow> is_contributor d r a = Inr False \<Longrightarrow>
     ss = (if k = ChangesRequested then
         [\<lparr>ds_id = next_id (map ds_id (snapshots d)), ds_record_id = r,
           ds_reason = ChangeRequestReturn, ds_content = json, ds_taken_at = t, ds_taken_by = Some a\<rparr>]
       else []) \<Longrightarrow> (k = ChangesRequested \<longrightarrow> ser (content d r) = Some json) \<Longrightarrow>
     writes ser sha d r (WDecide k) (d\<lparr>snapshots := snapshots d @ ss,
       decisions := decisions d @ [new_decision d r a k c t],
       contributor_events := contributor_events d @ [new_event d r ReviewDecided a None t]\<rparr>)"
| sealed:
    "record_of d r \<noteq> None \<Longrightarrow> next_version d r = Some (n, p) \<Longrightarrow>
     chain_hash_hex sha (pred_hash d p) bytes = Inr chain \<Longrightarrow> bytes \<noteq> [] \<Longrightarrow>
     writes ser sha d r WSeal (d\<lparr>versions := versions d @
       [sealed_row d r n p bytes (content_hash_hex sha bytes) chain t a]\<rparr>)"
| amended:
    "latest_version d r = Some v \<Longrightarrow> amendment_of d (v_id v) = None \<Longrightarrow> record_of d r \<noteq> None \<Longrightarrow>
     writes ser sha d r WAmend (map_record r (\<lambda>x. x\<lparr>r_revision := r_revision x + 1\<rparr>)
       (d\<lparr>amendments := amendments d @ [new_amendment d r (v_id v) s a nm t]\<rparr>))"
| acked:
    "latest_version d r = Some v \<Longrightarrow> trainee_of_record d r = Some u \<Longrightarrow>
     \<not> already_acknowledged d (v_id v) u \<Longrightarrow> ack_shape A \<Longrightarrow> ak_version_id A = v_id v \<Longrightarrow>
     ak_user_id A = u \<Longrightarrow>
     writes ser sha d r WAck (d\<lparr>acks := acks d @ [A]\<rparr>)"

inductive_cases write_editE: "writes ser sha d r WEdit d'"
inductive_cases write_transferE: "writes ser sha d r WTransfer d'"
inductive_cases write_submitE: "writes ser sha d r WSubmit d'"
inductive_cases write_decideE: "writes ser sha d r (WDecide k) d'"
inductive_cases write_sealE: "writes ser sha d r WSeal d'"
inductive_cases write_amendE: "writes ser sha d r WAmend d'"

definition change ::
    "(draft_content \<Rightarrow> string option) \<Rightarrow> (string \<Rightarrow> string) \<Rightarrow> db \<Rightarrow> int \<Rightarrow> db \<Rightarrow> bool" where
  "change ser sha d r d' \<longleftrightarrow> (\<exists>w. writes ser sha d r w d')"

lemma change_cases [consumes 1, case_names created edited transferred submitted decided sealed amended acked,
    cases pred: change]:
  assumes "change ser sha d r d'"
  obtains
  (created) R a xs t where
        "r = r_id R"
        "d' = d\<lparr>records := records d @ [R],
       contributor_events := contributor_events d @ [new_event d (r_id R) Created a None t],
       record_sessions := record_sessions d @ xs\<rparr>"
        "r_id R = next_id (map r_id (records d))"
        "r_owner R = a"
        "xs = [] \<or> (\<exists>i s. xs = [\<lparr>es_id = i, es_record_id = r_id R, es_session_id = s\<rparr>] \<and>
       s \<notin> set (map es_session_id (record_sessions d)))"
  | (edited) cur d1 es a t where
        "d' = (set_revision r (r_revision cur + 1) d1)
       \<lparr>contributor_events := contributor_events d @ es\<rparr>"
        "frozen_refusal (status_of d r) = None"
        "record_of d r = Some cur"
        "edit_frame r d d1"
        "es = [] \<and> coalesced d r \<or> es = [new_event d r Contributed a None t]"
  | (transferred) to a t where
        "d' = map_record r (\<lambda>x. x\<lparr>r_owner := to\<rparr>)
       (d\<lparr>contributor_events := contributor_events d @ [new_event d r OwnershipTransferred a (Some to) t]\<rparr>)"
        "frozen_refusal (status_of d r) = None"
        "record_of d r \<noteq> None"
  | (submitted) json a t where
        "d' = d\<lparr>
       snapshots := snapshots d @ [\<lparr>ds_id = next_id (map ds_id (snapshots d)), ds_record_id = r,
         ds_reason = Submission, ds_content = json, ds_taken_at = t, ds_taken_by = Some a\<rparr>],
       contributor_events := contributor_events d @ [new_event d r SubmittedForReview a None t]\<rparr>"
        "frozen_refusal (status_of d r) = None"
        "record_of d r \<noteq> None"
        "ser (content d r) = Some json"
  | (decided) a ss k json t c where
        "d' = d\<lparr>snapshots := snapshots d @ ss,
       decisions := decisions d @ [new_decision d r a k c t],
       contributor_events := contributor_events d @ [new_event d r ReviewDecided a None t]\<rparr>"
        "status_of d r = StSubmitted"
        "record_of d r \<noteq> None"
        "is_contributor d r a = Inr False"
        "ss = (if k = ChangesRequested then
         [\<lparr>ds_id = next_id (map ds_id (snapshots d)), ds_record_id = r,
           ds_reason = ChangeRequestReturn, ds_content = json, ds_taken_at = t, ds_taken_by = Some a\<rparr>]
       else [])"
        "(k = ChangesRequested \<longrightarrow> ser (content d r) = Some json)"
  | (sealed) n p bytes chain t a where
        "d' = d\<lparr>versions := versions d @
       [sealed_row d r n p bytes (content_hash_hex sha bytes) chain t a]\<rparr>"
        "record_of d r \<noteq> None"
        "next_version d r = Some (n, p)"
        "chain_hash_hex sha (pred_hash d p) bytes = Inr chain"
        "bytes \<noteq> []"
  | (amended) v s a nm t where
        "d' = map_record r (\<lambda>x. x\<lparr>r_revision := r_revision x + 1\<rparr>)
       (d\<lparr>amendments := amendments d @ [new_amendment d r (v_id v) s a nm t]\<rparr>)"
        "latest_version d r = Some v"
        "amendment_of d (v_id v) = None"
        "record_of d r \<noteq> None"
  | (acked) v u A where
        "d' = d\<lparr>acks := acks d @ [A]\<rparr>"
        "latest_version d r = Some v"
        "trainee_of_record d r = Some u"
        "\<not> already_acknowledged d (v_id v) u"
        "ack_shape A"
        "ak_version_id A = v_id v"
        "ak_user_id A = u"
proof -
  from assms obtain w where "writes ser sha d r w d'" by (auto simp: change_def)
  then show thesis
  proof cases
    case created
    show thesis by (rule that(1) [OF created(1,3-6)])
  next
    case edited
    show thesis by (rule that(2) [OF edited(2-6)])
  next
    case transferred
    show thesis by (rule that(3) [OF transferred(2-4)])
  next
    case submitted
    show thesis by (rule that(4) [OF submitted(2-5)])
  next
    case decided
    show thesis by (rule that(5) [OF decided(2-7)])
  next
    case sealed
    show thesis by (rule that(6) [OF sealed(2-6)])
  next
    case amended
    show thesis by (rule that(7) [OF amended(2-5)])
  next
    case acked
    show thesis by (rule that(8) [OF acked(2-8)])
  qed
qed

lemma writes_change: "writes ser sha d r w d' \<Longrightarrow> change ser sha d r d'"
  by (auto simp: change_def)

section \<open>The services make one change\<close>

lemma record_of_id: "record_of d i = Some r \<Longrightarrow> r_id r = i"
  unfolding record_of_def by (blast dest: find_eq_SomeD)

lemma new_event_cong:
  "contributor_events d' = contributor_events d \<Longrightarrow> new_event d' r k a t n = new_event d r k a t n"
  by (simp add: new_event_def)

lemma list_ex_session: "list_ex (\<lambda>e. es_session_id e = s) xs \<longleftrightarrow> s \<in> set (map es_session_id xs)"
  by (auto simp: list_ex_iff)

lemma create_change:
  assumes "create pre clk d actor s form = Inr (d', i)"
  shows "\<exists>x. writes ser sha d i WCreate x \<and> journaled x d'"
proof -
  from assms obtain ts :: training_session_row and f d1 d2 d3 u where
    fresh: "\<not> list_ex (\<lambda>e. es_session_id e = s) (record_sessions d)"
    and d1: "insert_record (new_record d (ts_enrollment_id ts) (ts_version_id ts) f actor (clk 0)) d = Inr d1"
    and d2: "append_event i Created actor None (clk 0) d1 = Inr d2"
    and d3: "insert_record_session i s d2 = Inr d3"
    and i: "i = next_id (map r_id (records d))"
    and j: "record_for_subject EvDraftCreated (Some actor) (Some u) (SubjRecord i) (clk 1) d3 = Inr d'"
    by (clarsimp simp: create_def guard_simps Let_def)
  let ?R = "new_record d (ts_enrollment_id ts) (ts_version_id ts) f actor (clk 0)"
  let ?x = "\<lparr>es_id = next_id (map es_id (record_sessions d)), es_record_id = i, es_session_id = s\<rparr>"
  note e1 = conjunct1 [OF insert_record_Inr [OF d1]]
  note e2 = conjunct1 [OF append_event_Inr [OF d2]]
  note e3 = conjunct1 [OF insert_record_session_Inr [OF d3]]
  have d3': "d3 = d\<lparr>records := records d @ [?R],
      contributor_events := contributor_events d @ [new_event d i Created actor None (clk 0)],
      record_sessions := record_sessions d @ [?x]\<rparr>"
    using e1 e2 e3 by (simp add: new_event_cong [of d1 d])
  have "writes ser sha d i WCreate d3"
    unfolding d3' using created [of ?R d actor "[?x]" ser sha "clk 0"] fresh
    by (simp add: i list_ex_session)
  then show ?thesis
    using j journaled_record_for_subject by blast
qed

lemma create_summary_change:
  assumes "create_summary pre clk d actor e form = Inr (d', i)"
  shows "\<exists>x. writes ser sha d i WCreate x \<and> journaled x d'"
proof -
  from assms obtain v f d1 d2 u where
    d1: "insert_record (new_record d e v f actor (clk 0)) d = Inr d1"
    and d2: "append_event i Created actor None (clk 0) d1 = Inr d2"
    and i: "i = next_id (map r_id (records d))"
    and j: "record_for_subject EvDraftCreated (Some actor) (Some u) (SubjRecord i) (clk 1) d2 = Inr d'"
    by (auto simp: create_summary_def guard_simps Let_def)
  let ?R = "new_record d e v f actor (clk 0)"
  note e1 = conjunct1 [OF insert_record_Inr [OF d1]]
  note e2 = conjunct1 [OF append_event_Inr [OF d2]]
  have d2': "d2 = d\<lparr>records := records d @ [?R],
      contributor_events := contributor_events d @ [new_event d i Created actor None (clk 0)],
      record_sessions := record_sessions d @ []\<rparr>"
    using e1 e2 by (simp add: new_event_cong [of d1 d])
  have "writes ser sha d i WCreate d2"
    unfolding d2' using created [of ?R d actor "[]" ser sha "clk 0"] by (simp add: i)
  then show ?thesis
    using j journaled_record_for_subject by blast
qed


lemma attribute_cases:
  "attribute_contribution r a t d = Inr d' \<Longrightarrow> \<exists>es.
    d' = d\<lparr>contributor_events := contributor_events d @ es\<rparr> \<and>
    (es = [] \<and> coalesced d r \<or> es = [new_event d r Contributed a None t])"
  by (auto simp: attribute_contribution_def coalesced_def Let_def split: if_splits option.splits
      dest!: append_event_Inr intro: exI [of _ "[]"])

lemma status_cong:
  assumes "versions d' = versions d" "amendments d' = amendments d"
    "contributor_events d' = contributor_events d" "decisions d' = decisions d"
  shows "status_of d' = status_of d" "open_scope d' = open_scope d" "coalesced d' = coalesced d"
    "latest_version d' = latest_version d" "amendment_of d' = amendment_of d"
    "events_after d' = events_after d"
proof -
  have "record_versions d' = record_versions d" "record_events d' = record_events d"
    "record_decisions d' = record_decisions d" and a: "amendment_of d' = amendment_of d"
    using assms by (simp_all add: record_versions_def record_events_def record_decisions_def
        amendment_of_def fun_eq_iff)
  then have l: "latest_version d' = latest_version d" and e: "events_after d' = events_after d"
    and s: "status_since d' = status_since d" and v: "record_versions d' = record_versions d"
    by (simp_all add: latest_version_def events_after_def decisions_after_def status_since_def fun_eq_iff)
  show "latest_version d' = latest_version d" "amendment_of d' = amendment_of d" "events_after d' = events_after d"
    by (fact l a e)+
  show o': "open_scope d' = open_scope d"
    unfolding open_scope_def [abs_def] l a by (rule refl)
  show "status_of d' = status_of d"
    unfolding status_of_def [abs_def] o' s v by (rule refl)
  show "coalesced d' = coalesced d"
    unfolding coalesced_def [abs_def] event_mark_of_def o' e by (rule refl)
qed

lemma edit_change:
  assumes "frozen_refusal (status_of d r) = None" "record_of d r = Some cur" "edit_frame r d d1"
    and att: "attribute_contribution r a t (set_revision r (r_revision cur + 1) d1) = Inr d'"
  shows "writes ser sha d r WEdit d'"
proof -
  let ?s = "set_revision r (r_revision cur + 1) d1"
  obtain rs ms ns ls where d1: "d1 = d\<lparr>draft_ratings := rs, draft_modifiers := ms,
      draft_narratives := ns, daily_links := ls\<rparr>"
    using assms(3) by (auto simp: edit_frame_def)
  have t: "versions ?s = versions d" "amendments ?s = amendments d"
    "contributor_events ?s = contributor_events d" "decisions ?s = decisions d"
    by (simp_all add: set_revision_def map_record_def d1)
  obtain es where es: "d' = ?s\<lparr>contributor_events := contributor_events d @ es\<rparr>"
    "es = [] \<and> coalesced d r \<or> es = [new_event d r Contributed a None t]"
    using attribute_cases [OF att] by (auto simp: t(3) new_event_cong [OF t(3)] status_cong(3) [OF t])
  show ?thesis
    unfolding es(1) by (rule edited) (use assms es(2) in auto)
qed

lemma save_change:
  assumes call: "save pre clk d actor r rv input = Inr (d', n)" and ok: "copy_ok d"
  shows "writes ser sha d r WEdit d'"
proof -
  obtain w cur d1 where "frozen_refusal (status_of d r) = None" and cur: "record_of d r = Some cur"
    "rv = r_revision cur" "n = rv + 1" and fr: "save_frame d d1" "copy_ok d1"
    "\<forall>q. q \<noteq> r \<longrightarrow> content d1 q = content d q"
    and att: "attribute_contribution r actor (clk 0) (set_revision r n d1) = Inr d'"
    using save_effect [OF call ok] by blast
  moreover obtain rs ms ns where f: "d1 = d\<lparr>draft_ratings := rs, draft_modifiers := ms, draft_narratives := ns\<rparr>"
    using fr(1) by (auto simp: save_frame_def)
  then have l: "daily_links d1 = daily_links d" by simp
  have "edit_frame r d d1"
    unfolding edit_frame_def
  proof (intro conjI)
    show "\<exists>rs ms ns ls. d1 = d\<lparr>draft_ratings := rs, draft_modifiers := ms, draft_narratives := ns, daily_links := ls\<rparr>"
      by (intro exI [of _ rs] exI [of _ ms] exI [of _ ns] exI [of _ "daily_links d"]) (simp add: f)
    show "\<forall>q. q \<noteq> r \<longrightarrow> content d1 q = content d q \<and> record_links d1 q = record_links d q"
      using fr(3) l by (simp add: record_links_def)
  qed (rule fr(2))
  ultimately show ?thesis
    using edit_change by simp
qed

lemma link_write_Inr:
  assumes "link_write add d w r v = Inr d'"
  shows "\<exists>ls. d' = d\<lparr>daily_links := ls\<rparr> \<and>
      (\<forall>q. q \<noteq> r \<longrightarrow> filter (\<lambda>l. sl_summary_id l = q) ls = record_links d q)"
proof (cases add)
  case True
  with assms have "insert_link r v d = Inr d'"
    by (auto simp: link_write_def guard_simps split: if_splits option.splits)
  then show ?thesis
    by (auto simp: insert_link_def guard_simps record_links_def)
next
  case False
  with assms obtain n where "delete_link r v d = Inr (d', n)"
    by (auto simp: link_write_def guard_simps split: if_splits)
  then have d': "d' = d\<lparr>daily_links := filter (\<lambda>l. \<not> (sl_summary_id l = r \<and> sl_version_id l = v)) (daily_links d)\<rparr>"
    by (simp add: delete_link_def guard_simps Let_def)
  show ?thesis
    unfolding d' record_links_def
    by (intro exI [of _ "filter (\<lambda>l. \<not> (sl_summary_id l = r \<and> sl_version_id l = v)) (daily_links d)"])
      (auto intro!: filter_cong)
qed

lemma link_write_frame:
  assumes "link_write add d w r v = Inr d'" and ok: "copy_ok d"
  shows "edit_frame r d d'"
proof -
  note link_write_Inr [OF assms(1)]
  then obtain ls where ls: "d' = d\<lparr>daily_links := ls\<rparr>"
    "\<forall>q. q \<noteq> r \<longrightarrow> filter (\<lambda>l. sl_summary_id l = q) ls = record_links d q" by blast
  have t: "draft_ratings d' = draft_ratings d" "draft_modifiers d' = draft_modifiers d"
    "draft_narratives d' = draft_narratives d"
    by (simp_all add: ls(1))
  show ?thesis
    unfolding edit_frame_def
    using ls(2) copy_frame [OF t] ok
    by (intro conjI exI [of _ "draft_ratings d"] exI [of _ "draft_modifiers d"]
        exI [of _ "draft_narratives d"] exI [of _ ls]) (simp_all add: ls(1) record_links_def)
qed

lemma edit_links_change:
  assumes call: "edit_links add pre clk d actor r v rv = Inr (d', n)" and ok: "copy_ok d"
  shows "writes ser sha d r WEdit d'"
proof -
  obtain w cur d1 where "frozen_refusal (status_of d r) = None" "record_of d r = Some cur"
    "link_write add d w r v = Inr d1"
    "attribute_contribution r actor (clk 0) (set_revision r (r_revision cur + 1) d1) = Inr d'"
    using call by (clarsimp simp: edit_links_def guard_simps)
  then show ?thesis
    using edit_change link_write_frame ok by blast
qed


text \<open>
  The journal part of a service, after its change: each of these lemmas peels the notices and
  audit rows off the end.
\<close>

lemma transfer_change:
  assumes "transfer pre clk d actor r to = Inr d'"
  shows "\<exists>x. writes ser sha d r WTransfer x \<and> journaled x d'"
proof -
  from assms obtain o' d1 d2 d3 m where fr: "frozen_refusal (status_of d r) = None"
    and rec: "map_option r_owner (record_of d r) = Some o'"
    and d1: "append_event r OwnershipTransferred actor (Some to) (clk 0) d = Inr d1"
    and d2: "update_owner r to d1 = Inr d2"
    and d3: "record_for_subject EvDraftOwnershipTransferred (Some actor) (Some to) (SubjRecord r) (clk 1) d2 = Inr d3"
    and d4: "notify_user to NkDraftOwnershipReceived m (clk 2) d3 = Inr d'"
    by (clarsimp simp: transfer_def guard_simps Let_def)
  have "d2 = map_record r (\<lambda>x. x\<lparr>r_owner := to\<rparr>)
       (d\<lparr>contributor_events := contributor_events d @ [new_event d r OwnershipTransferred actor (Some to) (clk 0)]\<rparr>)"
    using conjunct1 [OF append_event_Inr [OF d1]] update_owner_Inr [OF d2] by simp
  with fr rec have "writes ser sha d r WTransfer d2"
    by (auto intro: transferred)
  then show ?thesis
    using journaled_record_for_subject [OF d3] journaled_notify [OF d4] journaled_trans by blast
qed

lemma submit_change:
  assumes "submit ser pre clk d actor r rv = Inr d'"
  shows "\<exists>x. writes ser sha d r WSubmit x \<and> journaled x d'"
proof -
  from assms obtain cur json d1 d2 d3 us m where fr: "frozen_refusal (status_of d r) = None"
    and rec: "record_of d r = Some cur" and json: "content_json ser d r = Inr json"
    and d1: "insert_snapshot r Submission json (clk 0) actor d = Inr d1"
    and d2: "append_event r SubmittedForReview actor None (clk 0) d1 = Inr d2"
    and d3: "record_for_subject EvDraftSubmitted (Some actor) None (SubjRecord r) (clk 1) d2 = Inr d3"
    and d4: "notify_each us NkDraftSubmittedForReview m clk 2 d3 = Inr d'"
    by (clarsimp simp: submit_def guard_simps Let_def)
  note e1 = insert_snapshot_Inr [OF d1]
  have "d2 = d\<lparr>
       snapshots := snapshots d @ [\<lparr>ds_id = next_id (map ds_id (snapshots d)), ds_record_id = r,
         ds_reason = Submission, ds_content = json, ds_taken_at = clk 0, ds_taken_by = Some actor\<rparr>],
       contributor_events := contributor_events d @ [new_event d r SubmittedForReview actor None (clk 0)]\<rparr>"
    using conjunct1 [OF append_event_Inr [OF d2]] e1 by (simp add: new_event_cong [of d1 d])
  moreover have "ser (content d r) = Some json"
    using json by (auto simp: content_json_def split: option.splits)
  ultimately have "writes ser sha d r WSubmit d2"
    using fr rec by (auto intro: submitted)
  then show ?thesis
    using journaled_record_for_subject [OF d3] journaled_notify_each [OF d4] journaled_trans by blast
qed

lemma decide_change:
  assumes "decide ser pre clk d actor r k comment = Inr d'"
  shows "\<exists>x. writes ser sha d r (WDecide k) x \<and> journaled x d'"
proof -
  from assms obtain o' d1 d2 d3 c m where st: "status_of d r = StSubmitted"
    and con: "is_contributor d r actor = Inr False"
    and d1: "(if k = ChangesRequested
              then seq (content_json ser d r) (\<lambda>json. insert_snapshot r ChangeRequestReturn json (clk 0) actor d)
              else Inr d) = Inr d1"
    and d2: "insert_decision (new_decision d1 r actor k c (clk 0)) d1 = Inr d2"
    and d3: "record_for_subject EvDraftReviewDecided (Some actor) (Some o') (SubjRecord r) (clk 1) d2 = Inr d3"
    and d4: "notify_user o' (decision_notice k) m (clk 2) d3 = Inr d'"
    by (clarsimp simp: decide_def guard_simps Let_def)
  have rec: "record_of d r \<noteq> None"
    using con by (auto simp: is_contributor_def split: option.splits)
  obtain json where json: "k = ChangesRequested \<longrightarrow> ser (content d r) = Some json"
    and d1': "d1 = d\<lparr>snapshots := snapshots d @ (if k = ChangesRequested then
         [\<lparr>ds_id = next_id (map ds_id (snapshots d)), ds_record_id = r,
           ds_reason = ChangeRequestReturn, ds_content = json, ds_taken_at = clk 0, ds_taken_by = Some actor\<rparr>]
       else [])\<rparr>"
    using d1 by (cases "k = ChangesRequested")
      (auto simp: guard_simps content_json_def split: option.splits dest!: insert_snapshot_Inr)
  have same: "new_decision d1 r actor k c (clk 0) = new_decision d r actor k c (clk 0)"
    by (simp add: new_decision_def d1')
  have "d2 = d1\<lparr>decisions := decisions d1 @ [new_decision d r actor k c (clk 0)],
      contributor_events := contributor_events d1 @ [new_event d r ReviewDecided actor None (clk 0)]\<rparr>"
    using insert_decision_Inr [OF d2] by (simp add: same new_event_cong [of d1 d] d1')
  then have d2': "d2 = d\<lparr>snapshots := snapshots d1,
      decisions := decisions d @ [new_decision d r actor k c (clk 0)],
      contributor_events := contributor_events d @ [new_event d r ReviewDecided actor None (clk 0)]\<rparr>"
    by (simp add: d1')
  have snaps: "snapshots d1 = snapshots d @ (if k = ChangesRequested then
         [\<lparr>ds_id = next_id (map ds_id (snapshots d)), ds_record_id = r,
           ds_reason = ChangeRequestReturn, ds_content = json, ds_taken_at = clk 0, ds_taken_by = Some actor\<rparr>]
       else [])"
    by (simp add: d1')
  have "writes ser sha d r (WDecide k) d2"
    unfolding d2' snaps by (rule decided [where ser = ser and json = json, OF st rec con refl json])
  then show ?thesis
    using journaled_record_for_subject [OF d3] journaled_notify [OF d4] journaled_trans by blast
qed

lemma open_amendment_change:
  assumes "open_amendment_on pre clk d actor r reason = Inr d'"
  shows "\<exists>x. writes ser sha d r WAmend x \<and> journaled x d'"
proof -
  from assms obtain v nm u o' d1 d2 m where v: "latest_version d r = Some v"
    and am: "amendment_of d (v_id v) = None"
    and d1: "insert_amendment (new_amendment d r (v_id v) (trim reason) actor nm (clk 0)) d = Inr d1"
    and d2: "record_for_subject EvAmendmentOpened (Some actor) (Some u) (SubjRecord r) (clk 1)
        (map_record r (\<lambda>x. x\<lparr>r_revision := r_revision x + 1\<rparr>) d1) = Inr d2"
    and d3: "notify_user o' NkAmendmentOpened m (clk 2) d2 = Inr d'"
    by (clarsimp simp: open_amendment_on_def guard_simps Let_def)
  let ?a = "new_amendment d r (v_id v) (trim reason) actor nm (clk 0)"
  have d1': "d1 = d\<lparr>amendments := amendments d @ [?a]\<rparr>" "record_of d r \<noteq> None"
    using d1 by (simp_all add: insert_amendment_def guard_simps Let_def)
  then have "writes ser sha d r WAmend (map_record r (\<lambda>x. x\<lparr>r_revision := r_revision x + 1\<rparr>) d1)"
    using v am by (simp add: amended)
  then show ?thesis
    using journaled_record_for_subject [OF d2] journaled_notify [OF d3] journaled_trans by blast
qed

lemma seal_change:
  assumes "seal to_vec sha clk d w actor p amendment = Inr (d', meta)"
    and am: "amendment = (if record_versions d (r_id w) \<noteq> [] then open_scope d (r_id w) else None)"
    and open_: "record_versions d (r_id w) \<noteq> [] \<Longrightarrow> amendment \<noteq> None"
    and rec: "record_of d (r_id w) \<noteq> None"
    and uniq: "\<And>v. latest_version d (r_id w) = Some v \<Longrightarrow> sealed_version_of d (v_id v) = Some v"
  shows "\<exists>x. writes ser sha d (r_id w) WSeal x \<and> journaled x d'"
proof -
  let ?n = "case amendment of None \<Rightarrow> 1 | Some s \<Rightarrow> oa_version_number s + 1"
  let ?h = "map_option oa_content_hash amendment"
  let ?p = "map_option oa_version_id amendment"
  from assms(1) obtain bytes chain d1 d2 d3 u o' m m' doc where
    bytes: "canonical_outcome (canonical_bytes to_vec doc) = Inr bytes"
    and chain: "canonical_outcome (chain_hash_hex sha ?h bytes) = Inr chain"
    and d1: "insert_version (sealed_row d (r_id w) ?n ?p bytes (content_hash_hex sha bytes) chain (clk 0) actor) d = Inr d1"
    and d2: "record_for_subject EvDraftFinalized (Some actor) (Some u) (SubjRecord (r_id w)) (clk 1) d1 = Inr d2"
    and d3: "notify_user o' NkDraftFinalized m (clk 2) d2 = Inr d3"
    and d4: "notify_user u NkRecordAwaitsAcknowledgment m' (clk 3) d3 = Inr d'"
    by (clarsimp simp: seal_def guard_simps Let_def)
  have latest: "next_version d (r_id w) = Some (?n, ?p) \<and> ?h = pred_hash d ?p"
  proof (cases "record_versions d (r_id w) = []")
    case True
    then show ?thesis
      by (simp add: am next_version_def latest_version_def pred_hash_def)
  next
    case False
    then obtain v where v: "latest_version d (r_id w) = Some v"
      by (cases "latest_version d (r_id w)") (auto simp: latest_version_def)
    from False open_ am obtain a where "amendment_of d (v_id v) = Some a"
      by (auto simp: open_scope_def v)
    then show ?thesis
      using False v uniq [OF v] by (simp add: am open_scope_def next_version_def pred_hash_def)
  qed
  have ins: "d1 = d\<lparr>versions := versions d @
      [sealed_row d (r_id w) ?n ?p bytes (content_hash_hex sha bytes) chain (clk 0) actor]\<rparr>" "bytes \<noteq> []"
    using d1 by (simp_all add: insert_version_def guard_simps Let_def sealed_row_def)
  have "chain_hash_hex sha (pred_hash d ?p) bytes = Inr chain"
    using chain latest by (simp add: canonical_outcome_def split: sum.splits)
  then have "writes ser sha d (r_id w) WSeal d1"
    unfolding ins(1) using latest ins(2) rec by (intro sealed) auto
  then show ?thesis
    using journaled_record_for_subject [OF d2] journaled_notify [OF d3] journaled_notify [OF d4]
      journaled_trans by blast
qed


lemma latest_version_sealed:
  "ids_ok (map v_id (versions d)) \<Longrightarrow> latest_version d r = Some v \<Longrightarrow> sealed_version_of d (v_id v) = Some v"
  unfolding latest_version_def sealed_version_of_def record_versions_def
  by (rule find_id_unique) (auto dest: latest_by_in)

text \<open>The gate of \<open>finalize\<close>, in one statement.\<close>

lemma finalize_gate:
  assumes "finalize to_vec sha pre clk d actor r rv = Inr (d', meta)"
  shows "\<exists>w cur amendment. load_record pre r = Some w \<and> user_has pre actor ReviewEvaluation \<and>
    record_of d r = Some cur \<and> rv = r_revision cur \<and>
    amendment = (if record_versions d r \<noteq> [] then open_scope d r else None) \<and>
    (record_versions d r \<noteq> [] \<longrightarrow> amendment \<noteq> None) \<and>
    (po_review_approved (policy_of (catalog d) (r_version_id w)) \<longrightarrow> status_of d r = StApproved) \<and>
    complete d w \<and>
    seal to_vec sha clk d w actor (policy_of (catalog d) (r_version_id w)) amendment = Inr (d', meta)"
proof -
  let ?am = "if record_versions d r \<noteq> [] then open_scope d r else None"
  from assms obtain w cur where "load_record pre r = Some w" "user_has pre actor ReviewEvaluation"
    "record_of d r = Some cur" "rv = r_revision cur" "\<not> (record_versions d r \<noteq> [] \<and> ?am = None)"
    "\<not> (po_review_approved (policy_of (catalog d) (r_version_id w)) \<and> status_of d r \<noteq> StApproved)"
    "\<not> (po_required_narratives (policy_of (catalog d) (r_version_id w)) \<and> narratives_incomplete d w)"
    "\<not> (po_ratings_complete (policy_of (catalog d) (r_version_id w)) \<and> ratings_incomplete d w)"
    "seal to_vec sha clk d w actor (policy_of (catalog d) (r_version_id w)) ?am = Inr (d', meta)"
    unfolding finalize_def guard_simps Let_def by blast
  then show ?thesis
    unfolding complete_def by blast
qed

lemma finalize_change:
  assumes call: "finalize to_vec sha pre clk d actor r rv = Inr (d', meta)"
    and ids: "ids_ok (map v_id (versions d))"
  shows "\<exists>x. writes ser sha d r WSeal x \<and> journaled x d'"
proof -
  obtain w cur am where w: "load_record pre r = Some w" "record_of d r = Some cur"
    and am: "am = (if record_versions d r \<noteq> [] then open_scope d r else None)"
    "record_versions d r \<noteq> [] \<longrightarrow> am \<noteq> None"
    and s: "seal to_vec sha clk d w actor (policy_of (catalog d) (r_version_id w)) am = Inr (d', meta)"
    using finalize_gate [OF call] by blast
  have "r_id w = r"
    using w(1) by (simp add: load_record_def record_of_id)
  then show ?thesis
    using seal_change [OF s, of ser] am w(2) latest_version_sealed [OF ids] by auto
qed

lemma latest_with_trainee_Some:
  "latest_with_trainee d r = Some (v, u) \<Longrightarrow>
    \<exists>x. latest_version d r = Some x \<and> v_id x = v \<and> trainee_of_record d r = Some u"
  by (auto simp: latest_with_trainee_def bind_eq_Some_conv)

lemma insert_ack_change:
  assumes l: "latest_with_trainee d r = Some (v, u)" and "\<not> already_acknowledged d v u"
    and "ak_version_id A = v" "ak_user_id A = u"
    and i: "insert_ack A d = Inr d'"
  shows "writes ser sha d r WAck d'"
proof -
  obtain x where x: "latest_version d r = Some x" "v_id x = v" "trainee_of_record d r = Some u"
    using latest_with_trainee_Some [OF l] by blast
  have "d' = d\<lparr>acks := acks d @ [A]\<rparr>" "ack_shape A"
    using i by (simp_all add: insert_ack_def guard_simps)
  then show ?thesis
    using acked [OF x(1,3)] assms(2-4) x(2) by simp
qed

lemma ack_notices_journaled: "ack_notices k r nm clk d = Inr d' \<Longrightarrow> journaled d d'"
  by (cases k) (auto simp: ack_notices_def guard_simps intro: journal_frames)

lemma acknowledge_change:
  assumes "acknowledge pre clk d actor r k response = Inr d'"
  shows "\<exists>x. writes ser sha d r WAck x \<and> journaled x d'"
proof -
  from assms obtain v nm d1 d2 where l: "latest_with_trainee d r = Some (v, actor)"
    and n: "\<not> already_acknowledged d v actor"
    and d1: "insert_ack (new_ack d v actor (trainee_ack k) (trim response) actor nm nm (clk 0)) d = Inr d1"
    and d2: "record_for_subject EvAcknowledgmentRecorded (Some actor) (Some actor) (SubjRecord r) (clk 1) d1 = Inr d2"
    and d3: "ack_notices k r nm clk d2 = Inr d'"
    by (clarsimp simp: acknowledge_def guard_simps Let_def)
  have "writes ser sha d r WAck d1"
    by (rule insert_ack_change [OF l n _ _ d1]) simp_all
  then show ?thesis
    using journaled_record_for_subject [OF d2] ack_notices_journaled [OF d3] journaled_trans by blast
qed

lemma attest_change:
  assumes "attest pre clk d actor r k reason = Inr d'"
  shows "\<exists>x. writes ser sha d r WAck x \<and> journaled x d'"
proof -
  from assms obtain v u nm am d1 d2 m where l: "latest_with_trainee d r = Some (v, u)"
    and n: "\<not> already_acknowledged d v u"
    and d1: "insert_ack (new_ack d v u (attested_ack k) (trim reason) actor nm am (clk 0)) d = Inr d1"
    and d2: "record_for_subject EvAcknowledgmentRecorded (Some actor) (Some u) (SubjRecord r) (clk 1) d1 = Inr d2"
    and d3: "notify_user u NkAcknowledgmentAttested m (clk 2) d2 = Inr d'"
    by (clarsimp simp: attest_def guard_simps Let_def)
  have "writes ser sha d r WAck d1"
    by (rule insert_ack_change [OF l n _ _ d1]) simp_all
  then show ?thesis
    using journaled_record_for_subject [OF d2] journaled_notify [OF d3] journaled_trans by blast
qed

end
