(* ===== verification/Records.thy ===== *)
theory Records
  imports Changes
begin

text \<open>
  The invariants of evaluation records, proved over \<open>change\<close>: the streams and their marks, the
  version chain and its hashes, the reviewed content, ownership, coverage and acknowledgments.
\<close>

section \<open>Status after a change\<close>

text \<open>The marks a record's workflow is read from: none once it is finalized and not reopened.\<close>

definition scope_marks :: "db \<Rightarrow> int \<Rightarrow> (int \<times> int) option" where
  "scope_marks d r =
     (case latest_version d r of
        None \<Rightarrow> Some (0, 0)
      | Some v \<Rightarrow> map_option (\<lambda>a. (am_event_mark a, am_decision_mark a)) (amendment_of d (v_id v)))"

lemma status_of_marks:
  "status_of d r = (case scope_marks d r of None \<Rightarrow> StFinalized | Some (m, n) \<Rightarrow> status_since d r m n)"
  by (auto simp: status_of_def scope_marks_def open_scope_def latest_version_def split: option.splits)

lemma cycle_status_not_finalized: "cycle_status k v \<noteq> StFinalized"
proof (cases "k = Some ReviewDecided")
  case True
  then show ?thesis
    by (cases v) (auto simp: cycle_status_def elim: decision_status.elims)
qed (auto simp: cycle_status_def split: option.splits contributor_kind.splits)

lemma status_finalized_iff: "status_of d r = StFinalized \<longleftrightarrow> scope_marks d r = None"
  by (auto simp: status_of_marks status_since_def cycle_status_not_finalized split: option.splits)

definition marks_ok :: "db \<Rightarrow> bool" where
  "marks_ok d \<longleftrightarrow> (\<forall>a \<in> set (amendments d).
     0 \<le> am_event_mark a \<and> am_event_mark a < next_id (map ce_id (contributor_events d)) \<and>
     0 \<le> am_decision_mark a \<and> am_decision_mark a < next_id (map rd_id (decisions d)))"

lemma amendment_of_in: "amendment_of d v = Some a \<Longrightarrow> a \<in> set (amendments d) \<and> am_predecessor a = v"
  unfolding amendment_of_def by (blast dest: find_eq_SomeD)

lemma scope_marks_bound:
  assumes "marks_ok d" and "scope_marks d r = Some (m, n)" and "ids_ok (map ce_id (contributor_events d))"
    and "ids_ok (map rd_id (decisions d))"
  shows "m < next_id (map ce_id (contributor_events d)) \<and> n < next_id (map rd_id (decisions d))"
  using assms next_id_pos
  by (auto simp: scope_marks_def marks_ok_def split: option.splits dest!: amendment_of_in)

lemma latest_event_append:
  assumes "contributor_events d' = contributor_events d @ [new_event d r k a to t]"
    and "m < next_id (map ce_id (contributor_events d))"
  shows "map_option ce_kind (latest_by ce_id (events_after d' q m)) =
    (if q = r then Some k else map_option ce_kind (latest_by ce_id (events_after d q m)))"
proof (cases "q = r")
  case True
  let ?e = "new_event d r k a to t"
  have "events_after d' r m = events_after d r m @ [?e]"
    using assms by (simp add: events_after_def record_events_def)
  moreover have "ce_id x \<le> ce_id ?e" if "x \<in> set (events_after d r m)" for x
    using that next_id_gt [of "ce_id x" "map ce_id (contributor_events d)"]
    by (simp add: events_after_def record_events_def)
  ultimately show ?thesis
    using True by (simp add: latest_by_snoc)
qed (use assms(1) in \<open>simp add: events_after_def record_events_def\<close>)

lemma latest_decision_append:
  assumes "decisions d' = decisions d @ [new_decision d r a k c t]"
    and "n < next_id (map rd_id (decisions d))"
  shows "map_option rd_decision (latest_by rd_id (decisions_after d' q n)) =
    (if q = r then Some k else map_option rd_decision (latest_by rd_id (decisions_after d q n)))"
proof (cases "q = r")
  case True
  let ?e = "new_decision d r a k c t"
  have "decisions_after d' r n = decisions_after d r n @ [?e]"
    using assms by (simp add: decisions_after_def record_decisions_def)
  moreover have "rd_id x \<le> rd_id ?e" if "x \<in> set (decisions_after d r n)" for x
    using that next_id_gt [of "rd_id x" "map rd_id (decisions d)"]
    by (simp add: decisions_after_def record_decisions_def)
  ultimately show ?thesis
    using True by (simp add: latest_by_snoc)
qed (use assms(1) in \<open>simp add: decisions_after_def record_decisions_def\<close>)

lemma scope_marks_cong:
  assumes "versions d' = versions d" "amendments d' = amendments d"
  shows "scope_marks d' = scope_marks d"
proof -
  have l: "latest_version d' = latest_version d" and a: "amendment_of d' = amendment_of d"
    using assms by (simp_all add: latest_version_def record_versions_def amendment_of_def fun_eq_iff)
  show ?thesis
    unfolding scope_marks_def [abs_def] l a by (rule refl)
qed

definition streams_sorted :: "db \<Rightarrow> bool" where
  "streams_sorted d \<longleftrightarrow>
     ids_ok (map ce_id (contributor_events d)) \<and> ids_ok (map rd_id (decisions d)) \<and> marks_ok d"

text \<open>An event moves its own record's status, and no other's.\<close>

lemma status_after_event:
  assumes ok: "streams_sorted d"
    and t: "versions d' = versions d" "amendments d' = amendments d" "decisions d' = decisions d"
    and e: "contributor_events d' = contributor_events d @ [new_event d r k a to n]"
    and k: "k \<noteq> ReviewDecided"
  shows "status_of d' q =
    (if q = r \<and> status_of d r \<noteq> StFinalized
     then (if k = SubmittedForReview then StSubmitted else StDraft) else status_of d q)"
proof -
  have dec: "decisions_after d' = decisions_after d"
    by (simp add: decisions_after_def record_decisions_def t(3) fun_eq_iff)
  show ?thesis
  proof (cases "scope_marks d q")
    case None
    then show ?thesis
      using status_finalized_iff [of d q]
    by (auto simp: status_of_marks [of d' q] scope_marks_cong [OF t(1,2)])
  next
    case (Some p)
    obtain m j where p: "p = (m, j)" by (cases p)
    have "m < next_id (map ce_id (contributor_events d))"
      using ok Some scope_marks_bound p by (auto simp: streams_sorted_def)
    note l = latest_event_append [OF e this, of q]
    have nf: "status_of d q \<noteq> StFinalized"
      using Some by (simp add: status_finalized_iff)
    show ?thesis
      unfolding status_of_marks [of d' q] status_of_marks [of d q] scope_marks_cong [OF t(1,2)] Some p
        option.case prod.case status_since_def l dec
      using k nf by (cases k) (auto simp: cycle_status_def)
  qed
qed

lemma status_after_decision:
  assumes ok: "streams_sorted d"
    and t: "versions d' = versions d" "amendments d' = amendments d"
    and v: "decisions d' = decisions d @ [new_decision d r a k c n]"
    and e: "contributor_events d' = contributor_events d @ [new_event d r ReviewDecided a' to n']"
  shows "status_of d' q =
    (if q = r \<and> status_of d r \<noteq> StFinalized then decision_status (Some k) else status_of d q)"
proof (cases "scope_marks d q")
  case None
  then show ?thesis
    using status_finalized_iff [of d q]
    by (auto simp: status_of_marks [of d' q] scope_marks_cong [OF t(1,2)])
next
  case (Some p)
  obtain m j where p: "p = (m, j)" by (cases p)
  have b: "m < next_id (map ce_id (contributor_events d))" "j < next_id (map rd_id (decisions d))"
    using ok Some scope_marks_bound p by (auto simp: streams_sorted_def)
  note l = latest_event_append [OF e b(1), of q] latest_decision_append [OF v b(2), of q]
  have nf: "status_of d q \<noteq> StFinalized"
    using Some by (simp add: status_finalized_iff)
  show ?thesis
    unfolding status_of_marks [of d' q] status_of_marks [of d q] scope_marks_cong [OF t(1,2)] Some p
      option.case prod.case status_since_def l
    using nf by (cases k) (auto simp: cycle_status_def)
qed


section \<open>The invariant\<close>

text \<open>A record's versions in the order they were sealed: numbered from one, each naming the one before.\<close>

definition chained :: "version_row list \<Rightarrow> bool" where
  "chained vs \<longleftrightarrow>
     (\<forall>i < length vs. v_number (vs ! i) = int i + 1 \<and>
        v_predecessor (vs ! i) = (if i = 0 then None else Some (v_id (vs ! (i - 1)))))"

lemma chained_numbers: "chained vs \<Longrightarrow> ids_ok (map v_number vs)"
  by (auto simp: chained_def ids_ok_def sorted_wrt_iff_nth_less in_set_conv_nth)

lemma chained_latest:
  "chained vs \<Longrightarrow> latest_by v_number vs = (if vs = [] then None else Some (last vs))"
  using latest_by_last [of v_number vs] chained_numbers by blast

lemma chained_snoc:
  assumes "chained vs"
    and "v_number v = int (length vs) + 1"
    and "v_predecessor v = (if vs = [] then None else Some (v_id (last vs)))"
  shows "chained (vs @ [v])"
  unfolding chained_def
proof (intro allI impI)
  fix i assume "i < length (vs @ [v])"
  then consider "i < length vs" | "i = length vs" by force
  then show "v_number ((vs @ [v]) ! i) = int i + 1 \<and>
      v_predecessor ((vs @ [v]) ! i) = (if i = 0 then None else Some (v_id ((vs @ [v]) ! (i - 1))))"
  proof cases
    case 1
    then show ?thesis using assms(1) by (auto simp: chained_def nth_append)
  next
    case 2
    then show ?thesis
      using assms(2,3) by (auto simp: nth_append last_conv_nth)
  qed
qed

lemma chained_last: "chained vs \<Longrightarrow> vs \<noteq> [] \<Longrightarrow> v_number (last vs) = int (length vs)"
  by (auto simp: chained_def last_conv_nth of_nat_diff Suc_le_eq)

text \<open>What a stored version has to satisfy: its two fingerprints recompute.\<close>

definition sealed_ok :: "(string \<Rightarrow> string) \<Rightarrow> db \<Rightarrow> version_row \<Rightarrow> bool" where
  "sealed_ok sha d v \<longleftrightarrow>
     v_content_hash v = content_hash_hex sha (v_bytes v) \<and>
     chain_hash_hex sha (pred_hash d (v_predecessor v)) (v_bytes v) = Inr (v_chain_hash v) \<and>
     (v_predecessor v \<noteq> None \<longrightarrow> pred_hash d (v_predecessor v) \<noteq> None)"

definition latest_submission :: "db \<Rightarrow> int \<Rightarrow> snapshot_row option" where
  "latest_submission d r =
     latest_by ds_id (filter (\<lambda>s. ds_reason s = Submission) (record_snapshots d r))"

text \<open>While a record is under review or approved, its copy is what the last submission anchored.\<close>

definition reviewed :: "(draft_content \<Rightarrow> string option) \<Rightarrow> db \<Rightarrow> int \<Rightarrow> bool" where
  "reviewed ser d r \<longleftrightarrow>
     (status_of d r = StSubmitted \<or> status_of d r = StApproved \<longrightarrow>
        (\<exists>s. latest_submission d r = Some s \<and> ser (content d r) = Some (ds_content s)))"

text \<open>The owner column repeats the stream: the last recipient, or the creator.\<close>

definition stream_owner :: "db \<Rightarrow> int \<Rightarrow> int option" where
  "stream_owner d r =
     (case latest_by ce_id (filter (\<lambda>e. ce_kind e = OwnershipTransferred) (record_events d r)) of
        Some e \<Rightarrow> ce_to e
      | None \<Rightarrow> map_option ce_actor (find (\<lambda>e. ce_kind e = Created) (record_events d r)))"

definition ownership_ok :: "db \<Rightarrow> bool" where
  "ownership_ok d \<longleftrightarrow> (\<forall>x \<in> set (records d). stream_owner d (r_id x) = Some (r_owner x))"

definition acks_ok :: "db \<Rightarrow> bool" where
  "acks_ok d \<longleftrightarrow>
     distinct (map (\<lambda>a. (ak_version_id a, ak_user_id a)) (acks d)) \<and>
     (\<forall>a \<in> set (acks d). ack_shape a \<and> trainee_of_version d (ak_version_id a) = Some (ak_user_id a))"

definition tables_ok :: "db \<Rightarrow> bool" where
  "tables_ok d \<longleftrightarrow>
     ids_ok (map r_id (records d)) \<and> streams_sorted d \<and> ids_ok (map ds_id (snapshots d)) \<and>
     ids_ok (map v_id (versions d)) \<and> copy_ok d \<and>
     (\<forall>e \<in> set (contributor_events d). ce_record_id e \<in> r_id ` set (records d)) \<and>
     (\<forall>a \<in> set (amendments d). am_predecessor a \<in> v_id ` set (versions d)) \<and>
     distinct (map es_session_id (record_sessions d))"

text \<open>Only the tables above matter: the journal and other services leave the invariant alone.\<close>

definition same_records :: "db \<Rightarrow> db \<Rightarrow> bool" where
  "same_records d d' \<longleftrightarrow>
     records d' = records d \<and> record_sessions d' = record_sessions d \<and>
     contributor_events d' = contributor_events d \<and> decisions d' = decisions d \<and>
     snapshots d' = snapshots d \<and> versions d' = versions d \<and> amendments d' = amendments d \<and>
     acks d' = acks d \<and> daily_links d' = daily_links d \<and> draft_ratings d' = draft_ratings d \<and>
     draft_modifiers d' = draft_modifiers d \<and> draft_narratives d' = draft_narratives d"

lemma same_records_journaled: "journaled d d' \<Longrightarrow> same_records d d'"
  by (simp add: same_records_def journaled_tables)


section \<open>The tables\<close>

lemma edit_frame_tables:
  assumes "edit_frame r d d'"
  shows "records d' = records d" "record_sessions d' = record_sessions d"
    "contributor_events d' = contributor_events d" "decisions d' = decisions d"
    "snapshots d' = snapshots d" "versions d' = versions d" "amendments d' = amendments d"
    "acks d' = acks d" "enrollments d' = enrollments d" "catalog d' = catalog d" "copy_ok d'"
    "q \<noteq> r \<Longrightarrow> content d' q = content d q" "q \<noteq> r \<Longrightarrow> record_links d' q = record_links d q"
  using assms by (auto simp: edit_frame_def)

lemma map_record_frame [simp]:
  "record_sessions (map_record r f d) = record_sessions d"
  "contributor_events (map_record r f d) = contributor_events d"
  "decisions (map_record r f d) = decisions d" "snapshots (map_record r f d) = snapshots d"
  "versions (map_record r f d) = versions d" "amendments (map_record r f d) = amendments d"
  "acks (map_record r f d) = acks d" "daily_links (map_record r f d) = daily_links d"
  "draft_ratings (map_record r f d) = draft_ratings d"
  "draft_modifiers (map_record r f d) = draft_modifiers d"
  "draft_narratives (map_record r f d) = draft_narratives d"
  "enrollments (map_record r f d) = enrollments d" "catalog (map_record r f d) = catalog d"
  by (simp_all add: map_record_def)

lemma map_record_ids: "(\<And>x. r_id (f x) = r_id x) \<Longrightarrow> map r_id (records (map_record r f d)) = map r_id (records d)"
  by (simp add: map_record_def)

lemma set_revision_frame [simp]:
  "record_sessions (set_revision r n d) = record_sessions d"
  "contributor_events (set_revision r n d) = contributor_events d"
  "decisions (set_revision r n d) = decisions d" "snapshots (set_revision r n d) = snapshots d"
  "versions (set_revision r n d) = versions d" "amendments (set_revision r n d) = amendments d"
  "acks (set_revision r n d) = acks d" "daily_links (set_revision r n d) = daily_links d"
  "draft_ratings (set_revision r n d) = draft_ratings d"
  "draft_modifiers (set_revision r n d) = draft_modifiers d"
  "draft_narratives (set_revision r n d) = draft_narratives d"
  "enrollments (set_revision r n d) = enrollments d" "catalog (set_revision r n d) = catalog d"
  "map r_id (records (set_revision r n d)) = map r_id (records d)"
  by (simp_all add: set_revision_def map_record_ids)

text \<open>Every change keeps the record ids and adds at most one, at the end; the other tables only grow.\<close>

lemma change_ids:
  assumes "change ser sha d r d'"
  shows "map r_id (records d') = map r_id (records d) \<or>
    map r_id (records d') = map r_id (records d) @ [next_id (map r_id (records d))]"
  using assms
proof cases
  case (edited cur d1 es a t)
  then show ?thesis by (simp add: edit_frame_tables(1))
qed (simp_all add: map_record_ids)

lemma record_of_ids: "record_of d r \<noteq> None \<longleftrightarrow> r \<in> set (map r_id (records d))"
  unfolding record_of_def by (induction "records d" rule: rev_induct) (auto simp: find_None_iff)

lemma change_appends:
  assumes "change ser sha d r d'"
  shows "prefix (contributor_events d) (contributor_events d')" "prefix (decisions d) (decisions d')"
    "prefix (snapshots d) (snapshots d')" "prefix (versions d) (versions d')"
    "prefix (amendments d) (amendments d')" "prefix (acks d) (acks d')"
    "prefix (record_sessions d) (record_sessions d')"
    "enrollments d' = enrollments d" "catalog d' = catalog d"
  using assms by (cases, auto simp: edit_frame_tables)+


lemma next_id_mono: "ids_ok ys \<Longrightarrow> set xs \<subseteq> set ys \<Longrightarrow> next_id xs \<le> next_id ys"
proof (cases "max_id xs")
  case (Some m)
  assume "set xs \<subseteq> set ys"
  then have "m < next_id ys"
    using Some by (auto dest: max_id_in intro: next_id_gt)
  then show ?thesis using Some by (simp add: next_id_def)
next
  case None
  then have "next_id xs = 1" by (simp add: next_id_def max_id_def)
  moreover assume "ids_ok ys"
  ultimately show ?thesis using next_id_pos [of ys] by simp
qed

lemma prefix_ids: "prefix xs ys \<Longrightarrow> set (map f xs) \<subseteq> set (map f ys)"
  by (rule set_mono_prefix [OF map_mono_prefix])

lemma mark_of_bounds:
  assumes "ids_ok is" and "set ms \<subseteq> set is"
  shows "0 \<le> mark_of ms \<and> mark_of ms < next_id is"
proof (cases "max_id ms")
  case None
  have "mark_of ms = 0" unfolding mark_of_def None by simp
  then show ?thesis using next_id_pos [OF assms(1)] by simp
next
  case (Some m)
  then have "m \<in> set is" using assms(2) by (auto dest: max_id_in)
  then have "0 < m" "m < next_id is"
    using assms(1) next_id_gt by (auto simp: ids_ok_def)
  then show ?thesis using Some by (simp add: mark_of_def)
qed

lemma tables_okD:
  assumes "tables_ok d"
  shows "ids_ok (map r_id (records d))" "ids_ok (map ce_id (contributor_events d))"
    "ids_ok (map rd_id (decisions d))" "ids_ok (map ds_id (snapshots d))"
    "ids_ok (map v_id (versions d))" "copy_ok d" "marks_ok d" "streams_sorted d"
    "distinct (map es_session_id (record_sessions d))"
    "\<forall>e \<in> set (contributor_events d). ce_record_id e \<in> r_id ` set (records d)"
    "\<forall>a \<in> set (amendments d). am_predecessor a \<in> v_id ` set (versions d)"
  using assms by (simp_all add: tables_ok_def streams_sorted_def)

lemma change_ids_sorted:
  assumes ch: "change ser sha d r d'" and ok: "tables_ok d"
  shows "ids_ok (map r_id (records d'))" "ids_ok (map ce_id (contributor_events d'))"
    "ids_ok (map rd_id (decisions d'))" "ids_ok (map ds_id (snapshots d'))" "ids_ok (map v_id (versions d'))"
    "copy_ok d'"
proof -
  note ids = tables_okD [OF ok]
  show "ids_ok (map r_id (records d'))"
    using change_ids [OF ch] ids(1) by auto
  show "ids_ok (map ce_id (contributor_events d'))"
    using ch ids(2) by cases (auto simp: edit_frame_tables)
  show "ids_ok (map rd_id (decisions d'))"
    using ch ids(3) by cases (auto simp: edit_frame_tables)
  show "ids_ok (map ds_id (snapshots d'))"
    using ch ids(4) by cases (auto simp: edit_frame_tables)
  show "ids_ok (map v_id (versions d'))"
    using ch ids(5) by cases (auto simp: edit_frame_tables sealed_row_def)
  show "copy_ok d'"
    using ch
  proof cases
    case (edited cur d1 es a t)
    have "copy_ok d' = copy_ok d1"
      by (rule copy_frame) (simp_all add: edited(1))
    then show ?thesis using edit_frame_tables(11) [OF edited(4)] by simp
  qed (use ids(6) in \<open>simp_all add: copy_ok_def\<close>)
qed

lemma change_marks:
  assumes ch: "change ser sha d r d'" and ok: "tables_ok d"
  shows "marks_ok d'"
proof -
  note ids = tables_okD [OF ok]
  have e: "next_id (map ce_id (contributor_events d)) \<le> next_id (map ce_id (contributor_events d'))"
    and v: "next_id (map rd_id (decisions d)) \<le> next_id (map rd_id (decisions d'))"
    using change_ids_sorted [OF ch ok] change_appends(1,2) [OF ch]
    by (auto intro!: next_id_mono prefix_ids simp del: set_map)
  have marks: "amendments d' = amendments d \<or>
      (\<exists>a. amendments d' = amendments d @ [a] \<and> am_event_mark a = event_mark d r \<and>
        am_decision_mark a = decision_mark d r)"
    using ch by cases (simp_all add: edit_frame_tables)
  have new: "0 \<le> event_mark d r" "event_mark d r < next_id (map ce_id (contributor_events d))"
    "0 \<le> decision_mark d r" "decision_mark d r < next_id (map rd_id (decisions d))"
    using ids(2,3) mark_of_bounds [of "map ce_id (contributor_events d)" "map ce_id (record_events d r)"]
      mark_of_bounds [of "map rd_id (decisions d)" "map rd_id (record_decisions d r)"]
    by (auto simp: event_mark_def decision_mark_def record_events_def record_decisions_def)
  show ?thesis
    using marks ids(7) new e v by (force simp: marks_ok_def)
qed

lemma created_fresh: "record_of d (next_id (map r_id (records d))) = None"
  using record_of_ids [of d "next_id (map r_id (records d))"] next_id_fresh [of "map r_id (records d)"] by blast

lemma change_tables:
  assumes ch: "change ser sha d r d'" and ok: "tables_ok d"
  shows "tables_ok d'"
proof -
  note ids = tables_okD [OF ok]
  have ev: "\<forall>e \<in> set (contributor_events d'). ce_record_id e \<in> set (map r_id (records d'))"
  proof -
    have old: "set (map r_id (records d)) \<subseteq> set (map r_id (records d'))"
      using change_ids [OF ch] by (elim disjE) (simp_all only: set_append Un_upper1 order_refl)
    have "\<forall>e \<in> set (contributor_events d'). e \<in> set (contributor_events d) \<or> ce_record_id e = r"
      using ch by cases (auto simp: edit_frame_tables)
    moreover have "r \<in> set (map r_id (records d'))" if "contributor_events d' \<noteq> contributor_events d"
      using ch that old record_of_ids [of d r] by cases (auto simp: edit_frame_tables)
    moreover have "\<forall>e \<in> set (contributor_events d). ce_record_id e \<in> set (map r_id (records d'))"
      using ids(10) old by (auto simp: subset_iff image_iff)
    ultimately show ?thesis by metis
  qed
  have am: "\<forall>a \<in> set (amendments d'). am_predecessor a \<in> v_id ` set (versions d')"
    using ch ids(11)
    by cases (auto simp: edit_frame_tables latest_version_def record_versions_def dest!: latest_by_in)
  have ses: "distinct (map es_session_id (record_sessions d'))"
    using ch ids(9) by cases (auto simp: edit_frame_tables)
  show ?thesis
    using change_ids_sorted [OF ch ok] change_marks [OF ch ok] ev am ses
    by (simp add: tables_ok_def streams_sorted_def)
qed


section \<open>The chain\<close>

definition chains_ok :: "(string \<Rightarrow> string) \<Rightarrow> db \<Rightarrow> bool" where
  "chains_ok sha d \<longleftrightarrow>
     (\<forall>r. chained (record_versions d r)) \<and> (\<forall>v \<in> set (versions d). sealed_ok sha d v)"

lemma chained_latest_version:
  "chains_ok sha d \<Longrightarrow> latest_version d r =
    (if record_versions d r = [] then None else Some (last (record_versions d r)))"
  unfolding latest_version_def chains_ok_def using chained_latest by blast

lemma next_version_position:
  assumes "chains_ok sha d" and "next_version d r = Some (n, p)"
  shows "n = int (length (record_versions d r)) + 1"
    "p = (if record_versions d r = [] then None else Some (v_id (last (record_versions d r))))"
  using assms chained_last [of "record_versions d r"]
  by (auto simp: next_version_def chained_latest_version chains_ok_def split: if_splits)

lemma pred_hash_grows:
  "versions d' = versions d @ vs \<Longrightarrow> pred_hash d p \<noteq> None \<or> p = None \<Longrightarrow> pred_hash d' p = pred_hash d p"
proof -
  assume v: "versions d' = versions d @ vs" and p: "pred_hash d p \<noteq> None \<or> p = None"
  have "find P xs = Some x \<Longrightarrow> find P (xs @ vs) = Some x" for P :: "version_row \<Rightarrow> bool" and xs x
    by (induction xs) (auto split: if_splits)
  with v p show ?thesis
    by (cases p) (auto simp: pred_hash_def sealed_version_of_def)
qed

lemma pred_hash_latest:
  "ids_ok (map v_id (versions d)) \<Longrightarrow> latest_version d r = Some v \<Longrightarrow>
    pred_hash d (Some (v_id v)) = Some (v_content_hash v)"
  using latest_version_sealed by (simp add: pred_hash_def)

lemma sealed_ok_cong: "versions d' = versions d \<Longrightarrow> sealed_ok sha d' = sealed_ok sha d"
proof -
  assume "versions d' = versions d"
  then have "pred_hash d' = pred_hash d"
    by (simp add: pred_hash_def [abs_def] sealed_version_of_def)
  then show ?thesis by (simp add: sealed_ok_def [abs_def])
qed

lemma chains_ok_cong: "versions d' = versions d \<Longrightarrow> chains_ok sha d' = chains_ok sha d"
  using sealed_ok_cong [of d' d sha] by (simp add: chains_ok_def record_versions_def)

lemma change_chains:
  assumes ch: "change ser sha d r d'" and ok: "tables_ok d" and cs: "chains_ok sha d"
  shows "chains_ok sha d'"
proof -
  have same: "versions d' = versions d \<Longrightarrow> chains_ok sha d'"
    using chains_ok_cong cs by blast
  from ch show ?thesis
proof cases
  case (sealed n p bytes chain t a)
  let ?v = "sealed_row d r n p bytes (content_hash_hex sha bytes) chain t a"
  have vs: "versions d' = versions d @ [?v]" by (simp add: sealed(1))
  note pos = next_version_position [OF cs sealed(3)]
  have "chained (record_versions d' q)" for q
  proof (cases "q = r")
    case True
    have "record_versions d' q = record_versions d r @ [?v]"
      by (simp add: record_versions_def vs True sealed_row_def)
    moreover have "chained (record_versions d r @ [?v])"
      using cs pos by (intro chained_snoc) (simp_all add: chains_ok_def sealed_row_def)
    ultimately show ?thesis by simp
  next
    case False
    then have "record_versions d' q = record_versions d q"
      by (simp add: record_versions_def vs sealed_row_def)
    with cs show ?thesis by (simp add: chains_ok_def)
  qed
  moreover have "sealed_ok sha d' v" if "v \<in> set (versions d')" for v
  proof (cases "v = ?v")
    case True
    have "pred_hash d p \<noteq> None \<or> p = None"
      using sealed(3) pred_hash_latest [OF tables_okD(5) [OF ok]]
      by (auto simp: next_version_def split: option.splits if_splits)
    then show ?thesis
      using True sealed(4) pred_hash_grows [OF vs, of p]
      by (auto simp: sealed_ok_def sealed_row_def)
  next
    case False
    then have "sealed_ok sha d v"
      using that cs by (simp add: vs chains_ok_def)
    then show ?thesis
      using pred_hash_grows [OF vs, of "v_predecessor v"] by (auto simp: sealed_ok_def)
  qed
  ultimately show ?thesis by (simp add: chains_ok_def)
next
  case (edited cur d1 es a t)
  show ?thesis
    by (rule same) (simp add: edited(1) edit_frame_tables(6) [OF edited(4)])
qed (rule same, simp)+
qed

section \<open>Sealing and reopening\<close>

lemma status_after_seal:
  assumes ok: "tables_ok d" and cs: "chains_ok sha d" and nv: "next_version d r = Some (n, p)"
    and vs: "versions d' = versions d @ [sealed_row d r n p b h c t a]"
    and t: "amendments d' = amendments d" "contributor_events d' = contributor_events d"
      "decisions d' = decisions d"
  shows "status_of d' q = (if q = r then StFinalized else status_of d q)"
proof -
  let ?v = "sealed_row d r n p b h c t a"
  have am: "amendment_of d' = amendment_of d"
    by (simp add: amendment_of_def t(1) fun_eq_iff)
  show ?thesis
  proof (cases "q = r")
    case True
    have "record_versions d' r = record_versions d r @ [?v]"
      by (simp add: record_versions_def vs sealed_row_def)
    moreover have "chained (record_versions d r @ [?v])"
      using cs next_version_position [OF cs nv]
      by (intro chained_snoc) (simp_all add: chains_ok_def sealed_row_def)
    ultimately have l: "latest_version d' r = Some ?v"
      using chained_latest [of "record_versions d r @ [?v]"] by (simp add: latest_version_def)
    have "amendment_of d (v_id ?v) = None"
      using tables_okD(11) [OF ok] next_id_fresh [of "map v_id (versions d)"]
      unfolding amendment_of_def find_None_iff sealed_row_def version_row.select_convs set_map by metis
    then have "scope_marks d' r = None"
      by (simp add: scope_marks_def l am)
    with True show ?thesis
      by (simp add: status_finalized_iff)
  next
    case False
    then have "record_versions d' q = record_versions d q"
      by (simp add: record_versions_def vs sealed_row_def)
    then have l: "latest_version d' q = latest_version d q" by (simp add: latest_version_def)
    have sm: "scope_marks d' q = scope_marks d q"
      unfolding scope_marks_def l am by (rule refl)
    have ss: "status_since d' = status_since d"
      by (simp add: status_since_def fun_eq_iff events_after_def decisions_after_def record_events_def
          record_decisions_def t)
    show ?thesis
      unfolding status_of_marks sm ss using False by simp
  qed
qed

lemma events_after_mark: "events_after d r (event_mark d r) = []"
proof -
  have "ce_id e \<le> event_mark d r" if "e \<in> set (record_events d r)" for e
    using that max_id_ge [of "map ce_id (record_events d r)" _ "ce_id e"]
    by (cases "max_id (map ce_id (record_events d r))") (auto simp: event_mark_def mark_of_def)
  then show ?thesis
    by (force simp: events_after_def filter_empty_conv)
qed

lemma status_after_amendment:
  assumes ok: "tables_ok d" and l: "latest_version d r = Some v" and n: "amendment_of d (v_id v) = None"
    and t: "versions d' = versions d" "contributor_events d' = contributor_events d"
      "decisions d' = decisions d"
    and am: "amendments d' = amendments d @ [new_amendment d r (v_id v) s a nm tm]"
  shows "status_of d' q = (if q = r then StDraft else status_of d q)"
proof -
  have lv: "latest_version d' = latest_version d"
    by (simp add: latest_version_def record_versions_def t(1) fun_eq_iff)
  have ss: "status_since d' = status_since d"
    by (simp add: status_since_def fun_eq_iff events_after_def decisions_after_def record_events_def
        record_decisions_def t)
  show ?thesis
  proof (cases "q = r")
    case True
    have "amendment_of d' (v_id v) = Some (new_amendment d r (v_id v) s a nm tm)"
      using n by (simp add: amendment_of_def am find_snoc)
    then have "scope_marks d' r = Some (event_mark d r, decision_mark d r)"
      by (simp add: scope_marks_def lv l)
    with True show ?thesis
      by (simp add: status_of_marks ss status_since_def events_after_mark cycle_status_def)
  next
    case False
    have "amendment_of d' (v_id w) = amendment_of d (v_id w)" if w: "latest_version d q = Some w" for w
    proof -
      have "w \<in> set (versions d)" "v \<in> set (versions d)" "v_record_id w = q" "v_record_id v = r"
        using w l by (auto simp: latest_version_def record_versions_def dest!: latest_by_in)
      then have "v_id w \<noteq> v_id v"
        using False ids_ok_distinct [OF tables_okD(5) [OF ok]] by (metis (full_types) distinct_map inj_onD)
      then show ?thesis
        by (simp add: amendment_of_def am find_snoc split: option.split)
    qed
    then have "scope_marks d' q = scope_marks d q"
      by (simp add: scope_marks_def lv split: option.split)
    with False show ?thesis
      unfolding status_of_marks ss by simp
  qed
qed


section \<open>Reviewed content\<close>

lemma reviewed_cong:
  assumes "status_of d' q = status_of d q" "content d' q = content d q"
    "latest_submission d' q = latest_submission d q"
  shows "reviewed ser d' q = reviewed ser d q"
  using assms by (simp add: reviewed_def)

lemma latest_submission_cong:
  "snapshots d' = snapshots d \<Longrightarrow> latest_submission d' = latest_submission d"
  by (simp add: latest_submission_def record_snapshots_def fun_eq_iff)

text \<open>A snapshot for another record, or one taken for a change request, anchors no submission.\<close>

lemma latest_submission_other:
  "snapshots d' = snapshots d @ ss \<Longrightarrow>
    (\<forall>s \<in> set ss. ds_record_id s = q \<longrightarrow> ds_reason s \<noteq> Submission) \<Longrightarrow>
    latest_submission d' q = latest_submission d q"
proof -
  assume s: "snapshots d' = snapshots d @ ss" and o': "\<forall>s \<in> set ss. ds_record_id s = q \<longrightarrow> ds_reason s \<noteq> Submission"
  have "filter (\<lambda>s. ds_reason s = Submission) (filter (\<lambda>s. ds_record_id s = q) ss) = []"
    using o' by (auto simp: filter_empty_conv)
  then show ?thesis
    by (simp add: latest_submission_def record_snapshots_def s)
qed

lemma latest_submission_new:
  assumes s: "snapshots d' = snapshots d @ [x]" and x: "ds_id x = next_id (map ds_id (snapshots d))"
    "ds_record_id x = r" "ds_reason x = Submission"
  shows "latest_submission d' r = Some x"
proof -
  have "ds_id y \<le> ds_id x" if "y \<in> set (snapshots d)" for y
    using that next_id_gt [of "ds_id y" "map ds_id (snapshots d)"] by (simp add: x(1))
  then have "latest_by ds_id (filter P (snapshots d) @ [x]) = Some x" for P
    by (intro latest_by_snoc) auto
  then show ?thesis
    by (simp add: latest_submission_def record_snapshots_def s x)
qed

lemma reviewed_step:
  assumes "reviewed ser d q" and "status_of d' q = (if b then x else status_of d q)"
    and "x \<noteq> StSubmitted" "x \<noteq> StApproved"
    and "content d' = content d" "latest_submission d' = latest_submission d"
  shows "reviewed ser d' q"
  using assms by (auto simp: reviewed_def)

lemma change_reviewed:
  assumes ch: "change ser sha d r d'" and ok: "tables_ok d" and cs: "chains_ok sha d"
    and rv: "\<forall>q. reviewed ser d q"
  shows "reviewed ser d' q"
  using ch
proof cases
  case (created R a xs t)
  have c: "content d' = content d"
    by (rule copy_frame(4)) (simp_all add: created(2))
  have "status_of d' q = (if q = r \<and> status_of d r \<noteq> StFinalized then StDraft else status_of d q)"
    using status_after_event [OF tables_okD(8) [OF ok], of d' r Created a None t q]
    by (simp add: created(1,2))
  then show ?thesis
    by (rule reviewed_step [OF rv [rule_format] _ _ _ c latest_submission_cong]) (simp_all add: created(2))
next
  case (edited cur d1 es a t)
  note f = edit_frame_tables [OF edited(4)]
  have st: "status_of d' q \<noteq> StSubmitted \<and> status_of d' q \<noteq> StApproved" if "q = r"
  proof (cases "es = []")
    case True
    then have "status_of d' = status_of d"
      by (intro status_cong(1)) (simp_all add: edited(1) f)
    then show ?thesis using edited(2) that by auto
  next
    case False
    then have e: "es = [new_event d r Contributed a None t]" using edited(5) by simp
    have "status_of d' q = (if q = r \<and> status_of d r \<noteq> StFinalized then StDraft else status_of d q)"
      using status_after_event [OF tables_okD(8) [OF ok], of d' r Contributed a None t q]
      by (simp add: edited(1) e f)
    then show ?thesis using edited(2) that by (auto split: if_splits)
  qed
  have other: "status_of d' q = status_of d q" if "q \<noteq> r"
  proof (cases "es = []")
    case True
    then have "status_of d' = status_of d"
      by (intro status_cong(1)) (simp_all add: edited(1) f)
    then show ?thesis by simp
  next
    case False
    then have e: "es = [new_event d r Contributed a None t]" using edited(5) by simp
    then show ?thesis
      using status_after_event [OF tables_okD(8) [OF ok], of d' r Contributed a None t q] that
      by (simp add: edited(1) f)
  qed
  have c: "content d' = content d1"
    by (rule copy_frame(4)) (simp_all add: edited(1))
  show ?thesis
  proof (cases "q = r")
    case True
    with st show ?thesis by (auto simp: reviewed_def)
  next
    case False
    have "latest_submission d' = latest_submission d"
      by (rule latest_submission_cong) (simp add: edited(1) f)
    with False show ?thesis
      using rv reviewed_cong [of d' q d ser] other f(12) by (simp add: c)
  qed
next
  case (transferred to a t)
  have c: "content d' = content d"
    by (rule copy_frame(4)) (simp_all add: transferred(1))
  have "status_of d' q = (if q = r \<and> status_of d r \<noteq> StFinalized then StDraft else status_of d q)"
    using status_after_event [OF tables_okD(8) [OF ok], of d' r OwnershipTransferred a "Some to" t q]
    by (simp add: transferred(1))
  then show ?thesis
    by (rule reviewed_step [OF rv [rule_format] _ _ _ c latest_submission_cong]) (simp_all add: transferred(1))
next
  case (submitted json a t)
  have c: "content d' = content d"
    by (rule copy_frame(4)) (simp_all add: submitted(1))
  have st: "status_of d' q = (if q = r \<and> status_of d r \<noteq> StFinalized then StSubmitted else status_of d q)"
    using status_after_event [OF tables_okD(8) [OF ok], of d' r SubmittedForReview a None t q]
    by (simp add: submitted(1))
  show ?thesis
  proof (cases "q = r")
    case True
    have "latest_submission d' r = Some \<lparr>ds_id = next_id (map ds_id (snapshots d)), ds_record_id = r,
         ds_reason = Submission, ds_content = json, ds_taken_at = t, ds_taken_by = Some a\<rparr>"
      by (rule latest_submission_new [where d = d]) (simp_all add: submitted(1))
    with True submitted(4) show ?thesis
      unfolding reviewed_def c by simp
  next
    case False
    then have ls: "latest_submission d' q = latest_submission d q"
      by (intro latest_submission_other [where ss = "drop (length (snapshots d)) (snapshots d')"])
        (simp_all add: submitted(1))
    with False st have "reviewed ser d' q = reviewed ser d q"
      by (intro reviewed_cong) (simp_all add: c)
    with rv show ?thesis by simp
  qed
next
  case (decided a ss k json t c)
  have co: "content d' = content d"
    by (rule copy_frame(4)) (simp_all add: decided(1))
  have st: "status_of d' q = (if q = r \<and> status_of d r \<noteq> StFinalized then decision_status (Some k) else status_of d q)"
    using status_after_decision [OF tables_okD(8) [OF ok], of d' r a k c t a None t q]
    by (simp add: decided(1))
  have ls: "latest_submission d' q = latest_submission d q"
    by (intro latest_submission_other [where ss = ss]) (simp_all add: decided(1,5))
  have "status_of d' q = StSubmitted \<or> status_of d' q = StApproved \<Longrightarrow>
      status_of d q = StSubmitted \<or> status_of d q = StApproved"
    using st decided(2) by (auto split: if_splits)
  with rv show ?thesis
    unfolding reviewed_def co ls by blast
next
  case (sealed n p bytes chain t a)
  have c: "content d' = content d"
    by (rule copy_frame(4)) (simp_all add: sealed(1))
  have "status_of d' q = (if q = r then StFinalized else status_of d q)"
    by (rule status_after_seal [OF ok cs sealed(3)]) (simp_all add: sealed(1))
  then show ?thesis
    by (rule reviewed_step [OF rv [rule_format] _ _ _ c latest_submission_cong]) (simp_all add: sealed(1))
next
  case (amended v s a nm t)
  have c: "content d' = content d"
    by (rule copy_frame(4)) (simp_all add: amended(1))
  have "status_of d' q = (if q = r then StDraft else status_of d q)"
    by (rule status_after_amendment [OF ok amended(2,3)]) (simp_all add: amended(1))
  then show ?thesis
    by (rule reviewed_step [OF rv [rule_format] _ _ _ c latest_submission_cong]) (simp_all add: amended(1))
next
  case (acked v u A)
  have "content d' = content d"
    by (rule copy_frame(4)) (simp_all add: acked(1))
  moreover have "status_of d' = status_of d"
    by (rule status_cong(1)) (simp_all add: acked(1))
  moreover have "latest_submission d' = latest_submission d"
    by (rule latest_submission_cong) (simp add: acked(1))
  ultimately have "reviewed ser d' q = reviewed ser d q"
    by (intro reviewed_cong) (simp_all only:)
  then show ?thesis using rv by blast
qed

end
