(* ===== verification/Custody.thy ===== *)
theory Custody
  imports Records
begin

text \<open>
  What a change keeps about people and about frozen copies: the owner column follows the
  stream, an acknowledgment stays bound to the trainee its version was sealed for, one per
  version, and nothing reaches the working copy of a record that is not open.
\<close>

section \<open>Ownership\<close>

lemma stream_owner_append:
  assumes "contributor_events d' = contributor_events d @ es"
    and "\<forall>e \<in> set es. ce_kind e \<noteq> Created \<and> ce_kind e \<noteq> OwnershipTransferred"
  shows "stream_owner d' = stream_owner d"
proof
  fix r
  have "filter (\<lambda>e. ce_kind e = OwnershipTransferred) (filter (\<lambda>e. ce_record_id e = r) es) = []"
    using assms(2) by (auto simp: filter_empty_conv)
  moreover have "find (\<lambda>e. ce_kind e = Created) (xs @ filter (\<lambda>e. ce_record_id e = r) es) =
      find (\<lambda>e. ce_kind e = Created) xs" for xs
    using assms(2) by (induction xs) (auto simp: find_None_iff)
  ultimately show "stream_owner d' r = stream_owner d r"
    by (simp add: stream_owner_def record_events_def assms(1) cong: option.case_cong)
qed

lemma stream_owner_transfer:
  assumes "contributor_events d' = contributor_events d @ [new_event d r OwnershipTransferred a (Some to) t]"
  shows "stream_owner d' q = (if q = r then Some to else stream_owner d q)"
proof (cases "q = r")
  case True
  let ?e = "new_event d r OwnershipTransferred a (Some to) t"
  have "ce_id e \<le> ce_id ?e" if "e \<in> set (contributor_events d)" for e
    using that next_id_gt [of "ce_id e" "map ce_id (contributor_events d)"] by simp
  then have "latest_by ce_id (filter P (filter Q (contributor_events d)) @ [?e]) = Some ?e" for P Q
    by (intro latest_by_snoc) auto
  with True show ?thesis
    by (simp add: stream_owner_def record_events_def assms)
qed (simp add: stream_owner_def record_events_def assms cong: option.case_cong)

lemma stream_owner_created:
  assumes "contributor_events d' = contributor_events d @ [new_event d r Created a None t]"
    and "record_events d r = []"
  shows "stream_owner d' q = (if q = r then Some a else stream_owner d q)"
proof (cases "q = r")
  case True
  have "filter (\<lambda>x. ce_record_id x = r \<and> ce_kind x = OwnershipTransferred) (contributor_events d) = []"
    "filter (\<lambda>x. ce_record_id x = r) (contributor_events d) = []"
    using assms(2) by (auto simp: record_events_def filter_empty_conv)
  with True show ?thesis
    by (simp add: stream_owner_def record_events_def assms(1))
qed (simp add: stream_owner_def record_events_def assms(1) cong: option.case_cong)

lemma ownership_same:
  assumes "ownership_ok d" and "stream_owner d' = stream_owner d"
    and "\<forall>x \<in> set (records d'). \<exists>y \<in> set (records d). r_id y = r_id x \<and> r_owner y = r_owner x"
  shows "ownership_ok d'"
  using assms unfolding ownership_ok_def by metis

lemma revised_rows:
  "\<forall>x \<in> set (records (set_revision r n d)). \<exists>y \<in> set (records d). r_id y = r_id x \<and> r_owner y = r_owner x"
  by (auto simp: set_revision_def map_record_def)

lemma change_ownership:
  assumes ch: "change ser sha d r d'" and ok: "tables_ok d" and ow: "ownership_ok d"
  shows "ownership_ok d'"
  using ch
proof cases
  case (created R a xs t)
  have old: "\<forall>x \<in> set (records d). r_id x < r"
    using next_id_gt [of _ "map r_id (records d)"] created(1,3) by auto
  have "record_events d r = []"
    using tables_okD(10) [OF ok] old by (fastforce simp: record_events_def filter_empty_conv)
  then have "stream_owner d' q = (if q = r then Some a else stream_owner d q)" for q
    by (intro stream_owner_created) (simp_all add: created(1,2))
  then show ?thesis
    using ow old created(1,4) by (auto simp: ownership_ok_def created(2))
next
  case (edited cur d1 es a t)
  note f = edit_frame_tables [OF edited(4)]
  have "stream_owner d' = stream_owner d"
    by (rule stream_owner_append [of _ _ es]) (use edited(5) in \<open>auto simp: edited(1)\<close>)
  then show ?thesis
    using ownership_same [OF ow] revised_rows [of r "r_revision cur + 1" d1] f(1)
    by (simp add: edited(1))
next
  case (transferred to a t)
  have "stream_owner d' q = (if q = r then Some to else stream_owner d q)" for q
    by (rule stream_owner_transfer) (simp add: transferred(1))
  then show ?thesis
    using ow by (auto simp: ownership_ok_def transferred(1) map_record_def)
next
  case (submitted json a t)
  have "stream_owner d' = stream_owner d"
    by (rule stream_owner_append [of _ _ "[new_event d r SubmittedForReview a None t]"])
      (simp_all add: submitted(1))
  then show ?thesis
    by (rule ownership_same [OF ow]) (auto simp: submitted(1))
next
  case (decided a ss k json t c)
  have "stream_owner d' = stream_owner d"
    by (rule stream_owner_append [of _ _ "[new_event d r ReviewDecided a None t]"])
      (simp_all add: decided(1))
  then show ?thesis
    by (rule ownership_same [OF ow]) (auto simp: decided(1))
next
  case (sealed n p bytes chain t a)
  have "stream_owner d' = stream_owner d"
    by (rule stream_owner_append [of _ _ "[]"]) (simp_all add: sealed(1))
  then show ?thesis
    by (rule ownership_same [OF ow]) (auto simp: sealed(1))
next
  case (amended v s a nm t)
  have "stream_owner d' = stream_owner d"
    by (rule stream_owner_append [of _ _ "[]"]) (simp_all add: amended(1))
  then show ?thesis
    by (rule ownership_same [OF ow]) (auto simp: amended(1) map_record_def)
next
  case (acked v u A)
  have "stream_owner d' = stream_owner d"
    by (rule stream_owner_append [of _ _ "[]"]) (simp_all add: acked(1))
  then show ?thesis
    by (rule ownership_same [OF ow]) (auto simp: acked(1))
qed


section \<open>Acknowledgments\<close>

text \<open>
  The people a record belongs to: an enrollment's user never changes, so neither does the
  trainee of a record or of a version once they exist.
\<close>

definition people :: "db \<Rightarrow> (int \<times> int) list" where
  "people d = map (\<lambda>e. (e_id e, e_user_id e)) (enrollments d)"

definition owners_of :: "db \<Rightarrow> (int \<times> int) list" where
  "owners_of d = map (\<lambda>r. (r_id r, r_enrollment_id r)) (records d)"

lemma find_pair: "map_option g (find (\<lambda>x. f x = i) xs) = map_of (map (\<lambda>x. (f x, g x)) xs) i"
  by (induction xs) auto

lemma prefix_map_of: "prefix xs ys \<Longrightarrow> map_of xs i = Some y \<Longrightarrow> map_of ys i = Some y"
proof -
  assume "prefix xs ys" and m: "map_of xs i = Some y"
  then obtain zs where "ys = xs @ zs" by (auto simp: prefix_def)
  with m show ?thesis by (simp add: map_add_Some_iff)
qed

lemma trainee_of_record_map:
  "trainee_of_record d r = Option.bind (map_of (owners_of d) r) (map_of (people d))"
proof -
  have "map_option e_user_id (enrollment_of d e) = map_of (people d) e" for e
    unfolding enrollment_of_def people_def by (rule find_pair)
  moreover have "map_option r_enrollment_id (record_of d r) = map_of (owners_of d) r"
    unfolding record_of_def owners_of_def by (rule find_pair)
  moreover have "trainee_of_record d r = Option.bind (map_option r_enrollment_id (record_of d r))
      (\<lambda>e. map_option e_user_id (enrollment_of d e))"
    by (cases "record_of d r") (simp_all add: trainee_of_record_def)
  ultimately show ?thesis by simp
qed

lemma trainee_of_version_map:
  "trainee_of_version d v =
    Option.bind (map_of (map (\<lambda>x. (v_id x, v_record_id x)) (versions d)) v) (trainee_of_record d)"
proof -
  have "map_option v_record_id (sealed_version_of d v) =
      map_of (map (\<lambda>x. (v_id x, v_record_id x)) (versions d)) v"
    unfolding sealed_version_of_def by (rule find_pair)
  moreover have "trainee_of_version d v =
      Option.bind (map_option v_record_id (sealed_version_of d v)) (trainee_of_record d)"
    by (cases "sealed_version_of d v") (simp_all add: trainee_of_version_def)
  ultimately show ?thesis by simp
qed

lemma trainee_grows:
  assumes "prefix (people d) (people d')" "prefix (owners_of d) (owners_of d')"
    and "prefix (versions d) (versions d')" and "trainee_of_version d v = Some u"
  shows "trainee_of_version d' v = Some u"
proof -
  have vs: "prefix (map (\<lambda>x. (v_id x, v_record_id x)) (versions d))
      (map (\<lambda>x. (v_id x, v_record_id x)) (versions d'))"
    using assms(3) by (rule map_mono_prefix)
  show ?thesis
    using assms(4) prefix_map_of [OF vs] prefix_map_of [OF assms(2)] prefix_map_of [OF assms(1)]
    by (auto simp: trainee_of_version_map trainee_of_record_map bind_eq_Some_conv)
qed

lemma acks_frame:
  assumes "acks_ok d" "acks d' = acks d"
    and "prefix (people d) (people d')" "prefix (owners_of d) (owners_of d')"
    and "prefix (versions d) (versions d')"
  shows "acks_ok d'"
  using assms(1,2) trainee_grows [OF assms(3-5)] by (simp add: acks_ok_def)

lemma owners_of_revised: "owners_of (set_revision r n d) = owners_of d"
  by (simp add: owners_of_def set_revision_def map_record_def)

lemma change_owners:
  assumes "change ser sha d r d'"
  shows "prefix (owners_of d) (owners_of d')"
  using assms
proof cases
  case (edited cur d1 es a t)
  have "owners_of d' = owners_of (set_revision r (r_revision cur + 1) d1)"
    by (simp add: owners_of_def edited(1))
  then show ?thesis
    using edit_frame_tables(1) [OF edited(4)] by (simp add: owners_of_revised) (simp add: owners_of_def)
qed (simp_all add: owners_of_def map_record_def comp_def if_distrib cong: if_cong)

lemma change_acks:
  assumes ch: "change ser sha d r d'" and ok: "tables_ok d" and ak: "acks_ok d"
  shows "acks_ok d'"
proof -
  note app = change_appends [OF ch]
  have fr: "prefix (people d) (people d')" "prefix (owners_of d) (owners_of d')"
    using app(8) change_owners [OF ch] by (simp_all add: people_def)
  have same: "acks d' = acks d \<Longrightarrow> acks_ok d'"
    by (rule acks_frame [OF ak _ fr app(4)])
  from ch show ?thesis
  proof cases
    case (acked v u A)
    have "trainee_of_version d (v_id v) = Some u"
    proof -
      have "v_record_id v = r"
        using acked(2) by (auto simp: latest_version_def record_versions_def dest: latest_by_in)
      then show ?thesis
        using latest_version_sealed [OF tables_okD(5) [OF ok] acked(2)] acked(3)
        by (simp add: trainee_of_version_def)
    qed
    moreover have "trainee_of_version d' = trainee_of_version d"
      by (simp add: fun_eq_iff trainee_of_version_def sealed_version_of_def trainee_of_record_def
          record_of_def enrollment_of_def acked(1))
    moreover have "(v_id v, u) \<notin> (\<lambda>a. (ak_version_id a, ak_user_id a)) ` set (acks d)"
      using acked(4) by (auto simp: already_acknowledged_def list_ex_iff)
    ultimately show ?thesis
      using ak acked(5-7) by (auto simp: acks_ok_def acked(1))
  next
    case (edited cur d1 es a t)
    show ?thesis
      by (rule same) (simp add: edited(1) edit_frame_tables(8) [OF edited(4)])
  qed (rule same, simp)+
qed


section \<open>Frozen copies\<close>

text \<open>The working copy of a record: what it says, what it is linked to and what it covers.\<close>

definition copy_of :: "db \<Rightarrow> int \<Rightarrow> draft_content \<times> int list \<times> int list" where
  "copy_of d r = (content d r, map sl_version_id (record_links d r), covered_sessions d r)"

lemma copy_of_frame:
  assumes "draft_ratings d' = draft_ratings d" "draft_modifiers d' = draft_modifiers d"
    "draft_narratives d' = draft_narratives d" "daily_links d' = daily_links d"
    "record_sessions d' = record_sessions d"
  shows "copy_of d' = copy_of d"
  using copy_frame(4) [OF assms(1-3)] assms(4,5)
  by (simp add: copy_of_def record_links_def covered_sessions_def fun_eq_iff)

lemma change_frozen_copy:
  assumes ch: "change ser sha d r d'" and q: "record_of d q \<noteq> None"
    and fz: "frozen_refusal (status_of d q) \<noteq> None \<or> q \<noteq> r"
  shows "copy_of d' q = copy_of d q"
  using ch
proof cases
  case (created R a xs t)
  have "r \<noteq> q"
    using q record_of_ids [of d q] next_id_fresh [of "map r_id (records d)"] created(1,3) by auto
  then have "covered_sessions d' q = covered_sessions d q"
    using created(1,5) by (auto simp: covered_sessions_def created(2))
  moreover have "content d' = content d" "record_links d' = record_links d"
    using copy_frame(4) [of d' d] by (simp_all add: created(2) record_links_def fun_eq_iff)
  ultimately show ?thesis by (simp add: copy_of_def)
next
  case (edited cur d1 es a t)
  note f = edit_frame_tables [OF edited(4)]
  from fz edited(2) have n: "q \<noteq> r" by auto
  have "copy_of d' = copy_of d1"
    by (rule copy_of_frame) (simp_all add: edited(1))
  then show ?thesis
    using f(12) [OF n] f(13) [OF n] f(2) by (simp add: copy_of_def covered_sessions_def)
qed (use copy_of_frame [of d' d] in simp)+

end
