(* ===== verification/System.thy ===== *)
theory System
  imports Custody
begin

text \<open>
  The services together, as one step relation on the database: each step is one committed call
  of a modelled service, under any clock and with any earlier database read by the checks
  before its transaction, or a write of some other part of the program. The invariant of
  records and of enrollment streams holds in every database such steps reach.
\<close>

section \<open>Steps\<close>

datatype call =
    Create int int "int option"
  | CreateSummary int int "int option"
  | Save int int int draft_content
  | EditLinks bool int int int int
  | Transfer int int int
  | Submit int int int
  | Decide int int review_decision_kind "string option"
  | Finalize int int int
  | OpenAmendment int int string
  | Acknowledge int int trainee_ack_kind string
  | Attest int int attested_kind string
  | Lifecycle lifecycle_call
  | Enroll int int int
  | CreateAssignment int int int
  | EndAssignment int int
  | Elsewhere

text \<open>
  What the rest of the program may do: anything but write the tables of evaluation records and
  of the enrollment streams, which no other module writes, or remove a phase an event of those
  streams references, which the foreign key refuses.
\<close>

definition elsewhere :: "db \<Rightarrow> db \<Rightarrow> bool" where
  "elsewhere d d' \<longleftrightarrow>
     same_records d d' \<and> enrollments d' = enrollments d \<and>
     enrollment_events d' = enrollment_events d \<and> phase_events d' = phase_events d \<and>
     (\<forall>p \<in> set (phase_events d). joined_phase d (pe_to_phase p) \<noteq> None \<longrightarrow>
        joined_phase d' (pe_to_phase p) \<noteq> None)"

inductive service ::
    "(draft_content \<Rightarrow> string option) \<Rightarrow> (json \<Rightarrow> string option) \<Rightarrow> (string \<Rightarrow> string)
      \<Rightarrow> db \<Rightarrow> call \<Rightarrow> db \<Rightarrow> bool"
  for ser :: "draft_content \<Rightarrow> string option" and to_vec :: "json \<Rightarrow> string option"
    and sha :: "string \<Rightarrow> string" where
  create: "create pre clk d a s f = Inr (d', i) \<Longrightarrow> service ser to_vec sha d (Create a s f) d'"
| create_summary: "create_summary pre clk d a e f = Inr (d', i) \<Longrightarrow>
    service ser to_vec sha d (CreateSummary a e f) d'"
| save: "save pre clk d a r rv input = Inr (d', n) \<Longrightarrow> service ser to_vec sha d (Save a r rv input) d'"
| edit_links: "edit_links add pre clk d a r v rv = Inr (d', n) \<Longrightarrow>
    service ser to_vec sha d (EditLinks add a r v rv) d'"
| transfer: "transfer pre clk d a r to = Inr d' \<Longrightarrow> service ser to_vec sha d (Transfer a r to) d'"
| submit: "submit ser pre clk d a r rv = Inr d' \<Longrightarrow> service ser to_vec sha d (Submit a r rv) d'"
| decide: "decide ser pre clk d a r k c = Inr d' \<Longrightarrow> service ser to_vec sha d (Decide a r k c) d'"
| finalize: "finalize to_vec sha pre clk d a r rv = Inr (d', m) \<Longrightarrow>
    service ser to_vec sha d (Finalize a r rv) d'"
| open_amendment: "open_amendment_on pre clk d a r reason = Inr d' \<Longrightarrow>
    service ser to_vec sha d (OpenAmendment a r reason) d'"
| acknowledge: "acknowledge pre clk d a r k response = Inr d' \<Longrightarrow>
    service ser to_vec sha d (Acknowledge a r k response) d'"
| attest: "attest pre clk d a r k' reason = Inr d' \<Longrightarrow>
    service ser to_vec sha d (Attest a r k' reason) d'"
| lifecycle: "lifecycle_step d l d' \<Longrightarrow> service ser to_vec sha d (Lifecycle l) d'"
| enroll: "enroll pre clk d a v u = Inr (d', i) \<Longrightarrow>
    service ser to_vec sha d (Enroll a v u) d'"
| create_assignment: "create_assignment pre clk d a e t = Inr (d', i) \<Longrightarrow>
    service ser to_vec sha d (CreateAssignment a e t) d'"
| end_assignment: "end_assignment pre clk d a i = Inr d' \<Longrightarrow>
    service ser to_vec sha d (EndAssignment a i) d'"
| elsewhere: "elsewhere d d' \<Longrightarrow> service ser to_vec sha d Elsewhere d'"

inductive_cases service_FinalizeE: "service ser to_vec sha d (Finalize a r rv) d'"

text \<open>Four ways a step touches the invariant's tables.\<close>

definition enrolled :: "db \<Rightarrow> db \<Rightarrow> bool" where
  "enrolled d d' \<longleftrightarrow>
     (\<exists>e gs. e_id e = next_id (map e_id (enrollments d)) \<and>
       journaled (d\<lparr>enrollments := enrollments d @ [e], grants := grants d @ gs\<rparr>) d')"

lemma elsewhere_journaled:
  assumes "journaled d d'" shows "elsewhere d d'"
  unfolding elsewhere_def joined_phase_catalog [OF journaled_tables(3) [OF assms]]
  by (simp add: same_records_journaled [OF assms] journaled_tables [OF assms])

lemma elsewhere_assignments:
  assumes "journaled (d\<lparr>assignments := as\<rparr>) d'" shows "elsewhere d d'"
proof -
  have "elsewhere (d\<lparr>assignments := as\<rparr>) d'" by (rule elsewhere_journaled [OF assms])
  moreover have "joined_phase (d\<lparr>assignments := as\<rparr>) = joined_phase d"
    by (rule joined_phase_catalog) simp
  ultimately show ?thesis by (simp add: elsewhere_def same_records_def)
qed

lemma grant_missing_frame:
  "grant_missing u cs b now d = Inr d' \<Longrightarrow> \<exists>gs. d' = d\<lparr>grants := grants d @ gs\<rparr>"
proof (induction cs arbitrary: d)
  case Nil
  then show ?case by (intro exI [of _ "[]"]) simp
next
  case (Cons c cs)
  show ?case
  proof (cases "user_has d u c")
    case True
    with Cons show ?thesis by (simp add: seq_def)
  next
    case False
    with Cons.prems obtain g where "grant_missing u cs b now (d\<lparr>grants := grants d @ [g]\<rparr>) = Inr d'"
      by (auto simp: seq_def row_simps split: sum.splits)
    from Cons.IH [OF this] show ?thesis by auto
  qed
qed

lemma enroll_enrolled:
  assumes "enroll pre clk d a v u = Inr (d', i)"
  shows "enrolled d d'"
proof -
  let ?e = "new_enrollment d u v (clk 0) a"
  from assms obtain d1 d2 where d1: "insert_enrollment ?e d = Inr d1"
    and d2: "grant_missing u trainee_bundle (Some a) (clk 0) d1 = Inr d2"
    and d3: "record_for_subject EvEnrollmentCreated (Some a) (Some u)
        (SubjEnrollment (e_id ?e)) (clk 1) d2 = Inr d'"
    by (auto simp: enroll_def guard_simps Let_def)
  obtain gs where gs: "d2 = d1\<lparr>grants := grants d1 @ gs\<rparr>"
    using grant_missing_frame [OF d2] by blast
  have "d1 = d\<lparr>enrollments := enrollments d @ [?e]\<rparr>"
    using d1 by (simp add: insert_enrollment_def guard_simps)
  with gs have "d2 = d\<lparr>enrollments := enrollments d @ [?e], grants := grants d @ gs\<rparr>"
    by simp
  then show ?thesis
    unfolding enrolled_def
    using journaled_record_for_subject [OF d3] by (intro exI [of _ ?e] exI [of _ gs]) simp
qed

text \<open>The record a call writes, and how; the two creations write a record that was not there.\<close>

fun call_write :: "call \<Rightarrow> (int \<times> write_kind) option" where
  "call_write (Save a r rv input) = Some (r, WEdit)"
| "call_write (EditLinks add a r v rv) = Some (r, WEdit)"
| "call_write (Transfer a r to) = Some (r, WTransfer)"
| "call_write (Submit a r rv) = Some (r, WSubmit)"
| "call_write (Decide a r k c) = Some (r, WDecide k)"
| "call_write (Finalize a r rv) = Some (r, WSeal)"
| "call_write (OpenAmendment a r reason) = Some (r, WAmend)"
| "call_write (Acknowledge a r k response) = Some (r, WAck)"
| "call_write (Attest a r k reason) = Some (r, WAck)"
| "call_write _ = None"

definition writes_as ::
    "(draft_content \<Rightarrow> string option) \<Rightarrow> (string \<Rightarrow> string) \<Rightarrow> db \<Rightarrow> call \<Rightarrow> db \<Rightarrow> bool" where
  "writes_as ser sha d l d' \<longleftrightarrow>
     (\<exists>r w x. writes ser sha d r w x \<and> journaled x d' \<and>
        (call_write l = Some (r, w) \<or> call_write l = None \<and> w = WCreate))"

lemma service_kinds:
  assumes "service ser to_vec sha d l d'"
    and "copy_ok d" and "ids_ok (map v_id (versions d))"
  shows "writes_as ser sha d l d' \<or> call_write l = None \<and>
    ((\<exists>m. l = Lifecycle m \<and> lifecycle_step d m d') \<or> enrolled d d' \<or> elsewhere d d')"
  using assms(1)
proof cases
  case (create pre clk a s f i)
  from create_change [OF create(2)] obtain x where "writes ser sha d i WCreate x" "journaled x d'" by blast
  moreover have "call_write l = None" by (simp add: create(1))
  ultimately show ?thesis unfolding writes_as_def by blast
next
  case (create_summary pre clk a e f i)
  from create_summary_change [OF create_summary(2)] obtain x
    where "writes ser sha d i WCreate x" "journaled x d'" by blast
  moreover have "call_write l = None" by (simp add: create_summary(1))
  ultimately show ?thesis unfolding writes_as_def by blast
next
  case save
  from save_change [OF save(2) assms(2)] journaled_refl show ?thesis
    unfolding writes_as_def save(1) call_write.simps by blast
next
  case edit_links
  from edit_links_change [OF edit_links(2) assms(2)] journaled_refl show ?thesis
    unfolding writes_as_def edit_links(1) call_write.simps by blast
next
  case transfer
  from transfer_change [OF transfer(2)] show ?thesis
    unfolding writes_as_def transfer(1) call_write.simps by blast
next
  case submit
  from submit_change [OF submit(2)] show ?thesis
    unfolding writes_as_def submit(1) call_write.simps by blast
next
  case decide
  from decide_change [OF decide(2)] show ?thesis
    unfolding writes_as_def decide(1) call_write.simps by blast
next
  case finalize
  from finalize_change [OF finalize(2) assms(3)] show ?thesis
    unfolding writes_as_def finalize(1) call_write.simps by blast
next
  case open_amendment
  from open_amendment_change [OF open_amendment(2)] show ?thesis
    unfolding writes_as_def open_amendment(1) call_write.simps by blast
next
  case acknowledge
  from acknowledge_change [OF acknowledge(2)] show ?thesis
    unfolding writes_as_def acknowledge(1) call_write.simps by blast
next
  case attest
  from attest_change [OF attest(2)] show ?thesis
    unfolding writes_as_def attest(1) call_write.simps by blast
next
  case lifecycle
  then show ?thesis by simp
next
  case enroll
  from enroll_enrolled [OF enroll(2)] show ?thesis by (simp add: enroll(1))
next
  case create_assignment
  from create_assignment_effect [OF create_assignment(2)] elsewhere_assignments have "elsewhere d d'" by blast
  then show ?thesis by (simp add: create_assignment(1))
next
  case end_assignment
  from end_assignment_effect [OF end_assignment(2)] elsewhere_assignments have "elsewhere d d'" by blast
  then show ?thesis by (simp add: end_assignment(1))
next
  case elsewhere
  then show ?thesis by simp
qed

lemma service_changes:
  assumes "service ser to_vec sha d l d'"
    and "copy_ok d" and "ids_ok (map v_id (versions d))"
  shows "(\<exists>r x. change ser sha d r x \<and> journaled x d') \<or> (\<exists>m. lifecycle_step d m d') \<or>
    enrolled d d' \<or> elsewhere d d'"
  using service_kinds [OF assms] writes_change unfolding writes_as_def by blast

section \<open>The invariant\<close>

definition records_ok ::
    "(draft_content \<Rightarrow> string option) \<Rightarrow> (string \<Rightarrow> string) \<Rightarrow> db \<Rightarrow> bool" where
  "records_ok ser sha d \<longleftrightarrow>
     tables_ok d \<and> chains_ok sha d \<and> (\<forall>r. reviewed ser d r) \<and> ownership_ok d \<and> acks_ok d"

definition attached :: "db \<Rightarrow> bool" where
  "attached d \<longleftrightarrow> (\<forall>ev \<in> set (enrollment_events d). ee_enrollment_id ev \<in> e_id ` set (enrollments d))"

definition db_ok ::
    "(draft_content \<Rightarrow> string option) \<Rightarrow> (string \<Rightarrow> string) \<Rightarrow> db \<Rightarrow> bool" where
  "db_ok ser sha d \<longleftrightarrow> records_ok ser sha d \<and> streams_ok d \<and> attached d"

lemma change_records_ok:
  assumes ch: "change ser sha d r d'" and ok: "records_ok ser sha d"
  shows "records_ok ser sha d'"
proof -
  have t: "tables_ok d" "chains_ok sha d" "\<forall>r. reviewed ser d r" "ownership_ok d" "acks_ok d"
    using ok by (simp_all add: records_ok_def)
  show ?thesis
    unfolding records_ok_def
    using change_tables [OF ch t(1)] change_chains [OF ch t(1,2)] change_reviewed [OF ch t(1-3)]
      change_ownership [OF ch t(1,4)] change_acks [OF ch t(1,5)] by blast
qed

lemma change_lifecycle_tables:
  assumes "change ser sha d r d'"
  shows "enrollment_events d' = enrollment_events d" "phase_events d' = phase_events d"
  using assms by (cases, auto simp: edit_frame_def set_revision_def map_record_def)+

lemma same_records_streams:
  assumes "same_records d d'"
  shows "status_of d' = status_of d" "content d' = content d" "latest_submission d' = latest_submission d"
    "stream_owner d' = stream_owner d" "copy_ok d' = copy_ok d" "streams_sorted d' = streams_sorted d"
    "chains_ok sha d' = chains_ok sha d"
proof -
  show "status_of d' = status_of d"
    by (rule status_cong(1)) (use assms in \<open>simp_all add: same_records_def\<close>)
  show "content d' = content d"
    by (rule copy_frame(4)) (use assms in \<open>simp_all add: same_records_def\<close>)
  show "latest_submission d' = latest_submission d"
    by (rule latest_submission_cong) (use assms in \<open>simp add: same_records_def\<close>)
  show "stream_owner d' = stream_owner d"
    by (rule stream_owner_append [of _ _ "[]"]) (use assms in \<open>simp_all add: same_records_def\<close>)
  show "copy_ok d' = copy_ok d"
    by (rule copy_frame) (use assms in \<open>simp_all add: same_records_def\<close>)
  show "streams_sorted d' = streams_sorted d"
    using assms by (simp add: streams_sorted_def marks_ok_def same_records_def)
  show "chains_ok sha d' = chains_ok sha d"
    by (rule chains_ok_cong) (use assms in \<open>simp add: same_records_def\<close>)
qed

lemma same_records_ok:
  assumes s: "same_records d d'" and p: "prefix (people d) (people d')" and ok: "records_ok ser sha d"
  shows "records_ok ser sha d'"
proof -
  note c = same_records_streams [OF s]
  have t: "records d' = records d" "snapshots d' = snapshots d" "versions d' = versions d"
    "contributor_events d' = contributor_events d" "amendments d' = amendments d"
    "record_sessions d' = record_sessions d" "acks d' = acks d"
    using s by (simp_all add: same_records_def)
  have "tables_ok d'"
    using ok by (simp add: records_ok_def tables_ok_def t c)
  moreover have "reviewed ser d' = reviewed ser d"
    by (simp add: fun_eq_iff reviewed_def c)
  moreover have "ownership_ok d' = ownership_ok d"
    by (simp add: ownership_ok_def c t)
  moreover have "acks_ok d'"
    by (rule acks_frame [of d]) (use ok p in \<open>simp_all add: records_ok_def owners_of_def t\<close>)
  ultimately show ?thesis
    using ok c(7) by (simp add: records_ok_def)
qed

lemma people_cong: "enrollments d' = enrollments d \<Longrightarrow> people d' = people d"
  by (simp add: people_def)

lemma pin_follows_cong:
  assumes "enrollments d' = enrollments d" "enrollment_events d' = enrollment_events d"
  shows "pin_follows_stream d' = pin_follows_stream d"
proof -
  have "version_changes d' = version_changes d"
    by (simp add: version_changes_def fun_eq_iff assms(2))
  then show ?thesis
    by (simp add: pin_follows_stream_def assms(1))
qed

lemma elsewhere_ok:
  assumes e: "elsewhere d d'" and ok: "db_ok ser sha d"
  shows "db_ok ser sha d'"
proof -
  have t: "enrollments d' = enrollments d" "enrollment_events d' = enrollment_events d"
    "phase_events d' = phase_events d" "same_records d d'"
    and j: "\<forall>p \<in> set (phase_events d). joined_phase d (pe_to_phase p) \<noteq> None \<longrightarrow>
        joined_phase d' (pe_to_phase p) \<noteq> None"
    using e by (simp_all add: elsewhere_def)
  have "records_ok ser sha d'"
    using same_records_ok [OF t(4)] people_cong [OF t(1)] ok by (simp add: db_ok_def)
  moreover have "streams_ok d'"
    using ok j pin_follows_cong [OF t(1,2)] by (auto simp: db_ok_def streams_ok_def t(1-3))
  moreover have "attached d'"
    using ok by (simp add: db_ok_def attached_def t(1,2))
  ultimately show ?thesis by (simp add: db_ok_def)
qed

text \<open>A lifecycle call writes the streams and re-points pins; an enrollment adds a pin with no history.\<close>

lemma lifecycle_frame:
  assumes "lifecycle_step d l d'"
  shows "same_records d d'" "people d' = people d"
    "\<forall>ev \<in> set (enrollment_events d'). ev \<in> set (enrollment_events d) \<or>
       ee_enrollment_id ev \<in> e_id ` set (enrollments d)"
proof -
  from assms obtain x where x: "journaled x d'" "same_records d x" "people x = people d"
    "\<forall>ev \<in> set (enrollment_events x). ev \<in> set (enrollment_events d) \<or>
       ee_enrollment_id ev \<in> e_id ` set (enrollments d)"
  proof cases
    case (event pre clk actor i kind reason to eid)
    obtain e fv tv where e: "enrollment_of d i = Some e"
      and jn: "journaled (after_enrollment_event d
        (new_enrollment_event d (clk 0) actor i kind (trim reason) fv tv)) d'"
      using record_enrollment_event_effect [OF event(2)] by blast
    let ?ev = "new_enrollment_event d (clk 0) actor i kind (trim reason) fv tv"
    have "people (after_enrollment_event d ?ev) = people d"
      by (auto simp: people_def after_enrollment_event_def pinned_enrollments_def repinned_def
          split: option.split)
    moreover have "same_records d (after_enrollment_event d ?ev)"
      by (simp add: same_records_def after_enrollment_event_def)
    moreover have "\<forall>x \<in> set (enrollment_events (after_enrollment_event d ?ev)).
        x \<in> set (enrollment_events d) \<or> ee_enrollment_id x \<in> e_id ` set (enrollments d)"
      using enrollment_of_in [OF e] by (auto simp: after_enrollment_event_def new_enrollment_event_def)
    ultimately show thesis
      using jn that by blast
  next
    case phase
    from record_phase_event_effect [OF phase(2)] obtain p where
      j: "journaled (after_phase_event d p) d'" by blast
    then show thesis
      by (rule that) (simp_all add: same_records_def after_phase_event_def people_def)
  qed
  note j = journaled_tables [OF x(1)]
  show "same_records d d'"
    using x(2) same_records_journaled [OF x(1)] by (simp add: same_records_def)
  show "people d' = people d"
    using x(3) people_cong [OF j(4)] by simp
  show "\<forall>ev \<in> set (enrollment_events d'). ev \<in> set (enrollment_events d) \<or>
       ee_enrollment_id ev \<in> e_id ` set (enrollments d)"
    using x(4) by (simp add: j(5))
qed

lemma people_ids: "people d' = people d \<Longrightarrow> e_id ` set (enrollments d') = e_id ` set (enrollments d)"
proof -
  have "map e_id (enrollments d) = map fst (people d)" for d
    by (simp add: people_def)
  then have "e_id ` set (enrollments d) = fst ` set (people d)" for d
    by (metis set_map)
  then show "people d' = people d \<Longrightarrow> ?thesis" by simp
qed

lemma lifecycle_ok:
  assumes "lifecycle_step d l d'" and "db_ok ser sha d"
  shows "db_ok ser sha d'"
proof -
  note f = lifecycle_frame [OF assms(1)]
  have "attached d'"
    using f(3) assms(2) people_ids [OF f(2)] by (auto simp: attached_def db_ok_def)
  then show ?thesis
    using assms(2) same_records_ok [OF f(1)] f(2) lifecycle_step_streams [OF _ assms(1)]
    by (simp add: db_ok_def)
qed

lemma enrolled_ok:
  assumes "enrolled d d'" and ok: "db_ok ser sha d"
  shows "db_ok ser sha d'"
proof -
  from assms(1) obtain e gs where i: "e_id e = next_id (map e_id (enrollments d))"
    and j: "journaled (d\<lparr>enrollments := enrollments d @ [e], grants := grants d @ gs\<rparr>) d'"
    by (auto simp: enrolled_def)
  let ?d = "d\<lparr>enrollments := enrollments d @ [e], grants := grants d @ gs\<rparr>"
  have "records_ok ser sha ?d"
    by (rule same_records_ok [of d]) (use ok in \<open>simp_all add: db_ok_def same_records_def people_def\<close>)
  moreover have "streams_ok ?d"
  proof -
    have "version_changes d (e_id e) = []"
      using ok next_id_gt [of _ "map e_id (enrollments d)"]
      by (force simp: version_changes_def filter_empty_conv db_ok_def attached_def i)
    then have "version_changes ?d (e_id e) = []" and vc: "version_changes ?d = version_changes d"
      by (simp_all add: version_changes_def fun_eq_iff)
    then have "pin_follows_stream ?d"
      using ok by (auto simp: pin_follows_stream_def db_ok_def streams_ok_def vc)
    moreover have "joined_phase ?d = joined_phase d"
      by (rule joined_phase_catalog) simp
    ultimately show ?thesis
      using ok i by (simp add: streams_ok_def db_ok_def)
  qed
  moreover have "attached ?d"
    using ok by (auto simp: db_ok_def attached_def)
  ultimately have "db_ok ser sha ?d" by (simp add: db_ok_def)
  with elsewhere_ok [OF elsewhere_journaled [OF j]] show ?thesis .
qed

lemma change_ok:
  assumes ch: "change ser sha d r d'" and ok: "db_ok ser sha d"
  shows "db_ok ser sha d'"
proof -
  note t = change_lifecycle_tables [OF ch] change_appends(8,9) [OF ch]
  have "streams_ok d'"
    using streams_ok_cong [OF t] ok by (simp add: db_ok_def)
  then show ?thesis
    using change_records_ok [OF ch] ok t by (simp add: db_ok_def attached_def)
qed

theorem service_ok:
  assumes s: "service ser to_vec sha d l d'" and ok: "db_ok ser sha d"
  shows "db_ok ser sha d'"
proof -
  have "copy_ok d" "ids_ok (map v_id (versions d))"
    using ok tables_okD [of d] by (simp_all add: db_ok_def records_ok_def)
  from service_changes [OF s this] consider r x where "change ser sha d r x" "journaled x d'"
    | m where "lifecycle_step d m d'" | "enrolled d d'" | "elsewhere d d'" by blast
  then show ?thesis
    using change_ok [OF _ ok] elsewhere_ok elsewhere_journaled lifecycle_ok enrolled_ok ok
    by cases blast+
qed

section \<open>Reachable databases\<close>

interpretation sys: invariant_steps "service ser to_vec sha" "db_ok ser sha" for ser to_vec sha
  by unfold_locales (rule service_ok)

text \<open>A database no evaluation, acknowledgment or lifecycle event has been written to yet.\<close>

definition blank :: "db \<Rightarrow> bool" where
  "blank d \<longleftrightarrow>
     enrollments d = [] \<and> enrollment_events d = [] \<and> phase_events d = [] \<and> records d = [] \<and>
     record_sessions d = [] \<and> contributor_events d = [] \<and> decisions d = [] \<and> snapshots d = [] \<and>
     draft_ratings d = [] \<and> draft_modifiers d = [] \<and> draft_narratives d = [] \<and> versions d = [] \<and>
     amendments d = [] \<and> acks d = [] \<and> daily_links d = []"

definition reachable ::
    "(draft_content \<Rightarrow> string option) \<Rightarrow> (json \<Rightarrow> string option) \<Rightarrow> (string \<Rightarrow> string) \<Rightarrow> db \<Rightarrow> bool" where
  "reachable ser to_vec sha d \<longleftrightarrow> (\<exists>d0 ls. blank d0 \<and> run_path (service ser to_vec sha) d0 ls d)"

lemma blank_ok: "blank d \<Longrightarrow> db_ok ser sha d"
proof -
  assume b: "blank d"
  have "copy_ok d"
    using b by (simp add: blank_def copy_ok_def)
  moreover have "status_of d r = StDraft" for r
    using b by (simp add: blank_def status_of_def record_versions_def status_since_def events_after_def
        record_events_def cycle_status_def)
  ultimately show ?thesis
    using b by (simp add: blank_def db_ok_def records_ok_def tables_ok_def streams_sorted_def marks_ok_def
        chains_ok_def chained_def record_versions_def reviewed_def ownership_ok_def acks_ok_def
        streams_ok_def per_enrollment_order_def pin_follows_stream_def attached_def)
qed

theorem reachable_ok: "reachable ser to_vec sha d \<Longrightarrow> db_ok ser sha d"
  unfolding reachable_def using sys.inv_path blank_ok by blast

text \<open>No service takes a row out of a history.\<close>

definition grows :: "db \<Rightarrow> db \<Rightarrow> bool" where
  "grows d d' \<longleftrightarrow>
     prefix (contributor_events d) (contributor_events d') \<and> prefix (decisions d) (decisions d') \<and>
     prefix (snapshots d) (snapshots d') \<and> prefix (versions d) (versions d') \<and>
     prefix (amendments d) (amendments d') \<and> prefix (acks d) (acks d') \<and>
     prefix (record_sessions d) (record_sessions d') \<and>
     prefix (enrollment_events d) (enrollment_events d') \<and> prefix (phase_events d) (phase_events d')"

lemma grows_trans: "grows a b \<Longrightarrow> grows b c \<Longrightarrow> grows a c"
  unfolding grows_def by (elim conjE, intro conjI) (erule (1) prefix_order.trans)+

lemma grows_elsewhere: "elsewhere d d' \<Longrightarrow> grows d d'"
  by (simp add: elsewhere_def same_records_def grows_def)

lemma service_grows:
  assumes s: "service ser to_vec sha d l d'" and ok: "db_ok ser sha d"
  shows "grows d d'"
proof -
  have "copy_ok d" "ids_ok (map v_id (versions d))"
    using ok tables_okD [of d] by (simp_all add: db_ok_def records_ok_def)
  from service_changes [OF s this] consider
      (change) r x where "change ser sha d r x" "journaled x d'"
    | (life) m where "lifecycle_step d m d'" | (enr) "enrolled d d'" | (els) "elsewhere d d'" by blast
  then show ?thesis
  proof cases
    case change
    have "grows d x"
      using change_appends [OF change(1)] change_lifecycle_tables [OF change(1)] by (simp add: grows_def)
    then show ?thesis
      using grows_trans grows_elsewhere elsewhere_journaled [OF change(2)] by blast
  next
    case life
    show ?thesis
      using lifecycle_frame(1) [OF life] lifecycle_step_tables(2,3) [OF life]
      by (simp add: grows_def same_records_def)
  next
    case enr
    then obtain e gs where
      j: "journaled (d\<lparr>enrollments := enrollments d @ [e], grants := grants d @ gs\<rparr>) d'"
      by (auto simp: enrolled_def)
    have "grows d (d\<lparr>enrollments := enrollments d @ [e], grants := grants d @ gs\<rparr>)"
      by (simp add: grows_def)
    then show ?thesis
      using grows_trans grows_elsewhere elsewhere_journaled [OF j] by blast
  next
    case els
    then show ?thesis by (rule grows_elsewhere)
  qed
qed

lemma service_prefix:
  assumes "db_ok ser sha d" and "service ser to_vec sha d l d'"
  shows "prefix (contributor_events d) (contributor_events d')" "prefix (decisions d) (decisions d')"
    "prefix (snapshots d) (snapshots d')" "prefix (versions d) (versions d')"
    "prefix (amendments d) (amendments d')" "prefix (acks d) (acks d')"
  using service_grows [OF assms(2,1)] by (simp_all add: grows_def)

interpretation contributor_history: append_only "service ser to_vec sha" "db_ok ser sha" contributor_events
  for ser to_vec sha
  by unfold_locales (rule service_prefix(1))

interpretation decision_history: append_only "service ser to_vec sha" "db_ok ser sha" decisions
  for ser to_vec sha
  by unfold_locales (rule service_prefix(2))

interpretation snapshot_history: append_only "service ser to_vec sha" "db_ok ser sha" snapshots
  for ser to_vec sha
  by unfold_locales (rule service_prefix(3))

interpretation version_history: append_only "service ser to_vec sha" "db_ok ser sha" versions
  for ser to_vec sha
  by unfold_locales (rule service_prefix(4))

interpretation amendment_history: append_only "service ser to_vec sha" "db_ok ser sha" amendments
  for ser to_vec sha
  by unfold_locales (rule service_prefix(5))

interpretation ack_history: append_only "service ser to_vec sha" "db_ok ser sha" acks
  for ser to_vec sha
  by unfold_locales (rule service_prefix(6))

end
