(* ===== verification/Cycle.thy ===== *)
theory Cycle
  imports System
begin

text \<open>
  The workflow of one record as a machine on its status alone, and the refinement: every step
  of the services moves a record's derived status as the machine allows. What the machine
  says about orders of events (an approval is a submission and an approving decision with no
  write in between) then holds of every run of the services.
\<close>

section \<open>The machine\<close>

inductive cycle_step :: "draft_status \<Rightarrow> write_kind \<Rightarrow> draft_status \<Rightarrow> bool" where
  edit: "frozen_refusal s = None \<Longrightarrow> cycle_step s WEdit StDraft"
| transfer: "frozen_refusal s = None \<Longrightarrow> cycle_step s WTransfer StDraft"
| submit: "frozen_refusal s = None \<Longrightarrow> cycle_step s WSubmit StSubmitted"
| decide: "cycle_step StSubmitted (WDecide k) (decision_status (Some k))"
| seal: "s \<noteq> StFinalized \<Longrightarrow> cycle_step s WSeal StFinalized"
| amend: "cycle_step StFinalized WAmend StDraft"
| ack: "cycle_step s WAck s"

inductive_simps cycle_step_simps:
  "cycle_step s WEdit s'" "cycle_step s WTransfer s'" "cycle_step s WSubmit s'"
  "cycle_step s (WDecide k) s'" "cycle_step s WSeal s'" "cycle_step s WAmend s'" "cycle_step s WAck s'"
  "cycle_step s WCreate s'"

code_pred (modes: i \<Rightarrow> i \<Rightarrow> i \<Rightarrow> bool, i \<Rightarrow> i \<Rightarrow> o \<Rightarrow> bool) cycle_step .

text \<open>What a call does to the status of the record \<open>q\<close>.\<close>

definition cycle_moves :: "int \<Rightarrow> draft_status \<Rightarrow> call \<Rightarrow> draft_status \<Rightarrow> bool" where
  "cycle_moves q s l s' \<longleftrightarrow>
     (case call_write l of
        None \<Rightarrow> s' = s
      | Some (r, w) \<Rightarrow> if r = q then cycle_step s w s' else s' = s)"

section \<open>The services refine it\<close>

lemma event_mark_of_scope: "scope_marks d r = Some (m, n) \<Longrightarrow> event_mark_of d r = m"
  by (auto simp: scope_marks_def event_mark_of_def open_scope_def split: option.splits)

lemma coalesced_draft:
  assumes "coalesced d r" and "status_of d r \<noteq> StFinalized"
  shows "status_of d r = StDraft"
proof -
  obtain m n where s: "scope_marks d r = Some (m, n)"
    using assms(2) by (cases "scope_marks d r") (auto simp: status_finalized_iff)
  show ?thesis
    using assms(1) unfolding coalesced_def event_mark_of_scope [OF s] status_of_marks s
    by (auto simp: status_since_def cycle_status_def)
qed

lemma next_version_open: "next_version d r = Some p \<Longrightarrow> status_of d r \<noteq> StFinalized"
  by (auto simp: next_version_def status_finalized_iff scope_marks_def split: option.splits if_splits)

lemma amend_finalized:
  "latest_version d r = Some v \<Longrightarrow> amendment_of d (v_id v) = None \<Longrightarrow> status_of d r = StFinalized"
  by (simp add: status_finalized_iff scope_marks_def)

text \<open>A write moves its own record, and leaves the status of every other one.\<close>

lemma writes_cycle:
  assumes w: "writes ser sha d r w d'" and c: "w \<noteq> WCreate" and ok: "records_ok ser sha d"
  shows "status_of d' q = status_of d q \<and> q \<noteq> r \<or> q = r \<and> cycle_step (status_of d r) w (status_of d' r)"
proof -
  have tb: "tables_ok d" and cs: "chains_ok sha d"
    using ok by (simp_all add: records_ok_def)
  note so = tables_okD(8) [OF tb]
  from w c show ?thesis
  proof cases
    case (edited cur d1 es a t)
    note f = edit_frame_tables [OF edited(5)]
    show ?thesis
    proof (cases "es = []")
      case True
      then have "status_of d' = status_of d"
        by (intro status_cong(1)) (simp_all add: edited(2) f)
      moreover have "coalesced d r"
        using True edited(6) by simp
      ultimately show ?thesis
        using edited(3) coalesced_draft [of d r] by (cases "status_of d r") (auto simp: edited(1) cycle_step_simps)
    next
      case False
      then have e: "es = [new_event d r Contributed a None t]" using edited(6) by simp
      have "status_of d' q = (if q = r \<and> status_of d r \<noteq> StFinalized then StDraft else status_of d q)"
        using status_after_event [OF so, of d' r Contributed a None t q] by (simp add: edited(2) e f)
      then show ?thesis using edited(3) by (auto simp: edited(1) cycle_step_simps)
    qed
  next
    case (transferred to a t)
    have "status_of d' q = (if q = r \<and> status_of d r \<noteq> StFinalized then StDraft else status_of d q)"
      using status_after_event [OF so, of d' r OwnershipTransferred a "Some to" t q] by (simp add: transferred(2))
    then show ?thesis using transferred(3) by (auto simp: transferred(1) cycle_step_simps)
  next
    case (submitted json t a)
    have "status_of d' q = (if q = r \<and> status_of d r \<noteq> StFinalized then StSubmitted else status_of d q)"
      using status_after_event [OF so, of d' r SubmittedForReview _ None _ q] by (simp add: submitted(2))
    then show ?thesis using submitted(3) by (auto simp: submitted(1) cycle_step_simps)
  next
    case (decided a ss k json t c)
    have "status_of d' q = (if q = r \<and> status_of d r \<noteq> StFinalized then decision_status (Some k) else status_of d q)"
      using status_after_decision [OF so, of d' r a k c t a None t q] by (simp add: decided(2))
    then show ?thesis using decided(3) by (auto simp: decided(1) cycle_step_simps)
  next
    case (sealed n p bytes chain t a)
    have "status_of d' q = (if q = r then StFinalized else status_of d q)"
      by (rule status_after_seal [OF tb cs sealed(4)]) (simp_all add: sealed(2))
    then show ?thesis using next_version_open [OF sealed(4)] by (auto simp: sealed(1) cycle_step_simps)
  next
    case (amended v s a nm t)
    have "status_of d' q = (if q = r then StDraft else status_of d q)"
      by (rule status_after_amendment [OF tb amended(3,4)]) (simp_all add: amended(2))
    then show ?thesis using amend_finalized [OF amended(3,4)] by (auto simp: amended(1) cycle_step_simps)
  next
    case (acked v u A)
    have "status_of d' = status_of d"
      by (rule status_cong(1)) (simp_all add: acked(2))
    then show ?thesis by (auto simp: acked(1) cycle_step_simps)
  qed simp
qed

lemma writes_create_status:
  assumes w: "writes ser sha d r WCreate d'" and ok: "records_ok ser sha d" and q: "record_of d q \<noteq> None"
  shows "status_of d' q = status_of d q"
  using w
proof cases
  case (created R a xs t)
  have "q \<noteq> r"
    using q created(1,3) record_of_ids [of d q] next_id_fresh [of "map r_id (records d)"] by metis
  then show ?thesis
    using status_after_event [of d d' r Created a None t q] tables_okD(8) [of d] ok created(1)
    by (simp add: created(2) records_ok_def)
qed

lemma other_same_records:
  assumes "elsewhere d d' \<or> enrolled d d' \<or> (\<exists>m. lifecycle_step d m d')"
  shows "same_records d d'"
  using assms
proof (elim disjE exE)
  assume "enrolled d d'"
  then obtain e gs where
    j: "journaled (d\<lparr>enrollments := enrollments d @ [e], grants := grants d @ gs\<rparr>) d'"
    by (auto simp: enrolled_def)
  show ?thesis
    using same_records_journaled [OF j] by (simp add: same_records_def)
qed (auto simp: elsewhere_def dest: lifecycle_frame(1))

lemma same_status:
  assumes "elsewhere d d' \<or> enrolled d d' \<or> (\<exists>m. lifecycle_step d m d')"
  shows "status_of d' = status_of d"
  by (rule same_records_streams(1) [OF other_same_records [OF assms]])

lemma record_kept:
  assumes s: "service ser to_vec sha d l d'" and ok: "db_ok ser sha d" and q: "record_of d q \<noteq> None"
  shows "record_of d' q \<noteq> None"
proof -
  have ids: "copy_ok d" "ids_ok (map v_id (versions d))"
    using ok tables_okD [of d] by (simp_all add: db_ok_def records_ok_def)
  have "set (map r_id (records d)) \<subseteq> set (map r_id (records d'))"
    using service_changes [OF s ids]
  proof (elim disjE exE conjE)
    fix r x assume c: "change ser sha d r x" and j: "journaled x d'"
    have "records d' = records x"
      using same_records_journaled [OF j] by (simp add: same_records_def)
    then show ?thesis
      using change_ids [OF c] by (elim disjE) (auto simp del: set_map)
  next
    fix m assume "lifecycle_step d m d'"
    then show ?thesis
      using lifecycle_frame(1) by (auto simp: same_records_def)
  next
    assume "enrolled d d'"
    then obtain e gs where
      j: "journaled (d\<lparr>enrollments := enrollments d @ [e], grants := grants d @ gs\<rparr>) d'"
      by (auto simp: enrolled_def)
    show ?thesis
      using same_records_journaled [OF j] by (simp add: same_records_def)
  qed (simp add: elsewhere_def same_records_def)
  then show ?thesis
    using q record_of_ids by blast
qed

lemma service_cycle:
  assumes s: "service ser to_vec sha d l d'" and ok: "db_ok ser sha d" and q: "record_of d q \<noteq> None"
  shows "cycle_moves q (status_of d q) l (status_of d' q)"
proof -
  have ids: "copy_ok d" "ids_ok (map v_id (versions d))" and rk: "records_ok ser sha d"
    using ok tables_okD [of d] by (simp_all add: db_ok_def records_ok_def)
  from service_kinds [OF s ids] show ?thesis
  proof (elim disjE conjE)
    assume "writes_as ser sha d l d'"
    then obtain r w x where w: "writes ser sha d r w x" and j: "journaled x d'"
      and l: "call_write l = Some (r, w) \<or> call_write l = None \<and> w = WCreate"
      by (auto simp: writes_as_def)
    have st: "status_of d' = status_of x"
      using same_records_streams(1) [OF same_records_journaled [OF j]] .
    have n: "call_write l = Some (r, w) \<Longrightarrow> w \<noteq> WCreate"
      by (cases l rule: call_write.cases) auto
    show ?thesis
    proof (cases "w = WCreate")
      case True
      then have "call_write l = None" using l n by auto
      then show ?thesis
        using writes_create_status [OF w [unfolded True] rk q] by (simp add: cycle_moves_def st)
    next
      case False
      with l have "call_write l = Some (r, w)" by simp
      then show ?thesis
        using writes_cycle [OF w False rk, of q] by (auto simp: cycle_moves_def st)
    qed
  next
    assume n: "call_write l = None" and "\<exists>m. l = Lifecycle m \<and> lifecycle_step d m d'"
    then have "status_of d' = status_of d" by (intro same_status) blast
    with n show ?thesis by (simp add: cycle_moves_def)
  qed (use same_status [of d d'] in \<open>simp_all add: cycle_moves_def\<close>)
qed

interpretation record_cycle: refinement "service ser to_vec sha"
    "\<lambda>d. db_ok ser sha d \<and> record_of d q \<noteq> None" "\<lambda>d. status_of d q" "cycle_moves q"
  for ser to_vec sha q
proof (unfold_locales, goal_cases)
  case (1 s l t)
  then show ?case
    using service_ok [OF 1(2)] record_kept [OF 1(2)] by simp
next
  case (2 s l t)
  then show ?case
    using service_cycle [OF 2(2)] by simp
qed

section \<open>What approval takes\<close>

text \<open>A call that is no write of the record \<open>q\<close> other than an acknowledgment.\<close>

definition quiet :: "int \<Rightarrow> call \<Rightarrow> bool" where
  "quiet q l \<longleftrightarrow> (\<forall>w. call_write l = Some (q, w) \<longrightarrow> w = WAck)"

lemma quiet_moves: "quiet q l \<Longrightarrow> cycle_moves q s l s' \<longleftrightarrow> s' = s"
proof (cases "call_write l")
  case (Some p)
  then show "quiet q l \<Longrightarrow> ?thesis"
    by (cases p) (auto simp: quiet_def cycle_moves_def cycle_step_simps(7))
qed (simp add: cycle_moves_def)

lemma cycle_run_snoc:
  "run_path step s (ls @ [l]) t \<longleftrightarrow> (\<exists>u. run_path step s ls u \<and> step u l t)"
  by (induction ls arbitrary: s) auto

lemma decision_status_iff:
  "decision_status (Some k) = StApproved \<longleftrightarrow> k = Approved" "decision_status (Some k) \<noteq> StSubmitted"
  "StApproved = decision_status (Some k) \<longleftrightarrow> k = Approved" "StSubmitted \<noteq> decision_status (Some k)"
  by (cases k; simp)+

lemma enters:
  assumes "cycle_moves q s l s'" and "s' \<noteq> s"
  shows "\<exists>w. call_write l = Some (q, w) \<and> cycle_step s w s'"
  using assms by (auto simp: cycle_moves_def split: option.splits if_splits)

lemma run_submitted:
  "run_path (cycle_moves q) s ls StSubmitted \<Longrightarrow> s \<noteq> StSubmitted \<Longrightarrow>
    \<exists>xs l ys. ls = xs @ l # ys \<and> call_write l = Some (q, WSubmit) \<and> list_all (quiet q) ys"
proof (induction ls rule: rev_induct)
  case (snoc l ls)
  then obtain u where u: "run_path (cycle_moves q) s ls u" "cycle_moves q u l StSubmitted"
    by (auto simp: cycle_run_snoc)
  show ?case
  proof (cases "quiet q l")
    case True
    with u snoc obtain xs m ys where "ls = xs @ m # ys" "call_write m = Some (q, WSubmit)" "list_all (quiet q) ys"
      by (auto simp: quiet_moves)
    with True show ?thesis
      by (intro exI [of _ xs] exI [of _ m] exI [of _ "ys @ [l]"]) simp
  next
    case False
    with u(2) obtain w where w: "call_write l = Some (q, w)" "cycle_step u w StSubmitted" "w \<noteq> WAck"
      by (auto simp: quiet_def cycle_moves_def)
    have "w = WSubmit"
      using w(2,3) by cases (auto simp: decision_status_iff)
    with w(1) show ?thesis
      by (intro exI [of _ ls] exI [of _ l] exI [of _ "[]"]) simp
  qed
qed simp

lemma run_approved:
  "run_path (cycle_moves q) s ls StApproved \<Longrightarrow> s \<noteq> StApproved \<Longrightarrow> s \<noteq> StSubmitted \<Longrightarrow>
    \<exists>xs l ys m zs. ls = xs @ l # ys @ m # zs \<and> call_write l = Some (q, WSubmit) \<and>
      call_write m = Some (q, WDecide Approved) \<and> list_all (quiet q) ys \<and> list_all (quiet q) zs"
proof (induction ls rule: rev_induct)
  case (snoc m ls)
  then obtain u where u: "run_path (cycle_moves q) s ls u" "cycle_moves q u m StApproved"
    by (auto simp: cycle_run_snoc)
  show ?case
  proof (cases "quiet q m")
    case True
    with u snoc obtain xs l ys k zs where "ls = xs @ l # ys @ k # zs" "call_write l = Some (q, WSubmit)"
      "call_write k = Some (q, WDecide Approved)" "list_all (quiet q) ys" "list_all (quiet q) zs"
      by (auto simp: quiet_moves)
    with True show ?thesis
      by (intro exI [of _ xs] exI [of _ l] exI [of _ ys] exI [of _ k] exI [of _ "zs @ [m]"]) simp
  next
    case False
    with u(2) obtain w where w: "call_write m = Some (q, w)" "cycle_step u w StApproved" "w \<noteq> WAck"
      by (auto simp: quiet_def cycle_moves_def)
    have "u = StSubmitted \<and> w = WDecide Approved"
      using w(2,3) by cases (auto simp: decision_status_iff)
    moreover from this u(1) snoc.prems obtain xs l ys where
      "ls = xs @ l # ys" "call_write l = Some (q, WSubmit)" "list_all (quiet q) ys"
      using run_submitted by blast
    ultimately show ?thesis
      using w(1) by (intro exI [of _ xs] exI [of _ l] exI [of _ ys] exI [of _ m] exI [of _ "[]"]) simp
  qed
qed simp

end
