(* ===== verification/Workspace.thy ===== *)
theory Workspace
  imports Amendments Summaries
begin

text \<open>
  The workspace read (\<open>workspace\<close> of evaluation_drafts.rs, \<open>skeleton\<close> of draft_content.rs): the
  workflow view, the pinned form and the working copy, under one snapshot of the database. A
  reader of their own record gets the sealed record and nothing of a correction in progress.
\<close>

section \<open>The form skeleton\<close>

record anchor_view =
  xa_value :: int
  xa_label :: string
  xa_definition :: string

record skeleton_competency =
  xc_id :: int
  xc_category :: string
  xc_name :: string
  xc_description :: string
  xc_scale_name :: string
  xc_scale_kind :: scale_kind
  xc_min :: "int option"
  xc_max :: "int option"
  xc_anchors :: "anchor_view list"

record skeleton_narrative =
  xn_id :: int
  xn_prompt :: string
  xn_required :: bool

record skeleton_modifier =
  xm_id :: int
  xm_code :: string
  xm_label :: string
  xm_description :: string

record form_skeleton =
  fs_name :: string
  fs_instructions :: string
  fs_competencies :: "skeleton_competency list"
  fs_narratives :: "skeleton_narrative list"
  fs_modifiers :: "skeleton_modifier list"

definition skeleton_anchors :: "catalog \<Rightarrow> int \<Rightarrow> anchor_view list" where
  "skeleton_anchors c scale =
     map (\<lambda>a. \<lparr>xa_value = ra_value a, xa_label = ra_label a, xa_definition = ra_definition a\<rparr>)
       (sort_key ra_value (filter (\<lambda>a. ra_scale_id a = scale) (rating_anchors c)))"

definition skeleton_line :: "catalog \<Rightarrow> form_competency_row \<Rightarrow> skeleton_competency option" where
  "skeleton_line c x =
     Option.bind (find (\<lambda>y. co_id y = fc_competency_id x) (competencies c)) (\<lambda>co.
     map_option (\<lambda>s.
       \<lparr>xc_id = fc_id x, xc_category = co_category co, xc_name = co_name co,
        xc_description = co_description co, xc_scale_name = rs_name s, xc_scale_kind = rs_kind s,
        xc_min = rs_min s, xc_max = rs_max s, xc_anchors = skeleton_anchors c (rs_id s)\<rparr>)
       (joined_scale c x))"

definition skeleton :: "catalog \<Rightarrow> int \<Rightarrow> int \<Rightarrow> ('r, form_skeleton) outcome" where
  "skeleton c version form =
     fetch_one (find (\<lambda>f. f_id f = form \<and> f_version_id f = version) (evaluation_forms c)) (\<lambda>f.
     Inr \<lparr>fs_name = f_name f, fs_instructions = f_instructions f,
       fs_competencies = List.map_filter (skeleton_line c)
         (sort_key (\<lambda>x. (fc_sort x, fc_id x))
           (filter (\<lambda>x. fc_form_id x = form \<and> fc_version_id x = version) (form_competencies c))),
       fs_narratives = map (\<lambda>n. \<lparr>xn_id = fn_id n, xn_prompt = fn_prompt n, xn_required = fn_required n\<rparr>)
         (sort_key (\<lambda>n. (fn_sort n, fn_id n))
           (filter (\<lambda>n. fn_form_id n = form \<and> fn_version_id n = version) (form_narratives c))),
       fs_modifiers = map (\<lambda>m. \<lparr>xm_id = rm_id m, xm_code = rm_code m, xm_label = rm_label m,
           xm_description = rm_description m\<rparr>)
         (sort_key (\<lambda>m. nocase (rm_code m))
           (filter (\<lambda>m. rm_version_id m = version) (rating_modifiers c)))\<rparr>)"

section \<open>The view\<close>

record event_view =
  xe_id :: int
  xe_kind :: contributor_kind
  xe_actor :: int
  xe_actor_name :: string
  xe_to :: "int option"
  xe_to_name :: "string option"
  xe_recorded_at :: int

record decision_view =
  xd_id :: int
  xd_reviewer :: int
  xd_reviewer_name :: string
  xd_decision :: review_decision_kind
  xd_comment :: string
  xd_decided_at :: int

record covered_session =
  xs_id :: int
  xs_business_date :: string
  xs_timezone :: string
  xs_local_start :: string
  xs_local_end :: "string option"

record snapshot_meta =
  xp_id :: int
  xp_reason :: snapshot_reason
  xp_taken_at :: int
  xp_taken_by :: "int option"

record draft_workspace =
  wk_record :: record_row
  wk_owner_name :: string
  wk_status :: draft_status
  wk_trainee :: int
  wk_trainee_name :: string
  wk_program_name :: string
  wk_version_number :: int
  wk_record_type :: record_type
  wk_links :: "summary_link list"
  wk_sessions :: "covered_session list"
  wk_events :: "event_view list"
  wk_snapshots :: "snapshot_meta list"
  wk_recipients :: "(int \<times> string) list"
  wk_decisions :: "decision_view list"
  wk_may_review :: bool
  wk_may_finalize :: bool
  wk_may_amend :: bool
  wk_latest_version :: "int option"
  wk_amendment :: "amendment_view option"
  wk_form :: form_skeleton
  wk_content :: draft_content

text \<open>A cap of \<open>i64::MAX\<close> is no cap: \<open>None\<close>.\<close>

definition below :: "int option \<Rightarrow> int \<Rightarrow> bool" where
  "below cap i \<longleftrightarrow> (case cap of None \<Rightarrow> True | Some m \<Rightarrow> i \<le> m)"

definition event_view_of :: "db \<Rightarrow> contributor_event_row \<Rightarrow> event_view option" where
  "event_view_of d e =
     map_option (\<lambda>a.
       \<lparr>xe_id = ce_id e, xe_kind = ce_kind e, xe_actor = ce_actor e, xe_actor_name = u_display_name a,
        xe_to = ce_to e, xe_to_name = Option.bind (ce_to e) (display_name d),
        xe_recorded_at = ce_recorded_at e\<rparr>)
       (user_of d (ce_actor e))"

definition event_views :: "db \<Rightarrow> int \<Rightarrow> int option \<Rightarrow> event_view list" where
  "event_views d r cap =
     List.map_filter (event_view_of d)
       (sort_key ce_id (filter (\<lambda>e. below cap (ce_id e)) (record_events d r)))"

definition decision_views :: "db \<Rightarrow> int \<Rightarrow> int option \<Rightarrow> decision_view list" where
  "decision_views d r cap =
     List.map_filter (\<lambda>v. map_option (\<lambda>n.
         \<lparr>xd_id = rd_id v, xd_reviewer = rd_reviewer v, xd_reviewer_name = n,
          xd_decision = rd_decision v, xd_comment = rd_comment v, xd_decided_at = rd_decided_at v\<rparr>)
         (display_name d (rd_reviewer v)))
       (sort_key rd_id (filter (\<lambda>v. below cap (rd_id v)) (record_decisions d r)))"

definition session_views :: "db \<Rightarrow> int \<Rightarrow> covered_session list" where
  "session_views d r =
     map (\<lambda>s. \<lparr>xs_id = ts_id s, xs_business_date = ts_business_date s, xs_timezone = ts_timezone s,
         xs_local_start = ts_local_start s, xs_local_end = ts_local_end s\<rparr>)
       (sort_key (\<lambda>s. (ts_utc_start s, ts_id s)) (List.map_filter (session_of d) (covered_sessions d r)))"

definition snapshot_views :: "db \<Rightarrow> int \<Rightarrow> snapshot_meta list" where
  "snapshot_views d r =
     map (\<lambda>s. \<lparr>xp_id = ds_id s, xp_reason = ds_reason s, xp_taken_at = ds_taken_at s,
         xp_taken_by = ds_taken_by s\<rparr>)
       (sort_key ds_id (record_snapshots d r))"

text \<open>The transfer picker; names that collate alike come in table order.\<close>

definition recipients :: "db \<Rightarrow> record_row \<Rightarrow> (int \<times> string) list" where
  "recipients d r =
     map (\<lambda>u. (u_id u, u_display_name u))
       (sort_key (\<lambda>u. nocase (u_display_name u))
         (filter (\<lambda>u. user_has d (u_id u) AuthorEvaluation \<and> u_id u \<noteq> r_owner r \<and> in_scope d (u_id u) r)
           (users d)))"

definition workspace ::
    "(string \<Rightarrow> string option \<times> string option) \<Rightarrow> db \<Rightarrow> db \<Rightarrow> int \<Rightarrow> int
      \<Rightarrow> (draft_refusal, draft_workspace) outcome" where
  "workspace labels pre d actor record_id =
     (case load_record pre record_id of
        None \<Rightarrow> refuse DrNoSuchRecord
      | Some r0 \<Rightarrow>
      (case read_grant pre actor r0 of
        None \<Rightarrow> refuse DrCapabilityRequired
      | Some grant \<Rightarrow>
          let workflow_reader = (grant = RgWorkflow);
              reviewer = user_has pre actor ReviewEvaluation in
      (case load_record d record_id of
        None \<Rightarrow> refuse DrNoSuchRecord
      | Some r \<Rightarrow>
          let scope = open_scope d record_id;
              event_cap = (if workflow_reader then None else map_option oa_event_mark scope);
              decision_cap = (if workflow_reader then None else map_option oa_decision_mark scope);
              status = (if workflow_reader then status_of d record_id else StFinalized) in
          run (if reviewer \<and> status = StSubmitted then is_contributor d record_id actor else Inr True)
            (\<lambda>contributor.
          fetch_one (enrollment_of d (r_enrollment_id r)) (\<lambda>e.
          fetch_one (display_name d (e_user_id e)) (\<lambda>trainee_nm.
          fetch_one (display_name d (r_owner r)) (\<lambda>owner_nm.
          fetch_one (version_of d (r_version_id r)) (\<lambda>pv.
          fetch_one (form_of d (r_form_id r)) (\<lambda>f.
          case skeleton (catalog d) (r_version_id r) (r_form_id r) of
            Inl err \<Rightarrow> Inl err
          | Inr form \<Rightarrow>
          Inr \<lparr>wk_record = r, wk_owner_name = owner_nm, wk_status = status,
               wk_trainee = e_user_id e, wk_trainee_name = trainee_nm,
               wk_program_name = pv_name pv, wk_version_number = pv_version_number pv,
               wk_record_type = f_record_type f,
               wk_links = (if workflow_reader then links labels d record_id else []),
               wk_sessions = session_views d record_id,
               wk_events = event_views d record_id event_cap,
               wk_snapshots = (if workflow_reader then snapshot_views d record_id else []),
               wk_recipients = (if workflow_reader then recipients d r else []),
               wk_decisions = decision_views d record_id decision_cap,
               wk_may_review = (reviewer \<and> status = StSubmitted \<and> \<not> contributor),
               wk_may_finalize = (workflow_reader \<and> reviewer \<and> status \<noteq> StFinalized),
               wk_may_amend = (workflow_reader \<and> reviewer \<and> status = StFinalized),
               wk_latest_version = max_id (map v_number (record_versions d record_id)),
               wk_amendment = (if workflow_reader
                 then map_option (\<lambda>s. \<lparr>av_reason = oa_reason s, av_opened_by_name = oa_opened_by_name s,
                        av_opened_at = oa_opened_at s\<rparr>) scope else None),
               wk_form = form,
               wk_content = (if workflow_reader then content d record_id
                 else \<lparr>dc_ratings = [], dc_narratives = []\<rparr>)\<rparr>)))))))))"

section \<open>A reader of their own record\<close>

text \<open>The response carries no working copy, no links, no snapshots and no roster.\<close>

lemma own_reader_redacted:
  assumes "workspace labels pre d actor r = Inr w"
    and "load_record pre r = Some r0" "read_grant pre actor r0 = Some RgOwnRecord"
  shows "wk_status w = StFinalized \<and> wk_links w = [] \<and> wk_snapshots w = [] \<and> wk_recipients w = [] \<and>
    wk_content w = \<lparr>dc_ratings = [], dc_narratives = []\<rparr> \<and> wk_amendment w = None \<and>
    \<not> wk_may_review w \<and> \<not> wk_may_finalize w \<and> \<not> wk_may_amend w"
  using assms by (auto simp: workspace_def guard_simps Let_def)

end
