(* ===== verification/Sealing.thy ===== *)
theory Sealing
  imports Cycle Workspace
begin

text \<open>
  What a successful finalization wrote, and what successful saves, decisions and
  acknowledgments had checked: the facts the properties of single calls rest on.
\<close>

lemma seal_document:
  assumes "seal to_vec sha clk d w actor p am = Inr (d', meta)"
  shows "\<exists>doc v n h. envelope d w actor (clk 0) p n h = (Inr doc :: (finalize_refusal, json) outcome) \<and>
    in_subset doc \<and> to_vec doc = Some (v_bytes v) \<and> versions d' = versions d @ [v] \<and>
    v_record_id v = r_id w \<and> v_finalized_by v = actor \<and> v_number v = n \<and>
    content d' = content d"
proof -
  let ?n = "case am of None \<Rightarrow> 1 | Some s \<Rightarrow> oa_version_number s + 1"
  let ?h = "map_option oa_content_hash am"
  let ?p = "map_option oa_version_id am"
  from assms obtain doc bytes chain d1 d2 d3 u o' m m' where
    doc: "envelope d w actor (clk 0) p ?n ?h = (Inr doc :: (finalize_refusal, json) outcome)"
    and bytes: "canonical_outcome (canonical_bytes to_vec doc) = Inr bytes"
    and d1: "insert_version (sealed_row d (r_id w) ?n ?p bytes (content_hash_hex sha bytes) chain (clk 0) actor) d = Inr d1"
    and d2: "record_for_subject EvDraftFinalized (Some actor) (Some u) (SubjRecord (r_id w)) (clk 1) d1 = Inr d2"
    and d3: "notify_user o' NkDraftFinalized m (clk 2) d2 = Inr d3"
    and d4: "notify_user u NkRecordAwaitsAcknowledgment m' (clk 3) d3 = Inr d'"
    by (clarsimp simp: seal_def guard_simps Let_def)
  let ?v = "sealed_row d (r_id w) ?n ?p bytes (content_hash_hex sha bytes) chain (clk 0) actor"
  have j: "journaled d1 d'"
    using journaled_record_for_subject [OF d2] journaled_notify [OF d3] journaled_notify [OF d4]
      journaled_trans by blast
  have d1': "d1 = d\<lparr>versions := versions d @ [?v]\<rparr>"
    using d1 by (simp add: insert_version_def guard_simps Let_def sealed_row_def)
  have "versions d' = versions d @ [?v]"
    using same_records_journaled [OF j] by (simp add: same_records_def d1')
  moreover have "content d' = content d"
    using same_records_streams(2) [OF same_records_journaled [OF j]] copy_frame(4) [of d1 d] by (simp add: d1')
  moreover have "in_subset doc \<and> to_vec doc = Some bytes"
    using bytes by (auto simp: canonical_outcome_def canonical_bytes_Inr_iff split: sum.splits)
  ultimately show ?thesis
    using doc by (intro exI [of _ doc] exI [of _ ?v] exI [of _ ?n] exI [of _ ?h])
      (simp add: sealed_row_def)
qed

lemma finalize_document:
  assumes f: "finalize to_vec sha pre clk d actor r rv = Inr (d', meta)" and w: "load_record pre r = Some w"
  shows "\<exists>doc v n h. envelope d w actor (clk 0) (policy_of (catalog d) (r_version_id w)) n h
      = (Inr doc :: (finalize_refusal, json) outcome) \<and>
    in_subset doc \<and> to_vec doc = Some (v_bytes v) \<and> versions d' = versions d @ [v] \<and>
    v_record_id v = r \<and> v_finalized_by v = actor \<and> v_number v = n \<and> content d' = content d"
proof -
  have r: "r_id w = r" using w by (simp add: load_record_def record_of_id)
  obtain am where "seal to_vec sha clk d w actor (policy_of (catalog d) (r_version_id w)) am = Inr (d', meta)"
    using finalize_gate [OF f] w by auto
  from seal_document [OF this] show ?thesis unfolding r .
qed

text \<open>Whoever decides is no contributor, holds the capability, and gave the comment a change request needs.\<close>

lemma decide_gate:
  assumes "decide ser pre clk d actor r k comment = Inr d'"
  shows "user_has pre actor ReviewEvaluation \<and> status_of d r = StSubmitted \<and>
    is_contributor d r actor = Inr False \<and>
    (k = ChangesRequested \<longrightarrow> (case comment of None \<Rightarrow> [] | Some c \<Rightarrow> trim c) \<noteq> [])"
proof -
  let ?c = "case comment of None \<Rightarrow> [] | Some c \<Rightarrow> trim c"
  from assms have "user_has pre actor ReviewEvaluation" "status_of d r = StSubmitted"
    "is_contributor d r actor = Inr False"
    by (clarsimp simp: decide_def guard_simps Let_def)+
  moreover have "\<not> (k = ChangesRequested \<and> ?c = [])"
    using assms unfolding decide_def guard_simps Let_def by blast
  ultimately show ?thesis by blast
qed

lemma acknowledge_gate:
  assumes "acknowledge pre clk d actor r k response = Inr d'"
  shows "user_has pre actor AcknowledgeOwnRecord \<and> trainee_of_record d r = Some actor \<and>
    (\<exists>v. latest_version d r = Some v \<and> \<not> already_acknowledged d (v_id v) actor)"
proof -
  obtain v where "latest_with_trainee d r = Some (v, actor)" "\<not> already_acknowledged d v actor"
    "user_has pre actor AcknowledgeOwnRecord"
    using assms by (clarsimp simp: acknowledge_def guard_simps Let_def)
  then show ?thesis
    using latest_with_trainee_Some by blast
qed

text \<open>A save is refused as stale unless it carries the revision it read, and leaves the next one.\<close>

lemma save_revision:
  assumes call: "save pre clk d actor r rv input = Inr (d', n)" and ok: "copy_ok d"
  shows "map_option r_revision (record_of d r) = Some rv" "map_option r_revision (record_of d' r) = Some (rv + 1)"
proof -
  obtain cur d1 where cur: "record_of d r = Some cur" "rv = r_revision cur" "n = rv + 1"
    and fr: "save_frame d d1"
    and att: "attribute_contribution r actor (clk 0) (set_revision r n d1) = Inr d'"
    using save_effect [OF call ok] by blast
  have "records d1 = records d"
    using fr by (auto simp: save_frame_def)
  then have c1: "record_of d1 r = Some cur" using cur(1) by (simp add: record_of_def)
  have "record_of (set_revision r n d1) r = map_option (\<lambda>x. if r_id x = r then x\<lparr>r_revision := n\<rparr> else x) (record_of d1 r)"
    unfolding record_of_def set_revision_def map_record_def
    using find_map_update [of "\<lambda>x. r_id x = r" "\<lambda>x. if r_id x = r then x\<lparr>r_revision := n\<rparr> else x" "records d1"]
    by simp
  moreover have "records d' = records (set_revision r n d1)"
    using attribute_cases [OF att] by auto
  ultimately have "map_option r_revision (record_of d' r) = Some n"
    using c1 record_of_id [OF c1] by (simp add: record_of_def)
  then show "map_option r_revision (record_of d r) = Some rv" "map_option r_revision (record_of d' r) = Some (rv + 1)"
    using cur by simp_all
qed

lemma save_stale:
  "map_option r_revision (record_of d r) = Some n \<Longrightarrow> n \<noteq> rv \<Longrightarrow> save pre clk d actor r rv input \<noteq> Inr x"
  by (auto simp: save_def guard_simps)

section \<open>The queue of a finalized record\<close>

text \<open>A record the queue lists is not approved: its latest event is a submission.\<close>

lemma latest_by_above:
  assumes "latest_by k xs = Some x" and "inj_on k (set xs)" and "filter (\<lambda>y. m < k y) xs \<noteq> []"
  shows "latest_by k (filter (\<lambda>y. m < k y) xs) = Some x"
proof (rule latest_by_eqI)
  obtain y where "y \<in> set xs" "m < k y" using assms(3) by (auto simp: filter_empty_conv)
  then show "x \<in> set (filter (\<lambda>y. m < k y) xs)"
    using latest_by_in [OF assms(1)] latest_by_max [OF assms(1), of y] by auto
  show "\<And>y. y \<in> set (filter (\<lambda>y. m < k y) xs) \<Longrightarrow> k y \<le> k x"
    using latest_by_max [OF assms(1)] by auto
  show "inj_on k (set (filter (\<lambda>y. m < k y) xs))" using assms(2) by (auto simp: inj_on_def)
qed

lemma awaits_not_approved:
  assumes "awaits d r" and "streams_sorted d" shows "status_of d r \<noteq> StApproved"
proof -
  obtain e where e: "latest_by ce_id (record_events d r) = Some e" "ce_kind e = SubmittedForReview"
    using assms(1) by (auto simp: awaits_def)
  have "distinct (map ce_id (contributor_events d))"
    using assms(2) ids_ok_distinct by (auto simp: streams_sorted_def)
  then have inj: "inj_on ce_id (set (record_events d r))"
    by (auto simp: distinct_map record_events_def inj_on_def)
  have "latest_by ce_id (events_after d r m) \<in> {None, Some e}" for m
    using latest_by_above [OF e(1) inj] unfolding events_after_def by auto
  then have "map_option ce_kind (latest_by ce_id (events_after d r m)) \<in> {None, Some SubmittedForReview}" for m
    using e(2) by (metis insertE insertI1 insertI2 option.map(1) option.map(2) singletonD)
  then have k: "map_option ce_kind (latest_by ce_id (events_after d r m)) = None \<or>
      map_option ce_kind (latest_by ce_id (events_after d r m)) = Some SubmittedForReview" for m
    by blast
  have "status_since d r m n \<noteq> StApproved" for m n
    using k [of m] unfolding status_since_def cycle_status_def by (elim disjE) (simp_all del: map_option_eq_Some option.map_disc_iff)
  then show ?thesis by (auto simp: status_of_def split: option.splits)
qed

text \<open>Finalization records no event, so the queue reads the same before and after it.\<close>

lemma queue_same:
  assumes "grants d' = grants d" "users d' = users d" "enrollments d' = enrollments d" "catalog d' = catalog d"
    "records d' = records d" "contributor_events d' = contributor_events d"
  shows "queue d' = queue d"
proof -
  have e: "record_events d' = record_events d" "user_has d' = user_has d" "enrollment_of d' = enrollment_of d"
    "user_of d' = user_of d" "version_of d' = version_of d"
    using assms by (simp_all add: record_events_def user_has_def held_def enrollment_of_def user_of_def version_of_def
        fun_eq_iff)
  have q: "awaits d' = awaits d" "queue_row_of d' = queue_row_of d"
    unfolding awaits_def [abs_def] queue_row_of_def [abs_def] e by (rule refl)+
  show ?thesis unfolding queue_def [abs_def] e q assms(5) by (rule refl)
qed

lemma finalize_queue:
  assumes f: "finalize to_vec sha pre clk d actor r rv = Inr (d', m)" and ok: "db_ok ser sha d"
  shows "queue d' = queue d" "status_of d' r = StFinalized" "record_of d' = record_of d"
proof -
  have t: "ids_ok (map v_id (versions d))" "records_ok ser sha d" "copy_ok d"
    using ok by (simp_all add: db_ok_def records_ok_def tables_ok_def)
  obtain x where x: "writes ser sha d r WSeal x" "journaled x d'" using finalize_change [OF f t(1)] by blast
  have g: "grants x = grants d" "users x = users d" "enrollments x = enrollments d" "catalog x = catalog d"
    "records x = records d" "contributor_events x = contributor_events d"
    using x(1) by (auto elim: write_sealE)
  then show "queue d' = queue d" by (intro queue_same) (simp_all add: journaled_tables [OF x(2)])
  show "record_of d' = record_of d" using g journaled_tables [OF x(2)] by (simp add: record_of_def fun_eq_iff)
  have "status_of x r = StFinalized"
    using writes_cycle [OF x(1) _ t(2), of r] by (auto simp: cycle_step_simps)
  then show "status_of d' r = StFinalized"
    using same_records_streams(1) [OF same_records_journaled [OF x(2)]] by simp
qed

lemma queue_lists:
  assumes "queue d u = Inr rows" and "q \<in> set rows"
  shows "user_has d u ReviewEvaluation" "awaits d (q_record_id q)"
proof -
  show "user_has d u ReviewEvaluation" using assms(1) by (auto simp: queue_def split: if_splits)
  then have "q \<in> set (List.map_filter (queue_row_of d u) (filter (\<lambda>r. awaits d (r_id r)) (records d)))"
    using assms by (auto simp: queue_def)
  then obtain w where "awaits d (r_id w)" "queue_row_of d u w = Some q"
    by (auto simp: List.map_filter_def)
  then show "awaits d (q_record_id q)" by (auto simp: queue_row_of_def bind_eq_Some_conv)
qed

lemma decide_refuses:
  "load_record pre r \<noteq> None \<Longrightarrow> user_has pre actor ReviewEvaluation \<Longrightarrow> status_of d r \<noteq> StSubmitted \<Longrightarrow>
    decide ser pre clk d actor r k (Some c) =
      refuse (if k = ChangesRequested \<and> trim c = [] then DrCommentRequired else DrNotSubmitted)"
  by (auto simp: decide_def Let_def)

section \<open>The database's view of the frozen state\<close>

lemma events_from_start:
  "ids_ok (map ce_id (contributor_events d)) \<Longrightarrow> events_after d r 0 = record_events d r"
  by (auto simp: events_after_def record_events_def ids_ok_def intro!: filter_cong)

lemma decisions_from_start:
  "ids_ok (map rd_id (decisions d)) \<Longrightarrow> decisions_after d r 0 = record_decisions d r"
  by (auto simp: decisions_after_def record_decisions_def ids_ok_def intro!: filter_cong)

lemma cycle_frozen_status:
  "cycle_frozen k v \<longleftrightarrow> frozen_refusal (cycle_status k v) \<noteq> None"
proof (cases "k = Some ReviewDecided")
  case True
  then show ?thesis
    by (cases v rule: decision_status.cases) (simp_all add: cycle_frozen_def cycle_status_def)
qed (auto simp: cycle_frozen_def cycle_status_def split: option.splits contributor_kind.splits)

lemma record_frozen_status:
  assumes "streams_sorted d" and "record_of d r \<noteq> None"
  shows "record_frozen d r \<longleftrightarrow> frozen_refusal (status_of d r) \<noteq> None"
proof -
  have ids: "ids_ok (map ce_id (contributor_events d))" "ids_ok (map rd_id (decisions d))"
    using assms(1) by (simp_all add: streams_sorted_def)
  show ?thesis
    unfolding status_of_marks scope_marks_def
    using assms(2) events_from_start [OF ids(1), of r] decisions_from_start [OF ids(2), of r]
    by (auto simp: record_frozen_def cycle_frozen_status status_since_def split: option.splits)
qed

section \<open>Verification and frozen copies\<close>

lemma sealed_verifies:
  "sealed_ok sha d v \<Longrightarrow>
    verify_version sha d v = (Inr \<lparr>content_hash_ok = True, chain_hash_ok = True\<rparr> :: ('r, verification) outcome)"
  by (cases "v_predecessor v")
    (auto simp: sealed_ok_def verify_version_def pred_hash_def canonical_outcome_def run_def fetch_one_def
      split: option.splits)

lemma copy_of_same_records: "same_records d d' \<Longrightarrow> copy_of d' = copy_of d"
  by (rule copy_of_frame) (simp_all add: same_records_def)

lemma service_frozen_copy:
  assumes s: "service ser to_vec sha d l d'" and ok: "db_ok ser sha d" and q: "record_of d q \<noteq> None"
    and fz: "frozen_refusal (status_of d q) \<noteq> None"
  shows "copy_of d' q = copy_of d q"
proof -
  have ids: "copy_ok d" "ids_ok (map v_id (versions d))"
    using ok tables_okD [of d] by (simp_all add: db_ok_def records_ok_def)
  from service_changes [OF s ids] consider
      (change) r x where "change ser sha d r x" "journaled x d'"
    | (other) "elsewhere d d' \<or> enrolled d d' \<or> (\<exists>m. lifecycle_step d m d')" by blast
  then show ?thesis
  proof cases
    case change
    have "copy_of d' = copy_of x"
      by (rule copy_of_same_records [OF same_records_journaled [OF change(2)]])
    then show ?thesis
      using change_frozen_copy [OF change(1) q] fz by simp
  next
    case other
    show ?thesis
      using copy_of_same_records [OF other_same_records [OF other]] by simp
  qed
qed

end
