(* ===== verification/Correction.thy ===== *)
theory Correction
  imports Cycle Workspace
begin

text \<open>
  What a correction in progress leaves of a sealed record for its trainee (the read of
  evaluation\_drafts.rs): everything of their view but the record's own revision and owner, which
  the read takes from the record row and every edit and transfer of the correction changes.
\<close>

section \<open>What an own-record reader is given\<close>

lemma open_scope_same:
  assumes "versions d' = versions d" and "amendments d' = amendments d" shows "open_scope d' = open_scope d"
proof -
  have a: "amendment_of d' = amendment_of d" "latest_version d' = latest_version d"
    using assms by (simp_all add: amendment_of_def latest_version_def record_versions_def fun_eq_iff)
  show ?thesis unfolding open_scope_def [abs_def] a by (rule refl)
qed

lemma names_same:
  assumes "users d' = users d" shows "display_name d' = display_name d" "event_view_of d' = event_view_of d"
proof -
  have u: "user_of d' = user_of d" using assms by (simp add: user_of_def fun_eq_iff)
  show n: "display_name d' = display_name d" unfolding display_name_def [abs_def] u by (rule refl)
  show "event_view_of d' = event_view_of d" unfolding event_view_of_def [abs_def] u n by (rule refl)
qed

text \<open>The streams stop at the marks of the open amendment.\<close>

definition own_events :: "db \<Rightarrow> int \<Rightarrow> event_view list" where
  "own_events d r = event_views d r (map_option oa_event_mark (open_scope d r))"

definition own_decisions :: "db \<Rightarrow> int \<Rightarrow> decision_view list" where
  "own_decisions d r = decision_views d r (map_option oa_decision_mark (open_scope d r))"

definition unowned :: "record_row \<Rightarrow> record_row" where
  "unowned x = x\<lparr>r_revision := 0, r_owner := 0\<rparr>"

definition as_sealed :: "draft_workspace \<Rightarrow> draft_workspace" where
  "as_sealed w = w\<lparr>wk_record := unowned (wk_record w), wk_owner_name := []\<rparr>"

definition unseen :: "int \<Rightarrow> db \<Rightarrow> db \<Rightarrow> bool" where
  "unseen r d d' \<longleftrightarrow>
     users d' = users d \<and> catalog d' = catalog d \<and> enrollments d' = enrollments d \<and>
     training_sessions d' = training_sessions d \<and> record_sessions d' = record_sessions d \<and>
     versions d' = versions d \<and> own_events d' r = own_events d r \<and> own_decisions d' r = own_decisions d r \<and>
     map_option unowned (record_of d' r) = map_option unowned (record_of d r)"

lemma unseen_refl [simp]: "unseen r d d"
  by (simp add: unseen_def)

lemma unseen_trans: "unseen r d x \<Longrightarrow> unseen r x d' \<Longrightarrow> unseen r d d'"
  by (simp add: unseen_def)

lemma unowned_fields:
  assumes "unowned x' = unowned x"
  shows "r_id x' = r_id x" "r_enrollment_id x' = r_enrollment_id x" "r_version_id x' = r_version_id x"
    "r_form_id x' = r_form_id x"
  using assms by (cases x; cases x'; simp add: unowned_def)+

lemma own_reader_blind:
  assumes "load_record pre r = Some r0" "read_grant pre actor r0 = Some RgOwnRecord"
    and "load_record pre' r = Some r1" "read_grant pre' actor r1 = Some RgOwnRecord"
    and c: "unseen r d d'"
    and x: "record_of d r = Some x" "user_of d (r_owner x) \<noteq> None"
    and x': "record_of d' r = Some x'" "user_of d' (r_owner x') \<noteq> None"
  shows "map_sum id as_sealed (workspace labels pre' d' actor r) =
    map_sum id as_sealed (workspace labels pre d actor r)"
proof -
  have u: "unowned x' = unowned x" using c x(1) x'(1) by (simp add: unseen_def)
  note f = unowned_fields [OF u]
  have n: "display_name d' = display_name d" "enrollment_of d' = enrollment_of d" "version_of d' = version_of d"
    "form_of d' = form_of d" "catalog d' = catalog d" "record_versions d' = record_versions d"
    using c names_same(1) [of d' d] by (simp_all add: unseen_def enrollment_of_def version_of_def form_of_def
        record_versions_def fun_eq_iff)
  have t: "session_of d' = session_of d" "covered_sessions d' = covered_sessions d"
    using c by (simp_all add: unseen_def session_of_def covered_sessions_def fun_eq_iff)
  have sv: "session_views d' = session_views d" unfolding session_views_def [abs_def] t by (rule refl)
  obtain o1 o2 where nm: "display_name d (r_owner x) = Some o1" "display_name d' (r_owner x') = Some o2"
    using x(2) x'(2) by (auto simp: display_name_def)
  note nm = nm(1) nm(2) [unfolded n(1)]
  have own: "event_views d' r (map_option oa_event_mark (open_scope d' r)) =
      event_views d r (map_option oa_event_mark (open_scope d r))"
    "decision_views d' r (map_option oa_decision_mark (open_scope d' r)) =
      decision_views d r (map_option oa_decision_mark (open_scope d r))"
    using c by (simp_all add: unseen_def own_events_def own_decisions_def)
  show ?thesis
    unfolding workspace_def assms(1-4) option.case Let_def
    unfolding load_record_def x(1) x'(1) option.case
    by (cases "enrollment_of d (r_enrollment_id x)"; cases "version_of d (r_version_id x)";
        cases "form_of d (r_form_id x)"; cases "skeleton (catalog d) (r_version_id x) (r_form_id x) ::
          (draft_refusal, form_skeleton) outcome")
      (simp_all add: n sv f nm own fetch_one_def run_def as_sealed_def u split: option.split)
qed

section \<open>What a correction writes\<close>

text \<open>Events and decisions past the marks are not shown.\<close>

lemma own_views_append:
  assumes "users d' = users d" "versions d' = versions d" "amendments d' = amendments d"
    and s: "open_scope d r = Some s"
    and e: "contributor_events d' = contributor_events d @ es" "\<forall>e \<in> set es. oa_event_mark s < ce_id e"
    and v: "decisions d' = decisions d @ vs" "\<forall>v \<in> set vs. oa_decision_mark s < rd_id v"
  shows "own_events d' r = own_events d r" "own_decisions d' r = own_decisions d r"
proof -
  have s': "open_scope d' r = Some s" using s open_scope_same [OF assms(2,3)] by simp
  note dn = names_same [OF assms(1)]
  have "filter (\<lambda>e. below (Some (oa_event_mark s)) (ce_id e)) (filter P es) = []" for P
    using e(2) by (auto simp: below_def filter_empty_conv)
  then have "filter (\<lambda>e. below (Some (oa_event_mark s)) (ce_id e)) (record_events d' r) =
      filter (\<lambda>e. below (Some (oa_event_mark s)) (ce_id e)) (record_events d r)"
    by (simp add: record_events_def e(1) del: filter_filter)
  then show "own_events d' r = own_events d r"
    by (simp add: own_events_def event_views_def s s' dn)
  have "filter (\<lambda>v. below (Some (oa_decision_mark s)) (rd_id v)) (filter P vs) = []" for P
    using v(2) by (auto simp: below_def filter_empty_conv)
  then have "filter (\<lambda>v. below (Some (oa_decision_mark s)) (rd_id v)) (record_decisions d' r) =
      filter (\<lambda>v. below (Some (oa_decision_mark s)) (rd_id v)) (record_decisions d r)"
    by (simp add: record_decisions_def v(1) del: filter_filter)
  then show "own_decisions d' r = own_decisions d r"
    by (simp add: own_decisions_def decision_views_def s s' dn)
qed

text \<open>Opening the amendment sets the marks behind everything the trainee saw.\<close>

lemma below_mark: "below (Some (mark_of is)) i" if "i \<in> set is"
  using that max_id_ge [of "is"] by (auto simp: below_def mark_of_def split: option.split)

lemma own_views_amend:
  assumes "latest_version d r = Some v" and "amendment_of d (v_id v) = None"
    and d': "d' = map_record r f (d\<lparr>amendments := amendments d @ [new_amendment d r (v_id v) s a nm t]\<rparr>)"
  shows "own_events d' r = own_events d r" "own_decisions d' r = own_decisions d r"
proof -
  have n: "open_scope d r = None" using assms(1,2) by (simp add: open_scope_def)
  have lv: "latest_version d' r = Some v"
    using assms(1) by (simp add: d' map_record_def latest_version_def record_versions_def)
  have am: "amendment_of d' (v_id v) = Some (new_amendment d r (v_id v) s a nm t)"
    using assms(2) by (simp add: d' map_record_def amendment_of_def find_snoc)
  have m: "map_option oa_event_mark (open_scope d' r) = Some (event_mark d r)"
    "map_option oa_decision_mark (open_scope d' r) = Some (decision_mark d r)"
    by (simp_all add: open_scope_def lv am)
  have "display_name d' = display_name d" "event_view_of d' = event_view_of d"
    by (rule names_same, simp add: d' map_record_def)+
  moreover have "record_events d' = record_events d" "record_decisions d' = record_decisions d"
    by (simp_all add: d' map_record_def record_events_def record_decisions_def fun_eq_iff)
  moreover have "filter (\<lambda>e. below (Some (event_mark d r)) (ce_id e)) (record_events d r) = record_events d r"
    "filter (\<lambda>v. below (Some (decision_mark d r)) (rd_id v)) (record_decisions d r) = record_decisions d r"
    by (auto simp: filter_id_conv event_mark_def decision_mark_def intro!: below_mark)
  moreover have "below None i" for i by (simp add: below_def)
  ultimately show "own_events d' r = own_events d r" "own_decisions d' r = own_decisions d r"
    unfolding own_events_def own_decisions_def m n option.map event_views_def decision_views_def by simp_all
qed

lemma record_of_map:
  assumes "\<And>x. r_id (f x) = r_id x" "\<And>x. unowned (f x) = unowned x"
  shows "map_option unowned (record_of (map_record r f d) q) = map_option unowned (record_of d q)"
proof -
  have "map_option unowned (find (\<lambda>x. r_id x = q) (map (\<lambda>x. if r_id x = r then f x else x) xs)) =
      map_option unowned (find (\<lambda>x. r_id x = q) xs)" for xs
    by (induction xs) (auto simp: assms)
  then show ?thesis by (simp add: record_of_def map_record_def)
qed

lemma not_final_open:
  assumes "status_of d r \<noteq> StFinalized" and "record_versions d r \<noteq> []"
  obtains s where "open_scope d r = Some s"
  using assms by (auto simp: status_of_def split: option.splits)

lemma open_scope_marks:
  assumes "streams_sorted d" and "open_scope d r = Some s"
  shows "oa_event_mark s < next_id (map ce_id (contributor_events d))"
    and "oa_decision_mark s < next_id (map rd_id (decisions d))"
proof -
  have "scope_marks d r = Some (oa_event_mark s, oa_decision_mark s)"
    using assms(2) by (auto simp: open_scope_def scope_marks_def split: option.splits)
  then show "oa_event_mark s < next_id (map ce_id (contributor_events d))"
    "oa_decision_mark s < next_id (map rd_id (decisions d))"
    using scope_marks_bound assms(1) by (auto simp: streams_sorted_def)
qed

lemma same_unseen:
  assumes "users d' = users d" "catalog d' = catalog d" "enrollments d' = enrollments d"
    "training_sessions d' = training_sessions d" "record_sessions d' = record_sessions d" "versions d' = versions d"
    "amendments d' = amendments d" "records d' = records d" "contributor_events d' = contributor_events d"
    "decisions d' = decisions d"
  shows "unseen r d d'"
  using open_scope_same [OF assms(6,7)] names_same [OF assms(1)] assms
  by (simp add: unseen_def record_of_def own_events_def own_decisions_def event_views_def decision_views_def
      record_events_def record_decisions_def)

lemma writes_unseen:
  assumes w: "writes ser sha d r k d'" and ok: "streams_sorted d" and v: "record_versions d r \<noteq> []"
    and k: "k \<noteq> WSeal" "k \<noteq> WCreate"
  shows "unseen r d d'"
  using w k
proof cases
  case (edited cur d1 es a t)
  have "status_of d r \<noteq> StFinalized" using edited(3) by auto
  then obtain s where s: "open_scope d r = Some s" using v by (rule not_final_open)
  obtain rs ms ns ls where d1: "d1 = d\<lparr>draft_ratings := rs, draft_modifiers := ms, draft_narratives := ns, daily_links := ls\<rparr>"
    using edited(5) by (auto simp: edit_frame_def)
  have "own_events d' r = own_events d r" "own_decisions d' r = own_decisions d r"
    using own_views_append [where es = es and vs = "[]", OF _ _ _ s, of d'] edited(6) open_scope_marks [OF ok s]
    by (auto simp: edited(2) d1 set_revision_def map_record_def)
  moreover have "map_option unowned (record_of d' r) = map_option unowned (record_of d r)"
    using record_of_map [of "\<lambda>x. x\<lparr>r_revision := r_revision cur + 1\<rparr>" r d r]
    by (simp add: edited(2) d1 set_revision_def map_record_def record_of_def unowned_def)
  ultimately show ?thesis by (simp add: unseen_def edited(2) d1 set_revision_def map_record_def)
next
  case (transferred to a t)
  have "status_of d r \<noteq> StFinalized" using transferred(3) by auto
  then obtain s where s: "open_scope d r = Some s" using v by (rule not_final_open)
  have "own_events d' r = own_events d r" "own_decisions d' r = own_decisions d r"
    using own_views_append [where es = "[new_event d r OwnershipTransferred a (Some to) t]" and vs = "[]", OF _ _ _ s, of d']
      open_scope_marks [OF ok s]
    by (auto simp: transferred(2) map_record_def)
  moreover have "map_option unowned (record_of d' r) = map_option unowned (record_of d r)"
    using record_of_map [of "\<lambda>x. x\<lparr>r_owner := to\<rparr>" r d r]
    by (simp add: transferred(2) map_record_def record_of_def unowned_def)
  ultimately show ?thesis by (simp add: unseen_def transferred(2) map_record_def)
next
  case (submitted json a t)
  have "status_of d r \<noteq> StFinalized" using submitted(3) by auto
  then obtain s where s: "open_scope d r = Some s" using v by (rule not_final_open)
  have "own_events d' r = own_events d r" "own_decisions d' r = own_decisions d r"
    using own_views_append [where es = "[new_event d r SubmittedForReview a None t]" and vs = "[]", OF _ _ _ s, of d']
      open_scope_marks [OF ok s]
    by (auto simp: submitted(2))
  then show ?thesis by (simp add: unseen_def submitted(2) record_of_def)
next
  case (decided a ss k json t c)
  have "status_of d r \<noteq> StFinalized" using decided(3) by auto
  then obtain s where s: "open_scope d r = Some s" using v by (rule not_final_open)
  have "own_events d' r = own_events d r" "own_decisions d' r = own_decisions d r"
    using own_views_append [where es = "[new_event d r ReviewDecided a None t]" and vs = "[new_decision d r a k c t]",
        OF _ _ _ s, of d'] open_scope_marks [OF ok s]
    by (auto simp: decided(2))
  then show ?thesis by (simp add: unseen_def decided(2) record_of_def)
next
  case (amended v s a nm t)
  note own = own_views_amend [OF amended(3,4,2)]
  have "map_option unowned (record_of d' r) = map_option unowned (record_of d r)"
    using record_of_map [of "\<lambda>x. x\<lparr>r_revision := r_revision x + 1\<rparr>" r d r]
    by (simp add: amended(2) map_record_def record_of_def unowned_def)
  with own show ?thesis by (simp add: unseen_def amended(2) map_record_def)
next
  case (acked v u A)
  then show ?thesis by (intro same_unseen) simp_all
qed simp_all

lemma journaled_unseen: "journaled d d' \<Longrightarrow> unseen r d d'"
  by (rule same_unseen) (simp_all add: journaled_tables)

section \<open>A correction\<close>

text \<open>The calls on one record between two of its finalizations.\<close>

definition corrects :: "int \<Rightarrow> call \<Rightarrow> bool" where
  "corrects r l \<longleftrightarrow> (\<exists>k. call_write l = Some (r, k) \<and> k \<noteq> WSeal)"

lemma call_write_created: "call_write l \<noteq> Some (r, WCreate)"
  by (cases l rule: call_write.cases) simp_all

lemma corrects_unseen:
  assumes "service ser to_vec sha d l d'" and "corrects r l" and "db_ok ser sha d" and "record_versions d r \<noteq> []"
  shows "unseen r d d'"
proof -
  have ok: "copy_ok d" "ids_ok (map v_id (versions d))" "streams_sorted d"
    using assms(3) by (simp_all add: db_ok_def records_ok_def tables_ok_def)
  obtain k where k: "call_write l = Some (r, k)" "k \<noteq> WSeal" using assms(2) by (auto simp: corrects_def)
  then obtain x where x: "writes ser sha d r k x" "journaled x d'"
    using service_kinds [OF assms(1) ok(1,2)] by (auto simp: writes_as_def)
  have "k \<noteq> WCreate" using k(1) call_write_created by blast
  from writes_unseen [OF x(1) ok(3) assms(4) k(2) this] journaled_unseen [OF x(2)]
  show ?thesis by (rule unseen_trans)
qed

lemma correction_unseen:
  assumes "run_path (service ser to_vec sha) d ls d'" and "list_all (corrects r) ls"
    and "db_ok ser sha d" and "record_versions d r \<noteq> []"
  shows "unseen r d d'"
  using assms
proof (induction ls arbitrary: d)
  case (Cons l ls)
  then obtain x where x: "service ser to_vec sha d l x" "run_path (service ser to_vec sha) x ls d'" by auto
  have u: "unseen r d x" using corrects_unseen [OF x(1) _ Cons.prems(3,4)] Cons.prems(2) by simp
  then have "record_versions x r \<noteq> []" using Cons.prems(4) by (simp add: unseen_def record_versions_def)
  then have "unseen r x d'"
    using Cons.IH [OF x(2)] sys.inv_step [OF Cons.prems(3) x(1)] Cons.prems(2) by simp
  with u show ?case by (rule unseen_trans)
qed simp

end
