(* ===== verification/Sessions.thy ===== *)
theory Sessions
  imports Access Enrollments
begin

text \<open>
  Training sessions: entered local times and their instants (session_time.rs), trainer
  membership (session_membership.rs), and the lifecycle of a session from creation to its
  disposition (training_sessions.rs, migrations 0007 and 0008). The civil calendar and the
  timezone database are the \<open>jiff\<close> crate's: the parameter \<open>j\<close>.
\<close>

section \<open>Entered times\<close>

record ('tz, 'dt) jiff =
  date_strptime :: "string \<Rightarrow> string \<Rightarrow> bool"
  tz_get :: "string \<Rightarrow> 'tz option"
  dt_strptime :: "string \<Rightarrow> string \<Rightarrow> 'dt option"
  compatible :: "'tz \<Rightarrow> 'dt \<Rightarrow> int option"

datatype time_refusal =
    TrInvalidBusinessDate
  | TrUnknownTimezone
  | TrInvalidLocalTime
  | TrEndBeforeStart

record resolved_times =
  rt_business_date :: string
  rt_timezone :: string
  rt_local_start :: string
  rt_local_end :: "string option"
  rt_utc_start :: int
  rt_utc_end :: "int option"

definition parse_local :: "('tz, 'dt) jiff \<Rightarrow> string \<Rightarrow> 'dt option" where
  "parse_local j v =
     (case dt_strptime j ''%Y-%m-%dT%H:%M:%S'' v of
        Some t \<Rightarrow> Some t
      | None \<Rightarrow> dt_strptime j ''%Y-%m-%dT%H:%M'' v)"

definition resolve_local :: "('tz, 'dt) jiff \<Rightarrow> 'tz \<Rightarrow> string \<Rightarrow> int option" where
  "resolve_local j tz v = Option.bind (parse_local j v) (compatible j tz)"

text \<open>\<open>map(str::trim).filter(not empty)\<close>: blank text is no end.\<close>

definition entered :: "string option \<Rightarrow> string option" where
  "entered v = (case v of None \<Rightarrow> None | Some s \<Rightarrow> if trim s = [] then None else Some (trim s))"

definition resolve ::
    "('tz, 'dt) jiff \<Rightarrow> string \<Rightarrow> string \<Rightarrow> string \<Rightarrow> string option \<Rightarrow> time_refusal + resolved_times" where
  "resolve j business_date timezone local_start local_end =
     (if \<not> date_strptime j ''%Y-%m-%d'' (trim business_date) then Inl TrInvalidBusinessDate
      else case tz_get j (trim timezone) of
        None \<Rightarrow> Inl TrUnknownTimezone
      | Some tz \<Rightarrow>
      (case resolve_local j tz (trim local_start) of
        None \<Rightarrow> Inl TrInvalidLocalTime
      | Some utc_start \<Rightarrow>
          let at = (\<lambda>e. Inr \<lparr>rt_business_date = trim business_date, rt_timezone = trim timezone,
                 rt_local_start = trim local_start, rt_local_end = entered local_end,
                 rt_utc_start = utc_start, rt_utc_end = e\<rparr>) in
          (case entered local_end of
             None \<Rightarrow> at None
           | Some v \<Rightarrow>
               (case resolve_local j tz v of
                  None \<Rightarrow> Inl TrInvalidLocalTime
                | Some t \<Rightarrow> if t < utc_start then Inl TrEndBeforeStart else at (Some t)))))"

definition resolve_end :: "('tz, 'dt) jiff \<Rightarrow> string \<Rightarrow> string \<Rightarrow> int \<Rightarrow> time_refusal + int" where
  "resolve_end j timezone local_end utc_start =
     (case tz_get j timezone of
        None \<Rightarrow> Inl TrUnknownTimezone
      | Some tz \<Rightarrow>
      (case resolve_local j tz local_end of
        None \<Rightarrow> Inl TrInvalidLocalTime
      | Some t \<Rightarrow> if t < utc_start then Inl TrEndBeforeStart else Inr t))"

section \<open>Refusals\<close>

datatype session_refusal =
    SnCapabilityRequired
  | SnNoSuchEnrollment
  | SnEnrollmentInactive
  | SnNoSuchSession
  | SnSessionClosed
  | SnInvalidBusinessDate
  | SnUnknownTimezone
  | SnInvalidLocalTime
  | SnEndBeforeStart
  | SnEndRequired
  | SnEndNotAllowed
  | SnDispositionRequired
  | SnInvalidDisposition
  | SnOverlap
  | SnNoSuchPhase
  | SnNoSuchUser
  | SnTrainerLacksCapability
  | SnAlreadyMember
  | SnNotMember
  | SnLastTrainer
  | SnNoTrainers
  | SnSessionDocumented

fun time_refused :: "time_refusal \<Rightarrow> session_refusal" where
  "time_refused TrInvalidBusinessDate = SnInvalidBusinessDate"
| "time_refused TrUnknownTimezone = SnUnknownTimezone"
| "time_refused TrInvalidLocalTime = SnInvalidLocalTime"
| "time_refused TrEndBeforeStart = SnEndBeforeStart"

section \<open>The session table\<close>

text \<open>\<open>COALESCE(utc_end, 9223372036854775807)\<close>: an open interval has no right end.\<close>

definition interval_end :: "int option \<Rightarrow> int" where
  "interval_end e = (case e of None \<Rightarrow> 9223372036854775807 | Some t \<Rightarrow> t)"

definition trainee_of :: "db \<Rightarrow> int \<Rightarrow> int option" where
  "trainee_of d enrollment_id = map_option e_user_id (enrollment_of d enrollment_id)"

text \<open>
  The subselect both triggers and the service send: an active session of the same trainee whose
  interval meets \<open>[utc_start, utc_end)\<close>, other than the excluded one.
\<close>

definition meets :: "db \<Rightarrow> int \<Rightarrow> int \<Rightarrow> int option \<Rightarrow> training_session_row \<Rightarrow> bool" where
  "meets d enrollment_id utc_start utc_end s \<longleftrightarrow>
     trainee_of d (ts_enrollment_id s) \<noteq> None \<and>
     trainee_of d (ts_enrollment_id s) = trainee_of d enrollment_id \<and>
     ts_disposition s \<noteq> Some SdCancelled \<and>
     ts_utc_start s < interval_end utc_end \<and> utc_start < interval_end (ts_utc_end s)"

definition overlaps :: "db \<Rightarrow> int \<Rightarrow> int \<Rightarrow> int option \<Rightarrow> int \<Rightarrow> bool" where
  "overlaps d enrollment_id utc_start utc_end exclude \<longleftrightarrow>
     list_ex (\<lambda>s. ts_id s \<noteq> exclude \<and> meets d enrollment_id utc_start utc_end s) (training_sessions d)"

definition session_shape :: "training_session_row \<Rightarrow> bool" where
  "session_shape s \<longleftrightarrow>
     0 < sql_length (ts_business_date s) \<and> 0 < sql_length (ts_timezone s) \<and> 0 < sql_length (ts_local_start s) \<and>
     (case ts_utc_end s of None \<Rightarrow> True | Some e \<Rightarrow> ts_utc_start s \<le> e) \<and>
     (ts_local_end s = None) = (ts_utc_end s = None) \<and>
     (ts_closed_at s = None) = (ts_disposition s = None) \<and>
     (ts_closed_by s = None \<or> ts_closed_at s \<noteq> None) \<and>
     (if ts_disposition s = Some SdCompleted \<or> ts_disposition s = Some SdInterrupted
      then ts_utc_end s \<noteq> None else ts_utc_end s = None)"

definition phase_stamped :: "db \<Rightarrow> training_session_row \<Rightarrow> bool" where
  "phase_stamped d s \<longleftrightarrow>
     (case ts_phase_id s of
        None \<Rightarrow> True
      | Some p \<Rightarrow> list_ex (\<lambda>x. ph_id x = p \<and> ph_version_id x = ts_version_id s) (phases (catalog d)))"

definition insert_session :: "training_session_row \<Rightarrow> db \<Rightarrow> db_error + db" where
  "insert_session s d =
     demand (\<not> sql_neq (Some (ts_version_id s))
          (map_option e_version_id (enrollment_of d (ts_enrollment_id s))))
       (Raised ''training_session_stamps_current_pin'')
    (demand (ts_disposition s = Some SdCancelled \<or>
        \<not> list_ex (meets d (ts_enrollment_id s) (ts_utc_start s) (ts_utc_end s)) (training_sessions d))
       (Raised ''training_session_no_overlap_on_insert'')
    (demand (session_shape s) CheckConstraint
    (demand (enrollment_of d (ts_enrollment_id s) \<noteq> None \<and> version_of d (ts_version_id s) \<noteq> None \<and>
        phase_stamped d s \<and> opt_user_ok d (ts_created_by s) \<and> opt_user_ok d (ts_closed_by s)) ForeignKey
    (Inr (d\<lparr>training_sessions := training_sessions d @ [s]\<rparr>)))))"

text \<open>
  An \<open>UPDATE\<close> of one session by id, with the triggers: both updates the services make set a
  column of the overlap trigger; only the one that sets \<open>disposition\<close> runs the mirror trigger
  of migration 0008, which an unset disposition passes. A foreign key is checked where the
  update changes its columns.
\<close>

definition update_session ::
    "int \<Rightarrow> (training_session_row \<Rightarrow> training_session_row) \<Rightarrow> db \<Rightarrow> db_error + db" where
  "update_session session_id f d =
     (case session_of d session_id of
        None \<Rightarrow> Inr d
      | Some old \<Rightarrow>
          let new = f old in
          demand (ts_disposition old = None) (Raised ''training_session_closed_never_changes'')
         (demand (ts_disposition new = Some SdCancelled \<or>
             \<not> overlaps d (ts_enrollment_id old) (ts_utc_start new) (ts_utc_end new) session_id)
            (Raised ''training_session_no_overlap_on_update'')
         (demand (ts_disposition new = Some SdCancelled \<longrightarrow>
             session_id \<notin> set (map es_session_id (record_sessions d)))
            (Raised ''training_session_documented_never_cancels'')
         (demand (session_shape new) CheckConstraint
         (demand ((ts_phase_id new = ts_phase_id old \<and> ts_version_id new = ts_version_id old \<or> phase_stamped d new) \<and>
             (ts_closed_by new = ts_closed_by old \<or> opt_user_ok d (ts_closed_by new))) ForeignKey
         (Inr (d\<lparr>training_sessions :=
            map (\<lambda>s. if ts_id s = session_id then f s else s) (training_sessions d)\<rparr>)))))))"

section \<open>Membership\<close>

definition may_work :: "db \<Rightarrow> int \<Rightarrow> int \<Rightarrow> bool" where
  "may_work d actor session_id \<longleftrightarrow> user_has d actor AssignTraining \<or> is_member d actor session_id"

text \<open>The loop over the candidates, with the list built so far.\<close>

fun validate_each :: "db \<Rightarrow> int list \<Rightarrow> int list \<Rightarrow> session_refusal + int list" where
  "validate_each d seen [] = (if seen = [] then Inl SnNoTrainers else Inr seen)"
| "validate_each d seen (u # us) =
     (if u \<in> set seen then validate_each d seen us
      else if user_of d u = None then Inl SnNoSuchUser
      else if \<not> user_has d u AuthorEvaluation then Inl SnTrainerLacksCapability
      else validate_each d (seen @ [u]) us)"

definition validate_trainers :: "db \<Rightarrow> int \<Rightarrow> int list \<Rightarrow> session_refusal + int list" where
  "validate_trainers d actor requested =
     validate_each d [] (if requested = [] then [actor] else requested)"

definition insert_trainer :: "session_trainer_row \<Rightarrow> db \<Rightarrow> db_error + db" where
  "insert_trainer t d =
     demand (\<not> is_member d (st_trainer t) (st_session_id t)) UniqueIndex
    (demand (session_of d (st_session_id t) \<noteq> None \<and> user_of d (st_trainer t) \<noteq> None \<and>
        opt_user_ok d (st_added_by t)) ForeignKey
    (Inr (d\<lparr>session_trainers := session_trainers d @ [t]\<rparr>)))"

definition insert_member :: "int \<Rightarrow> int \<Rightarrow> int \<Rightarrow> int \<Rightarrow> int \<Rightarrow> db \<Rightarrow> db_error + db" where
  "insert_member session_id trainer actor now audited d =
     seq (insert_trainer
        \<lparr>st_id = next_id (map st_id (session_trainers d)), st_session_id = session_id,
         st_trainer = trainer, st_added_at = now, st_added_by = Some actor\<rparr> d)
       (record_for_subject EvSessionTrainerAdded (Some actor) (Some trainer)
          (SubjSession session_id) audited)"

fun insert_members :: "int \<Rightarrow> int list \<Rightarrow> int \<Rightarrow> int \<Rightarrow> clock \<Rightarrow> nat \<Rightarrow> db \<Rightarrow> db_error + db" where
  "insert_members session_id [] actor now clk n d = Inr d"
| "insert_members session_id (t # ts) actor now clk n d =
     seq (insert_member session_id t actor now (clk n) d)
       (insert_members session_id ts actor now clk (Suc n))"

definition add_trainer :: "db \<Rightarrow> clock \<Rightarrow> db \<Rightarrow> int \<Rightarrow> int \<Rightarrow> int \<Rightarrow> session_refusal service" where
  "add_trainer pre clk d actor session_id trainer =
     (if \<not> may_work pre actor session_id then refuse SnCapabilityRequired
      else if session_of d session_id = None then refuse SnNoSuchSession
      else if user_of d trainer = None then refuse SnNoSuchUser
      else if \<not> user_has d trainer AuthorEvaluation then refuse SnTrainerLacksCapability
      else if is_member d trainer session_id then refuse SnAlreadyMember
      else run (insert_member session_id trainer actor (clk 0) (clk 1) d) (\<lambda>d. Inr d))"

text \<open>The delete, with the floor trigger: it runs for the one row the unique key names.\<close>

definition members :: "db \<Rightarrow> int \<Rightarrow> session_trainer_row list" where
  "members d session_id = filter (\<lambda>t. st_session_id t = session_id) (session_trainers d)"

definition delete_trainer :: "int \<Rightarrow> int \<Rightarrow> db \<Rightarrow> db_error + db" where
  "delete_trainer session_id trainer d =
     (let hit = (\<lambda>t. st_session_id t = session_id \<and> st_trainer t = trainer) in
      demand (list_ex hit (session_trainers d) \<longrightarrow> length (members d session_id) \<noteq> 1)
        (Raised ''session_trainer_keeps_one'')
        (Inr (d\<lparr>session_trainers := filter (\<lambda>t. \<not> hit t) (session_trainers d)\<rparr>)))"

definition remove_trainer :: "db \<Rightarrow> clock \<Rightarrow> db \<Rightarrow> int \<Rightarrow> int \<Rightarrow> int \<Rightarrow> session_refusal service" where
  "remove_trainer pre clk d actor session_id trainer =
     (if \<not> user_has pre actor AssignTraining then refuse SnCapabilityRequired
      else if \<not> is_member d trainer session_id then refuse SnNotMember
      else if length (members d session_id) \<le> 1 then refuse SnLastTrainer
      else
        run (delete_trainer session_id trainer d) (\<lambda>d.
        run (record_for_subject EvSessionTrainerRemoved (Some actor) (Some trainer)
               (SubjSession session_id) (clk 0) d) (\<lambda>d. Inr d)))"

section \<open>The lifecycle of a session\<close>

record session_input =
  si_business_date :: string
  si_timezone :: string
  si_local_start :: string
  si_local_end :: "string option"
  si_disposition :: "session_disposition option"
  si_phase_id :: "int option"
  si_trainers :: "int list"

record session_update =
  su_business_date :: string
  su_timezone :: string
  su_local_start :: string
  su_phase_id :: "int option"

definition may_create :: "db \<Rightarrow> int \<Rightarrow> int \<Rightarrow> bool" where
  "may_create d actor enrollment_id \<longleftrightarrow>
     user_has d actor AssignTraining \<or>
     user_has d actor AuthorEvaluation \<and> is_assigned d actor enrollment_id"

fun end_rule :: "session_disposition option \<Rightarrow> string option \<Rightarrow> session_refusal option" where
  "end_rule None (Some _) = Some SnDispositionRequired"
| "end_rule (Some SdCancelled) _ = Some SnInvalidDisposition"
| "end_rule (Some _) None = Some SnEndRequired"
| "end_rule _ _ = None"

definition phase_in_version :: "db \<Rightarrow> int \<Rightarrow> int \<Rightarrow> bool" where
  "phase_in_version d phase version \<longleftrightarrow>
     list_ex (\<lambda>p. ph_id p = phase \<and> ph_version_id p = version) (phases (catalog d))"

definition new_session ::
    "db \<Rightarrow> int \<Rightarrow> int \<Rightarrow> resolved_times \<Rightarrow> session_input \<Rightarrow> int \<Rightarrow> int \<Rightarrow> training_session_row" where
  "new_session d enrollment_id pinned at input now actor =
     (let closed = si_disposition input \<noteq> None in
      \<lparr>ts_id = next_id (map ts_id (training_sessions d)), ts_enrollment_id = enrollment_id,
       ts_version_id = pinned, ts_business_date = rt_business_date at,
       ts_timezone = rt_timezone at, ts_local_start = rt_local_start at,
       ts_local_end = rt_local_end at, ts_utc_start = rt_utc_start at,
       ts_utc_end = rt_utc_end at, ts_phase_id = si_phase_id input,
       ts_disposition = si_disposition input, ts_created_at = now, ts_created_by = Some actor,
       ts_closed_at = (if closed then Some now else None),
       ts_closed_by = (if closed then Some actor else None)\<rparr>)"

definition create_session ::
    "('tz, 'dt) jiff \<Rightarrow> db \<Rightarrow> clock \<Rightarrow> db \<Rightarrow> int \<Rightarrow> int \<Rightarrow> session_input
      \<Rightarrow> (session_refusal, db \<times> int) outcome" where
  "create_session j pre clk d actor enrollment_id input =
     (if \<not> may_create pre actor enrollment_id then refuse SnCapabilityRequired
      else case end_rule (si_disposition input) (entered (si_local_end input)) of
        Some refusal \<Rightarrow> refuse refusal
      | None \<Rightarrow>
      (case resolve j (si_business_date input) (si_timezone input) (si_local_start input)
             (entered (si_local_end input)) of
        Inl refusal \<Rightarrow> refuse (time_refused refusal)
      | Inr at \<Rightarrow>
      (case status d enrollment_id of
        None \<Rightarrow> refuse SnNoSuchEnrollment
      | Some st \<Rightarrow>
          if st \<noteq> Active then refuse SnEnrollmentInactive
          else fetch_one (map_option e_version_id (enrollment_of d enrollment_id)) (\<lambda>pinned.
          if (case si_phase_id input of None \<Rightarrow> False | Some p \<Rightarrow> \<not> phase_in_version d p pinned)
          then refuse SnNoSuchPhase
          else case validate_trainers d actor (si_trainers input) of
            Inl refusal \<Rightarrow> refuse refusal
          | Inr trainers \<Rightarrow>
              if overlaps d enrollment_id (rt_utc_start at) (rt_utc_end at) 0 then refuse SnOverlap
              else
                let s = new_session d enrollment_id pinned at input (clk 0) actor in
                run (insert_session s d) (\<lambda>d.
                fetch_one (trainee_of d enrollment_id) (\<lambda>trainee.
                run (record_for_subject EvSessionCreated (Some actor) (Some trainee)
                       (SubjSession (ts_id s)) (clk 1) d) (\<lambda>d.
                run (insert_members (ts_id s) trainers actor (clk 0) clk 2 d) (\<lambda>d.
                Inr (d, ts_id s)))))))))"

definition update_open ::
    "('tz, 'dt) jiff \<Rightarrow> db \<Rightarrow> clock \<Rightarrow> db \<Rightarrow> int \<Rightarrow> int \<Rightarrow> session_update \<Rightarrow> session_refusal service" where
  "update_open j pre clk d actor session_id input =
     (if \<not> may_work pre actor session_id then refuse SnCapabilityRequired
      else case resolve j (su_business_date input) (su_timezone input) (su_local_start input) None of
        Inl refusal \<Rightarrow> refuse (time_refused refusal)
      | Inr at \<Rightarrow>
      (case session_of d session_id of
        None \<Rightarrow> refuse SnNoSuchSession
      | Some s \<Rightarrow>
          if ts_disposition s \<noteq> None then refuse SnSessionClosed
          else if (case su_phase_id input of
                     None \<Rightarrow> False
                   | Some p \<Rightarrow> Some p \<noteq> ts_phase_id s \<and> \<not> phase_in_version d p (ts_version_id s))
          then refuse SnNoSuchPhase
          else if overlaps d (ts_enrollment_id s) (rt_utc_start at) None session_id
          then refuse SnOverlap
          else
            run (update_session session_id (\<lambda>s. s\<lparr>ts_business_date := rt_business_date at,
                   ts_timezone := rt_timezone at, ts_local_start := rt_local_start at,
                   ts_utc_start := rt_utc_start at, ts_phase_id := su_phase_id input\<rparr>) d) (\<lambda>d.
            run (record_for_subject EvSessionUpdated (Some actor) None (SubjSession session_id)
                   (clk 0) d) (\<lambda>d. Inr d))))"

text \<open>The two columns a disposition sets, or its refusal.\<close>

definition closing ::
    "('tz, 'dt) jiff \<Rightarrow> db \<Rightarrow> training_session_row \<Rightarrow> session_disposition \<Rightarrow> string option
      \<Rightarrow> session_refusal + (string \<times> int) option" where
  "closing j d s disposition local_end =
     (if disposition = SdCancelled then
        if ts_id s \<in> set (map es_session_id (record_sessions d)) then Inl SnSessionDocumented
        else if local_end \<noteq> None then Inl SnEndNotAllowed
        else Inr None
      else case local_end of
        None \<Rightarrow> Inl SnEndRequired
      | Some v \<Rightarrow>
          (case resolve_end j (ts_timezone s) v (ts_utc_start s) of
             Inl refusal \<Rightarrow> Inl (time_refused refusal)
           | Inr t \<Rightarrow> Inr (Some (v, t))))"

definition close_session ::
    "('tz, 'dt) jiff \<Rightarrow> db \<Rightarrow> clock \<Rightarrow> db \<Rightarrow> int \<Rightarrow> int \<Rightarrow> session_disposition \<Rightarrow> string option
      \<Rightarrow> session_refusal service" where
  "close_session j pre clk d actor session_id disposition local_end =
     (if \<not> may_work pre actor session_id then refuse SnCapabilityRequired
      else case session_of d session_id of
        None \<Rightarrow> refuse SnNoSuchSession
      | Some s \<Rightarrow>
          if ts_disposition s \<noteq> None then refuse SnSessionClosed
          else case closing j d s disposition (entered local_end) of
            Inl refusal \<Rightarrow> refuse refusal
          | Inr e \<Rightarrow>
              run (update_session session_id (\<lambda>s. s\<lparr>ts_local_end := map_option fst e,
                     ts_utc_end := map_option snd e, ts_disposition := Some disposition,
                     ts_closed_at := Some (clk 0), ts_closed_by := Some actor\<rparr>) d) (\<lambda>d.
              run (record_for_subject EvSessionClosed (Some actor) None (SubjSession session_id)
                     (clk 1) d) (\<lambda>d. Inr d)))"

section \<open>Reads\<close>

record session_trainer_view =
  tv_user_id :: int
  tv_username :: string
  tv_display_name :: string
  tv_added_at :: int

record session_view =
  sw_session :: training_session_row
  sw_phase_name :: "string option"
  sw_draft_id :: "int option"
  sw_trainers :: "session_trainer_view list"

record session_detail =
  sd_session :: session_view
  sd_trainee :: int
  sd_trainee_username :: string
  sd_trainee_name :: string
  sd_program_id :: int
  sd_program_name :: string
  sd_version_number :: int

definition trainers_for :: "db \<Rightarrow> int \<Rightarrow> session_trainer_view list" where
  "trainers_for d session_id =
     List.map_filter (\<lambda>t. map_option (\<lambda>u.
         \<lparr>tv_user_id = st_trainer t, tv_username = u_username u, tv_display_name = u_display_name u,
          tv_added_at = st_added_at t\<rparr>) (user_of d (st_trainer t)))
       (sort_key (\<lambda>t. (st_added_at t, st_id t)) (members d session_id))"

text \<open>The scalar subselect of \<open>draft_id_select\<close>: the first record that covers the session.\<close>

definition draft_id :: "db \<Rightarrow> int \<Rightarrow> int option" where
  "draft_id d session_id =
     (case sort (map es_record_id (filter (\<lambda>e. es_session_id e = session_id) (record_sessions d))) of
        [] \<Rightarrow> None
      | r # _ \<Rightarrow> Some r)"

definition session_view_of :: "db \<Rightarrow> training_session_row \<Rightarrow> session_view" where
  "session_view_of d s =
     \<lparr>sw_session = s, sw_phase_name = Option.bind (ts_phase_id s) (\<lambda>p. map_option ph_name (phase_of d p)),
      sw_draft_id = draft_id d (ts_id s), sw_trainers = trainers_for d (ts_id s)\<rparr>"

definition list_sessions :: "db \<Rightarrow> int \<Rightarrow> int \<Rightarrow> (session_refusal, session_view list) outcome" where
  "list_sessions d actor enrollment_id =
     (if \<not> may_read_enrollment d actor enrollment_id then refuse SnCapabilityRequired
      else if enrollment_of d enrollment_id = None then refuse SnNoSuchEnrollment
      else Inr (map (session_view_of d)
        (sort_key (\<lambda>s. (- ts_utc_start s, - ts_id s))
          (filter (\<lambda>s. ts_enrollment_id s = enrollment_id) (training_sessions d)))))"

text \<open>The inner joins of a session: its enrollment, trainee and stamped version.\<close>

definition session_detail_of :: "db \<Rightarrow> training_session_row \<Rightarrow> session_detail option" where
  "session_detail_of d s =
     Option.bind (enrollment_of d (ts_enrollment_id s)) (\<lambda>e.
     Option.bind (user_of d (e_user_id e)) (\<lambda>u.
     map_option (\<lambda>pv.
         \<lparr>sd_session = session_view_of d s, sd_trainee = e_user_id e, sd_trainee_username = u_username u,
          sd_trainee_name = u_display_name u, sd_program_id = pv_program_id pv,
          sd_program_name = pv_name pv, sd_version_number = pv_version_number pv\<rparr>)
       (version_of d (ts_version_id s))))"

definition get_session :: "db \<Rightarrow> int \<Rightarrow> int \<Rightarrow> (session_refusal, session_detail) outcome" where
  "get_session d actor session_id =
     (if \<not> (may_work d actor session_id \<or>
            (case session_of d session_id of
               None \<Rightarrow> False
             | Some s \<Rightarrow> may_read_enrollment d actor (ts_enrollment_id s)))
      then refuse SnCapabilityRequired
      else case Option.bind (session_of d session_id) (session_detail_of d) of
        None \<Rightarrow> refuse SnNoSuchSession
      | Some x \<Rightarrow> Inr x)"

record my_session =
  ym_session_id :: int
  ym_enrollment_id :: int
  ym_business_date :: string
  ym_timezone :: string
  ym_local_start :: string
  ym_local_end :: "string option"
  ym_utc_start :: int
  ym_disposition :: "session_disposition option"
  ym_phase_name :: "string option"
  ym_trainee :: int
  ym_trainee_username :: string
  ym_trainee_name :: string
  ym_program_name :: string
  ym_version_number :: int
  ym_draft_id :: "int option"

definition my_session_of :: "session_detail \<Rightarrow> my_session" where
  "my_session_of x =
     (let v = sd_session x; s = sw_session v in
      \<lparr>ym_session_id = ts_id s, ym_enrollment_id = ts_enrollment_id s,
       ym_business_date = ts_business_date s, ym_timezone = ts_timezone s,
       ym_local_start = ts_local_start s, ym_local_end = ts_local_end s,
       ym_utc_start = ts_utc_start s, ym_disposition = ts_disposition s,
       ym_phase_name = sw_phase_name v, ym_trainee = sd_trainee x,
       ym_trainee_username = sd_trainee_username x, ym_trainee_name = sd_trainee_name x,
       ym_program_name = sd_program_name x, ym_version_number = sd_version_number x,
       ym_draft_id = sw_draft_id v\<rparr>)"

definition list_mine :: "db \<Rightarrow> int \<Rightarrow> (session_refusal, my_session list) outcome" where
  "list_mine d actor =
     (if \<not> user_has d actor AuthorEvaluation then refuse SnCapabilityRequired
      else Inr (List.map_filter (\<lambda>s. map_option my_session_of (session_detail_of d s))
        (sort_key (\<lambda>s. (ts_disposition s \<noteq> None, - ts_utc_start s, - ts_id s))
          (List.map_filter (\<lambda>t. session_of d (st_session_id t))
            (filter (\<lambda>t. st_trainer t = actor) (session_trainers d))))))"

end
