(* ===== verification/Attendance.thy ===== *)
theory Attendance
  imports Sessions System
begin

text \<open>
  Correctness of training sessions: what each operation writes, and the invariant every one of
  them keeps: no trainee is in two sessions at once, every session has a trainer, a settled
  session never changes, and a session a record covers was not cancelled.
\<close>

section \<open>What the operations write\<close>

lemma insert_trainer_Inr [row_simps]:
  "insert_trainer t d = Inr d' \<longleftrightarrow>
     \<not> is_member d (st_trainer t) (st_session_id t) \<and> session_of d (st_session_id t) \<noteq> None \<and>
     user_of d (st_trainer t) \<noteq> None \<and> opt_user_ok d (st_added_by t) \<and>
     d' = d\<lparr>session_trainers := session_trainers d @ [t]\<rparr>"
  by (auto simp: insert_trainer_def demand_def)

lemma is_member_in:
  "is_member d u s \<longleftrightarrow> (s, u) \<in> set (map (\<lambda>t. (st_session_id t, st_trainer t)) (session_trainers d))"
  by (auto simp: is_member_def list_ex_iff)

lemma journaled_trainers:
  assumes "journaled (d\<lparr>session_trainers := ts\<rparr>) x"
    and "journaled (x\<lparr>session_trainers := us\<rparr>) y"
  shows "journaled (d\<lparr>session_trainers := us\<rparr>) y"
  using assms by (auto simp: journaled_def) (intro exI, rule refl)

lemma insert_member_effect:
  assumes "insert_member s u actor now t d = Inr d'"
  shows "\<exists>m. st_session_id m = s \<and> st_trainer m = u \<and> \<not> is_member d u s \<and> session_of d s \<noteq> None \<and>
    journaled (d\<lparr>session_trainers := session_trainers d @ [m]\<rparr>) d'"
  using assms
  by (auto simp: insert_member_def guard_simps row_simps intro!: exI dest!: journaled_record_for_subject)

lemma insert_members_effect:
  assumes "insert_members s us actor now clk n d = Inr d'"
  shows "\<exists>ms. map st_trainer ms = us \<and> (\<forall>m \<in> set ms. st_session_id m = s) \<and>
    (distinct (map (\<lambda>t. (st_session_id t, st_trainer t)) (session_trainers d)) \<longrightarrow>
      distinct (map (\<lambda>t. (st_session_id t, st_trainer t)) (session_trainers d @ ms))) \<and>
    journaled (d\<lparr>session_trainers := session_trainers d @ ms\<rparr>) d'"
  using assms
proof (induction us arbitrary: d n)
  case Nil
  then show ?case by (intro exI [of _ "[]"]) simp
next
  case (Cons u us)
  then obtain x where x: "insert_member s u actor now (clk n) d = Inr x"
    and rest: "insert_members s us actor now clk (Suc n) x = Inr d'"
    by (auto simp: guard_simps)
  from insert_member_effect [OF x] obtain m where m: "st_session_id m = s" "st_trainer m = u"
      "\<not> is_member d u s" "journaled (d\<lparr>session_trainers := session_trainers d @ [m]\<rparr>) x"
    by blast
  from Cons.IH [OF rest] obtain ms where ms: "map st_trainer ms = us" "\<forall>m \<in> set ms. st_session_id m = s"
      "distinct (map (\<lambda>t. (st_session_id t, st_trainer t)) (session_trainers x)) \<longrightarrow>
        distinct (map (\<lambda>t. (st_session_id t, st_trainer t)) (session_trainers x @ ms))"
      "journaled (x\<lparr>session_trainers := session_trainers x @ ms\<rparr>) d'"
    by blast
  have tx: "session_trainers x = session_trainers d @ [m]"
    using journaled_tables(9) [OF m(4)] by simp
  have "journaled (d\<lparr>session_trainers := session_trainers d @ m # ms\<rparr>) d'"
    using journaled_trainers [OF m(4) ms(4)] by (simp add: tx)
  with m ms show ?case
    by (intro exI [of _ "m # ms"]) (auto simp: tx is_member_in)
qed

lemma insert_session_Inr [row_simps]:
  "insert_session s d = Inr d' \<longleftrightarrow>
     \<not> sql_neq (Some (ts_version_id s)) (map_option e_version_id (enrollment_of d (ts_enrollment_id s))) \<and>
     (ts_disposition s = Some SdCancelled \<or>
       (\<forall>t \<in> set (training_sessions d). \<not> meets d (ts_enrollment_id s) (ts_utc_start s) (ts_utc_end s) t)) \<and>
     session_shape s \<and> enrollment_of d (ts_enrollment_id s) \<noteq> None \<and> version_of d (ts_version_id s) \<noteq> None \<and>
     phase_stamped d s \<and> opt_user_ok d (ts_created_by s) \<and> opt_user_ok d (ts_closed_by s) \<and>
     d' = d\<lparr>training_sessions := training_sessions d @ [s]\<rparr>"
  by (auto simp: insert_session_def demand_def list_ex_iff)

lemma validate_each_nonempty: "validate_each d seen us = Inr ts \<Longrightarrow> ts \<noteq> []"
  by (induction d seen us rule: validate_each.induct) (auto split: if_splits)

lemma create_session_effect:
  assumes "create_session j pre clk d actor e input = Inr (d', i)"
  shows "\<exists>s ms. ts_id s = next_id (map ts_id (training_sessions d)) \<and> ts_enrollment_id s = e \<and>
    ts_disposition s \<noteq> Some SdCancelled \<and>
    (\<forall>t \<in> set (training_sessions d). \<not> meets d e (ts_utc_start s) (ts_utc_end s) t) \<and>
    session_shape s \<and> enrollment_of d e \<noteq> None \<and> ms \<noteq> [] \<and> (\<forall>m \<in> set ms. st_session_id m = ts_id s) \<and>
    (distinct (map (\<lambda>t. (st_session_id t, st_trainer t)) (session_trainers d)) \<longrightarrow>
      distinct (map (\<lambda>t. (st_session_id t, st_trainer t)) (session_trainers d @ ms))) \<and>
    journaled (d\<lparr>training_sessions := training_sessions d @ [s],
      session_trainers := session_trainers d @ ms\<rparr>) d'"
proof -
  from assms obtain at pinned ts x y where
      rule: "end_rule (si_disposition input) (entered (si_local_end input)) = None"
    and ts: "validate_trainers d actor (si_trainers input) = Inr ts"
    and s: "insert_session (new_session d e pinned at input (clk 0) actor) d = Inr x"
    and y: "record_for_subject EvSessionCreated (Some actor) (trainee_of x e)
       (SubjSession (ts_id (new_session d e pinned at input (clk 0) actor))) (clk 1) x = Inr y"
    and m: "insert_members (ts_id (new_session d e pinned at input (clk 0) actor)) ts actor (clk 0) clk 2 y = Inr d'"
    by (fastforce simp: create_session_def Let_def guard_simps)
  let ?s = "new_session d e pinned at input (clk 0) actor"
  have f: "ts_id ?s = next_id (map ts_id (training_sessions d))" "ts_enrollment_id ?s = e"
    "ts_disposition ?s = si_disposition input"
    by (simp_all add: new_session_def Let_def)
  have nc: "si_disposition input \<noteq> Some SdCancelled"
    using rule by (cases "entered (si_local_end input)") auto
  have jy: "journaled x y" by (rule journaled_record_for_subject [OF y])
  obtain ms where ms: "map st_trainer ms = ts" "\<forall>m \<in> set ms. st_session_id m = ts_id ?s"
      "distinct (map (\<lambda>t. (st_session_id t, st_trainer t)) (session_trainers y)) \<longrightarrow>
        distinct (map (\<lambda>t. (st_session_id t, st_trainer t)) (session_trainers y @ ms))"
      "journaled (y\<lparr>session_trainers := session_trainers y @ ms\<rparr>) d'"
    using insert_members_effect [OF m] by blast
  have x: "x = d\<lparr>training_sessions := training_sessions d @ [?s]\<rparr>"
    using s by (simp add: row_simps)
  have ty: "session_trainers y = session_trainers d"
    using journaled_tables(9) [OF jy] by (simp add: x)
  have "journaled (x\<lparr>session_trainers := session_trainers x\<rparr>) y" using jy by simp
  from journaled_trainers [OF this ms(4)] have
    "journaled (d\<lparr>training_sessions := training_sessions d @ [?s],
      session_trainers := session_trainers d @ ms\<rparr>) d'"
    by (simp add: x ty)
  moreover have "ms \<noteq> []"
    using ms(1) ts validate_each_nonempty by (auto simp: validate_trainers_def)
  ultimately show ?thesis
    using s f nc ms(2,3) by (intro exI [of _ ?s] exI [of _ ms]) (auto simp: row_simps ty)
qed

lemma update_session_Inr:
  assumes "update_session i f d = Inr d'" and "session_of d i = Some old"
  shows "ts_disposition old = None \<and>
    (ts_disposition (f old) = Some SdCancelled \<or>
      \<not> overlaps d (ts_enrollment_id old) (ts_utc_start (f old)) (ts_utc_end (f old)) i) \<and>
    (ts_disposition (f old) = Some SdCancelled \<longrightarrow> i \<notin> set (map es_session_id (record_sessions d))) \<and>
    session_shape (f old) \<and>
    d' = d\<lparr>training_sessions := map (\<lambda>s. if ts_id s = i then f s else s) (training_sessions d)\<rparr>"
  using assms by (simp add: update_session_def Let_def guard_simps)

text \<open>What updating and closing have in common: the row changes, its id and enrollment do not.\<close>

definition revised :: "db \<Rightarrow> int \<Rightarrow> (training_session_row \<Rightarrow> training_session_row) \<Rightarrow> db \<Rightarrow> bool" where
  "revised d i f d' \<longleftrightarrow>
     (\<forall>s. ts_id (f s) = ts_id s \<and> ts_enrollment_id (f s) = ts_enrollment_id s) \<and>
     (\<exists>x old. session_of d i = Some old \<and> update_session i f d = Inr x \<and> journaled x d')"

lemma update_open_effect:
  assumes "update_open j pre clk d actor i input = Inr d'"
  shows "\<exists>f. revised d i f d'"
proof -
  from assms obtain old x and at :: resolved_times where u: "session_of d i = Some old"
      "update_session i (\<lambda>s. s\<lparr>ts_business_date := rt_business_date at,
         ts_timezone := rt_timezone at, ts_local_start := rt_local_start at,
         ts_utc_start := rt_utc_start at, ts_phase_id := su_phase_id input\<rparr>) d = Inr x"
      "record_for_subject EvSessionUpdated (Some actor) None (SubjSession i) (clk 0) x = Inr d'"
    by (auto simp: update_open_def guard_simps)
  then show ?thesis
    unfolding revised_def using journaled_record_for_subject [OF u(3)]
    by (intro exI conjI, rule_tac [2] u(1), rule_tac [2] u(2)) simp_all
qed

lemma close_session_effect:
  assumes "close_session j pre clk d actor i k local_end = Inr d'"
  shows "\<exists>f. revised d i f d'"
proof -
  from assms obtain e old x where u: "session_of d i = Some old"
      "update_session i (\<lambda>s. s\<lparr>ts_local_end := map_option fst e,
         ts_utc_end := map_option snd e, ts_disposition := Some k,
         ts_closed_at := Some (clk 0), ts_closed_by := Some actor\<rparr>) d = Inr x"
      "record_for_subject EvSessionClosed (Some actor) None (SubjSession i) (clk 1) x = Inr d'"
    by (auto simp: close_session_def guard_simps)
  then show ?thesis
    unfolding revised_def using journaled_record_for_subject [OF u(3)]
    by (intro exI conjI, rule_tac [2] u(1), rule_tac [2] u(2)) simp_all
qed

lemma add_trainer_effect:
  assumes "add_trainer pre clk d actor s u = Inr d'"
  shows "\<exists>m. st_session_id m = s \<and> st_trainer m = u \<and> \<not> is_member d u s \<and> session_of d s \<noteq> None \<and>
    journaled (d\<lparr>session_trainers := session_trainers d @ [m]\<rparr>) d'"
  by (rule insert_member_effect) (use assms in \<open>auto simp: add_trainer_def guard_simps\<close>)

lemma remove_trainer_effect:
  assumes "remove_trainer pre clk d actor s u = Inr d'"
  shows "1 < length (members d s) \<and>
    journaled (d\<lparr>session_trainers :=
      filter (\<lambda>t. \<not> (st_session_id t = s \<and> st_trainer t = u)) (session_trainers d)\<rparr>) d'"
  using assms
  by (auto simp: remove_trainer_def delete_trainer_def Let_def guard_simps dest: journaled_record_for_subject)

section \<open>The invariant\<close>

definition clash :: "db \<Rightarrow> training_session_row \<Rightarrow> training_session_row \<Rightarrow> bool" where
  "clash d s t \<longleftrightarrow>
     ts_disposition s \<noteq> Some SdCancelled \<and> meets d (ts_enrollment_id s) (ts_utc_start s) (ts_utc_end s) t"

lemma clash_sym: "clash d s t \<Longrightarrow> clash d t s"
  by (auto simp: clash_def meets_def)

definition no_overlap :: "db \<Rightarrow> bool" where
  "no_overlap d \<longleftrightarrow>
     (\<forall>s \<in> set (training_sessions d). \<forall>t \<in> set (training_sessions d). ts_id s \<noteq> ts_id t \<longrightarrow> \<not> clash d s t)"

definition live :: "db \<Rightarrow> int \<Rightarrow> bool" where
  "live d i \<longleftrightarrow> (\<exists>s. session_of d i = Some s \<and> ts_disposition s \<noteq> Some SdCancelled)"

definition roster :: "db \<Rightarrow> (int \<times> int) list" where
  "roster d = map (\<lambda>t. (st_session_id t, st_trainer t)) (session_trainers d)"

definition sessions_ok :: "db \<Rightarrow> bool" where
  "sessions_ok d \<longleftrightarrow>
     ids_ok (map ts_id (training_sessions d)) \<and> no_overlap d \<and>
     (\<forall>s \<in> set (training_sessions d). session_shape s \<and> trainee_of d (ts_enrollment_id s) \<noteq> None \<and>
        members d (ts_id s) \<noteq> []) \<and>
     distinct (roster d) \<and> (\<forall>t \<in> set (session_trainers d). session_of d (st_session_id t) \<noteq> None) \<and>
     (\<forall>e \<in> set (record_sessions d). live d (es_session_id e))"

lemma sessions_okI:
  assumes "ids_ok (map ts_id (training_sessions d))" "no_overlap d"
    and "\<And>s. s \<in> set (training_sessions d) \<Longrightarrow>
      session_shape s \<and> trainee_of d (ts_enrollment_id s) \<noteq> None \<and> members d (ts_id s) \<noteq> []"
    and "distinct (roster d)" "\<And>t. t \<in> set (session_trainers d) \<Longrightarrow> session_of d (st_session_id t) \<noteq> None"
    and "\<And>e. e \<in> set (record_sessions d) \<Longrightarrow> live d (es_session_id e)"
  shows "sessions_ok d"
  using assms unfolding sessions_ok_def by blast

lemma session_of_in: "session_of d i = Some s \<Longrightarrow> s \<in> set (training_sessions d) \<and> ts_id s = i"
  by (auto simp: session_of_def dest: find_eq_SomeD)

lemma trainee_of_journal: "journaled d d' \<Longrightarrow> trainee_of d' = trainee_of d"
  by (simp add: trainee_of_def fun_eq_iff enrollment_of_def journaled_tables)

text \<open>What the rest of the program does keeps it: sessions and rosters stay, people stay.\<close>

lemma sessions_ok_frame:
  assumes "sessions_ok d" and "training_sessions d' = training_sessions d"
    and "session_trainers d' = session_trainers d"
    and people: "\<And>i u. trainee_of d i = Some u \<Longrightarrow> trainee_of d' i = Some u"
    and covered: "\<And>e. e \<in> set (record_sessions d') \<Longrightarrow> e \<in> set (record_sessions d) \<or> live d (es_session_id e)"
  shows "sessions_ok d'"
proof -
  have tr: "trainee_of d' (ts_enrollment_id s) = trainee_of d (ts_enrollment_id s)"
    if "s \<in> set (training_sessions d)" for s
    using assms(1) that people by (fastforce simp: sessions_ok_def)
  have "meets d' (ts_enrollment_id s) a b t = meets d (ts_enrollment_id s) a b t"
    if "s \<in> set (training_sessions d)" "t \<in> set (training_sessions d)" for s t a b
    using tr that by (simp add: meets_def)
  then have "no_overlap d'"
    using assms(1,2) by (simp add: sessions_ok_def no_overlap_def clash_def)
  moreover have so: "session_of d' = session_of d" "members d' = members d" "roster d' = roster d"
    using assms(2,3) by (simp_all add: session_of_def members_def roster_def fun_eq_iff)
  moreover have "live d' (es_session_id e)" if "e \<in> set (record_sessions d')" for e
    using covered [OF that] assms(1) by (auto simp: live_def sessions_ok_def so(1))
  ultimately show ?thesis
    using assms(1-3) tr unfolding sessions_ok_def by simp
qed

lemma sessions_ok_journaled: "journaled d d' \<Longrightarrow> sessions_ok d \<Longrightarrow> sessions_ok d'"
  by (rule sessions_ok_frame [of d]) (simp_all add: journaled_tables trainee_of_journal)

lemma create_session_ok:
  assumes ok: "sessions_ok d" and "create_session j pre clk d actor e input = Inr (d', i)"
  shows "sessions_ok d'"
proof -
  from create_session_effect [OF assms(2)] obtain s ms where
      i: "ts_id s = next_id (map ts_id (training_sessions d))" "ts_enrollment_id s = e"
    and free: "\<forall>t \<in> set (training_sessions d). \<not> meets d e (ts_utc_start s) (ts_utc_end s) t"
    and s: "session_shape s" "enrollment_of d e \<noteq> None"
    and ms: "ms \<noteq> []" "\<forall>m \<in> set ms. st_session_id m = ts_id s"
    and r: "distinct (map (\<lambda>t. (st_session_id t, st_trainer t)) (session_trainers d)) \<longrightarrow>
      distinct (map (\<lambda>t. (st_session_id t, st_trainer t)) (session_trainers d @ ms))"
    and j: "journaled (d\<lparr>training_sessions := training_sessions d @ [s],
      session_trainers := session_trainers d @ ms\<rparr>) d'"
    by blast
  let ?d = "d\<lparr>training_sessions := training_sessions d @ [s], session_trainers := session_trainers d @ ms\<rparr>"
  have tr: "trainee_of ?d = trainee_of d" "meets ?d = meets d" "clash ?d = clash d"
    by (simp_all add: trainee_of_def enrollment_of_def fun_eq_iff meets_def clash_def)
  have so: "session_of ?d q = (case session_of d q of None \<Rightarrow> if q = ts_id s then Some s else None | Some x \<Rightarrow> Some x)" for q
    by (auto simp: session_of_def find_snoc split: option.splits)
  have c1: "\<not> clash d s t" if "t \<in> set (training_sessions d)" for t
    using free i(2) that by (simp add: clash_def)
  have c2: "\<not> clash d t s" if "t \<in> set (training_sessions d)" for t
    using c1 [OF that] clash_sym [of d t s] by blast
  have "no_overlap d" using ok by (simp add: sessions_ok_def)
  then have "no_overlap ?d"
    unfolding no_overlap_def tr using c1 c2 by auto
  moreover have "ids_ok (map ts_id (training_sessions ?d))"
    using ok i(1) by (simp add: sessions_ok_def)
  moreover have "members ?d (ts_id s) \<noteq> []"
    using ms by (cases ms) (auto simp: members_def)
  moreover have "members ?d q \<noteq> []" if "members d q \<noteq> []" for q
    using that by (auto simp: members_def)
  moreover have "live ?d q" if "live d q" for q
    using that by (auto simp: live_def so)
  moreover have "session_of ?d (st_session_id t) \<noteq> None" if "t \<in> set (session_trainers d) \<or> t \<in> set ms" for t
    using that ok ms(2) by (auto simp: so sessions_ok_def split: option.splits)
  moreover have "trainee_of d e \<noteq> None"
    using s(2) by (simp add: trainee_of_def)
  moreover have "distinct (roster ?d)"
    using ok r by (simp add: sessions_ok_def roster_def)
  moreover have "record_sessions ?d = record_sessions d" by simp
  ultimately have "sessions_ok ?d"
    using ok s(1) unfolding sessions_ok_def tr by (auto simp: i(2))
  then show ?thesis by (rule sessions_ok_journaled [OF j])
qed

lemma revised_ok:
  assumes ok: "sessions_ok d" and "revised d i f d'"
  shows "sessions_ok d'"
proof -
  from assms(2) obtain x old where
      f: "\<And>s. ts_id (f s) = ts_id s" "\<And>s. ts_enrollment_id (f s) = ts_enrollment_id s"
    and old: "session_of d i = Some old" and u: "update_session i f d = Inr x" and j: "journaled x d'"
    unfolding revised_def by blast
  let ?g = "\<lambda>s. if ts_id s = i then f s else s"
  let ?d = "d\<lparr>training_sessions := map ?g (training_sessions d)\<rparr>"
  from update_session_Inr [OF u old] have x: "x = ?d" and shape: "session_shape (f old)"
    and free: "ts_disposition (f old) = Some SdCancelled \<or>
      \<not> overlaps d (ts_enrollment_id old) (ts_utc_start (f old)) (ts_utc_end (f old)) i"
    and docd: "ts_disposition (f old) = Some SdCancelled \<longrightarrow> i \<notin> set (map es_session_id (record_sessions d))"
    by auto
  have ids: "ids_ok (map ts_id (training_sessions d))" and no: "no_overlap d"
    using ok by (simp_all add: sessions_ok_def)
  have only: "s = old" if "s \<in> set (training_sessions d)" "ts_id s = i" for s
    using find_id_unique [OF ids that(1)] old that(2) by (simp add: session_of_def)
  have tr: "trainee_of ?d = trainee_of d" "meets ?d = meets d" "clash ?d = clash d" "members ?d = members d"
    by (simp_all add: trainee_of_def enrollment_of_def fun_eq_iff meets_def clash_def members_def)
  have so: "session_of ?d q = map_option ?g (session_of d q)" for q
    unfolding session_of_def using find_map_update [of "\<lambda>s. ts_id s = q" ?g "training_sessions d"] f(1) by simp
  have new: "\<not> clash d (f old) t" if "t \<in> set (training_sessions d)" "ts_id t \<noteq> i" for t
    using free that by (auto simp: clash_def overlaps_def list_ex_iff f(2))
  have new': "\<not> clash d t (f old)" if "t \<in> set (training_sessions d)" "ts_id t \<noteq> i" for t
    using new [OF that] clash_sym [of d t "f old"] by blast
  have free': "\<not> clash d (?g s) (?g t)"
    if "s \<in> set (training_sessions d)" "t \<in> set (training_sessions d)" "ts_id s \<noteq> ts_id t" for s t
    using new new' only no that by (auto simp: no_overlap_def)
  have gid: "ts_id (?g s) = ts_id s" for s using f(1) by simp
  have o1: "no_overlap ?d"
    unfolding no_overlap_def tr
  proof (intro ballI impI)
    fix a b assume "a \<in> set (training_sessions ?d)" "b \<in> set (training_sessions ?d)" and ne: "ts_id a \<noteq> ts_id b"
    then obtain s t where st: "s \<in> set (training_sessions d)" "t \<in> set (training_sessions d)"
      and a: "a = ?g s" and b: "b = ?g t"
      by auto
    have "ts_id s \<noteq> ts_id t" using ne unfolding a b gid .
    from free' [OF st this] show "\<not> clash d a b" unfolding a b .
  qed
  have o2: "map ts_id (training_sessions ?d) = map ts_id (training_sessions d)"
    using f(1) by simp
  have o3: "session_shape a \<and> trainee_of ?d (ts_enrollment_id a) \<noteq> None \<and> members ?d (ts_id a) \<noteq> []"
    if "a \<in> set (training_sessions ?d)" for a
  proof -
    from that obtain s where s: "s \<in> set (training_sessions d)" and a: "a = ?g s" by auto
    have "session_shape s \<and> trainee_of d (ts_enrollment_id s) \<noteq> None \<and> members d (ts_id s) \<noteq> []"
      using ok s unfolding sessions_ok_def by blast
    then show ?thesis
      using only [OF s] shape unfolding a tr by (cases "ts_id s = i") (auto simp: f)
  qed
  have o4: "live ?d (es_session_id e)" if "e \<in> set (record_sessions ?d)" for e
  proof -
    have e: "e \<in> set (record_sessions d)" using that by simp
    then have "live d (es_session_id e)" using ok unfolding sessions_ok_def by blast
    then obtain s where s: "session_of d (es_session_id e) = Some s" "ts_disposition s \<noteq> Some SdCancelled"
      unfolding live_def by blast
    have "ts_disposition (?g s) \<noteq> Some SdCancelled"
      using s docd e only session_of_in [OF s(1)] by auto
    then show ?thesis using s(1) unfolding live_def so by simp
  qed
  have o5: "session_of ?d (st_session_id t) \<noteq> None" if "t \<in> set (session_trainers ?d)" for t
    using ok that unfolding so sessions_ok_def by simp
  have o6: "distinct (roster ?d)"
    using ok unfolding sessions_ok_def by (simp add: roster_def)
  have "sessions_ok ?d"
    by (intro sessions_okI o1 o3 o4 o5 o6) (use ids in \<open>simp_all only: o2\<close>)
  then show ?thesis using sessions_ok_journaled [OF j] x by simp
qed

lemma trainers_frame:
  "trainee_of (d\<lparr>session_trainers := ts\<rparr>) = trainee_of d" "session_of (d\<lparr>session_trainers := ts\<rparr>) = session_of d"
  "live (d\<lparr>session_trainers := ts\<rparr>) = live d" "no_overlap (d\<lparr>session_trainers := ts\<rparr>) = no_overlap d"
  by (simp_all add: trainee_of_def enrollment_of_def session_of_def live_def no_overlap_def clash_def meets_def
      fun_eq_iff)

lemma add_trainer_ok:
  assumes "sessions_ok d" and "add_trainer pre clk d actor s u = Inr d'"
  shows "sessions_ok d'"
proof -
  obtain m where m: "st_session_id m = s" "st_trainer m = u" "\<not> is_member d u s" "session_of d s \<noteq> None"
      and j: "journaled (d\<lparr>session_trainers := session_trainers d @ [m]\<rparr>) d'"
    using add_trainer_effect [OF assms(2)] by blast
  let ?d = "d\<lparr>session_trainers := session_trainers d @ [m]\<rparr>"
  have "distinct (roster ?d)"
    using assms(1) m(1-3) by (auto simp: sessions_ok_def roster_def is_member_in)
  moreover have "members ?d q \<noteq> []" if "members d q \<noteq> []" for q
    using that by (simp add: members_def)
  ultimately have "sessions_ok ?d"
    using assms(1) m(1,4) by (simp add: sessions_ok_def trainers_frame)
  then show ?thesis by (rule sessions_ok_journaled [OF j])
qed

lemma roster_once: "distinct (roster d) \<Longrightarrow>
  length (filter (\<lambda>t. st_session_id t = s \<and> st_trainer t = u) (session_trainers d)) \<le> 1"
proof -
  have "distinct (map (\<lambda>t. (st_session_id t, st_trainer t)) ts) \<Longrightarrow>
      length (filter (\<lambda>t. st_session_id t = s \<and> st_trainer t = u) ts) \<le> 1" for ts
  proof (induction ts)
    case (Cons t ts)
    then show ?case
      by (cases "st_session_id t = s \<and> st_trainer t = u") (auto simp: filter_empty_conv image_iff)
  qed simp
  then show "distinct (roster d) \<Longrightarrow> ?thesis" by (simp add: roster_def)
qed

lemma remove_trainer_ok:
  assumes "sessions_ok d" and "remove_trainer pre clk d actor s u = Inr d'"
  shows "sessions_ok d'"
proof -
  let ?keep = "\<lambda>t. \<not> (st_session_id t = s \<and> st_trainer t = u)"
  let ?d = "d\<lparr>session_trainers := filter ?keep (session_trainers d)\<rparr>"
  from remove_trainer_effect [OF assms(2)] have two: "1 < length (members d s)" and j: "journaled ?d d'"
    by auto
  have dr: "distinct (roster d)" using assms(1) by (simp add: sessions_ok_def)
  have "members ?d q \<noteq> []" if "members d q \<noteq> []" for q
  proof (cases "q = s")
    case True
    have "length (filter (\<lambda>t. \<not> ?keep t) (members d s)) \<le> 1"
      using roster_once [OF dr, of s u] unfolding members_def filter_filter
      by (auto cong: filter_cong simp: conj_ac)
    then have "0 < length (filter ?keep (members d s))"
      using two sum_length_filter_compl [of ?keep "members d s"] by linarith
    moreover have "members ?d s = filter ?keep (members d s)"
      unfolding members_def by (simp add: conj_commute)
    ultimately show ?thesis using True by auto
  next
    case False
    have "members ?d q = members d q"
      unfolding members_def using False by (simp, intro filter_cong) auto
    with that show ?thesis by simp
  qed
  moreover have "distinct (roster ?d)"
    using dr by (simp add: roster_def distinct_map_filter)
  ultimately have "sessions_ok ?d"
    using assms(1) by (simp add: sessions_ok_def trainers_frame)
  then show ?thesis by (rule sessions_ok_journaled [OF j])
qed

end
