(* ===== verification/Site.thy ===== *)
theory Site
  imports Attendance
begin

text \<open>
  Training sessions and evaluation records in one database: a step is a call of a service of
  either, or a write of some other part of the program. The invariants of both hold in every
  database such steps reach, which needs each side's services to keep the other's.
\<close>

section \<open>What the other services keep of sessions\<close>

definition keeps_sessions :: "db \<Rightarrow> db \<Rightarrow> bool" where
  "keeps_sessions d d' \<longleftrightarrow>
     training_sessions d' = training_sessions d \<and> session_trainers d' = session_trainers d \<and>
     prefix (people d) (people d') \<and>
     (\<forall>e \<in> set (record_sessions d'). e \<in> set (record_sessions d) \<or> live d (es_session_id e))"

lemma trainee_of_people: "trainee_of d i = map_of (people d) i"
  unfolding trainee_of_def enrollment_of_def people_def by (rule find_pair)

lemma keeps_sessions_ok:
  assumes "sessions_ok d" and "keeps_sessions d d'"
  shows "sessions_ok d'"
proof (rule sessions_ok_frame [OF assms(1)])
  show "training_sessions d' = training_sessions d" "session_trainers d' = session_trainers d"
    using assms(2) by (simp_all add: keeps_sessions_def)
  have "prefix (people d) (people d')"
    using assms(2) by (simp add: keeps_sessions_def)
  then show "trainee_of d' i = Some u" if "trainee_of d i = Some u" for i u
    using that unfolding trainee_of_people by (rule prefix_map_of)
  show "e \<in> set (record_sessions d) \<or> live d (es_session_id e)" if "e \<in> set (record_sessions d')" for e
    using that assms(2) by (simp add: keeps_sessions_def)
qed

lemma keeps_sessions_journaled:
  assumes "keeps_sessions d x" and "journaled x d'"
  shows "keeps_sessions d d'"
  using assms(1) journaled_tables [OF assms(2)] by (simp add: keeps_sessions_def people_def)

lemma writes_keeps_sessions:
  assumes "writes ser sha d r w d'"
  shows "training_sessions d' = training_sessions d" "session_trainers d' = session_trainers d"
    "enrollments d' = enrollments d" "w \<noteq> WCreate \<Longrightarrow> record_sessions d' = record_sessions d"
  using assms by (cases, auto simp: set_revision_def map_record_def edit_frame_def)+

lemma writes_keeps:
  assumes "writes ser sha d r w x" and "journaled x d'"
    and "\<forall>e \<in> set (record_sessions d'). e \<in> set (record_sessions d) \<or> live d (es_session_id e)"
  shows "keeps_sessions d d'"
  using assms(3) writes_keeps_sessions(1-3) [OF assms(1)] journaled_tables [OF assms(2)]
  by (simp add: keeps_sessions_def people_def)

lemma create_covers_live:
  assumes "create pre clk d actor s form = Inr (d', i)" and "e \<in> set (record_sessions d')"
  shows "e \<in> set (record_sessions d) \<or> live d (es_session_id e)"
proof -
  from assms(1) obtain ts :: training_session_row and f d1 d2 d3 u where
      live: "session_of d s = Some ts" "ts_disposition ts \<noteq> Some SdCancelled"
    and d1: "insert_record (new_record d (ts_enrollment_id ts) (ts_version_id ts) f actor (clk 0)) d = Inr d1"
    and d2: "append_event i Created actor None (clk 0) d1 = Inr d2"
    and d3: "insert_record_session i s d2 = Inr d3"
    and j: "record_for_subject EvDraftCreated (Some actor) (Some u) (SubjRecord i) (clk 1) d3 = Inr d'"
    by (clarsimp simp: create_def guard_simps Let_def)
  have "record_sessions d1 = record_sessions d" "record_sessions d2 = record_sessions d1"
    using insert_record_Inr [OF d1] append_event_Inr [OF d2] by auto
  moreover have "record_sessions d' = record_sessions d3"
    using journaled_tables(11) [OF journaled_record_for_subject [OF j]] .
  ultimately have "e \<in> set (record_sessions d) \<or> es_session_id e = s"
    using assms(2) insert_record_session_Inr [OF d3] by auto
  then show ?thesis using live by (auto simp: live_def)
qed

lemma create_summary_covers:
  assumes "create_summary pre clk d actor en form = Inr (d', i)"
  shows "record_sessions d' = record_sessions d"
proof -
  from assms obtain v f d1 d2 u where
      d1: "insert_record (new_record d en v f actor (clk 0)) d = Inr d1"
    and d2: "append_event i Created actor None (clk 0) d1 = Inr d2"
    and j: "record_for_subject EvDraftCreated (Some actor) (Some u) (SubjRecord i) (clk 1) d2 = Inr d'"
    by (auto simp: create_summary_def guard_simps Let_def)
  have "record_sessions d1 = record_sessions d" "record_sessions d2 = record_sessions d1"
    using insert_record_Inr [OF d1] append_event_Inr [OF d2] by auto
  then show ?thesis
    using journaled_tables(11) [OF journaled_record_for_subject [OF j]] by simp
qed

lemma lifecycle_keeps_sessions:
  assumes "lifecycle_step d l d'"
  shows "keeps_sessions d d'"
  using assms
proof cases
  case (event pre clk actor i kind reason to eid)
  obtain e fv tv where jn: "journaled (after_enrollment_event d
      (new_enrollment_event d (clk 0) actor i kind (trim reason) fv tv)) d'"
    using record_enrollment_event_effect [OF event(2)] by blast
  then show ?thesis
    using journaled_tables [OF jn] lifecycle_frame(2) [OF assms]
    by (simp add: keeps_sessions_def after_enrollment_event_def)
next
  case phase
  from record_phase_event_effect [OF phase(2)] obtain p where jn: "journaled (after_phase_event d p) d'"
    by blast
  then show ?thesis
    using journaled_tables [OF jn] lifecycle_frame(2) [OF assms]
    by (simp add: keeps_sessions_def after_phase_event_def)
qed

lemma enrolled_keeps_sessions:
  assumes "enrolled d d'" shows "keeps_sessions d d'"
proof -
  obtain e gs where "journaled (d\<lparr>enrollments := enrollments d @ [e], grants := grants d @ gs\<rparr>) d'"
    using assms unfolding enrolled_def by blast
  moreover have "keeps_sessions d (d\<lparr>enrollments := enrollments d @ [e], grants := grants d @ gs\<rparr>)"
    by (simp add: keeps_sessions_def people_def)
  ultimately show ?thesis using keeps_sessions_journaled by blast
qed

lemma assignments_keeps_sessions:
  assumes "journaled (d\<lparr>assignments := as\<rparr>) d'" shows "keeps_sessions d d'"
  by (rule keeps_sessions_journaled [OF _ assms]) (simp add: keeps_sessions_def people_def)

lemma call_write_kind: "call_write l = Some (r, w) \<Longrightarrow> w \<noteq> WCreate"
  by (cases l) auto

lemma call_none_cases:
  assumes "call_write l = None"
  obtains a s f where "l = Create a s f" | a e f where "l = CreateSummary a e f"
    | m where "l = Lifecycle m" | a v u where "l = Enroll a v u"
    | a e t where "l = CreateAssignment a e t" | a i where "l = EndAssignment a i" | "l = Elsewhere"
  using assms by (cases l) auto

lemma service_keeps_sessions:
  assumes s: "service ser to_vec sha d l d'" and n: "l \<noteq> Elsewhere"
    and ok: "copy_ok d" "ids_ok (map v_id (versions d))"
  shows "keeps_sessions d d'"
proof (cases "call_write l")
  case (Some p)
  then obtain r w x where w: "writes ser sha d r w x" "journaled x d'" "w \<noteq> WCreate"
    using service_kinds [OF s ok] call_write_kind unfolding writes_as_def by fastforce
  show ?thesis
    using writes_keeps_sessions(4) [OF w(1,3)] journaled_tables(11) [OF w(2)]
    by (intro writes_keeps [OF w(1,2)]) simp
next
  case None
  then show ?thesis
  proof (cases rule: call_none_cases)
    case (1 a s f)
    from s 1 obtain pre clk i where c: "create pre clk d a s f = Inr (d', i)"
      by (auto elim: service.cases)
    from create_change [OF c] obtain x where "writes ser sha d i WCreate x" "journaled x d'" by blast
    then show ?thesis
      by (rule writes_keeps) (use create_covers_live [OF c] in blast)
  next
    case (2 a e f)
    from s 2 obtain pre clk i where c: "create_summary pre clk d a e f = Inr (d', i)"
      by (auto elim: service.cases)
    from create_summary_change [OF c] obtain x where "writes ser sha d i WCreate x" "journaled x d'" by blast
    then show ?thesis
      by (rule writes_keeps) (simp add: create_summary_covers [OF c])
  next
    case (3 m)
    with s have "lifecycle_step d m d'" by (auto elim: service.cases)
    then show ?thesis by (rule lifecycle_keeps_sessions)
  next
    case (4 a v u)
    with s obtain pre clk i where "enroll pre clk d a v u = Inr (d', i)" by (auto elim: service.cases)
    then show ?thesis by (intro enrolled_keeps_sessions enroll_enrolled)
  next
    case (5 a e t)
    with s obtain pre clk i where c: "create_assignment pre clk d a e t = Inr (d', i)"
      by (auto elim: service.cases)
    from create_assignment_effect [OF c] assignments_keeps_sessions show ?thesis by blast
  next
    case (6 a i)
    with s obtain pre clk where c: "end_assignment pre clk d a i = Inr d'"
      by (auto elim: service.cases)
    from end_assignment_effect [OF c] assignments_keeps_sessions show ?thesis by blast
  qed (use n in simp)
qed

section \<open>What the session operations keep of the rest\<close>

lemma sessions_elsewhere:
  assumes "journaled (d\<lparr>training_sessions := ss, session_trainers := ts\<rparr>) d'"
  shows "elsewhere d d'"
proof -
  have "elsewhere (d\<lparr>training_sessions := ss, session_trainers := ts\<rparr>) d'"
    by (rule elsewhere_journaled [OF assms])
  moreover have "joined_phase (d\<lparr>training_sessions := ss, session_trainers := ts\<rparr>) = joined_phase d"
    by (rule joined_phase_catalog) simp
  ultimately show ?thesis by (simp add: elsewhere_def same_records_def)
qed

lemma revised_rows_effect:
  assumes "revised d i f d'"
  shows "\<exists>old. session_of d i = Some old \<and> ts_disposition old = None \<and>
    journaled (d\<lparr>training_sessions := map (\<lambda>s. if ts_id s = i then f s else s) (training_sessions d)\<rparr>) d'"
  using assms update_session_Inr unfolding revised_def by blast

lemma revised_elsewhere: "revised d i f d' \<Longrightarrow> elsewhere d d'"
  using revised_rows_effect [of d i f d'] sessions_elsewhere [where d = d and ts = "session_trainers d" and d' = d'] by auto

lemma trainers_elsewhere: "journaled (d\<lparr>session_trainers := ts\<rparr>) d' \<Longrightarrow> elsewhere d d'"
  using sessions_elsewhere [where d = d and ss = "training_sessions d" and ts = ts and d' = d'] by simp

section \<open>Steps of the site\<close>

datatype site_call =
    Service call
  | CreateSession int int session_input
  | UpdateOpen int int session_update
  | CloseSession int int session_disposition "string option"
  | AddTrainer int int int
  | RemoveTrainer int int int
  | Others

definition others :: "db \<Rightarrow> db \<Rightarrow> bool" where
  "others d d' \<longleftrightarrow>
     elsewhere d d' \<and> training_sessions d' = training_sessions d \<and> session_trainers d' = session_trainers d"

inductive site ::
    "('tz, 'dt) jiff \<Rightarrow> (draft_content \<Rightarrow> string option) \<Rightarrow> (json \<Rightarrow> string option) \<Rightarrow> (string \<Rightarrow> string)
      \<Rightarrow> db \<Rightarrow> site_call \<Rightarrow> db \<Rightarrow> bool"
  for j :: "('tz, 'dt) jiff" and ser :: "draft_content \<Rightarrow> string option"
    and to_vec :: "json \<Rightarrow> string option" and sha :: "string \<Rightarrow> string" where
  service: "service ser to_vec sha d l d' \<Longrightarrow> l \<noteq> Elsewhere \<Longrightarrow> site j ser to_vec sha d (Service l) d'"
| create_session: "create_session j pre clk d a e input = Inr (d', i) \<Longrightarrow>
    site j ser to_vec sha d (CreateSession a e input) d'"
| update_open: "update_open j pre clk d a i input = Inr d' \<Longrightarrow>
    site j ser to_vec sha d (UpdateOpen a i input) d'"
| close_session: "close_session j pre clk d a i k local_end = Inr d' \<Longrightarrow>
    site j ser to_vec sha d (CloseSession a i k local_end) d'"
| add_trainer: "add_trainer pre clk d a i t = Inr d' \<Longrightarrow> site j ser to_vec sha d (AddTrainer a i t) d'"
| remove_trainer: "remove_trainer pre clk d a i t = Inr d' \<Longrightarrow>
    site j ser to_vec sha d (RemoveTrainer a i t) d'"
| others: "others d d' \<Longrightarrow> site j ser to_vec sha d Others d'"

text \<open>Four ways a step touches the session tables.\<close>

lemma site_kinds:
  assumes "site j ser to_vec sha d l d'" and "copy_ok d" "ids_ok (map v_id (versions d))"
  shows "(\<exists>m. service ser to_vec sha d m d' \<and> keeps_sessions d d') \<or>
    elsewhere d d' \<and>
    (keeps_sessions d d' \<or> (\<exists>i f. revised d i f d') \<or>
     (\<exists>s ms. ts_id s = next_id (map ts_id (training_sessions d)) \<and>
        journaled (d\<lparr>training_sessions := training_sessions d @ [s],
          session_trainers := session_trainers d @ ms\<rparr>) d') \<or>
     (\<exists>ts. journaled (d\<lparr>session_trainers := ts\<rparr>) d'))"
  using assms(1)
proof cases
  case service
  then show ?thesis using service_keeps_sessions [OF service(2,3) assms(2,3)] by blast
next
  case create_session
  from create_session_effect [OF create_session(2)] sessions_elsewhere show ?thesis by blast
next
  case update_open
  from update_open_effect [OF update_open(2)] revised_elsewhere show ?thesis by blast
next
  case close_session
  from close_session_effect [OF close_session(2)] revised_elsewhere show ?thesis by blast
next
  case add_trainer
  from add_trainer_effect [OF add_trainer(2)] trainers_elsewhere show ?thesis by blast
next
  case remove_trainer
  from remove_trainer_effect [OF remove_trainer(2)] trainers_elsewhere show ?thesis by blast
next
  case others
  then show ?thesis
    by (auto simp: others_def keeps_sessions_def elsewhere_def same_records_def people_def)
qed

definition site_ok ::
    "(draft_content \<Rightarrow> string option) \<Rightarrow> (string \<Rightarrow> string) \<Rightarrow> db \<Rightarrow> bool" where
  "site_ok ser sha d \<longleftrightarrow> db_ok ser sha d \<and> sessions_ok d"

lemma site_sessions_ok:
  assumes s: "site j ser to_vec sha d l d'" and ok: "sessions_ok d"
    and t: "copy_ok d" "ids_ok (map v_id (versions d))"
  shows "sessions_ok d'"
  using s
proof cases
  case service
  then show ?thesis using keeps_sessions_ok [OF ok service_keeps_sessions [OF service(2,3) t]] by blast
next
  case create_session
  then show ?thesis using create_session_ok [OF ok] by blast
next
  case update_open
  then show ?thesis using update_open_effect revised_ok [OF ok] by blast
next
  case close_session
  then show ?thesis using close_session_effect revised_ok [OF ok] by blast
next
  case add_trainer
  then show ?thesis using add_trainer_ok [OF ok] by blast
next
  case remove_trainer
  then show ?thesis using remove_trainer_ok [OF ok] by blast
next
  case others
  then have "keeps_sessions d d'"
    by (simp add: others_def keeps_sessions_def elsewhere_def same_records_def people_def)
  then show ?thesis by (rule keeps_sessions_ok [OF ok])
qed

lemma db_ok_tables: "db_ok ser sha d \<Longrightarrow> copy_ok d \<and> ids_ok (map v_id (versions d))"
  using tables_okD [of d] by (simp add: db_ok_def records_ok_def)

theorem site_step_ok:
  assumes "site_ok ser sha d" and s: "site j ser to_vec sha d l d'"
  shows "site_ok ser sha d'"
proof -
  have ok: "db_ok ser sha d" "sessions_ok d" using assms(1) by (simp_all add: site_ok_def)
  have t: "copy_ok d" "ids_ok (map v_id (versions d))" using db_ok_tables [OF ok(1)] by simp_all
  have "db_ok ser sha d'"
    using site_kinds [OF s t] service_ok [OF _ ok(1)] elsewhere_ok [OF _ ok(1)] by blast
  then show ?thesis using site_sessions_ok [OF s ok(2) t] by (simp add: site_ok_def)
qed

interpretation site: invariant_steps "site j ser to_vec sha" "site_ok ser sha" for j ser to_vec sha
  by unfold_locales (rule site_step_ok)

definition open_site ::
    "('tz, 'dt) jiff \<Rightarrow> (draft_content \<Rightarrow> string option) \<Rightarrow> (json \<Rightarrow> string option) \<Rightarrow> (string \<Rightarrow> string)
      \<Rightarrow> db \<Rightarrow> bool" where
  "open_site j ser to_vec sha d \<longleftrightarrow>
     (\<exists>d0 ls. blank d0 \<and> training_sessions d0 = [] \<and> session_trainers d0 = [] \<and>
        run_path (site j ser to_vec sha) d0 ls d)"

lemma open_site_ok: "open_site j ser to_vec sha d \<Longrightarrow> site_ok ser sha d"
proof -
  assume "open_site j ser to_vec sha d"
  then obtain d0 ls where d0: "blank d0" "training_sessions d0 = []" "session_trainers d0 = []"
    and p: "run_path (site j ser to_vec sha) d0 ls d"
    by (auto simp: open_site_def)
  have "sessions_ok d0"
    using d0 by (simp add: sessions_ok_def no_overlap_def roster_def blank_def)
  then have "site_ok ser sha d0"
    using blank_ok [OF d0(1)] by (simp add: site_ok_def)
  then show ?thesis using site.inv_path p by blast
qed

text \<open>
  The site refines the services: seen from the records, a call of another component is a write
  from elsewhere. So what holds of every reachable database holds of every database of a site.
\<close>

fun services_view :: "site_call \<Rightarrow> call" where
  "services_view (Service l) = l"
| "services_view _ = Elsewhere"

lemma site_refines_service:
  assumes "site j ser to_vec sha d l d'"
  shows "service ser to_vec sha d (services_view l) d'"
  using assms
proof cases
  case create_session
  from create_session_effect [OF create_session(2)] sessions_elsewhere have "elsewhere d d'" by blast
  then show ?thesis using create_session(1) by (simp add: service.elsewhere)
next
  case update_open
  from update_open_effect [OF update_open(2)] revised_elsewhere have "elsewhere d d'" by blast
  then show ?thesis using update_open(1) by (simp add: service.elsewhere)
next
  case close_session
  from close_session_effect [OF close_session(2)] revised_elsewhere have "elsewhere d d'" by blast
  then show ?thesis using close_session(1) by (simp add: service.elsewhere)
next
  case add_trainer
  from add_trainer_effect [OF add_trainer(2)] trainers_elsewhere have "elsewhere d d'" by blast
  then show ?thesis using add_trainer(1) by (simp add: service.elsewhere)
next
  case remove_trainer
  from remove_trainer_effect [OF remove_trainer(2)] trainers_elsewhere have "elsewhere d d'" by blast
  then show ?thesis using remove_trainer(1) by (simp add: service.elsewhere)
qed (simp_all add: others_def service.elsewhere)

interpretation seen: refinement "site j ser to_vec sha" "site_ok ser sha" "\<lambda>d. d"
    "\<lambda>d l d'. service ser to_vec sha d (services_view l) d'" for j ser to_vec sha
  by unfold_locales (rule site_refines_service)

lemma run_path_mapped: "run_path (\<lambda>d l d'. step d (f l) d') d ls d' \<longleftrightarrow> run_path step d (map f ls) d'"
  by (induction ls arbitrary: d) auto

section \<open>What follows\<close>

lemma site_no_overlap:
  assumes "site_ok ser sha d" and "s \<in> set (training_sessions d)" "t \<in> set (training_sessions d)"
    and "ts_id s \<noteq> ts_id t" and "trainee_of d (ts_enrollment_id s) = trainee_of d (ts_enrollment_id t)"
    and "ts_disposition s \<noteq> Some SdCancelled" "ts_disposition t \<noteq> Some SdCancelled"
  shows "interval_end (ts_utc_end s) \<le> ts_utc_start t \<or> interval_end (ts_utc_end t) \<le> ts_utc_start s"
proof -
  have "\<not> clash d s t" and "trainee_of d (ts_enrollment_id t) \<noteq> None"
    using assms(1-4) unfolding site_ok_def sessions_ok_def no_overlap_def by blast+
  then show ?thesis
    using assms(5-7) by (auto simp: clash_def meets_def)
qed

lemma site_session_row:
  assumes "site_ok ser sha d" and "s \<in> set (training_sessions d)"
  shows "session_shape s \<and> members d (ts_id s) \<noteq> []"
  using assms by (auto simp: site_ok_def sessions_ok_def)

lemma site_covered:
  assumes "site_ok ser sha d" and "e \<in> set (record_sessions d)"
  shows "\<exists>s. session_of d (es_session_id e) = Some s \<and> ts_disposition s \<noteq> Some SdCancelled \<and>
    members d (es_session_id e) \<noteq> []"
proof -
  have "live d (es_session_id e)"
    using assms by (auto simp: site_ok_def sessions_ok_def)
  then obtain s where s: "session_of d (es_session_id e) = Some s" "ts_disposition s \<noteq> Some SdCancelled"
    unfolding live_def by blast
  have i: "s \<in> set (training_sessions d)" "ts_id s = es_session_id e" using session_of_in [OF s(1)] by simp_all
  have "members d (ts_id s) \<noteq> []" using site_session_row [OF assms(1) i(1)] by simp
  then show ?thesis using s i(2) by simp
qed

text \<open>A step leaves a session that has its disposition as it is.\<close>

lemma site_step_settled:
  assumes s: "site j ser to_vec sha d l d'" and ok: "site_ok ser sha d"
    and x: "session_of d i = Some x" "ts_disposition x \<noteq> None"
  shows "session_of d' i = Some x"
proof -
  have t: "copy_ok d" "ids_ok (map v_id (versions d))"
    using ok db_ok_tables [of ser sha d] by (simp_all add: site_ok_def)
  have same: "session_of d' i = Some x" if "training_sessions d' = training_sessions d"
    using that x(1) by (simp add: session_of_def)
  from site_kinds [OF s t] consider "training_sessions d' = training_sessions d"
    | q f where "revised d q f d'"
    | y ms where "journaled (d\<lparr>training_sessions := training_sessions d @ [y],
          session_trainers := session_trainers d @ ms\<rparr>) d'"
    | ts where "journaled (d\<lparr>session_trainers := ts\<rparr>) d'"
    unfolding keeps_sessions_def by blast
  then show ?thesis
  proof cases
    case 1
    then show ?thesis by (rule same)
  next
    case (2 q f)
    from revised_rows_effect [OF this] obtain old where old: "session_of d q = Some old"
      "ts_disposition old = None"
      and j: "journaled (d\<lparr>training_sessions := map (\<lambda>s. if ts_id s = q then f s else s) (training_sessions d)\<rparr>) d'"
      by blast
    have "i \<noteq> q" using x old by auto
    moreover have "ts_id (f s) = ts_id s" for s
      using 2 by (simp add: revised_def)
    ultimately have "find (\<lambda>s. ts_id s = i) (map (\<lambda>s. if ts_id s = q then f s else s) xs)
        = find (\<lambda>s. ts_id s = i) xs" for xs
      by (induction xs) auto
    then show ?thesis
      using x(1) journaled_tables(8) [OF j] by (simp add: session_of_def)
  next
    case 3
    then show ?thesis
      using x(1) journaled_tables(8) [OF 3] by (simp add: session_of_def find_snoc)
  next
    case 4
    then show ?thesis using journaled_tables(8) [OF 4] by (intro same) simp
  qed
qed

lemma site_path_settled:
  "run_path (site j ser to_vec sha) d ls d' \<Longrightarrow> site_ok ser sha d \<Longrightarrow> session_of d i = Some x \<Longrightarrow>
    ts_disposition x \<noteq> None \<Longrightarrow> session_of d' i = Some x"
proof (induction ls arbitrary: d)
  case (Cons l ls)
  then obtain u where "site j ser to_vec sha d l u" "run_path (site j ser to_vec sha) u ls d'" by auto
  with Cons show ?case using site_step_settled site_step_ok by blast
qed simp

text \<open>A session in progress can be ended: every check of the update follows from the invariant.\<close>

lemma close_session_total:
  assumes ok: "sessions_ok d" and s: "session_of d i = Some s" "ts_disposition s = None"
    and may: "may_work pre actor i" and u: "user_of d actor \<noteq> None"
    and e: "closing j d s k (entered local_end) = Inr e"
    and w: "map_option snd e \<noteq> None \<longrightarrow> the (map_option snd e) \<le> 9223372036854775807"
  shows "\<exists>d'. close_session j pre clk d actor i k local_end = Inr d'"
proof -
  let ?f = "\<lambda>s. s\<lparr>ts_local_end := map_option fst e, ts_utc_end := map_option snd e,
     ts_disposition := Some k, ts_closed_at := Some (clk 0), ts_closed_by := Some actor\<rparr>"
  have i: "s \<in> set (training_sessions d)" "ts_id s = i" using session_of_in [OF s(1)] by simp_all
  have sh: "session_shape s" and no: "no_overlap d"
    using ok i by (auto simp: sessions_ok_def)
  have open': "ts_utc_end s = None" using sh s(2) by (simp add: session_shape_def)
  have kind: "if k = SdCancelled then e = None \<and> i \<notin> set (map es_session_id (record_sessions d))
      else \<exists>v t. e = Some (v, t) \<and> ts_utc_start s \<le> t"
    using e i(2) by (auto simp: closing_def resolve_end_def split: if_splits option.splits sum.splits)
  have shape: "session_shape (?f s)"
    using sh kind by (cases k) (auto simp: session_shape_def split: if_splits)
  have clear: "k = SdCancelled \<or> \<not> overlaps d (ts_enrollment_id s) (ts_utc_start s) (map_option snd e) i"
  proof (cases "k = SdCancelled")
    case False
    have "\<not> meets d (ts_enrollment_id s) (ts_utc_start s) (map_option snd e) t"
      if "t \<in> set (training_sessions d)" "ts_id t \<noteq> i" for t
    proof -
      have "\<not> clash d s t" using no i that by (auto simp: no_overlap_def)
      moreover have "interval_end (map_option snd e) \<le> interval_end None"
        using w by (cases e) (auto simp: interval_end_def)
      ultimately show ?thesis
        using s(2) open' by (auto simp: clash_def meets_def)
    qed
    then show ?thesis by (auto simp: overlaps_def list_ex_iff)
  qed simp
  have "update_session i ?f d = Inr (d\<lparr>training_sessions :=
      map (\<lambda>s. if ts_id s = i then ?f s else s) (training_sessions d)\<rparr>)"
    using s clear kind shape u
    by (simp add: update_session_def opt_user_ok_def demand_def) (auto split: if_splits)
  moreover have "\<exists>y. record_for_subject EvSessionClosed (Some actor) None (SubjSession i) (clk 1)
      (d\<lparr>training_sessions := ts\<rparr>) = Inr y" for ts
    by (rule record_for_subject_total) (use u in \<open>simp_all add: opt_user_ok_def user_of_def\<close>)
  ultimately show ?thesis
    using s may e by (simp add: close_session_def) (metis run_Inr)
qed

lemma close_session_settles:
  assumes "close_session j pre clk d actor i k local_end = Inr d'"
  shows "map_option ts_disposition (session_of d' i) = Some (Some k)"
proof -
  from assms obtain e old x where old: "session_of d i = Some old"
      and u: "update_session i (\<lambda>s. s\<lparr>ts_local_end := map_option fst e,
         ts_utc_end := map_option snd e, ts_disposition := Some k,
         ts_closed_at := Some (clk 0), ts_closed_by := Some actor\<rparr>) d = Inr x"
      and j: "record_for_subject EvSessionClosed (Some actor) None (SubjSession i) (clk 1) x = Inr d'"
    by (auto simp: close_session_def guard_simps)
  let ?g = "\<lambda>s. if ts_id s = i then s\<lparr>ts_local_end := map_option fst e, ts_utc_end := map_option snd e,
    ts_disposition := Some k, ts_closed_at := Some (clk 0), ts_closed_by := Some actor\<rparr> else s"
  have "training_sessions d' = map ?g (training_sessions d)"
    using update_session_Inr [OF u old] journaled_tables(8) [OF journaled_record_for_subject [OF j]] by simp
  moreover have "find (\<lambda>s. ts_id s = i) (map ?g xs) = map_option ?g (find (\<lambda>s. ts_id s = i) xs)" for xs
    by (induction xs) auto
  ultimately have "session_of d' i = map_option ?g (session_of d i)"
    unfolding session_of_def by simp
  then show ?thesis
    using old session_of_in [OF old] by simp
qed

end
