(* ===== verification/Example.thy ===== *)
theory Example
  imports Cycle
begin

text \<open>
  A small installation and one run of its services, from enrollment through a sealed record to
  its amendment: the concrete inputs the properties are applied to. The serializer and the
  fingerprint are small stand-ins.
\<close>

section \<open>Parameters\<close>

definition to_vec1 :: "json \<Rightarrow> string option" where
  "to_vec1 v = Some ''{}''"

text \<open>The last 32 bytes, padded.\<close>

definition sha1 :: "string \<Rightarrow> string" where
  "sha1 s = take 32 (rev s @ replicate 32 zero_byte)"

definition ser1 :: "draft_content \<Rightarrow> string option" where
  "ser1 c = Some (concat (map (\<lambda>x. nat_str (nat (re_fc x)) @ (case re_value x of None \<Rightarrow> ''-'' | Some v \<Rightarrow> nat_str (nat v)))
       (dc_ratings c)) @ concat (map ne_text (dc_narratives c)))"

definition clk1 :: clock where
  "clk1 n = 100 + int n"

section \<open>Evaluation\<close>

text \<open>Code equations for the hex encoding on the bits of a byte.\<close>

fun nibble :: "bool \<Rightarrow> bool \<Rightarrow> bool \<Rightarrow> bool \<Rightarrow> char" where
  "nibble False False False False = CHR ''0''"
| "nibble False False False True = CHR ''1''"
| "nibble False False True False = CHR ''2''"
| "nibble False False True True = CHR ''3''"
| "nibble False True False False = CHR ''4''"
| "nibble False True False True = CHR ''5''"
| "nibble False True True False = CHR ''6''"
| "nibble False True True True = CHR ''7''"
| "nibble True False False False = CHR ''8''"
| "nibble True False False True = CHR ''9''"
| "nibble True False True False = CHR ''a''"
| "nibble True False True True = CHR ''b''"
| "nibble True True False False = CHR ''c''"
| "nibble True True False True = CHR ''d''"
| "nibble True True True False = CHR ''e''"
| "nibble True True True True = CHR ''f''"

lemma nibble_hex:
  "hex_digit (of_bool d + 2 * (of_bool c + 2 * (of_bool b + 2 * of_bool a))) = nibble a b c d"
  by (cases a; cases b; cases c; cases d) (simp_all add: hex_digit_def char_of_def bit_iff_odd)

lemma to_hex_code [code]:
  "to_hex [] = []"
  "to_hex (Char b0 b1 b2 b3 b4 b5 b6 b7 # s) = nibble b7 b6 b5 b4 # nibble b3 b2 b1 b0 # to_hex s"
proof -
  have "(of_char (Char b0 b1 b2 b3 b4 b5 b6 b7) :: nat) =
      (of_bool b0 + 2 * (of_bool b1 + 2 * (of_bool b2 + 2 * of_bool b3))) +
      16 * (of_bool b4 + 2 * (of_bool b5 + 2 * (of_bool b6 + 2 * of_bool b7)))"
    by (cases b0; cases b1; cases b2; cases b3; cases b4; cases b5; cases b6; cases b7) simp_all
  moreover have "(of_bool b0 + 2 * (of_bool b1 + 2 * (of_bool b2 + 2 * of_bool b3)) :: nat) < 16"
    by (cases b0; cases b1; cases b2; cases b3) simp_all
  ultimately have
    "(of_char (Char b0 b1 b2 b3 b4 b5 b6 b7) :: nat) mod 16 =
      of_bool b0 + 2 * (of_bool b1 + 2 * (of_bool b2 + 2 * of_bool b3))"
    "(of_char (Char b0 b1 b2 b3 b4 b5 b6 b7) :: nat) div 16 =
      of_bool b4 + 2 * (of_bool b5 + 2 * (of_bool b6 + 2 * of_bool b7))"
    by (simp_all only: mod_mult_self2 mod_less div_mult_self2 div_less)
  then show "to_hex (Char b0 b1 b2 b3 b4 b5 b6 b7 # s) =
      nibble b7 b6 b5 b4 # nibble b3 b2 b1 b0 # to_hex s"
    by (simp only: to_hex_def list.map concat.simps nibble_hex append.simps)
qed (simp add: to_hex_def)

lemma lower_hex_code [code]: "lower_hex s \<longleftrightarrow> list_all (\<lambda>c. c \<in> set ''0123456789abcdef'') s"
proof -
  have "(let n = (of_char c :: nat) in 48 \<le> n \<and> n \<le> 57 \<or> 97 \<le> n \<and> n \<le> 102) \<longleftrightarrow>
      c \<in> set ''0123456789abcdef''" for c
  proof (cases c)
    case (Char b0 b1 b2 b3 b4 b5 b6 b7)
    show ?thesis
      unfolding Char
      by (cases b0; cases b1; cases b2; cases b3; cases b4; cases b5; cases b6; cases b7) simp_all
  qed
  then show ?thesis by (simp add: lower_hex_def)
qed

lemma is_ascii_code [code]: "is_ascii s \<longleftrightarrow> list_all (\<lambda>c. \<not> digit7 c) s"
proof -
  have "(of_char c :: nat) < 128 \<longleftrightarrow> \<not> digit7 c" for c
  proof (cases c)
    case (Char b0 b1 b2 b3 b4 b5 b6 b7)
    show ?thesis
      unfolding Char
      by (cases b0; cases b1; cases b2; cases b3; cases b4; cases b5; cases b6; cases b7) simp_all
  qed
  then show ?thesis by (simp add: is_ascii_def)
qed

section \<open>The installation\<close>

definition user1 :: "int \<Rightarrow> string \<Rightarrow> user_row" where
  "user1 i name =
     \<lparr>u_id = i, u_username = name, u_display_name = name, u_password_hash = ''x'', u_created_at = 1,
      u_employee_id = ''E'', u_title = ''T''\<rparr>"

definition grant1 :: "int \<Rightarrow> capability \<Rightarrow> grant_row" where
  "grant1 u c = \<lparr>g_user_id = u, g_capability = capability_as_str c, g_granted_at = 1, g_granted_by = None\<rparr>"

definition catalog1 :: catalog where
  "catalog1 =
     \<lparr>program_versions = [\<lparr>pv_id = 1, pv_program_id = 1, pv_version_number = 1, pv_label = ''v1'',
        pv_name = ''P'', pv_description = '''', pv_created_at = 1, pv_created_by = None,
        pv_published_at = Some 2, pv_published_by = None\<rparr>,
        \<lparr>pv_id = 2, pv_program_id = 1, pv_version_number = 2, pv_label = ''v2'',
        pv_name = ''P'', pv_description = '''', pv_created_at = 1, pv_created_by = None,
        pv_published_at = Some 3, pv_published_by = None\<rparr>],
      phases = [\<lparr>ph_id = 1, ph_version_id = 1, ph_name = ''A'', ph_description = '''', ph_number = 1\<rparr>,
                \<lparr>ph_id = 2, ph_version_id = 1, ph_name = ''B'', ph_description = '''', ph_number = 2\<rparr>],
      phase_transitions = [\<lparr>pt_id = 1, pt_version_id = 1, pt_from = 1, pt_to = 2, pt_kind = TkAdvance\<rparr>],
      competencies = [\<lparr>co_id = 1, co_version_id = 1, co_category = ''C'', co_name = ''N'',
        co_description = '''', co_sort = 1\<rparr>],
      tasks = [\<lparr>tk_id = 1, tk_version_id = 1, tk_competency_id = 1, tk_prompt = ''p'', tk_sort = 1\<rparr>],
      rating_scales = [\<lparr>rs_id = 1, rs_version_id = 1, rs_name = ''S'', rs_kind = AnchoredNumeric,
        rs_min = Some 1, rs_max = Some 5\<rparr>],
      rating_anchors = [\<lparr>ra_id = 1, ra_version_id = 1, ra_scale_id = 1, ra_value = 1, ra_label = ''l'',
        ra_definition = ''d''\<rparr>],
      rating_modifiers = [\<lparr>rm_id = 1, rm_version_id = 1, rm_code = ''M'', rm_label = ''m'',
        rm_description = ''''\<rparr>],
      evaluation_forms =
        [\<lparr>f_id = 1, f_version_id = 1, f_record_type = DailyReport, f_name = ''D'', f_instructions = ''''\<rparr>,
         \<lparr>f_id = 2, f_version_id = 1, f_record_type = WeeklySummary, f_name = ''W'', f_instructions = ''''\<rparr>],
      form_competencies = [\<lparr>fc_id = 1, fc_version_id = 1, fc_form_id = 1, fc_competency_id = 1,
        fc_scale_id = 1, fc_sort = 1\<rparr>],
      form_narratives = [\<lparr>fn_id = 1, fn_version_id = 1, fn_form_id = 1, fn_prompt = ''n'',
        fn_required = True, fn_sort = 1\<rparr>],
      policies = [\<lparr>fp_version_id = 1, fp_review_approved = True, fp_required_narratives = True,
        fp_ratings_complete = True\<rparr>]\<rparr>"

definition db0 :: db where
  "db0 =
     \<lparr>instance_id = Some ''i'', catalog = catalog1,
      users = [user1 1 ''ada'', user1 2 ''bo'', user1 3 ''cy'', user1 4 ''di''],
      grants = [grant1 1 AssignTraining, grant1 2 AuthorEvaluation, grant1 2 ViewAssignedRecords,
        grant1 4 ReviewEvaluation],
      enrollments = [], enrollment_events = [], phase_events = [], assignments = [],
      training_sessions = [], session_trainers = [], records = [], record_sessions = [],
      contributor_events = [], decisions = [], snapshots = [], draft_ratings = [], draft_modifiers = [],
      draft_narratives = [], versions = [], amendments = [], acks = [], daily_links = [], audits = [],
      notices = []\<rparr>"

lemma blank_db0: "blank db0"
  by (simp add: blank_def db0_def)

section \<open>The run\<close>

definition session1 :: training_session_row where
  "session1 =
     \<lparr>ts_id = 1, ts_enrollment_id = 1, ts_version_id = 1, ts_business_date = ''2026-01-05'',
      ts_timezone = ''UTC'', ts_local_start = ''08:00'', ts_local_end = Some ''09:00'', ts_utc_start = 50,
      ts_utc_end = Some 60, ts_phase_id = None, ts_disposition = Some SdCompleted, ts_created_at = 50,
      ts_created_by = Some 2, ts_closed_at = Some 60, ts_closed_by = Some 2\<rparr>"

definition input1 :: draft_content where
  "input1 =
     \<lparr>dc_ratings = [\<lparr>re_fc = 1, re_value = Some 4, re_not_observed = False, re_modifiers = [1]\<rparr>],
      dc_narratives = [\<lparr>ne_fn = 1, ne_text = ''ok''\<rparr>]\<rparr>"

definition audit1 :: "int \<Rightarrow> string \<Rightarrow> int \<Rightarrow> int option \<Rightarrow> string \<Rightarrow> audit_row" where
  "audit1 i kind actor user subject =
     \<lparr>ae_id = i, ae_occurred_at = 101, ae_kind = kind, ae_actor = Some actor, ae_subject_user = user,
      ae_subject_kind = Some subject, ae_subject_id = Some 1\<rparr>"

definition notice1 :: "int \<Rightarrow> int \<Rightarrow> string \<Rightarrow> string \<Rightarrow> int \<Rightarrow> notice_row" where
  "notice1 i user kind message t =
     \<lparr>n_id = i, n_user_id = user, n_kind = kind, n_message = message, n_created_at = t, n_read_at = None\<rparr>"

definition event1 :: "int \<Rightarrow> contributor_kind \<Rightarrow> int \<Rightarrow> contributor_event_row" where
  "event1 i k a = \<lparr>ce_id = i, ce_record_id = 1, ce_kind = k, ce_actor = a, ce_to = None, ce_recorded_at = 100\<rparr>"

definition record1 :: "int \<Rightarrow> record_row" where
  "record1 n =
     \<lparr>r_id = 1, r_enrollment_id = 1, r_version_id = 1, r_form_id = 1, r_owner = 2, r_revision = n,
      r_created_at = 100, r_created_by = Some 2\<rparr>"

definition trainee_grant1 :: "capability \<Rightarrow> grant_row" where
  "trainee_grant1 c =
     \<lparr>g_user_id = 3, g_capability = capability_as_str c, g_granted_at = 100, g_granted_by = Some 1\<rparr>"

definition db1 :: db where
  "db1 = db0\<lparr>
     enrollments := [\<lparr>e_id = 1, e_user_id = 3, e_version_id = 1, e_enrolled_at = 100, e_enrolled_by = Some 1\<rparr>],
     grants := grants db0 @ [trainee_grant1 ViewOwnRecords, trainee_grant1 AcknowledgeOwnRecord],
     audits := [audit1 1 ''enrollment_created'' 1 (Some 3) ''enrollment'']\<rparr>"

definition db2 :: db where
  "db2 = db1\<lparr>training_sessions := [session1],
     session_trainers := [\<lparr>st_id = 1, st_session_id = 1, st_trainer = 2, st_added_at = 50, st_added_by = Some 2\<rparr>]\<rparr>"

definition db3 :: db where
  "db3 = db2\<lparr>records := [record1 0], contributor_events := [event1 1 Created 2],
     record_sessions := [\<lparr>es_id = 1, es_record_id = 1, es_session_id = 1\<rparr>],
     audits := audits db2 @ [audit1 2 ''draft_created'' 2 (Some 3) ''record'']\<rparr>"

definition db4 :: db where
  "db4 = db3\<lparr>records := [record1 1],
     contributor_events := contributor_events db3 @ [event1 2 Contributed 2],
     draft_ratings := [\<lparr>dr_id = 1, dr_record_id = 1, dr_version_id = 1, dr_fc_id = 1, dr_value = Some 4,
       dr_not_observed = False\<rparr>],
     draft_modifiers := [\<lparr>dm_id = 1, dm_rating_id = 1, dm_version_id = 1, dm_modifier_id = 1\<rparr>],
     draft_narratives := [\<lparr>dn_id = 1, dn_record_id = 1, dn_version_id = 1, dn_fn_id = 1, dn_text = ''ok''\<rparr>]\<rparr>"

definition db5 :: db where
  "db5 = db4\<lparr>contributor_events := contributor_events db4 @ [event1 3 SubmittedForReview 2],
     snapshots := [\<lparr>ds_id = 1, ds_record_id = 1, ds_reason = Submission, ds_content = ''14ok'',
       ds_taken_at = 100, ds_taken_by = Some 2\<rparr>],
     audits := audits db4 @ [audit1 3 ''draft_submitted'' 2 None ''record''],
     notices := [notice1 1 4 ''draft_submitted_for_review'' ''A draft evaluation for cy awaits review.'' 102]\<rparr>"

definition db6 :: db where
  "db6 = db5\<lparr>contributor_events := contributor_events db5 @ [event1 4 ReviewDecided 4],
     decisions := [\<lparr>rd_id = 1, rd_record_id = 1, rd_reviewer = 4, rd_decision = Approved, rd_comment = [],
       rd_decided_at = 100\<rparr>],
     audits := audits db5 @ [audit1 4 ''draft_review_decided'' 4 (Some 2) ''record''],
     notices := notices db5 @
       [notice1 2 2 ''draft_approved'' ''Your draft evaluation for cy was approved.'' 102]\<rparr>"

definition hash1 :: "string \<Rightarrow> string" where
  "hash1 s = s @ replicate 60 CHR ''0''"

definition db7 :: db where
  "db7 = db6\<lparr>versions := [\<lparr>v_id = 1, v_record_id = 1, v_number = 1, v_schema = 2, v_bytes = ''{}'',
       v_content_hash = hash1 ''7d7b'', v_chain_hash = hash1 ''7d7b'', v_predecessor = None,
       v_finalized_at = 100, v_finalized_by = 4\<rparr>],
     audits := audits db6 @ [audit1 5 ''draft_finalized'' 4 (Some 3) ''record''],
     notices := notices db6 @ [notice1 3 2 ''draft_finalized'' ''The evaluation for cy was finalized.'' 102,
       notice1 4 3 ''record_awaits_acknowledgment''
         ''A finalized evaluation record awaits your acknowledgment.'' 103]\<rparr>"

definition meta7 :: version_meta where
  "meta7 = \<lparr>vm_version_number = 1, vm_record_schema = 2, vm_content_hash = hash1 ''7d7b'',
     vm_chain_hash = hash1 ''7d7b'', vm_finalized_at = 100, vm_finalized_by = 4,
     vm_finalized_by_name = ''di''\<rparr>"

definition db8 :: db where
  "db8 = db7\<lparr>acks := [\<lparr>ak_id = 1, ak_version_id = 1, ak_user_id = 3, ak_kind = Acknowledged,
       ak_response = [], ak_recorded_by = 3, ak_user_name = ''cy'', ak_recorder_name = ''cy'',
       ak_recorded_at = 100\<rparr>],
     audits := audits db7 @ [audit1 6 ''acknowledgment_recorded'' 3 (Some 3) ''record'']\<rparr>"

definition db9 :: db where
  "db9 = db8\<lparr>amendments := [\<lparr>am_id = 1, am_record_id = 1, am_predecessor = 1, am_reason = ''typo'',
       am_opened_by = 4, am_opened_by_name = ''di'', am_opened_at = 100, am_event_mark = 4,
       am_decision_mark = 1\<rparr>],
     records := [record1 2],
     audits := audits db8 @ [audit1 7 ''amendment_opened'' 4 (Some 3) ''record''],
     notices := notices db8 @ [notice1 5 2 ''amendment_opened''
       ''The finalized evaluation for cy was reopened for amendment.'' 102]\<rparr>"

text \<open>Each call of the run, evaluated.\<close>

lemma run1: "enroll db0 clk1 db0 1 1 3 = Inr (db1, 1)"
  by code_simp

lemma run3: "create db2 clk1 db2 2 1 None = Inr (db3, 1)"
  by code_simp

lemma run4: "save db3 clk1 db3 2 1 0 input1 = Inr (db4, 1)"
  by code_simp

lemma run5: "submit ser1 db4 clk1 db4 2 1 1 = Inr db5"
  by code_simp

lemma run6: "decide ser1 db5 clk1 db5 4 1 Approved None = Inr db6"
  by code_simp

lemma run7: "finalize to_vec1 sha1 db6 clk1 db6 4 1 1 = Inr (db7, meta7)"
  by code_simp

lemma run8: "acknowledge db7 clk1 db7 3 1 TaAcknowledged [] = Inr db8"
  by code_simp

lemma run9: "open_amendment_on db8 clk1 db8 4 1 ''typo'' = Inr db9"
  by code_simp

section \<open>Reachable\<close>

abbreviation step1 :: "db \<Rightarrow> call \<Rightarrow> db \<Rightarrow> bool" where
  "step1 \<equiv> service ser1 to_vec1 sha1"

abbreviation reach1 :: "db \<Rightarrow> bool" where
  "reach1 \<equiv> reachable ser1 to_vec1 sha1"

lemma elsewhere2: "elsewhere db1 db2"
proof -
  have "phase_events db1 = []" by (simp add: db1_def db0_def)
  then show ?thesis by (simp add: elsewhere_def same_records_def db2_def)
qed

lemma steps1:
  "step1 db0 (Enroll 1 1 3) db1" "step1 db1 Elsewhere db2" "step1 db2 (Create 2 1 None) db3"
  "step1 db3 (Save 2 1 0 input1) db4" "step1 db4 (Submit 2 1 1) db5"
  "step1 db5 (Decide 4 1 Approved None) db6" "step1 db6 (Finalize 4 1 1) db7"
  "step1 db7 (Acknowledge 3 1 TaAcknowledged []) db8" "step1 db8 (OpenAmendment 4 1 ''typo'') db9"
  by (rule service.enroll [OF run1] service.elsewhere [OF elsewhere2] service.create [OF run3]
      service.save [OF run4] service.submit [OF run5] service.decide [OF run6]
      service.finalize [OF run7] service.acknowledge [OF run8] service.open_amendment [OF run9])+

lemma reachable_step: "reachable ser to_vec sha d \<Longrightarrow> service ser to_vec sha d l d' \<Longrightarrow> reachable ser to_vec sha d'"
  unfolding reachable_def using cycle_run_snoc by metis

lemma reach0: "reach1 db0"
  unfolding reachable_def using blank_db0 run_path.simps(1) by metis

lemmas reach1 = reachable_step [OF reach0 steps1(1)]
lemmas reach2 = reachable_step [OF reach1 steps1(2)]
lemmas reach3 = reachable_step [OF reach2 steps1(3)]
lemmas reach4 = reachable_step [OF reach3 steps1(4)]
lemmas reach5 = reachable_step [OF reach4 steps1(5)]
lemmas reach6 = reachable_step [OF reach5 steps1(6)]
lemmas reach7 = reachable_step [OF reach6 steps1(7)]
lemmas reach8 = reachable_step [OF reach7 steps1(8)]
lemmas reach9 = reachable_step [OF reach8 steps1(9)]

section \<open>Two variations\<close>

text \<open>A phase entered after enrollment.\<close>

definition db1p :: db where
  "db1p = db1\<lparr>phase_events := [\<lparr>pe_id = 1, pe_enrollment_id = 1, pe_kind = PkAdvance, pe_from_phase = None,
       pe_to_phase = Some 1, pe_effective_at = 100, pe_recorded_at = 100, pe_actor = Some 1, pe_reason = [],
       pe_epoch = None\<rparr>],
     audits := audits db1 @ [audit1 2 ''phase_event_recorded'' 1 (Some 3) ''enrollment'']\<rparr>"

lemma run1p: "record_phase_event db1 clk1 db1 1 1 PkAdvance (Some 1) None [] = Inr (db1p, 1)"
  by code_simp

definition db1q :: db where
  "db1q = db1p\<lparr>phase_events := phase_events db1p @ [\<lparr>pe_id = 2, pe_enrollment_id = 1, pe_kind = PkPause,
       pe_from_phase = Some 1, pe_to_phase = None, pe_effective_at = 100, pe_recorded_at = 100,
       pe_actor = Some 1, pe_reason = ''r'', pe_epoch = None\<rparr>],
     audits := audits db1p @ [audit1 3 ''phase_event_recorded'' 1 (Some 3) ''enrollment'']\<rparr>"

lemma run1q: "record_phase_event db1p clk1 db1p 1 1 PkPause None None ''r'' = Inr (db1q, 2)"
  by code_simp

text \<open>A move to the second published version.\<close>

definition db1v :: db where
  "db1v = db1\<lparr>enrollments := [\<lparr>e_id = 1, e_user_id = 3, e_version_id = 2, e_enrolled_at = 100,
       e_enrolled_by = Some 1\<rparr>],
     enrollment_events := [\<lparr>ee_id = 1, ee_enrollment_id = 1, ee_kind = EkVersionChange, ee_occurred_at = 100,
       ee_actor = Some 1, ee_reason = ''r'', ee_from_version = Some 1, ee_to_version = Some 2\<rparr>],
     audits := audits db1 @ [audit1 2 ''enrollment_version_changed'' 1 (Some 3) ''enrollment'']\<rparr>"

lemma run1v: "record_enrollment_event db1 clk1 db1 1 1 EkVersionChange ''r'' (Some 2) = Inr (db1v, 1)"
  by code_simp

lemmas reach1p = reachable_step [OF reach1 service.lifecycle [OF lifecycle_step.phase [OF run1p]]]
lemmas reach1q = reachable_step [OF reach1p service.lifecycle [OF lifecycle_step.phase [OF run1q]]]
lemmas reach1v = reachable_step [OF reach1 service.lifecycle [OF lifecycle_step.event [OF run1v]]]

text \<open>The submitted draft under a policy that asks for no approval, and the record sealed from it.\<close>

definition db5f :: db where
  "db5f = db5\<lparr>catalog := catalog1\<lparr>policies := [\<lparr>fp_version_id = 1, fp_review_approved = False,
     fp_required_narratives = True, fp_ratings_complete = True\<rparr>]\<rparr>\<rparr>"

definition db6f :: db where
  "db6f = db5f\<lparr>versions := versions db7,
     audits := audits db5 @ [audit1 4 ''draft_finalized'' 4 (Some 3) ''record''],
     notices := notices db5 @ [notice1 2 2 ''draft_finalized'' ''The evaluation for cy was finalized.'' 102,
       notice1 3 3 ''record_awaits_acknowledgment''
         ''A finalized evaluation record awaits your acknowledgment.'' 103]\<rparr>"

lemma run6f: "finalize to_vec1 sha1 db5f clk1 db5f 4 1 1 = Inr (db6f, meta7)"
  by code_simp

lemma elsewhere5f: "elsewhere db5 db5f"
proof -
  have "phase_events db5 = []" by (simp add: db5_def db4_def db3_def db2_def db1_def db0_def)
  then show ?thesis by (simp add: elsewhere_def same_records_def db5f_def)
qed

lemmas reach5f = reachable_step [OF reach5 service.elsewhere [OF elsewhere5f]]

text \<open>The correction begins: the author saves into the reopened copy.\<close>

definition db10 :: db where
  "db10 = db9\<lparr>records := [record1 3],
     contributor_events := contributor_events db9 @ [event1 5 Contributed 2]\<rparr>"

lemma run10: "save db9 clk1 db9 2 1 2 input1 = Inr (db10, 3)"
  by code_simp

lemmas steps10 = service.save [OF run10]

definition queue_row1 :: queue_row where
  "queue_row1 =
     \<lparr>q_record_id = 1, q_trainee = 3, q_trainee_name = ''cy'', q_owner_name = ''bo'', q_program_name = ''P'',
      q_version_number = 1, q_submitted_at = Some 100, q_eligible = True\<rparr>"

section \<open>The last database, read\<close>

text \<open>
  The tables a step leaves alone, so that what the last database holds is read without
  evaluating the whole run.
\<close>

lemma kept2:
  "users db2 = users db1" "grants db2 = grants db1" "enrollments db2 = enrollments db1" "assignments db2 = assignments db1" "versions db2 = versions db1" "enrollment_events db2 = enrollment_events db1"
  by (simp_all add: db2_def)

lemma kept3:
  "users db3 = users db2" "grants db3 = grants db2" "enrollments db3 = enrollments db2" "assignments db3 = assignments db2" "session_trainers db3 = session_trainers db2" "versions db3 = versions db2" "enrollment_events db3 = enrollment_events db2"
  by (simp_all add: db3_def)

lemma kept4:
  "users db4 = users db3" "grants db4 = grants db3" "enrollments db4 = enrollments db3" "assignments db4 = assignments db3" "session_trainers db4 = session_trainers db3" "versions db4 = versions db3" "enrollment_events db4 = enrollment_events db3"
  by (simp_all add: db4_def)

lemma kept5:
  "users db5 = users db4" "grants db5 = grants db4" "enrollments db5 = enrollments db4" "assignments db5 = assignments db4" "session_trainers db5 = session_trainers db4" "versions db5 = versions db4" "enrollment_events db5 = enrollment_events db4"
  by (simp_all add: db5_def)

lemma kept6:
  "users db6 = users db5" "grants db6 = grants db5" "enrollments db6 = enrollments db5" "assignments db6 = assignments db5" "session_trainers db6 = session_trainers db5" "versions db6 = versions db5" "enrollment_events db6 = enrollment_events db5"
  by (simp_all add: db6_def)

lemma kept7:
  "users db7 = users db6" "grants db7 = grants db6" "enrollments db7 = enrollments db6" "assignments db7 = assignments db6" "session_trainers db7 = session_trainers db6" "enrollment_events db7 = enrollment_events db6"
  by (simp_all add: db7_def)

lemma kept8:
  "users db8 = users db7" "grants db8 = grants db7" "enrollments db8 = enrollments db7" "assignments db8 = assignments db7" "session_trainers db8 = session_trainers db7" "versions db8 = versions db7" "enrollment_events db8 = enrollment_events db7"
  by (simp_all add: db8_def)

lemma kept9:
  "users db9 = users db8" "grants db9 = grants db8" "enrollments db9 = enrollments db8" "assignments db9 = assignments db8" "session_trainers db9 = session_trainers db8" "versions db9 = versions db8" "enrollment_events db9 = enrollment_events db8"
  by (simp_all add: db9_def)

lemmas kept = kept2 kept3 kept4 kept5 kept6 kept7 kept8 kept9

lemma kept1: "users db1 = users db0" "assignments db1 = []"
  by (simp_all add: db1_def db0_def)

lemma own9:
  "load_record db9 1 = Some (record1 2)" "record_of db9 1 = Some (record1 2)"
  by (simp_all add: load_record_def record_of_def db9_def record1_def)

lemma grants9: "user_has db9 3 c \<longleftrightarrow> c \<in> {ViewOwnRecords, AcknowledgeOwnRecord}"
  by (cases c) (simp_all add: user_has_def held_def kept db1_def db0_def grant1_def trainee_grant1_def)

lemma own7: "load_record db7 1 = Some (record1 1)" "record_of db7 1 = Some (record1 1)"
  by (simp_all add: load_record_def record_of_def db7_def db6_def db5_def db4_def record1_def)

lemma own10: "record_of db10 1 = Some (record1 3)"
  by (simp add: record_of_def db10_def record1_def)

lemma versions9: "record_versions db9 1 = versions db9" "versions db9 \<noteq> []"
  by (simp_all add: record_versions_def kept db7_def)

lemma grant9: "read_grant db9 3 (record1 2) = Some RgOwnRecord"
proof -
  have "enrollment_of db9 1 = Some (hd (enrollments db1))" "e_user_id (hd (enrollments db1)) = 3"
    by (simp_all add: enrollment_of_def kept db1_def)
  then show ?thesis
    using versions9 by (simp add: read_grant_def may_contribute_def may_read_enrollment_def grants9 own_finalized_def
      record1_def)
qed

lemma grant7: "read_grant db7 3 (record1 1) = Some RgOwnRecord"
proof -
  have "user_has db7 3 c \<longleftrightarrow> c \<in> {ViewOwnRecords, AcknowledgeOwnRecord}" for c
    using grants9 [of c] by (simp add: user_has_def held_def kept8 kept9)
  moreover have "enrollment_of db7 1 = Some (hd (enrollments db1))" "e_user_id (hd (enrollments db1)) = 3"
    by (simp_all add: enrollment_of_def kept db1_def)
  moreover have "record_versions db7 1 \<noteq> []" using versions9 by (simp add: record_versions_def kept8 kept9)
  ultimately show ?thesis
    by (simp add: read_grant_def may_contribute_def may_read_enrollment_def own_finalized_def record1_def)
qed

lemma asked9: "asked_version db9 1 None = Some (hd (versions db9))"
  by (simp add: asked_version_def record_versions_def kept db7_def)

end
