(* ===== verification/Shifts.thy ===== *)
theory Shifts
  imports Site Example
begin

text \<open>
  A run with training sessions on the installation of theory Example, and the properties of
  sessions: no double booking, covered sessions, settled sessions, sessions that can be ended.
\<close>

section \<open>A run with two sessions\<close>

text \<open>A calendar that knows one zone and the times of one day, in minutes.\<close>

definition times1 :: "(string \<times> int) list" where
  "times1 = [(''08:00'', 480), (''12:00'', 720), (''16:00'', 960)]"

definition jiff1 :: "(unit, int) jiff" where
  "jiff1 = \<lparr>date_strptime = (\<lambda>f v. length v = 10), tz_get = (\<lambda>z. if z = ''UTC'' then Some () else None),
     dt_strptime = (\<lambda>f v. if length f = 14 then map_of times1 v else None), compatible = (\<lambda>z t. Some t)\<rparr>"

definition morning1 :: session_input where
  "morning1 = \<lparr>si_business_date = ''2026-01-05'', si_timezone = ''UTC'', si_local_start = '' 08:00'',
     si_local_end = Some ''12:00'', si_disposition = Some SdCompleted, si_phase_id = None, si_trainers = [2, 2]\<rparr>"

definition noon1 :: session_input where
  "noon1 = \<lparr>si_business_date = ''2026-01-05'', si_timezone = ''UTC'', si_local_start = ''12:00'',
     si_local_end = None, si_disposition = None, si_phase_id = None, si_trainers = [2]\<rparr>"

definition shift1 :: "int \<Rightarrow> string \<Rightarrow> int \<Rightarrow> (string \<times> int \<times> session_disposition \<times> int) option \<Rightarrow> training_session_row" where
  "shift1 i start at e =
     \<lparr>ts_id = i, ts_enrollment_id = 1, ts_version_id = 1, ts_business_date = ''2026-01-05'',
      ts_timezone = ''UTC'', ts_local_start = start, ts_local_end = map_option fst e,
      ts_utc_start = at, ts_utc_end = map_option (\<lambda>(_, t, _). t) e, ts_phase_id = None,
      ts_disposition = map_option (\<lambda>(_, _, k, _). k) e, ts_created_at = 100, ts_created_by = Some 1,
      ts_closed_at = map_option (\<lambda>_. 100) e, ts_closed_by = map_option (\<lambda>(_, _, _, u). u) e\<rparr>"

definition trainer1 :: "int \<Rightarrow> session_trainer_row" where
  "trainer1 i = \<lparr>st_id = i, st_session_id = i, st_trainer = 2, st_added_at = 100, st_added_by = Some 1\<rparr>"

definition audited1 :: "int \<Rightarrow> string \<Rightarrow> int \<Rightarrow> int option \<Rightarrow> string \<Rightarrow> int \<Rightarrow> int \<Rightarrow> audit_row" where
  "audited1 i kind actor user subject on t =
     \<lparr>ae_id = i, ae_occurred_at = t, ae_kind = kind, ae_actor = Some actor, ae_subject_user = user,
      ae_subject_kind = Some subject, ae_subject_id = Some on\<rparr>"

definition site2 :: db where
  "site2 = db1\<lparr>training_sessions := [shift1 1 ''08:00'' 480 (Some (''12:00'', 720, SdCompleted, 1))],
     session_trainers := [trainer1 1],
     audits := audits db1 @ [audited1 2 ''session_created'' 1 (Some 3) ''session'' 1 101,
       audited1 3 ''session_trainer_added'' 1 (Some 2) ''session'' 1 102]\<rparr>"

definition site3 :: db where
  "site3 = site2\<lparr>training_sessions := training_sessions site2 @ [shift1 2 ''12:00'' 720 None],
     session_trainers := session_trainers site2 @ [trainer1 2],
     audits := audits site2 @ [audited1 4 ''session_created'' 1 (Some 3) ''session'' 2 101,
       audited1 5 ''session_trainer_added'' 1 (Some 2) ''session'' 2 102]\<rparr>"

definition site4 :: db where
  "site4 = site3\<lparr>records := [record1 0], contributor_events := [event1 1 Created 2],
     record_sessions := [\<lparr>es_id = 1, es_record_id = 1, es_session_id = 1\<rparr>],
     audits := audits site3 @ [audited1 6 ''draft_created'' 2 (Some 3) ''record'' 1 101]\<rparr>"

definition site5 :: db where
  "site5 = site4\<lparr>training_sessions := [hd (training_sessions site3),
       shift1 2 ''12:00'' 720 (Some (''16:00'', 960, SdInterrupted, 2))],
     audits := audits site4 @ [audited1 7 ''session_closed'' 2 None ''session'' 2 101]\<rparr>"

lemma site_runs:
  "create_session jiff1 db1 clk1 db1 1 1 morning1 = Inr (site2, 1)"
  "create_session jiff1 site2 clk1 site2 1 1 noon1 = Inr (site3, 2)"
  "create site3 clk1 site3 2 1 None = Inr (site4, 1)"
  "close_session jiff1 site4 clk1 site4 2 2 SdInterrupted (Some ''16:00'') = Inr site5"
  by code_simp+

abbreviation open1 :: "db \<Rightarrow> bool" where
  "open1 \<equiv> open_site jiff1 ser1 to_vec1 sha1"

abbreviation site1 :: "db \<Rightarrow> site_call \<Rightarrow> db \<Rightarrow> bool" where
  "site1 \<equiv> site jiff1 ser1 to_vec1 sha1"

lemma site_steps:
  "site1 db0 (Service (Enroll 1 1 3)) db1" "site1 db1 (CreateSession 1 1 morning1) site2"
  "site1 site2 (CreateSession 1 1 noon1) site3" "site1 site3 (Service (Create 2 1 None)) site4"
  "site1 site4 (CloseSession 2 2 SdInterrupted (Some ''16:00'')) site5"
  by (auto intro: site.service service.intros site.create_session site.close_session run1 site_runs)

lemma open_site_step: "open_site j ser to_vec sha d \<Longrightarrow> site j ser to_vec sha d l d' \<Longrightarrow> open_site j ser to_vec sha d'"
  unfolding open_site_def using cycle_run_snoc by metis

lemma open0: "open1 db0"
  unfolding open_site_def using blank_db0
  by (intro exI [of _ db0] exI [of _ "[]"]) (simp add: db0_def)

lemmas open1 = open_site_step [OF open0 site_steps(1)]
lemmas open2 = open_site_step [OF open1 site_steps(2)]
lemmas open3 = open_site_step [OF open2 site_steps(3)]
lemmas open4 = open_site_step [OF open3 site_steps(4)]
lemmas open5 = open_site_step [OF open4 site_steps(5)]

section \<open>Properties of sessions\<close>

text \<open>
  C37: nobody is trained twice at once. In every database a site reaches, two sessions of one
  trainee that are not cancelled do not overlap, an open session reaching to the end of time,
  whatever the order of calls that created, moved and closed them.
\<close>

theorem no_double_booking:
  assumes "open_site j ser to_vec sha d"
    and "s \<in> set (training_sessions d)" "t \<in> set (training_sessions d)" "ts_id s \<noteq> ts_id t"
    and "trainee_of d (ts_enrollment_id s) = trainee_of d (ts_enrollment_id t)"
    and "ts_disposition s \<noteq> Some SdCancelled" "ts_disposition t \<noteq> Some SdCancelled"
  shows "interval_end (ts_utc_end s) \<le> ts_utc_start t \<or> interval_end (ts_utc_end t) \<le> ts_utc_start s"
  by (rule site_no_overlap [OF open_site_ok [OF assms(1)] assms(2-7)])

theorem no_double_booking_witness:
  "interval_end (ts_utc_end (training_sessions site5 ! 0)) \<le> ts_utc_start (training_sessions site5 ! 1) \<or>
   interval_end (ts_utc_end (training_sessions site5 ! 1)) \<le> ts_utc_start (training_sessions site5 ! 0)"
proof (rule no_double_booking [OF open5])
  show "training_sessions site5 ! 0 \<in> set (training_sessions site5)"
    "training_sessions site5 ! 1 \<in> set (training_sessions site5)" by (simp_all add: site5_def)
qed (simp_all add: site5_def site3_def site2_def shift1_def)

text \<open>
  C38: a record documents work that took place: every session a record covers exists, was not
  cancelled, and has a trainer.
\<close>

theorem covered_sessions_took_place:
  assumes "open_site j ser to_vec sha d" and "e \<in> set (record_sessions d)"
  shows "\<exists>s. session_of d (es_session_id e) = Some s \<and> ts_disposition s \<noteq> Some SdCancelled \<and>
    members d (es_session_id e) \<noteq> []"
  by (rule site_covered [OF open_site_ok [OF assms(1)] assms(2)])

theorem covered_sessions_took_place_witness:
  "\<exists>s. session_of site5 1 = Some s \<and> ts_disposition s \<noteq> Some SdCancelled \<and> members site5 1 \<noteq> []"
proof -
  have "record_sessions site5 = [\<lparr>es_id = 1, es_record_id = 1, es_session_id = 1\<rparr>]" by (simp add: site5_def site4_def)
  then show ?thesis
    using covered_sessions_took_place [OF open5, of "\<lparr>es_id = 1, es_record_id = 1, es_session_id = 1\<rparr>"] by simp
qed

text \<open>
  C39: a settled session never changes: along every run of a site, a session that has its
  disposition keeps its row.
\<close>

theorem settled_session_fixed:
  assumes "open_site j ser to_vec sha d" and "run_path (site j ser to_vec sha) d ls d'"
    and "session_of d i = Some s" and "ts_disposition s \<noteq> None"
  shows "session_of d' i = Some s"
  by (rule site_path_settled [OF assms(2) open_site_ok [OF assms(1)] assms(3,4)])

theorem settled_session_fixed_witness:
  "session_of site5 1 = Some (hd (training_sessions site2))"
proof (rule settled_session_fixed [OF open2])
  show "run_path site1 site2 [CreateSession 1 1 noon1, Service (Create 2 1 None),
      CloseSession 2 2 SdInterrupted (Some ''16:00'')] site5"
    using site_steps(3-5) by auto
qed (simp_all add: site2_def shift1_def session_of_def)

text \<open>
  C40: a session in progress can be ended. Whoever may work it, with an end that resolves to an
  instant the database can hold and not before its start, or a cancellation of a session no
  record covers, closes it: no check of the service and no trigger stands in the way.
\<close>

theorem session_can_be_ended:
  assumes "open_site j ser to_vec sha d" and "session_of d i = Some s" "ts_disposition s = None"
    and "may_work pre actor i" and "user_of d actor \<noteq> None"
    and "closing j d s k (entered local_end) = Inr e"
    and "interval_end (map_option snd e) \<le> interval_end None"
  shows "\<exists>d'. close_session j pre clk d actor i k local_end = Inr d' \<and>
    map_option ts_disposition (session_of d' i) = Some (Some k)"
proof -
  have "sessions_ok d" using open_site_ok [OF assms(1)] by (simp add: site_ok_def)
  from close_session_total [OF this assms(2-6)] assms(7)
  obtain d' where d': "close_session j pre clk d actor i k local_end = Inr d'"
    by (cases e) (auto simp: interval_end_def)
  then show ?thesis using close_session_settles by blast
qed

theorem session_can_be_ended_witness:
  "\<exists>d'. close_session jiff1 site4 clk1 site4 2 2 SdInterrupted (Some ''16:00'') = Inr d' \<and>
    map_option ts_disposition (session_of d' 2) = Some (Some SdInterrupted)"
proof (rule session_can_be_ended [OF open4, where e = "Some (''16:00'', 960)"])
  show "session_of site4 2 = Some (training_sessions site4 ! 1)" by code_simp
qed code_simp+

end
