(* ===== verification/Office.thy ===== *)
theory Office
  imports Lifecycle Canonical
begin

text \<open>
  The tables the record services never read, beside the database they share: program identities
  and citations (migration 0004), accounts and their codes (0002, 0016), task sign-offs (0013)
  and retention administration (0015). An office is that database with these tables.
\<close>

section \<open>Numbers as text\<close>

definition int_str :: "int \<Rightarrow> string" where
  "int_str i = (if i < 0 then ''-'' @ nat_str (nat (- i)) else nat_str (nat i))"

section \<open>Rows\<close>

record program_row =
  pg_id :: int
  pg_name :: string
  pg_created_at :: int
  pg_created_by :: "int option"

record citation_row =
  ci_id :: int
  ci_version_id :: int
  ci_competency_id :: "int option"
  ci_task_id :: "int option"
  ci_body :: string
  ci_edition :: string
  ci_clause :: string
  ci_note :: string

datatype signoff_kind = Observed | Demonstrated | Revoked

fun signoff_kind_as_str :: "signoff_kind \<Rightarrow> string" where
  "signoff_kind_as_str Observed = ''observed''"
| "signoff_kind_as_str Demonstrated = ''demonstrated''"
| "signoff_kind_as_str Revoked = ''revoked''"

record signoff_row =
  so_id :: int
  so_enrollment_id :: int
  so_task_id :: int
  so_kind :: signoff_kind
  so_reason :: string
  so_signed_by :: int
  so_signed_by_name :: string
  so_signed_at :: int

datatype record_class = RcDailyReport | RcWeeklySummary | RcPhaseEvaluation | RcDispositionEvent

datatype retention_trigger = FinalizedAt | EnrollmentClosedAt | DisposedAt

datatype retention_action = Retain | Destroy

datatype hold_kind =
    Litigation
  | AnticipatedLitigation
  | AuditHold
  | Investigation
  | PublicRecordsRequest
  | OtherHold

record authority_event_row =
  ra_event_id :: int
  ra_user_id :: int
  ra_granted :: bool
  ra_actor :: int
  ra_reason :: string
  ra_recorded_at :: int

record policy_revision_row =
  rp_id :: int
  rp_class :: record_class
  rp_number :: int
  rp_supersedes :: "int option"
  rp_authority :: string
  rp_trigger :: retention_trigger
  rp_days :: int
  rp_action :: retention_action
  rp_reason :: string
  rp_created_by :: int
  rp_created_at :: int

record hold_row =
  rh_id :: int
  rh_enrollment_id :: "int option"
  rh_record_id :: "int option"
  rh_kind :: hold_kind
  rh_authority :: string
  rh_reason :: string
  rh_created_by :: int
  rh_created_at :: int
  rh_replaces :: "int option"

record release_row =
  hr_hold_id :: int
  hr_released_by :: int
  hr_released_at :: int
  hr_reason :: string
  hr_replacement :: "int option"

record agency_row =
  ag_name :: string
  ag_created_at :: int

record setup_code_row =
  sc_code_hash :: string
  sc_expires_at :: int

datatype reset_via = ViaAdministrator | ViaRecovery

record reset_code_row =
  rc_id :: int
  rc_user_id :: int
  rc_code_hash :: string
  rc_issued_via :: reset_via
  rc_issued_by :: "int option"
  rc_issued_at :: int
  rc_expires_at :: int
  rc_used_at :: "int option"

record login_row =
  lg_token_hash :: string
  lg_user_id :: int
  lg_created_at :: int
  lg_expires_at :: int
  lg_revoked_at :: "int option"

section \<open>Tables\<close>

text \<open>\<open>agency\<close> and \<open>setup_code\<close> hold at most one row, by the check on their id.\<close>

record office =
  base :: db
  programs :: "program_row list"
  citations :: "citation_row list"
  signoffs :: "signoff_row list"
  authority_events :: "authority_event_row list"
  retention_policies :: "policy_revision_row list"
  record_holds :: "hold_row list"
  hold_releases :: "release_row list"
  agency :: "agency_row option"
  setup_code :: "setup_code_row option"
  reset_codes :: "reset_code_row list"
  logins :: "login_row list"
  secure_cookies :: "string list"

text \<open>A statement on the shared database, run by a service that also writes these tables.\<close>

definition in_base :: "(db \<Rightarrow> db_error + db) \<Rightarrow> office \<Rightarrow> db_error + office" where
  "in_base f w = seq (f (base w)) (\<lambda>d. Inr (w\<lparr>base := d\<rparr>))"

lemma in_base_Inr [row_simps]: "in_base f w = Inr w' \<longleftrightarrow> (\<exists>d. f (base w) = Inr d \<and> w' = w\<lparr>base := d\<rparr>)"
  by (auto simp: in_base_def guard_simps)

text \<open>What an operation does to the shared database besides its journal.\<close>

definition audited :: "office \<Rightarrow> office \<Rightarrow> bool" where
  "audited w w' \<longleftrightarrow> (\<exists>d. journaled (base w) d \<and> w' = w\<lparr>base := d\<rparr>)"

lemma audited_in_base: "in_base (record_for_subject k a s sub t) w = Inr w' \<Longrightarrow> audited w w'"
  by (auto simp: row_simps audited_def dest: journaled_record_for_subject)

lemma audited_record: "in_base (record_audit k a s t) w = Inr w' \<Longrightarrow> audited w w'"
  by (auto simp: row_simps audited_def dest: journaled_record)

lemma audited_tables:
  assumes "audited w w'"
  shows "signoffs w' = signoffs w" "programs w' = programs w" "citations w' = citations w"
    "authority_events w' = authority_events w" "retention_policies w' = retention_policies w"
    "record_holds w' = record_holds w" "hold_releases w' = hold_releases w" "agency w' = agency w"
    "setup_code w' = setup_code w" "reset_codes w' = reset_codes w" "logins w' = logins w"
    "secure_cookies w' = secure_cookies w"
  using assms by (auto simp: audited_def)

end
