(* ===== verification/Signoffs.thy ===== *)
theory Signoffs
  imports Office Enrollments
begin

text \<open>
  Task sign-offs (task_signoffs.rs, migration 0013): append-only rows per enrollment and task,
  the latest of which is the task's state. The first takes authoring scope, every later one is
  an override by a reviewer who gives a reason.
\<close>

section \<open>Recording\<close>

datatype signoff_refusal =
    SoNoSuchEnrollment
  | SoNoSuchTask
  | SoCapabilityRequired
  | SoReasonRequired
  | SoNothingToRevoke

definition signoffs_of :: "office \<Rightarrow> int \<Rightarrow> int \<Rightarrow> signoff_row list" where
  "signoffs_of w enrollment_id task_id =
     filter (\<lambda>s. so_enrollment_id s = enrollment_id \<and> so_task_id s = task_id) (signoffs w)"

definition task_of :: "db \<Rightarrow> int \<Rightarrow> task_row option" where
  "task_of d i = find (\<lambda>t. tk_id t = i) (tasks (catalog d))"

definition insert_signoff :: "signoff_row \<Rightarrow> office \<Rightarrow> db_error + office" where
  "insert_signoff s w =
     (let prior = signoffs_of w (so_enrollment_id s) (so_task_id s) in
      demand (map_option tk_version_id (task_of (base w) (so_task_id s)) =
          map_option e_version_id (enrollment_of (base w) (so_enrollment_id s)))
        (Raised ''task_signoff_takes_a_pinned_task'')
     (demand (prior \<noteq> [] \<longrightarrow> sql_length (trim (so_reason s)) \<noteq> 0)
        (Raised ''task_signoff_overrides_explain'')
     (demand (so_kind s = Revoked \<longrightarrow> prior \<noteq> []) (Raised ''task_signoff_revocations_supersede'')
     (demand (0 < sql_length (so_signed_by_name s)) CheckConstraint
     (demand (enrollment_of (base w) (so_enrollment_id s) \<noteq> None \<and>
         task_of (base w) (so_task_id s) \<noteq> None \<and> user_of (base w) (so_signed_by s) \<noteq> None) ForeignKey
     (Inr (w\<lparr>signoffs := signoffs w @ [s]\<rparr>)))))))"

text \<open>The rule of \<open>record\<close>, given what the transaction sees of earlier rows.\<close>

definition signoff_gate ::
    "bool \<Rightarrow> bool \<Rightarrow> bool \<Rightarrow> signoff_kind \<Rightarrow> string \<Rightarrow> signoff_refusal option" where
  "signoff_gate prior author reviewer kind reason =
     (if prior then
        if \<not> reviewer then Some SoCapabilityRequired
        else if reason = [] then Some SoReasonRequired
        else None
      else if \<not> author then Some SoCapabilityRequired
      else if kind = Revoked then Some SoNothingToRevoke
      else None)"

definition new_signoff ::
    "office \<Rightarrow> int \<Rightarrow> int \<Rightarrow> signoff_kind \<Rightarrow> string \<Rightarrow> int \<Rightarrow> string \<Rightarrow> int \<Rightarrow> signoff_row" where
  "new_signoff w enrollment_id task_id kind reason actor name now =
     \<lparr>so_id = next_id (map so_id (signoffs w)), so_enrollment_id = enrollment_id,
      so_task_id = task_id, so_kind = kind, so_reason = reason, so_signed_by = actor,
      so_signed_by_name = name, so_signed_at = now\<rparr>"

definition record_signoff ::
    "office \<Rightarrow> clock \<Rightarrow> office \<Rightarrow> int \<Rightarrow> int \<Rightarrow> int \<Rightarrow> signoff_kind \<Rightarrow> string
      \<Rightarrow> (signoff_refusal, office) outcome" where
  "record_signoff pre clk w actor enrollment_id task_id kind reason =
     (case map_option e_version_id (enrollment_of (base pre) enrollment_id) of
        None \<Rightarrow> refuse SoNoSuchEnrollment
      | Some version \<Rightarrow>
          if \<not> list_ex (\<lambda>t. tk_id t = task_id \<and> tk_version_id t = version) (tasks (catalog (base pre)))
          then refuse SoNoSuchTask
          else
            let author = user_has (base pre) actor AssignTraining \<or>
                  user_has (base pre) actor AuthorEvaluation \<and> is_assigned (base pre) actor enrollment_id;
                reviewer = user_has (base pre) actor ReviewEvaluation;
                reason = trim reason in
            (case signoff_gate (signoffs_of w enrollment_id task_id \<noteq> []) author reviewer kind reason of
               Some refusal \<Rightarrow> refuse refusal
             | None \<Rightarrow>
                 fetch_one (map_option u_display_name (user_of (base w) actor)) (\<lambda>name.
                 run (insert_signoff (new_signoff w enrollment_id task_id kind reason actor name (clk 0)) w) (\<lambda>w.
                 fetch_one (map_option e_user_id (enrollment_of (base w) enrollment_id)) (\<lambda>trainee.
                 run (in_base (record_for_subject EvTaskSignoffRecorded (Some actor) (Some trainee)
                        (SubjEnrollment enrollment_id) (clk 1)) w) (\<lambda>w. Inr w))))))"

section \<open>Reads\<close>

record matrix_row =
  mx_task_id :: int
  mx_category :: string
  mx_name :: string
  mx_prompt :: string
  mx_latest :: "signoff_row option"
  mx_history :: nat

text \<open>The tasks joined to their competency, in the order both reads give them.\<close>

definition task_rows :: "db \<Rightarrow> (task_row \<times> competency_row) list" where
  "task_rows d =
     sort_key (\<lambda>(t, c). (nocase (co_category c), nocase (co_name c), tk_sort t, tk_id t))
       (List.map_filter (\<lambda>t. map_option (Pair t)
          (find (\<lambda>c. co_id c = tk_competency_id t) (competencies (catalog d)))) (tasks (catalog d)))"

definition matrix :: "office \<Rightarrow> int \<Rightarrow> int \<Rightarrow> (signoff_refusal, matrix_row list) outcome" where
  "matrix w actor enrollment_id =
     (case map_option e_version_id (enrollment_of (base w) enrollment_id) of
        None \<Rightarrow> refuse SoNoSuchEnrollment
      | Some version \<Rightarrow>
          if \<not> may_read_enrollment (base w) actor enrollment_id then refuse SoCapabilityRequired
          else Inr (map (\<lambda>(t, c).
              \<lparr>mx_task_id = tk_id t, mx_category = co_category c, mx_name = co_name c,
               mx_prompt = tk_prompt t,
               mx_latest = latest_by so_id (signoffs_of w enrollment_id (tk_id t)),
               mx_history = length (signoffs_of w enrollment_id (tk_id t))\<rparr>)
            (filter (\<lambda>(t, c). tk_version_id t = version) (task_rows (base w)))))"

record signoff_task =
  sg_task_id :: int
  sg_prompt :: string
  sg_category :: string
  sg_name :: string
  sg_version_id :: int
  sg_version_number :: int
  sg_version_label :: string
  sg_in_current_version :: bool
  sg_current_kind :: "signoff_kind option"
  sg_signoffs :: "signoff_row list"

text \<open>
  The rows of the query: one per task and retained sign-off, one for a task without any. A task
  is listed when it is of the pinned version or has a sign-off.
\<close>

type_synonym joined_row = "task_row \<times> competency_row \<times> program_version_row \<times> signoff_row option"

definition history_query :: "office \<Rightarrow> int \<Rightarrow> int \<Rightarrow> joined_row list" where
  "history_query w enrollment_id current =
     concat (List.map_filter (\<lambda>(t, c).
         let rows = sort_key so_id (signoffs_of w enrollment_id (tk_id t)) in
         if tk_version_id t = current \<or> rows \<noteq> [] then
           map_option (\<lambda>v. if rows = [] then [(t, c, v, None)] else map (\<lambda>s. (t, c, v, Some s)) rows)
             (version_of (base w) (tk_version_id t))
         else None)
       (task_rows (base w)))"

text \<open>The loop over the rows: the tasks built so far, the last of them still open.\<close>

definition open_task :: "int \<Rightarrow> joined_row \<Rightarrow> signoff_task" where
  "open_task current r =
     (case r of (t, c, v, s) \<Rightarrow>
       \<lparr>sg_task_id = tk_id t, sg_prompt = tk_prompt t, sg_category = co_category c,
        sg_name = co_name c, sg_version_id = tk_version_id t, sg_version_number = pv_version_number v,
        sg_version_label = pv_label v, sg_in_current_version = (tk_version_id t = current),
        sg_current_kind = None, sg_signoffs = []\<rparr>)"

definition add_signoff :: "signoff_row option \<Rightarrow> signoff_task \<Rightarrow> signoff_task" where
  "add_signoff s x =
     (case s of
        None \<Rightarrow> x
      | Some s \<Rightarrow> x\<lparr>sg_current_kind := Some (so_kind s), sg_signoffs := sg_signoffs x @ [s]\<rparr>)"

fun group_rows :: "int \<Rightarrow> signoff_task list \<Rightarrow> joined_row list \<Rightarrow> signoff_task list" where
  "group_rows current acc [] = acc"
| "group_rows current acc (r # rs) =
     (let acc = (if acc \<noteq> [] \<and> sg_task_id (last acc) = tk_id (fst r) then acc
                  else acc @ [open_task current r]) in
      group_rows current (butlast acc @ [add_signoff (snd (snd (snd r))) (last acc)]) rs)"

definition may_read_history :: "db \<Rightarrow> int \<Rightarrow> int \<Rightarrow> int \<Rightarrow> bool" where
  "may_read_history d actor enrollment_id trainee \<longleftrightarrow>
     may_read_enrollment d actor enrollment_id \<or> actor = trainee \<and> user_has d actor ViewOwnRecords"

record signoff_history =
  sh_enrollment_id :: int
  sh_trainee :: int
  sh_version_id :: int
  sh_version_number :: int
  sh_version_label :: string
  sh_tasks :: "signoff_task list"

definition signoff_history_of :: "office \<Rightarrow> int \<Rightarrow> int \<Rightarrow> (signoff_refusal, signoff_history) outcome" where
  "signoff_history_of w actor enrollment_id =
     (case enrollment_of (base w) enrollment_id of
        None \<Rightarrow> refuse SoNoSuchEnrollment
      | Some e \<Rightarrow>
          if \<not> may_read_history (base w) actor enrollment_id (e_user_id e) then refuse SoCapabilityRequired
          else fetch_one (version_of (base w) (e_version_id e)) (\<lambda>v.
            Inr \<lparr>sh_enrollment_id = enrollment_id, sh_trainee = e_user_id e,
              sh_version_id = e_version_id e, sh_version_number = pv_version_number v,
              sh_version_label = pv_label v,
              sh_tasks = group_rows (e_version_id e) []
                (history_query w enrollment_id (e_version_id e))\<rparr>))"

section \<open>What a sign-off needed\<close>

lemma new_signoff_fields [simp]:
  "so_id (new_signoff w e t k r a n i) = next_id (map so_id (signoffs w))"
  "so_enrollment_id (new_signoff w e t k r a n i) = e" "so_task_id (new_signoff w e t k r a n i) = t"
  "so_kind (new_signoff w e t k r a n i) = k" "so_reason (new_signoff w e t k r a n i) = r"
  "so_signed_by (new_signoff w e t k r a n i) = a"
  by (simp_all add: new_signoff_def)

lemma insert_signoff_Inr [row_simps]:
  "insert_signoff s w = Inr w' \<longleftrightarrow>
     map_option tk_version_id (task_of (base w) (so_task_id s)) =
       map_option e_version_id (enrollment_of (base w) (so_enrollment_id s)) \<and>
     (signoffs_of w (so_enrollment_id s) (so_task_id s) \<noteq> [] \<longrightarrow> sql_length (trim (so_reason s)) \<noteq> 0) \<and>
     (so_kind s = Revoked \<longrightarrow> signoffs_of w (so_enrollment_id s) (so_task_id s) \<noteq> []) \<and>
     0 < sql_length (so_signed_by_name s) \<and> enrollment_of (base w) (so_enrollment_id s) \<noteq> None \<and>
     task_of (base w) (so_task_id s) \<noteq> None \<and> user_of (base w) (so_signed_by s) \<noteq> None \<and>
     w' = w\<lparr>signoffs := signoffs w @ [s]\<rparr>"
  by (auto simp: insert_signoff_def demand_def Let_def)


lemma record_signoff_effect:
  assumes "record_signoff pre clk w actor e t k reason = Inr w'"
  shows "\<exists>name. let s = new_signoff w e t k (trim reason) actor name (clk 0) in
    insert_signoff s w = Inr (w\<lparr>signoffs := signoffs w @ [s]\<rparr>) \<and>
    audited (w\<lparr>signoffs := signoffs w @ [s]\<rparr>) w' \<and>
    signoff_gate (signoffs_of w e t \<noteq> [])
      (user_has (base pre) actor AssignTraining \<or>
        user_has (base pre) actor AuthorEvaluation \<and> is_assigned (base pre) actor e)
      (user_has (base pre) actor ReviewEvaluation) k (trim reason) = None"
proof -
  from assms obtain name x where
      g: "signoff_gate (signoffs_of w e t \<noteq> [])
        (user_has (base pre) actor AssignTraining \<or>
          user_has (base pre) actor AuthorEvaluation \<and> is_assigned (base pre) actor e)
        (user_has (base pre) actor ReviewEvaluation) k (trim reason) = None"
    and i: "insert_signoff (new_signoff w e t k (trim reason) actor name (clk 0)) w = Inr x"
    and a: "\<exists>u. in_base (record_for_subject EvTaskSignoffRecorded (Some actor) u (SubjEnrollment e) (clk 1)) x = Inr w'"
    by (auto simp: record_signoff_def Let_def guard_simps)
  have "x = w\<lparr>signoffs := signoffs w @ [new_signoff w e t k (trim reason) actor name (clk 0)]\<rparr>"
    using i by (simp add: row_simps)
  then show ?thesis
    using g i a audited_in_base unfolding Let_def by blast
qed

lemma signoffs_of_snoc:
  "signoffs_of (w\<lparr>signoffs := signoffs w @ [s]\<rparr>) e t =
     signoffs_of w e t @ (if so_enrollment_id s = e \<and> so_task_id s = t then [s] else [])"
  by (simp add: signoffs_of_def)

section \<open>The invariant\<close>

text \<open>A task's history starts with a sign-off, and every later row says why.\<close>

fun history_ok :: "signoff_row list \<Rightarrow> bool" where
  "history_ok [] = True"
| "history_ok (s # ss) = (so_kind s \<noteq> Revoked \<and> list_all (\<lambda>x. trim (so_reason x) \<noteq> []) ss)"

lemma history_ok_snoc:
  "history_ok (ss @ [s]) \<longleftrightarrow> history_ok ss \<and> (if ss = [] then so_kind s \<noteq> Revoked else trim (so_reason s) \<noteq> [])"
  by (cases ss) auto

definition signoffs_ok :: "office \<Rightarrow> bool" where
  "signoffs_ok w \<longleftrightarrow> ids_ok (map so_id (signoffs w)) \<and> (\<forall>e t. history_ok (signoffs_of w e t))"

lemma record_signoff_ok:
  assumes ok: "signoffs_ok w" and r: "record_signoff pre clk w actor e t k reason = Inr w'"
  shows "signoffs_ok w'"
proof -
  from record_signoff_effect [OF r] obtain name where
      a: "audited (w\<lparr>signoffs := signoffs w @ [new_signoff w e t k (trim reason) actor name (clk 0)]\<rparr>) w'"
    and g: "signoff_gate (signoffs_of w e t \<noteq> [])
      (user_has (base pre) actor AssignTraining \<or>
        user_has (base pre) actor AuthorEvaluation \<and> is_assigned (base pre) actor e)
      (user_has (base pre) actor ReviewEvaluation) k (trim reason) = None"
    unfolding Let_def by blast
  let ?s = "new_signoff w e t k (trim reason) actor name (clk 0)"
  have w': "signoffs w' = signoffs w @ [?s]"
    using audited_tables(1) [OF a] by simp
  have "signoffs_of w' e' t' = signoffs_of w e' t' @ (if e = e' \<and> t = t' then [?s] else [])" for e' t'
    by (simp add: signoffs_of_def w')
  then have "history_ok (signoffs_of w' e' t')" for e' t'
    using ok g by (auto simp: signoffs_ok_def history_ok_snoc signoff_gate_def split: if_splits)
  then show ?thesis
    using ok by (simp add: signoffs_ok_def w')
qed

section \<open>The history read is complete\<close>

text \<open>What the read should say of one task, straight from its rows.\<close>

definition task_history :: "int \<Rightarrow> task_row \<Rightarrow> competency_row \<Rightarrow> program_version_row \<Rightarrow> signoff_row list \<Rightarrow> signoff_task" where
  "task_history current t c v ss =
     (open_task current (t, c, v, None))\<lparr>sg_current_kind := (if ss = [] then None else Some (so_kind (last ss))),
        sg_signoffs := ss\<rparr>"

definition listed :: "office \<Rightarrow> int \<Rightarrow> int \<Rightarrow> (task_row \<times> competency_row \<times> program_version_row) list" where
  "listed w enrollment_id current =
     List.map_filter (\<lambda>(t, c).
         if tk_version_id t = current \<or> signoffs_of w enrollment_id (tk_id t) \<noteq> [] then
           map_option (\<lambda>v. (t, c, v)) (version_of (base w) (tk_version_id t))
         else None) (task_rows (base w))"

abbreviation rows_of :: "task_row \<Rightarrow> competency_row \<Rightarrow> program_version_row \<Rightarrow> signoff_row list \<Rightarrow> joined_row list" where
  "rows_of t c v ss \<equiv> (if ss = [] then [(t, c, v, None)] else map (\<lambda>s. (t, c, v, Some s)) ss)"

lemma map_filter_comp:
  assumes "\<And>x. f x = map_option g (f' x)"
  shows "List.map_filter f xs = map g (List.map_filter f' xs)"
  by (induction xs) (auto simp: map_filter_simps assms split: option.splits)

lemma history_query_blocks:
  "history_query w e current =
     concat (map (\<lambda>(t, c, v). rows_of t c v (sort_key so_id (signoffs_of w e (tk_id t)))) (listed w e current))"
  unfolding history_query_def listed_def
proof (intro arg_cong [where f = concat] map_filter_comp, clarify)
  fix t :: task_row and c :: competency_row
  have n: "sort_key so_id (signoffs_of w e (tk_id t)) = [] \<longleftrightarrow> signoffs_of w e (tk_id t) = []"
    by (metis length_0_conv length_sort)
  show "(let rows = sort_key so_id (signoffs_of w e (tk_id t)) in
      if tk_version_id t = current \<or> rows \<noteq> [] then map_option (\<lambda>v. rows_of t c v rows) (version_of (base w) (tk_version_id t))
      else None) =
    map_option (\<lambda>(t, c, v). rows_of t c v (sort_key so_id (signoffs_of w e (tk_id t))))
      (if tk_version_id t = current \<or> signoffs_of w e (tk_id t) \<noteq> [] then
         map_option (\<lambda>v. (t, c, v)) (version_of (base w) (tk_version_id t)) else None)"
    unfolding Let_def by (cases "version_of (base w) (tk_version_id t)") (simp_all add: n)
qed

lemma group_rows_same:
  assumes "sg_task_id x = tk_id t"
  shows "group_rows current (acc @ [x]) (map (\<lambda>s. (t, c, v, Some s)) ss @ rest) =
    group_rows current (acc @ [x\<lparr>sg_current_kind := (if ss = [] then sg_current_kind x else Some (so_kind (last ss))),
      sg_signoffs := sg_signoffs x @ ss\<rparr>]) rest"
  using assms
proof (induction ss arbitrary: x)
  case (Cons s ss)
  let ?y = "add_signoff (Some s) x"
  have "group_rows current (acc @ [x]) (map (\<lambda>s. (t, c, v, Some s)) (s # ss) @ rest) =
      group_rows current (acc @ [?y]) (map (\<lambda>s. (t, c, v, Some s)) ss @ rest)"
    using Cons.prems by simp
  also have "\<dots> = group_rows current (acc @ [?y\<lparr>sg_current_kind :=
        (if ss = [] then sg_current_kind ?y else Some (so_kind (last ss))), sg_signoffs := sg_signoffs ?y @ ss\<rparr>]) rest"
    using Cons.prems by (intro Cons.IH) (simp add: add_signoff_def)
  also have "?y\<lparr>sg_current_kind := (if ss = [] then sg_current_kind ?y else Some (so_kind (last ss))),
        sg_signoffs := sg_signoffs ?y @ ss\<rparr> =
      x\<lparr>sg_current_kind := (if s # ss = [] then sg_current_kind x else Some (so_kind (last (s # ss)))),
        sg_signoffs := sg_signoffs x @ s # ss\<rparr>"
    by (simp add: add_signoff_def)
  finally show ?case .
qed simp

lemma group_rows_new:
  assumes "acc = [] \<or> sg_task_id (last acc) \<noteq> tk_id t"
  shows "group_rows current acc ((t, c, v, s) # rs) =
    group_rows current (acc @ [add_signoff s (open_task current (t, c, v, s))]) rs"
  using assms by auto

lemma group_rows_block:
  assumes "acc = [] \<or> sg_task_id (last acc) \<noteq> tk_id t"
  shows "group_rows current acc (rows_of t c v ss @ rest) =
    group_rows current (acc @ [task_history current t c v ss]) rest"
proof (cases ss)
  case Nil
  then show ?thesis
    using group_rows_new [OF assms, of current c v None rest]
    by (simp add: task_history_def open_task_def add_signoff_def)
next
  case (Cons s tl)
  let ?x = "add_signoff (Some s) (open_task current (t, c, v, Some s))"
  have x: "sg_task_id ?x = tk_id t" "?x\<lparr>sg_current_kind := (if tl = [] then sg_current_kind ?x else Some (so_kind (last tl))),
      sg_signoffs := sg_signoffs ?x @ tl\<rparr> = task_history current t c v ss"
    by (simp_all add: Cons task_history_def open_task_def add_signoff_def)
  have "group_rows current acc (rows_of t c v ss @ rest) =
      group_rows current (acc @ [?x]) (map (\<lambda>s. (t, c, v, Some s)) tl @ rest)"
    using group_rows_new [OF assms, of current c v "Some s" "map (\<lambda>s. (t, c, v, Some s)) tl @ rest"]
    by (simp only: Cons list.simps if_False append.simps)
  then show ?thesis
    unfolding group_rows_same [OF x(1)] x(2) .
qed

lemma group_rows_blocks:
  assumes "distinct (map (\<lambda>(t, _). tk_id t) bs)"
    and "acc = [] \<or> sg_task_id (last acc) \<notin> set (map (\<lambda>(t, _). tk_id t) bs)"
  shows "group_rows current acc (concat (map (\<lambda>(t, c, v). rows_of t c v (f t)) bs)) =
    acc @ map (\<lambda>(t, c, v). task_history current t c v (f t)) bs"
  using assms
proof (induction bs arbitrary: acc)
  case (Cons b bs)
  obtain t c v where b: "b = (t, c, v)" by (cases b) auto
  have "sg_task_id (task_history current t c v (f t)) = tk_id t"
    by (simp add: task_history_def open_task_def)
  then have "group_rows current (acc @ [task_history current t c v (f t)])
      (concat (map (\<lambda>(t, c, v). rows_of t c v (f t)) bs)) =
    (acc @ [task_history current t c v (f t)]) @ map (\<lambda>(t, c, v). task_history current t c v (f t)) bs"
    using Cons.prems(1) b by (intro Cons.IH) auto
  moreover have "acc = [] \<or> sg_task_id (last acc) \<noteq> tk_id t"
    using Cons.prems(2) b by auto
  ultimately show ?case
    using group_rows_block [where acc = acc and t = t and current = current and c = c and v = v and ss = "f t"] b
    by simp
qed simp

lemma distinct_map_filter_fst:
  assumes "distinct (map g xs)" and h: "\<And>x y. f x = Some y \<Longrightarrow> h y = g x"
  shows "distinct (map h (List.map_filter f xs))"
  using assms(1)
proof (induction xs)
  case (Cons x xs)
  have g: "h ` set (List.map_filter f xs) \<subseteq> g ` set xs"
    using h by (fastforce simp: map_filter_def)
  show ?case
  proof (cases "f x")
    case (Some y)
    have "h y \<notin> h ` set (List.map_filter f xs)"
      using g h [OF Some] Cons.prems by auto
    with Cons Some show ?thesis by (simp add: map_filter_simps)
  qed (use Cons in \<open>simp add: map_filter_simps\<close>)
qed (simp add: map_filter_simps)

lemma listed_distinct:
  assumes "distinct (map tk_id (tasks (catalog (base w))))"
  shows "distinct (map (\<lambda>(t, _). tk_id t) (listed w e current))"
proof -
  let ?f = "\<lambda>t. map_option (Pair t) (find (\<lambda>c. co_id c = tk_competency_id t) (competencies (catalog (base w))))"
  have "distinct (map (\<lambda>(t, _). tk_id t) (List.map_filter ?f (tasks (catalog (base w)))))"
    by (rule distinct_map_filter_fst [OF assms]) auto
  then have "distinct (map (\<lambda>(t, _). tk_id t) (task_rows (base w)))"
    by (simp add: task_rows_def distinct_map)
  then show ?thesis
    unfolding listed_def by (rule distinct_map_filter_fst) (auto split: if_splits)
qed

lemma history_tasks:
  assumes "distinct (map tk_id (tasks (catalog (base w))))" and "ids_ok (map so_id (signoffs w))"
    and "signoff_history_of w actor e = Inr h"
  shows "sh_tasks h = map (\<lambda>(t, c, v). task_history (sh_version_id h) t c v (signoffs_of w e (tk_id t)))
    (listed w e (sh_version_id h))"
proof -
  have "sorted (map so_id (signoffs_of w e t))" for t
    using ids_ok_filter [OF assms(2)] unfolding signoffs_of_def ids_ok_def by (blast intro: strict_sorted_imp_sorted)
  then have "sort_key so_id (signoffs_of w e t) = signoffs_of w e t" for t
    by (rule sort_key_id_if_sorted)
  then have q: "history_query w e current =
      concat (map (\<lambda>(t, c, v). rows_of t c v (signoffs_of w e (tk_id t))) (listed w e current))" for current
    unfolding history_query_blocks by (simp only:)
  have "sh_tasks h = group_rows (sh_version_id h) [] (history_query w e (sh_version_id h))"
    using assms(3) by (auto simp: signoff_history_of_def guard_simps)
  then show ?thesis
    using group_rows_blocks [OF listed_distinct [OF assms(1)], where acc = "[]" and current = "sh_version_id h"
        and f = "\<lambda>t. signoffs_of w e (tk_id t)"]
    unfolding q by simp
qed

end
