(* ===== verification/Retention.thy ===== *)
theory Retention
  imports Office Canonical
begin

text \<open>
  Retention administration (retention.rs and retention/, migration 0015): versioned policies by
  record class, attributed holds with their releases, and the authority to administer both.
  Nothing here destroys a record. Every operation checks its capability inside its transaction.
\<close>

section \<open>Vocabulary\<close>

fun record_class_as_str :: "record_class \<Rightarrow> string" where
  "record_class_as_str RcDailyReport = ''daily_report''"
| "record_class_as_str RcWeeklySummary = ''weekly_summary''"
| "record_class_as_str RcPhaseEvaluation = ''phase_evaluation''"
| "record_class_as_str RcDispositionEvent = ''disposition_event''"

definition record_class_all :: "record_class list" where
  "record_class_all = [RcDailyReport, RcWeeklySummary, RcPhaseEvaluation, RcDispositionEvent]"

definition record_class_from_db :: "string \<Rightarrow> record_class option" where
  "record_class_from_db s = vocabulary_parse record_class_all record_class_as_str s"

fun retention_trigger_as_str :: "retention_trigger \<Rightarrow> string" where
  "retention_trigger_as_str FinalizedAt = ''finalized_at''"
| "retention_trigger_as_str EnrollmentClosedAt = ''enrollment_closed_at''"
| "retention_trigger_as_str DisposedAt = ''disposed_at''"

fun retention_action_as_str :: "retention_action \<Rightarrow> string" where
  "retention_action_as_str Retain = ''retain''"
| "retention_action_as_str Destroy = ''destroy''"

fun hold_kind_as_str :: "hold_kind \<Rightarrow> string" where
  "hold_kind_as_str Litigation = ''litigation''"
| "hold_kind_as_str AnticipatedLitigation = ''anticipated_litigation''"
| "hold_kind_as_str AuditHold = ''audit''"
| "hold_kind_as_str Investigation = ''investigation''"
| "hold_kind_as_str PublicRecordsRequest = ''public_records_request''"
| "hold_kind_as_str OtherHold = ''other''"

definition hold_kind_all :: "hold_kind list" where
  "hold_kind_all =
     [Litigation, AnticipatedLitigation, AuditHold, Investigation, PublicRecordsRequest, OtherHold]"

definition hold_kind_from_db :: "string \<Rightarrow> hold_kind option" where
  "hold_kind_from_db s = vocabulary_parse hold_kind_all hold_kind_as_str s"

interpretation rclass: closed_vocabulary record_class_all record_class_as_str record_class_from_db
proof (unfold_locales, goal_cases)
  case (1 v)
  show ?case by (cases v) (simp_all add: record_class_all_def)
next
  case 2
  show ?case by (simp add: record_class_all_def)
next
  case (3 stored)
  show ?case by (rule record_class_from_db_def)
qed

interpretation hkind: closed_vocabulary hold_kind_all hold_kind_as_str hold_kind_from_db
proof (unfold_locales, goal_cases)
  case (1 v)
  show ?case by (cases v) (simp_all add: hold_kind_all_def)
next
  case 2
  show ?case by (simp add: hold_kind_all_def)
next
  case (3 stored)
  show ?case by (rule hold_kind_from_db_def)
qed

datatype hold_scope = ScopeInstallation | ScopeEnrollment int | ScopeRecord int

datatype retention_refusal =
    RtCapabilityRequired
  | RtInvalid "string list"
  | RtStalePolicy
  | RtNoSuchEnrollment
  | RtNoSuchRecord
  | RtNoSuchHold
  | RtHoldReleased
  | RtNoSuchUser
  | RtAuthorityUnchanged

section \<open>Shared checks\<close>

definition en_dash :: string where
  "en_dash = [CHR 0xE2, CHR 0x80, CHR 0x93]"

text \<open>The problem \<open>text_problem\<close> pushes, if any.\<close>

definition text_problem :: "string \<Rightarrow> string \<Rightarrow> nat \<Rightarrow> string list" where
  "text_problem value field maximum =
     (let n = char_count (trim value) in
      if n = 0 \<or> maximum < n
      then [field @ '' must contain 1'' @ en_dash @ nat_str maximum @ '' characters'']
      else [])"

definition bounded_text :: "nat \<Rightarrow> string \<Rightarrow> bool" where
  "bounded_text maximum s \<longleftrightarrow> 1 \<le> sql_length (trim s) \<and> sql_length (trim s) \<le> maximum"

definition scope_exists :: "db \<Rightarrow> hold_scope \<Rightarrow> retention_refusal option" where
  "scope_exists d scope =
     (case scope of
        ScopeInstallation \<Rightarrow> None
      | ScopeEnrollment e \<Rightarrow> if enrollment_of d e = None then Some RtNoSuchEnrollment else None
      | ScopeRecord r \<Rightarrow> if record_of d r = None then Some RtNoSuchRecord else None)"

definition authorized ::
    "office \<Rightarrow> int \<Rightarrow> capability \<Rightarrow> (retention_refusal, 'a) outcome \<Rightarrow> (retention_refusal, 'a) outcome" where
  "authorized w actor c m = (if user_has (base w) actor c then m else refuse RtCapabilityRequired)"

section \<open>Policies\<close>

record policy_input =
  pin_class :: record_class
  pin_expected :: "int option"
  pin_authority :: string
  pin_trigger :: retention_trigger
  pin_days :: int
  pin_action :: retention_action
  pin_reason :: string

definition policy_problems :: "policy_input \<Rightarrow> string list" where
  "policy_problems i =
     text_problem (pin_authority i) ''authority'' 200 @ text_problem (pin_reason i) ''reason'' 1000 @
     (if 0 \<le> pin_days i \<and> pin_days i \<le> 365250 then []
      else [''retention days must be between 0 and 365250'']) @
     (if (pin_class i = RcDispositionEvent) \<noteq> (pin_trigger i = DisposedAt)
      then [''disposition events use disposed_at; evaluations use finalized_at or enrollment_closed_at'']
      else []) @
     (if pin_action i = Retain \<and> pin_days i \<noteq> 0
      then [''retain has no destruction period; use zero days''] else [])"

definition policies_of :: "office \<Rightarrow> record_class \<Rightarrow> policy_revision_row list" where
  "policies_of w c = filter (\<lambda>p. rp_class p = c) (retention_policies w)"

definition current_policy :: "office \<Rightarrow> record_class \<Rightarrow> policy_revision_row option" where
  "current_policy w c = latest_by rp_number (policies_of w c)"

definition insert_policy_revision :: "policy_revision_row \<Rightarrow> office \<Rightarrow> db_error + office" where
  "insert_policy_revision p w =
     (let cur = current_policy w (rp_class p) in
      demand (rp_number p = (case cur of None \<Rightarrow> 0 | Some q \<Rightarrow> rp_number q) + 1 \<and>
          rp_supersedes p = map_option rp_id cur)
        (Raised ''retention_policy_successor'')
     (demand (0 < rp_number p \<and> bounded_text 200 (rp_authority p) \<and> bounded_text 1000 (rp_reason p) \<and>
         0 \<le> rp_days p \<and> rp_days p \<le> 365250 \<and>
         (rp_class p = RcDispositionEvent) = (rp_trigger p = DisposedAt) \<and>
         (rp_action p = Destroy \<or> rp_days p = 0) \<and> (rp_number p = 1) = (rp_supersedes p = None))
        CheckConstraint
     (demand (\<not> list_ex (\<lambda>q. rp_class q = rp_class p \<and> rp_number q = rp_number p \<or>
           rp_supersedes p \<noteq> None \<and> rp_supersedes q = rp_supersedes p) (retention_policies w)) UniqueIndex
     (demand (user_of (base w) (rp_created_by p) \<noteq> None) ForeignKey
     (Inr (w\<lparr>retention_policies := retention_policies w @ [p]\<rparr>))))))"

definition new_policy :: "office \<Rightarrow> int \<Rightarrow> policy_input \<Rightarrow> int \<Rightarrow> policy_revision_row" where
  "new_policy w actor i now =
     (let cur = current_policy w (pin_class i) in
      \<lparr>rp_id = next_id (map rp_id (retention_policies w)), rp_class = pin_class i,
       rp_number = (case cur of None \<Rightarrow> 1 | Some q \<Rightarrow> rp_number q + 1), rp_supersedes = pin_expected i,
       rp_authority = trim (pin_authority i), rp_trigger = pin_trigger i, rp_days = pin_days i,
       rp_action = pin_action i, rp_reason = trim (pin_reason i), rp_created_by = actor,
       rp_created_at = now\<rparr>)"

definition create_policy ::
    "clock \<Rightarrow> office \<Rightarrow> int \<Rightarrow> policy_input \<Rightarrow> (retention_refusal, office \<times> int) outcome" where
  "create_policy clk w actor i =
     authorized w actor ManageRetention
       (if policy_problems i \<noteq> [] then refuse (RtInvalid (policy_problems i))
        else if map_option rp_id (current_policy w (pin_class i)) \<noteq> pin_expected i then refuse RtStalePolicy
        else
          let p = new_policy w actor i (clk 0) in
          run (insert_policy_revision p w) (\<lambda>w.
          run (in_base (record_for_subject EvRetentionPolicyCreated (Some actor) None
                 (SubjRetentionPolicy (rp_id p)) (clk 1)) w) (\<lambda>w.
          Inr (w, rp_id p))))"

definition list_policies :: "office \<Rightarrow> int \<Rightarrow> (retention_refusal, policy_revision_row list) outcome" where
  "list_policies w actor =
     authorized w actor ManageRetention
       (Inr (sort_key (\<lambda>p. (record_class_as_str (rp_class p), - rp_number p)) (retention_policies w)))"

section \<open>Holds\<close>

record hold_input =
  hin_scope :: hold_scope
  hin_kind :: hold_kind
  hin_authority :: string
  hin_reason :: string

definition hold_of :: "office \<Rightarrow> int \<Rightarrow> hold_row option" where
  "hold_of w i = find (\<lambda>h. rh_id h = i) (record_holds w)"

definition release_of :: "office \<Rightarrow> int \<Rightarrow> release_row option" where
  "release_of w i = find (\<lambda>r. hr_hold_id r = i) (hold_releases w)"

definition active_refusal :: "office \<Rightarrow> int \<Rightarrow> retention_refusal option" where
  "active_refusal w i =
     (if hold_of w i = None then Some RtNoSuchHold
      else if release_of w i \<noteq> None then Some RtHoldReleased
      else None)"

definition insert_release :: "release_row \<Rightarrow> office \<Rightarrow> db_error + office" where
  "insert_release r w =
     demand (\<not> (case hold_of w (hr_hold_id r) of None \<Rightarrow> False | Some h \<Rightarrow> hr_released_at r < rh_created_at h))
       (Raised ''hold_release_chronology'')
    (demand (case hr_replacement r of
               None \<Rightarrow> True
             | Some n \<Rightarrow> list_ex (\<lambda>h. rh_id h = n \<and> rh_replaces h = Some (hr_hold_id r) \<and>
                 rh_created_by h = hr_released_by r \<and> rh_created_at h = hr_released_at r \<and>
                 rh_reason h = hr_reason r) (record_holds w))
       (Raised ''hold_release_matches_replacement'')
    (demand (bounded_text 1000 (hr_reason r)) CheckConstraint
    (demand (release_of w (hr_hold_id r) = None \<and>
        \<not> list_ex (\<lambda>q. hr_replacement r \<noteq> None \<and> hr_replacement q = hr_replacement r) (hold_releases w))
       UniqueIndex
    (demand (hold_of w (hr_hold_id r) \<noteq> None \<and> user_of (base w) (hr_released_by r) \<noteq> None) ForeignKey
    (Inr (w\<lparr>hold_releases := hold_releases w @ [r]\<rparr>))))))"

text \<open>The insert of a hold; its last trigger releases the hold it replaces.\<close>

definition insert_hold :: "hold_row \<Rightarrow> office \<Rightarrow> db_error + office" where
  "insert_hold h w =
     demand (case rh_replaces h of
               None \<Rightarrow> True
             | Some i \<Rightarrow>
                 (case hold_of w i of
                    None \<Rightarrow> False
                  | Some old \<Rightarrow> release_of w i = None \<and> \<not> rh_created_at h < rh_created_at old))
       (Raised ''record_hold_replace_active'')
    (demand (bounded_text 200 (rh_authority h) \<and> bounded_text 1000 (rh_reason h) \<and>
        (rh_enrollment_id h = None \<or> rh_record_id h = None)) CheckConstraint
    (demand (\<not> list_ex (\<lambda>q. rh_replaces h \<noteq> None \<and> rh_replaces q = rh_replaces h) (record_holds w)) UniqueIndex
    (demand ((case rh_enrollment_id h of None \<Rightarrow> True | Some e \<Rightarrow> enrollment_of (base w) e \<noteq> None) \<and>
        (case rh_record_id h of None \<Rightarrow> True | Some r \<Rightarrow> record_of (base w) r \<noteq> None) \<and>
        user_of (base w) (rh_created_by h) \<noteq> None) ForeignKey
    (let w = w\<lparr>record_holds := record_holds w @ [h]\<rparr> in
     case rh_replaces h of
       None \<Rightarrow> Inr w
     | Some i \<Rightarrow> insert_release \<lparr>hr_hold_id = i, hr_released_by = rh_created_by h,
         hr_released_at = rh_created_at h, hr_reason = rh_reason h, hr_replacement = Some (rh_id h)\<rparr> w))))"

definition new_hold :: "office \<Rightarrow> int \<Rightarrow> hold_input \<Rightarrow> int option \<Rightarrow> int \<Rightarrow> hold_row" where
  "new_hold w actor i replaces now =
     \<lparr>rh_id = next_id (map rh_id (record_holds w)),
      rh_enrollment_id = (case hin_scope i of ScopeEnrollment e \<Rightarrow> Some e | _ \<Rightarrow> None),
      rh_record_id = (case hin_scope i of ScopeRecord r \<Rightarrow> Some r | _ \<Rightarrow> None),
      rh_kind = hin_kind i, rh_authority = trim (hin_authority i), rh_reason = trim (hin_reason i),
      rh_created_by = actor, rh_created_at = now, rh_replaces = replaces\<rparr>"

definition hold_problems :: "hold_input \<Rightarrow> string list" where
  "hold_problems i =
     text_problem (hin_authority i) ''authority'' 200 @ text_problem (hin_reason i) ''reason'' 1000"

definition write_hold ::
    "clock \<Rightarrow> office \<Rightarrow> int \<Rightarrow> hold_input \<Rightarrow> int option \<Rightarrow> (retention_refusal, office \<times> int) outcome" where
  "write_hold clk w actor i replaces =
     authorized w actor ManageRetention
       (if hold_problems i \<noteq> [] then refuse (RtInvalid (hold_problems i))
        else case scope_exists (base w) (hin_scope i) of
          Some r \<Rightarrow> refuse r
        | None \<Rightarrow>
        (case Option.bind replaces (active_refusal w) of
          Some r \<Rightarrow> refuse r
        | None \<Rightarrow>
            let h = new_hold w actor i replaces (clk 0) in
            run (insert_hold h w) (\<lambda>w.
            run (in_base (record_for_subject
                   (if replaces \<noteq> None then EvRecordHoldReplaced else EvRecordHoldCreated)
                   (Some actor) None (SubjRecordHold (rh_id h)) (clk 1)) w) (\<lambda>w.
            Inr (w, rh_id h)))))"

definition create_hold ::
    "clock \<Rightarrow> office \<Rightarrow> int \<Rightarrow> hold_input \<Rightarrow> (retention_refusal, office \<times> int) outcome" where
  "create_hold clk w actor i = write_hold clk w actor i None"

definition replace_hold ::
    "clock \<Rightarrow> office \<Rightarrow> int \<Rightarrow> int \<Rightarrow> hold_input \<Rightarrow> (retention_refusal, office \<times> int) outcome" where
  "replace_hold clk w actor hold_id i = write_hold clk w actor i (Some hold_id)"

definition release_hold ::
    "clock \<Rightarrow> office \<Rightarrow> int \<Rightarrow> int \<Rightarrow> string \<Rightarrow> (retention_refusal, office) outcome" where
  "release_hold clk w actor hold_id reason =
     authorized w actor ManageRetention
       (if text_problem reason ''reason'' 1000 \<noteq> [] then refuse (RtInvalid (text_problem reason ''reason'' 1000))
        else case active_refusal w hold_id of
          Some r \<Rightarrow> refuse r
        | None \<Rightarrow>
            run (insert_release \<lparr>hr_hold_id = hold_id, hr_released_by = actor, hr_released_at = clk 0,
                   hr_reason = trim reason, hr_replacement = None\<rparr> w) (\<lambda>w.
            run (in_base (record_for_subject EvRecordHoldReleased (Some actor) None
                   (SubjRecordHold hold_id) (clk 1)) w) (\<lambda>w. Inr w)))"

record hold_view =
  hv_id :: int
  hv_scope :: hold_scope
  hv_kind :: hold_kind
  hv_authority :: string
  hv_reason :: string
  hv_created_by :: int
  hv_created_at :: int
  hv_replaces :: "int option"
  hv_release :: "release_row option"

definition hold_from_row :: "hold_row \<Rightarrow> release_row option \<Rightarrow> db_error + hold_view" where
  "hold_from_row h r =
     (let view = (\<lambda>scope. Inr \<lparr>hv_id = rh_id h, hv_scope = scope, hv_kind = rh_kind h,
            hv_authority = rh_authority h, hv_reason = rh_reason h, hv_created_by = rh_created_by h,
            hv_created_at = rh_created_at h, hv_replaces = rh_replaces h, hv_release = r\<rparr>) in
      case (rh_enrollment_id h, rh_record_id h) of
        (None, None) \<Rightarrow> view ScopeInstallation
      | (Some e, None) \<Rightarrow> view (ScopeEnrollment e)
      | (None, Some r) \<Rightarrow> view (ScopeRecord r)
      | _ \<Rightarrow> Inl (Defect ''invalid stored hold scope''))"

fun hold_views :: "office \<Rightarrow> hold_row list \<Rightarrow> db_error + hold_view list" where
  "hold_views w [] = Inr []"
| "hold_views w (h # hs) =
     seq (hold_from_row h (release_of w (rh_id h))) (\<lambda>v.
     seq (hold_views w hs) (\<lambda>vs. Inr (v # vs)))"

definition list_holds :: "office \<Rightarrow> int \<Rightarrow> (retention_refusal, hold_view list) outcome" where
  "list_holds w actor =
     authorized w actor ManageRetention
       (run (hold_views w (sort_key (\<lambda>h. - rh_id h) (record_holds w))) (\<lambda>vs. Inr vs))"

text \<open>The hold applies to the record: installation-wide, its enrollment's, or its own.\<close>

definition applies :: "hold_row \<Rightarrow> int \<Rightarrow> int \<Rightarrow> bool" where
  "applies h enrollment_id record_id \<longleftrightarrow>
     rh_enrollment_id h = None \<and> rh_record_id h = None \<or>
     rh_enrollment_id h = Some enrollment_id \<or> rh_record_id h = Some record_id"

definition active_holds_for_record :: "office \<Rightarrow> int \<Rightarrow> int \<Rightarrow> (retention_refusal, hold_view list) outcome" where
  "active_holds_for_record w actor record_id =
     authorized w actor ManageRetention
       (case map_option r_enrollment_id (record_of (base w) record_id) of
          None \<Rightarrow> refuse RtNoSuchRecord
        | Some e \<Rightarrow>
            run (hold_views w (sort_key rh_id
                  (filter (\<lambda>h. release_of w (rh_id h) = None \<and> applies h e record_id) (record_holds w))))
              (\<lambda>vs. Inr vs))"

definition em_dash :: string where
  "em_dash = [CHR 0xE2, CHR 0x80, CHR 0x94]"

definition scope_label :: "string \<Rightarrow> string \<Rightarrow> string \<Rightarrow> int \<Rightarrow> string" where
  "scope_label who what noun i =
     who @ '' '' @ em_dash @ '' '' @ what @ '' ('' @ noun @ '' '' @ int_str i @ '')''"

definition scope_options :: "office \<Rightarrow> int \<Rightarrow> (retention_refusal, (int \<times> string) list \<times> (int \<times> string) list) outcome" where
  "scope_options w actor =
     authorized w actor ManageRetention
       (let d = base w in Inr
         (List.map_filter (\<lambda>e. Option.bind (user_of d (e_user_id e)) (\<lambda>u. map_option (\<lambda>p.
              (e_id e, scope_label (u_display_name u) (pv_name p) ''enrollment'' (e_id e)))
              (version_of d (e_version_id e)))) (sort_key e_id (enrollments d)),
          List.map_filter (\<lambda>r. Option.bind (enrollment_of d (r_enrollment_id r)) (\<lambda>e.
              Option.bind (user_of d (e_user_id e)) (\<lambda>u. map_option (\<lambda>f.
              (r_id r, scope_label (u_display_name u) (f_name f) ''record'' (r_id r)))
              (form_of d (r_form_id r))))) (sort_key r_id (records d))))"

section \<open>Authority\<close>

definition insert_authority_event :: "authority_event_row \<Rightarrow> office \<Rightarrow> db_error + office" where
  "insert_authority_event a w =
     demand (bounded_text 1000 (ra_reason a)) CheckConstraint
    (demand (user_of (base w) (ra_user_id a) \<noteq> None \<and> user_of (base w) (ra_actor a) \<noteq> None) ForeignKey
    (Inr (w\<lparr>authority_events := authority_events w @ [a]\<rparr>)))"

definition change_grant :: "bool \<Rightarrow> int \<Rightarrow> int \<Rightarrow> int \<Rightarrow> db \<Rightarrow> db_error + db" where
  "change_grant granted user_id actor now d =
     (if granted then grant_bundle user_id [ManageRetention] (Some actor) now d
      else Inr (d\<lparr>grants := filter (\<lambda>g. \<not> (g_user_id g = user_id \<and> g_capability g = ''manage_retention''))
             (grants d)\<rparr>))"

definition set_authority ::
    "clock \<Rightarrow> office \<Rightarrow> int \<Rightarrow> int \<Rightarrow> bool \<Rightarrow> string \<Rightarrow> (retention_refusal, office) outcome" where
  "set_authority clk w actor user_id granted reason =
     authorized w actor ManageUsers
       (if text_problem reason ''reason'' 1000 \<noteq> [] then refuse (RtInvalid (text_problem reason ''reason'' 1000))
        else if user_of (base w) user_id = None then refuse RtNoSuchUser
        else if user_has (base w) user_id ManageRetention = granted then refuse RtAuthorityUnchanged
        else
          run (in_base (change_grant granted user_id actor (clk 0)) w) (\<lambda>w.
          run (insert_authority_event
                 \<lparr>ra_event_id = next_id (map ra_event_id (authority_events w)), ra_user_id = user_id,
                  ra_granted = granted, ra_actor = actor, ra_reason = trim reason,
                  ra_recorded_at = clk 1\<rparr> w) (\<lambda>w.
          run (in_base (record_audit
                 (if granted then EvRetentionAuthorityGranted else EvRetentionAuthorityRevoked)
                 (Some actor) (Some user_id) (clk 2)) w) (\<lambda>w. Inr w))))"

definition authority_history :: "office \<Rightarrow> int \<Rightarrow> (retention_refusal, authority_event_row list) outcome" where
  "authority_history w actor =
     authorized w actor ManageUsers (Inr (sort_key (\<lambda>a. - ra_event_id a) (authority_events w)))"

section \<open>What the operations write\<close>

lemma authorized_Inr [guard_simps]:
  "authorized w actor c m = Inr y \<longleftrightarrow> user_has (base w) actor c \<and> m = Inr y"
  by (simp add: authorized_def)

lemma insert_policy_revision_Inr [row_simps]:
  "insert_policy_revision p w = Inr w' \<Longrightarrow>
     rp_number p = (case current_policy w (rp_class p) of None \<Rightarrow> 0 | Some q \<Rightarrow> rp_number q) + 1 \<and>
     rp_supersedes p = map_option rp_id (current_policy w (rp_class p)) \<and>
     w' = w\<lparr>retention_policies := retention_policies w @ [p]\<rparr>"
  by (simp add: insert_policy_revision_def Let_def guard_simps)

lemma create_policy_effect:
  assumes "create_policy clk w actor i = Inr (w', n)"
  shows "\<exists>p. rp_id p = next_id (map rp_id (retention_policies w)) \<and>
    rp_number p = (case current_policy w (rp_class p) of None \<Rightarrow> 0 | Some q \<Rightarrow> rp_number q) + 1 \<and>
    rp_supersedes p = map_option rp_id (current_policy w (rp_class p)) \<and>
    audited (w\<lparr>retention_policies := retention_policies w @ [p]\<rparr>) w'"
proof -
  from assms obtain x where p: "insert_policy_revision (new_policy w actor i (clk 0)) w = Inr x"
    and a: "\<exists>s. in_base (record_for_subject EvRetentionPolicyCreated (Some actor) None s (clk 1)) x = Inr w'"
    by (auto simp: create_policy_def guard_simps Let_def)
  have "rp_id (new_policy w actor i (clk 0)) = next_id (map rp_id (retention_policies w))"
    by (simp add: new_policy_def Let_def)
  then show ?thesis
    using insert_policy_revision_Inr [OF p] a audited_in_base by blast
qed

lemma insert_release_Inr:
  assumes "insert_release r w = Inr w'"
  shows "w' = w\<lparr>hold_releases := hold_releases w @ [r]\<rparr> \<and> release_of w (hr_hold_id r) = None \<and>
    bounded_text 1000 (hr_reason r) \<and>
    (\<exists>h. hold_of w (hr_hold_id r) = Some h \<and> rh_created_at h \<le> hr_released_at r) \<and>
    (\<forall>n. hr_replacement r = Some n \<longrightarrow>
      (\<exists>h \<in> set (record_holds w). rh_id h = n \<and> rh_replaces h = Some (hr_hold_id r)))"
  using assms by (auto simp: insert_release_def guard_simps list_ex_iff split: option.splits)

lemma insert_hold_new:
  assumes "insert_hold h w = Inr w'" and "rh_replaces h = None"
  shows "w' = w\<lparr>record_holds := record_holds w @ [h]\<rparr>"
  using assms by (simp add: insert_hold_def guard_simps)

lemma insert_hold_replacing:
  assumes "insert_hold h w = Inr w'" and "rh_replaces h = Some i"
  shows "\<exists>r. insert_release r (w\<lparr>record_holds := record_holds w @ [h]\<rparr>) = Inr w' \<and>
    hr_hold_id r = i \<and> hr_replacement r = Some (rh_id h) \<and> hr_released_by r = rh_created_by h \<and>
    hr_reason r = rh_reason h \<and> hold_of w i \<noteq> None"
  using assms by (auto simp: insert_hold_def guard_simps Let_def split: option.splits)

section \<open>The invariant\<close>

definition policy_chain :: "policy_revision_row list \<Rightarrow> bool" where
  "policy_chain ps \<longleftrightarrow>
     (\<forall>i < length ps. rp_number (ps ! i) = int i + 1 \<and>
        rp_supersedes (ps ! i) = (if i = 0 then None else Some (rp_id (ps ! (i - 1)))))"

lemma policy_chain_latest:
  assumes "policy_chain ps"
  shows "latest_by rp_number ps = (if ps = [] then None else Some (last ps))"
proof (cases ps rule: rev_cases)
  case (snoc qs q)
  have "rp_number y \<le> rp_number q" if "y \<in> set qs" for y
  proof -
    from that obtain i where i: "i < length qs" "qs ! i = y" by (auto simp: in_set_conv_nth)
    then have "rp_number y = int i + 1" "rp_number q = int (length qs) + 1"
      using assms unfolding policy_chain_def snoc
      by (metis length_append_singleton less_SucI nth_append, metis length_append_singleton lessI nth_append_length)
    with i show ?thesis by simp
  qed
  then show ?thesis by (simp add: snoc latest_by_snoc)
qed simp

lemma policy_chain_snoc:
  assumes "policy_chain ps"
    and "rp_number p = (case latest_by rp_number ps of None \<Rightarrow> 0 | Some q \<Rightarrow> rp_number q) + 1"
    and "rp_supersedes p = map_option rp_id (latest_by rp_number ps)"
  shows "policy_chain (ps @ [p])"
proof -
  have l: "ps \<noteq> [] \<Longrightarrow> rp_number (last ps) = int (length ps)"
    using assms(1) by (cases ps rule: rev_cases) (auto simp: policy_chain_def nth_append)
  show ?thesis
    using assms l policy_chain_latest [OF assms(1)]
    by (auto simp: policy_chain_def nth_append last_conv_nth less_Suc_eq split: if_splits)
qed

definition holds_ok :: "office \<Rightarrow> bool" where
  "holds_ok w \<longleftrightarrow>
     ids_ok (map rh_id (record_holds w)) \<and> distinct (map hr_hold_id (hold_releases w)) \<and>
     (\<forall>r \<in> set (hold_releases w).
        bounded_text 1000 (hr_reason r) \<and>
        (\<exists>h. hold_of w (hr_hold_id r) = Some h \<and> rh_created_at h \<le> hr_released_at r) \<and>
        (\<forall>n. hr_replacement r = Some n \<longrightarrow>
           hr_hold_id r < n \<and> (\<exists>h. hold_of w n = Some h \<and> rh_replaces h = Some (hr_hold_id r))))"

definition retention_ok :: "office \<Rightarrow> bool" where
  "retention_ok w \<longleftrightarrow> (\<forall>c. policy_chain (policies_of w c)) \<and> holds_ok w"

lemma create_policy_chain:
  assumes "\<forall>c. policy_chain (policies_of w c)" and "create_policy clk w actor i = Inr (w', n)"
  shows "policy_chain (policies_of w' c)"
proof -
  from create_policy_effect [OF assms(2)] obtain p where
      p: "rp_number p = (case current_policy w (rp_class p) of None \<Rightarrow> 0 | Some q \<Rightarrow> rp_number q) + 1"
      "rp_supersedes p = map_option rp_id (current_policy w (rp_class p))"
    and a: "audited (w\<lparr>retention_policies := retention_policies w @ [p]\<rparr>) w'"
    by blast
  have "policies_of w' c = policies_of w c @ (if rp_class p = c then [p] else [])"
    using audited_tables(5) [OF a] by (simp add: policies_of_def)
  then show ?thesis
    using assms(1) p policy_chain_snoc [of "policies_of w c" p] by (auto simp: current_policy_def)
qed

lemma hold_of_cong: "record_holds w' = record_holds w \<Longrightarrow> hold_of w' = hold_of w"
  by (simp add: hold_of_def fun_eq_iff)

lemma hold_of_mono: "hold_of w i = Some h \<Longrightarrow> hold_of (w\<lparr>record_holds := record_holds w @ hs\<rparr>) i = Some h"
proof -
  have "find P xs = Some h \<Longrightarrow> find P (xs @ ys) = Some h" for P and xs ys :: "hold_row list"
    by (induction xs) auto
  then show "hold_of w i = Some h \<Longrightarrow> ?thesis" by (simp add: hold_of_def)
qed

lemma insert_release_ok:
  assumes ok: "holds_ok w" and r: "insert_release r w = Inr w'"
    and later: "\<forall>n. hr_replacement r = Some n \<longrightarrow> hr_hold_id r < n"
  shows "holds_ok w'"
proof -
  note i = insert_release_Inr [OF r]
  have w': "w' = w\<lparr>hold_releases := hold_releases w @ [r]\<rparr>" using i by simp
  have h: "hold_of w' = hold_of w" by (rule hold_of_cong) (simp add: w')
  have succ: "\<exists>h. hold_of w n = Some h \<and> rh_replaces h = Some (hr_hold_id r)" if n: "hr_replacement r = Some n" for n
  proof -
    obtain h where "h \<in> set (record_holds w)" "rh_id h = n" "rh_replaces h = Some (hr_hold_id r)"
      using i n by blast
    then show ?thesis
      using ok find_id_unique [of rh_id "record_holds w" h] by (auto simp: holds_ok_def hold_of_def)
  qed
  have old: "ids_ok (map rh_id (record_holds w))" "distinct (map hr_hold_id (hold_releases w))"
    using ok by (simp_all add: holds_ok_def)
  have fresh: "hr_hold_id r \<notin> set (map hr_hold_id (hold_releases w))"
    using i by (auto simp: release_of_def find_None_iff)
  show ?thesis
    unfolding holds_ok_def h
  proof (intro conjI ballI)
    show "ids_ok (map rh_id (record_holds w'))" using old by (simp add: w')
    show "distinct (map hr_hold_id (hold_releases w'))" using old fresh by (simp add: w')
  next
    fix q assume "q \<in> set (hold_releases w')"
    then consider "q = r" | "q \<in> set (hold_releases w)" by (auto simp: w')
    then have "bounded_text 1000 (hr_reason q) \<and>
      (\<exists>h. hold_of w (hr_hold_id q) = Some h \<and> rh_created_at h \<le> hr_released_at q) \<and>
      (\<forall>n. hr_replacement q = Some n \<longrightarrow>
        hr_hold_id q < n \<and> (\<exists>h. hold_of w n = Some h \<and> rh_replaces h = Some (hr_hold_id q)))"
    proof cases
      case 1
      then show ?thesis using i later succ by blast
    next
      case 2
      then show ?thesis using ok unfolding holds_ok_def by blast
    qed
    then show "bounded_text 1000 (hr_reason q)"
      "\<exists>h. hold_of w (hr_hold_id q) = Some h \<and> rh_created_at h \<le> hr_released_at q"
      "\<forall>n. hr_replacement q = Some n \<longrightarrow>
        hr_hold_id q < n \<and> (\<exists>h. hold_of w n = Some h \<and> rh_replaces h = Some (hr_hold_id q))"
      by blast+
  qed
qed

lemma insert_hold_ok:
  assumes ok: "holds_ok w" and i: "insert_hold h w = Inr w'"
    and id: "rh_id h = next_id (map rh_id (record_holds w))"
  shows "holds_ok w'"
proof -
  let ?w = "w\<lparr>record_holds := record_holds w @ [h]\<rparr>"
  have ok': "holds_ok ?w"
    using ok id hold_of_mono [of w _ _ "[h]"] unfolding holds_ok_def by (simp, meson)
  show ?thesis
  proof (cases "rh_replaces h")
    case None
    then show ?thesis using insert_hold_new [OF i] ok' by simp
  next
    case (Some q)
    from insert_hold_replacing [OF i this] obtain r where r: "insert_release r ?w = Inr w'"
      "hr_hold_id r = q" "hr_replacement r = Some (rh_id h)" "hold_of w q \<noteq> None"
      by blast
    from r(4) have "q \<in> set (map rh_id (record_holds w))"
      by (auto simp: hold_of_def dest: find_eq_SomeD)
    then have "q < rh_id h" unfolding id by (rule next_id_gt)
    with r show ?thesis by (intro insert_release_ok [OF ok' r(1)]) simp
  qed
qed

lemma audited_holds: "audited w w' \<Longrightarrow> holds_ok w' = holds_ok w"
  using audited_tables(6,7) [of w w'] hold_of_cong [of w' w] by (simp add: holds_ok_def)

lemma write_hold_effect:
  assumes "write_hold clk w actor i replaces = Inr (w', n)"
  shows "\<exists>x. insert_hold (new_hold w actor i replaces (clk 0)) w = Inr x \<and> audited x w'"
  using assms by (auto simp: write_hold_def guard_simps Let_def dest!: audited_in_base)

lemma new_hold_id: "rh_id (new_hold w actor i replaces t) = next_id (map rh_id (record_holds w))"
  by (simp add: new_hold_def)

lemma write_hold_ok: "holds_ok w \<Longrightarrow> write_hold clk w actor i replaces = Inr (w', n) \<Longrightarrow> holds_ok w'"
  using write_hold_effect insert_hold_ok new_hold_id audited_holds by blast

lemma release_hold_effect:
  assumes "release_hold clk w actor i reason = Inr w'"
  shows "\<exists>x. insert_release \<lparr>hr_hold_id = i, hr_released_by = actor, hr_released_at = clk 0,
      hr_reason = trim reason, hr_replacement = None\<rparr> w = Inr x \<and> audited x w'"
  using assms by (auto simp: release_hold_def guard_simps dest!: audited_in_base)

lemma release_hold_ok: "holds_ok w \<Longrightarrow> release_hold clk w actor i reason = Inr w' \<Longrightarrow> holds_ok w'"
  using release_hold_effect insert_release_ok audited_holds by fastforce

section \<open>Chains of holds\<close>

definition replaced_by :: "office \<Rightarrow> int \<Rightarrow> int \<Rightarrow> bool" where
  "replaced_by w i n \<longleftrightarrow> (\<exists>r. release_of w i = Some r \<and> hr_replacement r = Some n)"

text \<open>
  Following replacements from any hold ends, at a hold that is active or was released by
  somebody for a reason: the ids grow and are finitely many.
\<close>

lemma hold_chain_ends:
  assumes ok: "holds_ok w" and "hold_of w i \<noteq> None"
  shows "\<exists>n. (replaced_by w)\<^sup>*\<^sup>* i n \<and> hold_of w n \<noteq> None \<and>
    (release_of w n = None \<or> (\<exists>r. release_of w n = Some r \<and> hr_replacement r = None))"
  using assms(2)
proof (induction "nat (next_id (map rh_id (record_holds w)) - i)" arbitrary: i rule: less_induct)
  case less
  show ?case
  proof (cases "\<exists>n. replaced_by w i n")
    case False
    then show ?thesis
      using less.prems by (cases "release_of w i") (auto simp: replaced_by_def)
  next
    case True
    then obtain r n where r: "release_of w i = Some r" "hr_replacement r = Some n"
      by (auto simp: replaced_by_def)
    then have "r \<in> set (hold_releases w)" "hr_hold_id r = i"
      by (auto simp: release_of_def dest: find_eq_SomeD)
    then have n: "i < n" "hold_of w n \<noteq> None"
      using ok r(2) by (auto simp: holds_ok_def)
    then have "n \<in> set (map rh_id (record_holds w))"
      by (auto simp: hold_of_def dest: find_eq_SomeD)
    then have "n < next_id (map rh_id (record_holds w))" by (rule next_id_gt)
    then obtain m where "(replaced_by w)\<^sup>*\<^sup>* n m" "hold_of w m \<noteq> None"
      "release_of w m = None \<or> (\<exists>r. release_of w m = Some r \<and> hr_replacement r = None)"
      using less.hyps [of n] n by auto
    moreover have "replaced_by w i n" using r by (auto simp: replaced_by_def)
    ultimately show ?thesis by (meson converse_rtranclp_into_rtranclp)
  qed
qed

end
