(* ===== verification/Accounts.thy ===== *)
theory Accounts
  imports Office Enrollments Canonical
begin

text \<open>
  User accounts, one-time codes, login sessions and first-run setup (secrets.rs, users.rs,
  sessions.rs, setup.rs and the login and logout handlers of http.rs). SHA-256 is the parameter
  \<open>sha\<close>, Argon2's verification \<open>argon\<close>; what it answered for a new password, and the bytes the
  operating system's entropy source gave, are arguments.
\<close>

section \<open>Secrets\<close>

record opaque_secret =
  os_raw :: string
  os_digest :: string

definition digest_hex :: "(string \<Rightarrow> string) \<Rightarrow> string \<Rightarrow> string" where
  "digest_hex sha secret = to_hex (sha secret)"

definition opaque :: "(string \<Rightarrow> string) \<Rightarrow> string \<Rightarrow> opaque_secret" where
  "opaque sha bytes = \<lparr>os_raw = to_hex bytes, os_digest = digest_hex sha (to_hex bytes)\<rparr>"

definition check_password_policy :: "string \<Rightarrow> string \<Rightarrow> string option" where
  "check_password_policy password username =
     (if length password < 12 then Some ''password must be at least 12 characters''
      else if 512 < length password then Some ''password is too long''
      else if nocase password = nocase username then Some ''password must not equal the username''
      else None)"

section \<open>Users\<close>

definition find_by_username :: "db \<Rightarrow> string \<Rightarrow> user_row option" where
  "find_by_username d name = find (\<lambda>u. nocase (u_username u) = nocase name) (users d)"

definition insert_user :: "user_row \<Rightarrow> db \<Rightarrow> db_error + db" where
  "insert_user u d =
     demand (0 < sql_length (u_username u) \<and> 0 < sql_length (u_display_name u)) CheckConstraint
    (demand (find_by_username d (u_username u) = None) UniqueIndex
    (Inr (d\<lparr>users := users d @ [u]\<rparr>)))"

definition new_user :: "db \<Rightarrow> string \<Rightarrow> string \<Rightarrow> string \<Rightarrow> string \<Rightarrow> string \<Rightarrow> int \<Rightarrow> user_row" where
  "new_user d username display_name employee_id title password_hash now =
     \<lparr>u_id = next_id (map u_id (users d)), u_username = username, u_display_name = display_name,
      u_password_hash = password_hash, u_created_at = now, u_employee_id = employee_id,
      u_title = title\<rparr>"

record user_summary =
  us_user :: user_row
  us_capabilities :: "string list"

definition list_users :: "db \<Rightarrow> user_summary list" where
  "list_users d =
     map (\<lambda>u. \<lparr>us_user = u, us_capabilities = list_capabilities d (u_id u)\<rparr>)
       (sort_key (\<lambda>u. (nocase (u_display_name u), nocase (u_username u))) (users d))"

datatype create_user_refusal = CuUsernameInvalid string | CuUsernameTaken

definition or_else :: "string \<Rightarrow> string \<Rightarrow> string" where
  "or_else display_name username = (if trim display_name = [] then username else trim display_name)"

text \<open>The first of the two transactions: the account, its bundle and its audit event.\<close>

definition create_user ::
    "office \<Rightarrow> clock \<Rightarrow> office \<Rightarrow> int \<Rightarrow> string \<Rightarrow> string \<Rightarrow> string \<Rightarrow> string \<Rightarrow> role_bundle
      \<Rightarrow> db_error + string \<Rightarrow> (create_user_refusal, office \<times> int) outcome" where
  "create_user pre clk w actor username display_name employee_id title role phc =
     (let username = trim username in
      if username = [] then refuse (CuUsernameInvalid ''a username is required'')
      else if 64 < length username then refuse (CuUsernameInvalid ''usernames are at most 64 characters'')
      else if find_by_username (base pre) username \<noteq> None then refuse CuUsernameTaken
      else run phc (\<lambda>password_hash.
        if find_by_username (base w) username \<noteq> None then refuse CuUsernameTaken
        else
          let u = new_user (base w) username (or_else display_name username) (trim employee_id)
                (trim title) password_hash (clk 0) in
          run (in_base (insert_user u) w) (\<lambda>w.
          run (in_base (grant_bundle (u_id u) (role_capabilities role) (Some actor) (clk 1)) w) (\<lambda>w.
          run (in_base (record_audit EvUserCreated (Some actor) (Some (u_id u)) (clk 2)) w) (\<lambda>w.
          Inr (w, u_id u))))))"

section \<open>Reset codes\<close>

datatype reset_origin = OriginAdministrator int | OriginRecovery

datatype issue_refusal = IsNoSuchUser | IsNotAnAdministrator

definition code_ttl_seconds :: int where
  "code_ttl_seconds = 15 * 60"

fun issuer :: "reset_origin \<Rightarrow> reset_via \<times> int option \<times> event_kind" where
  "issuer (OriginAdministrator by) = (ViaAdministrator, Some by, EvResetCodeIssued)"
| "issuer OriginRecovery = (ViaRecovery, None, EvRecoveryCodeIssued)"

definition insert_reset_code :: "reset_code_row \<Rightarrow> office \<Rightarrow> db_error + office" where
  "insert_reset_code c w =
     demand (rc_code_hash c \<notin> set (map rc_code_hash (reset_codes w))) UniqueIndex
    (demand (user_of (base w) (rc_user_id c) \<noteq> None \<and> opt_user_ok (base w) (rc_issued_by c)) ForeignKey
    (Inr (w\<lparr>reset_codes := reset_codes w @ [c]\<rparr>)))"

definition issue_reset_code ::
    "(string \<Rightarrow> string) \<Rightarrow> office \<Rightarrow> clock \<Rightarrow> office \<Rightarrow> string \<Rightarrow> reset_origin \<Rightarrow> string
      \<Rightarrow> (issue_refusal, office \<times> opaque_secret \<times> int) outcome" where
  "issue_reset_code sha pre clk w username origin bytes =
     (case find_by_username (base pre) username of
        None \<Rightarrow> refuse IsNoSuchUser
      | Some u \<Rightarrow>
          if origin = OriginRecovery \<and> \<not> user_has (base pre) (u_id u) ManageUsers
          then refuse IsNotAnAdministrator
          else
            let code = opaque sha bytes;
                expires = clk 0 + code_ttl_seconds in
            (case issuer origin of (via, by, event) \<Rightarrow>
            run (insert_reset_code
                   \<lparr>rc_id = next_id (map rc_id (reset_codes w)), rc_user_id = u_id u,
                    rc_code_hash = os_digest code, rc_issued_via = via, rc_issued_by = by,
                    rc_issued_at = clk 0, rc_expires_at = expires, rc_used_at = None\<rparr> w) (\<lambda>w.
            run (in_base (record_audit event by (Some (u_id u)) (clk 1)) w) (\<lambda>w.
            Inr (w, code, expires)))))"

text \<open>
  Both transactions: a failure of the second leaves the account of the first, so the result is
  the database reached beside the answer.
\<close>

definition create_with_reset_code ::
    "(string \<Rightarrow> string) \<Rightarrow> office \<Rightarrow> clock \<Rightarrow> office \<Rightarrow> int \<Rightarrow> string \<Rightarrow> string \<Rightarrow> string \<Rightarrow> string
      \<Rightarrow> role_bundle \<Rightarrow> db_error + string \<Rightarrow> string
      \<Rightarrow> office \<times> (create_user_refusal, int \<times> opaque_secret \<times> int) outcome" where
  "create_with_reset_code sha pre clk w actor username display_name employee_id title role phc bytes =
     (case create_user pre clk w actor username display_name employee_id title role phc of
        Inl e \<Rightarrow> (w, Inl e)
      | Inr (x, i) \<Rightarrow>
          (case issue_reset_code sha x (\<lambda>n. clk (n + 3)) x (trim username) (OriginAdministrator actor) bytes of
             Inl (Refused r) \<Rightarrow> (x, abort (Defect ''issuing the initial reset code was refused''))
           | Inl (Aborted e) \<Rightarrow> (x, abort e)
           | Inr (y, code, expires) \<Rightarrow> (y, Inr (i, code, expires))))"

section \<open>Login sessions\<close>

definition session_ttl_seconds :: int where
  "session_ttl_seconds = 12 * 60 * 60"

datatype cookie_transport = SecureCookie | PlainCookie

definition insert_login :: "login_row \<Rightarrow> office \<Rightarrow> db_error + office" where
  "insert_login l w =
     demand (lg_token_hash l \<notin> set (map lg_token_hash (logins w))) UniqueIndex
    (demand (user_of (base w) (lg_user_id l) \<noteq> None) ForeignKey
    (Inr (w\<lparr>logins := logins w @ [l]\<rparr>)))"

definition insert_secure_cookie :: "string \<Rightarrow> office \<Rightarrow> db_error + office" where
  "insert_secure_cookie h w =
     demand (h \<notin> set (secure_cookies w)) UniqueIndex
    (demand (h \<in> set (map lg_token_hash (logins w))) ForeignKey
    (Inr (w\<lparr>secure_cookies := secure_cookies w @ [h]\<rparr>)))"

text \<open>The pruning delete, with the cascade to \<open>session_secure_cookie\<close>.\<close>

definition prune_logins :: "int \<Rightarrow> office \<Rightarrow> office" where
  "prune_logins now w =
     (let gone = (\<lambda>l. lg_expires_at l < now - 86400) in
      w\<lparr>logins := filter (\<lambda>l. \<not> gone l) (logins w),
        secure_cookies := filter (\<lambda>h. h \<notin> set (map lg_token_hash (filter gone (logins w)))) (secure_cookies w)\<rparr>)"

definition create_login ::
    "(string \<Rightarrow> string) \<Rightarrow> int \<Rightarrow> office \<Rightarrow> int \<Rightarrow> cookie_transport \<Rightarrow> string
      \<Rightarrow> db_error + office \<times> opaque_secret \<times> int" where
  "create_login sha now w user_id transport bytes =
     (let token = opaque sha bytes; expires = now + session_ttl_seconds in
      seq (insert_login \<lparr>lg_token_hash = os_digest token, lg_user_id = user_id, lg_created_at = now,
             lg_expires_at = expires, lg_revoked_at = None\<rparr> w) (\<lambda>w.
      seq (if transport = SecureCookie then insert_secure_cookie (os_digest token) w else Inr w) (\<lambda>w.
      Inr (prune_logins now w, token, expires))))"

definition revoke_where :: "int \<Rightarrow> (login_row \<Rightarrow> bool) \<Rightarrow> office \<Rightarrow> office" where
  "revoke_where now hit w =
     w\<lparr>logins := map (\<lambda>l. if hit l \<and> lg_revoked_at l = None then l\<lparr>lg_revoked_at := Some now\<rparr> else l) (logins w)\<rparr>"

definition revoke_not_secure :: "int \<Rightarrow> office \<Rightarrow> office \<times> nat" where
  "revoke_not_secure now w =
     (let hit = (\<lambda>l. now < lg_expires_at l \<and> lg_token_hash l \<notin> set (secure_cookies w)) in
      (revoke_where now hit w, length (filter (\<lambda>l. hit l \<and> lg_revoked_at l = None) (logins w))))"

definition validate_token :: "(string \<Rightarrow> string) \<Rightarrow> int \<Rightarrow> office \<Rightarrow> string \<Rightarrow> login_row option" where
  "validate_token sha now w token =
     find (\<lambda>l. lg_token_hash l = digest_hex sha token \<and> lg_revoked_at l = None \<and> now < lg_expires_at l) (logins w)"

definition revoke :: "(string \<Rightarrow> string) \<Rightarrow> int \<Rightarrow> string \<Rightarrow> office \<Rightarrow> office" where
  "revoke sha now token w = revoke_where now (\<lambda>l. lg_token_hash l = digest_hex sha token) w"

definition revoke_all_for_user :: "int \<Rightarrow> int \<Rightarrow> office \<Rightarrow> office" where
  "revoke_all_for_user now user_id w = revoke_where now (\<lambda>l. lg_user_id l = user_id) w"

text \<open>The extractor of an authenticated request.\<close>

definition current_user :: "(string \<Rightarrow> string) \<Rightarrow> int \<Rightarrow> office \<Rightarrow> string option \<Rightarrow> (user_row \<times> int) option" where
  "current_user sha now w cookie =
     Option.bind cookie (\<lambda>token.
     Option.bind (validate_token sha now w token) (\<lambda>l.
     map_option (\<lambda>u. (u, lg_expires_at l)) (user_of (base w) (lg_user_id l))))"

datatype login_answer = LoginInvalid | LoggedIn user_row "string list" int opaque_secret

text \<open>
  A failed attempt is audited and answered: the database reached comes with the answer. The
  password is checked against the account as it was before the session's transaction, so a
  password replaced in between still opens a session.
\<close>

definition login ::
    "(string \<Rightarrow> string) \<Rightarrow> (string \<Rightarrow> string \<Rightarrow> bool) \<Rightarrow> office \<Rightarrow> clock \<Rightarrow> office \<Rightarrow> string \<Rightarrow> string \<Rightarrow> cookie_transport
      \<Rightarrow> string \<Rightarrow> db_error + office \<times> login_answer" where
  "login sha argon pre clk w username password transport bytes =
     (case find_by_username (base pre) username of
        None \<Rightarrow> Inr (w, LoginInvalid)
      | Some u \<Rightarrow>
          if \<not> argon password (u_password_hash u) then
            seq (in_base (record_audit EvLoginFailed None (Some (u_id u)) (clk 0)) w) (\<lambda>w. Inr (w, LoginInvalid))
          else
            seq (create_login sha (clk 0) w (u_id u) transport bytes) (\<lambda>(w, token, expires).
            seq (in_base (record_audit EvLoginSucceeded (Some (u_id u)) (Some (u_id u)) (clk 1)) w) (\<lambda>w.
            Inr (w, LoggedIn u (list_capabilities (base w) (u_id u)) expires token))))"

definition logout :: "(string \<Rightarrow> string) \<Rightarrow> clock \<Rightarrow> office \<Rightarrow> string option \<Rightarrow> db_error + office" where
  "logout sha clk w cookie =
     (case cookie of
        None \<Rightarrow> Inr w
      | Some token \<Rightarrow>
          seq (case validate_token sha (clk 0) w token of
                 None \<Rightarrow> Inr w
               | Some l \<Rightarrow> in_base (record_audit EvLogout (Some (lg_user_id l)) (Some (lg_user_id l)) (clk 1)) w)
            (\<lambda>w. Inr (revoke sha (clk 2) token w)))"

section \<open>Using a reset code\<close>

datatype reset_refusal = RsInvalid | RsPasswordPolicy string

definition usable_code :: "int \<Rightarrow> office \<Rightarrow> int \<Rightarrow> string \<Rightarrow> int option" where
  "usable_code now w user_id digest =
     map_option rc_id (find (\<lambda>c. rc_user_id c = user_id \<and> rc_code_hash c = digest \<and>
       rc_used_at c = None \<and> now < rc_expires_at c) (reset_codes w))"

definition mark_code_used :: "int \<Rightarrow> int \<Rightarrow> office \<Rightarrow> office" where
  "mark_code_used now i w =
     w\<lparr>reset_codes := map (\<lambda>c. if rc_id c = i then c\<lparr>rc_used_at := Some now\<rparr> else c) (reset_codes w)\<rparr>"

definition set_password :: "int \<Rightarrow> string \<Rightarrow> db \<Rightarrow> db" where
  "set_password i password_hash d =
     d\<lparr>users := map (\<lambda>u. if u_id u = i then u\<lparr>u_password_hash := password_hash\<rparr> else u) (users d)\<rparr>"

definition use_reset_code ::
    "(string \<Rightarrow> string) \<Rightarrow> office \<Rightarrow> clock \<Rightarrow> office \<Rightarrow> string \<Rightarrow> string \<Rightarrow> string \<Rightarrow> db_error + string
      \<Rightarrow> (reset_refusal, office) outcome" where
  "use_reset_code sha pre clk w username code new_password phc =
     (case check_password_policy new_password username of
        Some reason \<Rightarrow> refuse (RsPasswordPolicy reason)
      | None \<Rightarrow>
      (case find_by_username (base pre) username of
        None \<Rightarrow> refuse RsInvalid
      | Some u \<Rightarrow>
          run phc (\<lambda>password_hash.
          case usable_code (clk 0) w (u_id u) (digest_hex sha code) of
            None \<Rightarrow> refuse RsInvalid
          | Some i \<Rightarrow>
              run (in_base (\<lambda>d. Inr (set_password (u_id u) password_hash d)) (mark_code_used (clk 0) i w)) (\<lambda>w.
              run (in_base (record_audit EvResetCodeUsed (Some (u_id u)) (Some (u_id u)) (clk 2))
                     (revoke_all_for_user (clk 1) (u_id u) w)) (\<lambda>w. Inr w)))))"

section \<open>First-run setup\<close>

definition is_initialized :: "office \<Rightarrow> bool" where
  "is_initialized w \<longleftrightarrow> map_option ag_name (agency w) \<noteq> None"

definition issue_setup_code ::
    "(string \<Rightarrow> string) \<Rightarrow> int \<Rightarrow> office \<Rightarrow> string \<Rightarrow> (office \<times> opaque_secret \<times> int) option" where
  "issue_setup_code sha now w bytes =
     (let code = opaque sha bytes; expires = now + code_ttl_seconds in
      if agency w \<noteq> None then None
      else Some (w\<lparr>setup_code := Some \<lparr>sc_code_hash = os_digest code, sc_expires_at = expires\<rparr>\<rparr>, code, expires))"

datatype setup_refusal = SuAlreadyInitialized | SuInvalidCode | SuPasswordPolicy string

definition insert_agency :: "agency_row \<Rightarrow> office \<Rightarrow> db_error + office" where
  "insert_agency a w =
     demand (0 < sql_length (ag_name a)) CheckConstraint
    (demand (agency w = None) UniqueIndex
    (Inr (w\<lparr>agency := Some a\<rparr>)))"

definition initialize ::
    "(string \<Rightarrow> string) \<Rightarrow> clock \<Rightarrow> office \<Rightarrow> string \<Rightarrow> string \<Rightarrow> string \<Rightarrow> string \<Rightarrow> string
      \<Rightarrow> db_error + string \<Rightarrow> (setup_refusal, office \<times> int) outcome" where
  "initialize sha clk w code agency_name username display_name password phc =
     (let agency_name = trim agency_name; username = trim username in
      if agency_name = [] \<or> username = [] \<or> 64 < length username then refuse SuInvalidCode
      else case check_password_policy password username of
        Some reason \<Rightarrow> refuse (SuPasswordPolicy reason)
      | None \<Rightarrow>
          run phc (\<lambda>password_hash.
          if agency w \<noteq> None then refuse SuAlreadyInitialized
          else if \<not> (case setup_code w of
                       None \<Rightarrow> False
                     | Some c \<Rightarrow> sc_code_hash c = digest_hex sha code \<and> clk 0 < sc_expires_at c)
          then refuse SuInvalidCode
          else
            run (insert_agency \<lparr>ag_name = agency_name, ag_created_at = clk 0\<rparr> w) (\<lambda>w.
            let u = new_user (base w) username (or_else display_name username) [] [] password_hash (clk 1) in
            run (in_base (insert_user u) w) (\<lambda>w.
            run (in_base (grant_bundle (u_id u) administrator_bundle None (clk 2)) w) (\<lambda>w.
            run (in_base (record_audit EvSetupCompleted (Some (u_id u)) (Some (u_id u)) (clk 3))
                   (w\<lparr>setup_code := None\<rparr>)) (\<lambda>w.
            Inr (w, u_id u)))))))"

section \<open>Setup progress\<close>

record progress =
  pr_coordinators :: nat
  pr_trainers :: nat
  pr_trainees :: nat
  pr_programs :: nat
  pr_published_versions :: nat
  pr_enrollments :: nat
  pr_assignments :: nat
  pr_sessions :: nat
  pr_finalized_records :: nat

definition count_holders :: "db \<Rightarrow> capability \<Rightarrow> nat" where
  "count_holders d c = length (filter (\<lambda>g. g_capability g = capability_as_str c) (grants d))"

definition setup_progress :: "office \<Rightarrow> int \<Rightarrow> (unit, progress) outcome" where
  "setup_progress w actor =
     (let d = base w in
      if \<not> user_has d actor ManageUsers then refuse ()
      else Inr \<lparr>pr_coordinators = count_holders d ReviewEvaluation,
        pr_trainers = count_holders d AuthorEvaluation, pr_trainees = count_holders d ViewOwnRecords,
        pr_programs = length (programs w),
        pr_published_versions = length (filter (\<lambda>v. pv_published_at v \<noteq> None) (program_versions (catalog d))),
        pr_enrollments = length (enrollments d), pr_assignments = length (assignments d),
        pr_sessions = length (training_sessions d),
        pr_finalized_records = length (remdups (map v_record_id (versions d)))\<rparr>)"

section \<open>What the tables guarantee\<close>

text \<open>The primary keys, the case-insensitive username index and the foreign keys.\<close>

definition accounts_ok :: "office \<Rightarrow> bool" where
  "accounts_ok w \<longleftrightarrow>
     ids_ok (map u_id (users (base w))) \<and> distinct (map (\<lambda>u. nocase (u_username u)) (users (base w))) \<and>
     ids_ok (map rc_id (reset_codes w)) \<and> distinct (map rc_code_hash (reset_codes w)) \<and>
     rc_user_id ` set (reset_codes w) \<subseteq> u_id ` set (users (base w)) \<and>
     distinct (map lg_token_hash (logins w)) \<and>
     lg_user_id ` set (logins w) \<subseteq> u_id ` set (users (base w)) \<and>
     distinct (secure_cookies w) \<and> set (secure_cookies w) \<subseteq> lg_token_hash ` set (logins w)"

text \<open>
  How an operation moves the account tables: accounts stay, with their usernames; a code that was
  used stays used, under its hash; every session is an earlier one, not revived, or belongs to a
  user of \<open>us\<close>; the agency stays.
\<close>

definition accounts_kept :: "db \<Rightarrow> db \<Rightarrow> bool" where
  "accounts_kept d d' \<longleftrightarrow>
     prefix (map (\<lambda>u. (u_id u, u_username u)) (users d)) (map (\<lambda>u. (u_id u, u_username u)) (users d'))"

definition code_spent :: "string \<Rightarrow> office \<Rightarrow> bool" where
  "code_spent h w \<longleftrightarrow> (\<exists>c \<in> set (reset_codes w). rc_code_hash c = h \<and> rc_used_at c \<noteq> None)"

definition locked_out :: "int \<Rightarrow> office \<Rightarrow> bool" where
  "locked_out u w \<longleftrightarrow> (\<forall>l \<in> set (logins w). lg_user_id l = u \<longrightarrow> lg_revoked_at l \<noteq> None)"

definition account_writes :: "office \<Rightarrow> office \<Rightarrow> bool" where
  "account_writes w w' \<longleftrightarrow>
     (\<exists>us gs d a c rs ls cs. journaled ((base w)\<lparr>users := us, grants := gs\<rparr>) d \<and>
        w' = w\<lparr>base := d, agency := a, setup_code := c, reset_codes := rs, logins := ls, secure_cookies := cs\<rparr>)"

definition moves :: "int set \<Rightarrow> office \<Rightarrow> office \<Rightarrow> bool" where
  "moves us w w' \<longleftrightarrow>
     account_writes w w' \<and> accounts_kept (base w) (base w') \<and> (\<forall>h. code_spent h w \<longrightarrow> code_spent h w') \<and>
     (\<forall>u. u \<notin> us \<longrightarrow> locked_out u w \<longrightarrow> locked_out u w') \<and>
     (agency w \<noteq> None \<longrightarrow> agency w' = agency w) \<and> (accounts_ok w \<longrightarrow> accounts_ok w')"

lemma account_writesI:
  "journaled ((base w)\<lparr>users := us, grants := gs\<rparr>) d \<Longrightarrow>
    w' = w\<lparr>base := d, agency := a, setup_code := c, reset_codes := rs, logins := ls, secure_cookies := cs\<rparr> \<Longrightarrow>
    account_writes w w'"
  unfolding account_writes_def by blast

lemma account_writes_base: "journaled ((base w)\<lparr>users := us, grants := gs\<rparr>) d \<Longrightarrow> account_writes w (w\<lparr>base := d\<rparr>)"
  by (erule account_writesI [where a = "agency w" and c = "setup_code w" and rs = "reset_codes w" and
    ls = "logins w" and cs = "secure_cookies w"]) simp

lemma account_writes_rows:
  "account_writes w (w\<lparr>agency := a, setup_code := c, reset_codes := rs, logins := ls, secure_cookies := cs\<rparr>)"
  using journaled_refl [of "base w"]
  by (intro account_writesI [where us = "users (base w)" and gs = "grants (base w)" and d = "base w"
    and a = a and c = c and rs = rs and ls = ls and cs = cs]) simp_all

lemma account_writes_tables [simp]:
  "account_writes w (w\<lparr>agency := a\<rparr>)" "account_writes w (w\<lparr>setup_code := c\<rparr>)"
  "account_writes w (w\<lparr>reset_codes := rs\<rparr>)" "account_writes w (w\<lparr>logins := ls\<rparr>)"
  "account_writes w (w\<lparr>secure_cookies := cs\<rparr>)" "account_writes w (w\<lparr>logins := ls, secure_cookies := cs\<rparr>)"
  using account_writes_rows [where w = w and a = a and c = "setup_code w" and rs = "reset_codes w" and ls = "logins w" and cs = "secure_cookies w"]
    account_writes_rows [where w = w and a = "agency w" and c = c and rs = "reset_codes w" and ls = "logins w" and cs = "secure_cookies w"]
    account_writes_rows [where w = w and a = "agency w" and c = "setup_code w" and rs = rs and ls = "logins w" and cs = "secure_cookies w"]
    account_writes_rows [where w = w and a = "agency w" and c = "setup_code w" and rs = "reset_codes w" and ls = ls and cs = "secure_cookies w"]
    account_writes_rows [where w = w and a = "agency w" and c = "setup_code w" and rs = "reset_codes w" and ls = "logins w" and cs = cs]
    account_writes_rows [where w = w and a = "agency w" and c = "setup_code w" and rs = "reset_codes w" and ls = ls and cs = cs]
  by simp_all

lemma account_writes_shared [simp]:
  "account_writes w w"
  "account_writes w (w\<lparr>base := (base w)\<lparr>users := us\<rparr>\<rparr>)"
  "account_writes w (w\<lparr>base := (base w)\<lparr>grants := gs\<rparr>\<rparr>)"
  using account_writes_base [where us = "users (base w)" and gs = "grants (base w)" and d = "base w" and w = w]
    account_writes_base [where us = us and gs = "grants (base w)" and d = "(base w)\<lparr>users := us\<rparr>" and w = w]
    account_writes_base [where us = "users (base w)" and gs = gs and d = "(base w)\<lparr>grants := gs\<rparr>" and w = w]
  by simp_all

lemma account_writes_trans:
  assumes "account_writes w x" and "account_writes x w'" shows "account_writes w w'"
proof -
  obtain us gs d a c rs ls cs where d: "journaled ((base w)\<lparr>users := us, grants := gs\<rparr>) d"
    and x: "x = w\<lparr>base := d, agency := a, setup_code := c, reset_codes := rs, logins := ls, secure_cookies := cs\<rparr>"
    using assms(1) unfolding account_writes_def by blast
  obtain us' gs' d' a' c' rs' ls' cs' where d': "journaled (d\<lparr>users := us', grants := gs'\<rparr>) d'"
    and w': "w' = w\<lparr>base := d', agency := a', setup_code := c', reset_codes := rs', logins := ls', secure_cookies := cs'\<rparr>"
    using assms(2) unfolding account_writes_def x by auto
  obtain as ns where "d = (base w)\<lparr>users := us, grants := gs, audits := audits (base w) @ as,
      notices := notices (base w) @ ns\<rparr>"
    using d by (auto simp: journaled_def)
  then have "journaled ((base w)\<lparr>users := us', grants := gs'\<rparr>) (d\<lparr>users := us', grants := gs'\<rparr>)"
    by (intro journaled_def [THEN iffD2] exI [of _ as] exI [of _ ns]) simp
  then have "journaled ((base w)\<lparr>users := us', grants := gs'\<rparr>) d'"
    using d' journaled_trans by blast
  then show ?thesis using w' by (rule account_writesI)
qed

lemma account_writes_audited: "audited w w' \<Longrightarrow> account_writes w w'"
  using account_writes_base [where us = "users (base w)" and gs = "grants (base w)" and w = w]
  by (auto simp: audited_def)

lemma moves_trans:
  assumes "moves us w x" and "moves us x w'" shows "moves us w w'"
  unfolding moves_def
proof (intro conjI allI impI)
  show "account_writes w w'"
    using assms account_writes_trans unfolding moves_def by blast
  show "accounts_kept (base w) (base w')"
    using assms prefix_order.trans unfolding moves_def accounts_kept_def by blast
  show "agency w' = agency w" if a: "agency w \<noteq> None"
  proof -
    have "agency x = agency w" using assms(1) a by (simp add: moves_def)
    with a assms(2) show ?thesis by (simp add: moves_def)
  qed
qed (use assms in \<open>auto simp: moves_def\<close>)

lemma moves_mono: "moves us w w' \<Longrightarrow> us \<subseteq> vs \<Longrightarrow> moves vs w w'"
  unfolding moves_def by blast

text \<open>An operation that writes none of the tables.\<close>

lemma moves_frame:
  assumes "account_writes w w'" and "users (base w') = users (base w)" "reset_codes w' = reset_codes w" "logins w' = logins w"
    "secure_cookies w' = secure_cookies w" "agency w' = agency w"
  shows "moves us w w'"
  using assms by (simp add: moves_def accounts_kept_def code_spent_def locked_out_def accounts_ok_def)

lemma moves_audited: "audited w w' \<Longrightarrow> moves us w w'"
  using audited_tables journaled_tables(1) account_writes_audited by (intro moves_frame) (auto simp: audited_def)

lemmas moves_record = moves_audited [OF audited_record]

lemma moves_insert_user:
  assumes "in_base (insert_user u) w = Inr w'" and "u_id u = next_id (map u_id (users (base w)))"
  shows "moves us w w'"
proof -
  have "find_by_username (base w) (u_username u) = None" and w': "w' = w\<lparr>base := (base w)\<lparr>users := users (base w) @ [u]\<rparr>\<rparr>"
    using assms(1) by (auto simp: row_simps insert_user_def guard_simps)
  then have "nocase (u_username u) \<notin> (\<lambda>u. nocase (u_username u)) ` set (users (base w))"
    by (force simp: find_by_username_def find_None_iff)
  then show ?thesis
    using assms(2) by (auto simp: w' moves_def accounts_kept_def code_spent_def locked_out_def accounts_ok_def)
qed

lemma moves_grants: "moves us w (w\<lparr>base := (base w)\<lparr>grants := gs\<rparr>\<rparr>)"
  by (rule moves_frame) simp_all

lemma grant_bundle_frame: "grant_bundle u cs b now d = Inr d' \<Longrightarrow> \<exists>gs. d' = d\<lparr>grants := gs\<rparr>"
proof (induction cs arbitrary: d)
  case Nil
  then show ?case by (auto intro!: exI [of _ "grants d"])
next
  case (Cons c cs)
  then obtain d1 where "grant_bundle u cs b now d1 = Inr d'" "\<exists>gs. d1 = d\<lparr>grants := gs\<rparr>"
    by (auto simp: guard_simps row_simps)
  with Cons.IH show ?case by fastforce
qed

lemma grant_bundle_holds: "grant_bundle u cs b now d = Inr d' \<Longrightarrow> c \<in> set cs \<or> user_has d u c \<Longrightarrow> user_has d' u c"
proof (induction cs arbitrary: d)
  case (Cons c' cs)
  then obtain d1 where "insert_grant \<lparr>g_user_id = u, g_capability = capability_as_str c', g_granted_at = now,
      g_granted_by = b\<rparr> d = Inr d1" "grant_bundle u cs b now d1 = Inr d'" by (auto simp: guard_simps)
  moreover from this(1) have "user_has d1 u c \<longleftrightarrow> user_has d u c \<or> c = c'"
    by (auto simp: row_simps user_has_insert)
  ultimately show ?case using Cons.IH Cons.prems(2) by auto
qed simp

lemma moves_grant_bundle: "in_base (grant_bundle u cs b now) w = Inr w' \<Longrightarrow> moves us w w'"
  using moves_grants by (auto simp: row_simps dest!: grant_bundle_frame)

lemma moves_insert_reset_code:
  assumes "insert_reset_code c w = Inr w'" and "rc_id c = next_id (map rc_id (reset_codes w))"
  shows "moves us w w'"
proof -
  have c: "rc_code_hash c \<notin> rc_code_hash ` set (reset_codes w)" "user_of (base w) (rc_user_id c) \<noteq> None"
    and w': "w' = w\<lparr>reset_codes := reset_codes w @ [c]\<rparr>"
    using assms(1) by (simp_all add: insert_reset_code_def guard_simps)
  have "rc_user_id c \<in> u_id ` set (users (base w))"
    using c(2) by (force simp: user_of_def dest!: find_eq_SomeD)
  then show ?thesis
    using c(1) assms(2) by (auto simp: w' moves_def accounts_kept_def code_spent_def locked_out_def accounts_ok_def)
qed

lemma moves_insert_login:
  assumes "insert_login l w = Inr w'" and "lg_user_id l \<in> us"
  shows "moves us w w'"
proof -
  have c: "lg_token_hash l \<notin> lg_token_hash ` set (logins w)" "user_of (base w) (lg_user_id l) \<noteq> None"
    and w': "w' = w\<lparr>logins := logins w @ [l]\<rparr>"
    using assms(1) by (simp_all add: insert_login_def guard_simps)
  have "lg_user_id l \<in> u_id ` set (users (base w))"
    using c(2) by (force simp: user_of_def dest!: find_eq_SomeD)
  then show ?thesis
    using c(1) assms(2) by (auto simp: w' moves_def accounts_kept_def code_spent_def locked_out_def accounts_ok_def)
qed

lemma moves_insert_secure_cookie:
  assumes "insert_secure_cookie h w = Inr w'" shows "moves us w w'"
proof -
  have "h \<notin> set (secure_cookies w)" "h \<in> lg_token_hash ` set (logins w)"
    and w': "w' = w\<lparr>secure_cookies := secure_cookies w @ [h]\<rparr>"
    using assms by (simp_all add: insert_secure_cookie_def guard_simps)
  then show ?thesis
    by (simp add: w' moves_def accounts_kept_def code_spent_def locked_out_def accounts_ok_def)
qed

lemma moves_prune_logins: "moves us w (prune_logins now w)"
proof -
  let ?gone = "\<lambda>l. lg_expires_at l < now - 86400"
  have "distinct (map lg_token_hash (filter (\<lambda>l. \<not> ?gone l) (logins w)))" if "distinct (map lg_token_hash (logins w))"
    using that by (rule distinct_map_filter)
  moreover have "{h \<in> set (secure_cookies w). h \<notin> lg_token_hash ` {l \<in> set (logins w). ?gone l}} \<subseteq>
      lg_token_hash ` {l \<in> set (logins w). \<not> ?gone l}" if "set (secure_cookies w) \<subseteq> lg_token_hash ` set (logins w)"
    using that by blast
  ultimately show ?thesis
    by (auto simp: prune_logins_def Let_def moves_def accounts_kept_def code_spent_def locked_out_def accounts_ok_def)
qed

lemma moves_revoke_where: "moves us w (revoke_where now hit w)"
proof -
  have "map lg_token_hash (logins (revoke_where now hit w)) = map lg_token_hash (logins w)"
    "map lg_user_id (logins (revoke_where now hit w)) = map lg_user_id (logins w)"
    by (simp_all add: revoke_where_def)
  then have "distinct (map lg_token_hash (logins (revoke_where now hit w))) = distinct (map lg_token_hash (logins w))"
    "lg_user_id ` set (logins (revoke_where now hit w)) = lg_user_id ` set (logins w)"
    "lg_token_hash ` set (logins (revoke_where now hit w)) = lg_token_hash ` set (logins w)"
    by (simp, metis set_map, metis set_map)
  moreover have "locked_out u w \<Longrightarrow> locked_out u (revoke_where now hit w)" for u
    by (auto simp: locked_out_def revoke_where_def)
  moreover have "account_writes w (revoke_where now hit w)"
    by (simp add: revoke_where_def)
  ultimately show ?thesis
    by (auto simp: moves_def accounts_kept_def code_spent_def accounts_ok_def) (auto simp: revoke_where_def)
qed

lemma moves_mark_code_used: "moves us w (mark_code_used now i w)"
proof -
  let ?w = "mark_code_used now i w"
  have m: "map rc_id (reset_codes ?w) = map rc_id (reset_codes w)"
    "map rc_code_hash (reset_codes ?w) = map rc_code_hash (reset_codes w)"
    "map rc_user_id (reset_codes ?w) = map rc_user_id (reset_codes w)"
    by (simp_all add: mark_code_used_def)
  then have "rc_user_id ` set (reset_codes ?w) = rc_user_id ` set (reset_codes w)"
    by (metis set_map)
  moreover have "code_spent h ?w" if spent: "code_spent h w" for h
  proof -
    obtain c where c: "c \<in> set (reset_codes w)" "rc_code_hash c = h" "rc_used_at c \<noteq> None"
      using spent unfolding code_spent_def by blast
    have "(if rc_id c = i then c\<lparr>rc_used_at := Some now\<rparr> else c) \<in> set (reset_codes ?w)"
      using c(1) by (simp add: mark_code_used_def)
    moreover have "rc_code_hash (if rc_id c = i then c\<lparr>rc_used_at := Some now\<rparr> else c) = h"
      "rc_used_at (if rc_id c = i then c\<lparr>rc_used_at := Some now\<rparr> else c) \<noteq> None"
      using c(2,3) by simp_all
    ultimately show ?thesis unfolding code_spent_def by blast
  qed
  moreover have "base ?w = base w" "logins ?w = logins w" "secure_cookies ?w = secure_cookies w" "agency ?w = agency w"
    "account_writes w ?w"
    by (simp_all add: mark_code_used_def)
  ultimately show ?thesis
    by (simp add: moves_def accounts_kept_def locked_out_def accounts_ok_def m del: map_map)
qed

lemma moves_set_password: "moves us w (w\<lparr>base := set_password i h (base w)\<rparr>)"
proof -
  have m: "map u_id (users (set_password i h d)) = map u_id (users d)"
    "map (\<lambda>u. nocase (u_username u)) (users (set_password i h d)) = map (\<lambda>u. nocase (u_username u)) (users d)"
    "map (\<lambda>u. (u_id u, u_username u)) (users (set_password i h d)) = map (\<lambda>u. (u_id u, u_username u)) (users d)" for d
    by (simp_all add: set_password_def)
  then have "u_id ` set (users (set_password i h d)) = u_id ` set (users d)" for d
    by (metis set_map)
  moreover have "account_writes w (w\<lparr>base := set_password i h (base w)\<rparr>)"
    by (simp add: set_password_def)
  ultimately show ?thesis
    by (simp add: moves_def accounts_kept_def locked_out_def code_spent_def accounts_ok_def m del: map_map)
qed

section \<open>What the operations move\<close>

lemma new_user_id [simp]: "u_id (new_user d a b c t h n) = next_id (map u_id (users d))"
  by (simp add: new_user_def)

lemma create_user_moves:
  assumes "create_user pre clk w actor n dn e t role phc = Inr (w', i)" shows "moves us w w'"
proof -
  obtain u b cs k w1 w2 where u: "in_base (insert_user u) w = Inr w1" "u_id u = next_id (map u_id (users (base w)))"
    and g: "in_base (grant_bundle (u_id u) cs b (clk 1)) w1 = Inr w2"
    and a: "in_base (record_audit EvUserCreated (Some actor) k (clk 2)) w2 = Inr w'"
    using assms by (auto simp: create_user_def Let_def guard_simps)
  show ?thesis
    by (rule moves_trans [OF moves_trans [OF moves_insert_user [OF u] moves_grant_bundle [OF g]] moves_record [OF a]])
qed

lemma issue_reset_code_moves:
  assumes "issue_reset_code sha pre clk w n origin bytes = Inr (w', c, x)" shows "moves us w w'"
proof -
  obtain c w1 k b s where c: "insert_reset_code c w = Inr w1" "rc_id c = next_id (map rc_id (reset_codes w))"
    and a: "in_base (record_audit k b s (clk 1)) w1 = Inr w'"
    using assms by (cases origin) (auto simp: issue_reset_code_def Let_def guard_simps)
  show ?thesis
    by (rule moves_trans [OF moves_insert_reset_code [OF c] moves_record [OF a]])
qed

lemma moves_refl [simp]: "moves us w w"
  by (rule moves_frame) simp_all

lemma create_with_reset_code_moves:
  "moves us w (fst (create_with_reset_code sha pre clk w actor n dn e t role phc bytes))"
proof (cases "create_user pre clk w actor n dn e t role phc")
  case (Inr p)
  obtain x i where p: "p = (x, i)" by (cases p)
  have x: "moves us w x" using create_user_moves Inr p by simp
  let ?m = "issue_reset_code sha x (\<lambda>n. clk (n + 3)) x (trim n) (OriginAdministrator actor) bytes"
  show ?thesis
  proof (cases ?m)
    case (Inl f)
    then show ?thesis using x Inr p by (cases f) (simp_all add: create_with_reset_code_def)
  next
    case (Inr q)
    then obtain y c z where "?m = Inr (y, c, z)" by (cases q) auto
    then show ?thesis
      using issue_reset_code_moves moves_trans [OF x] \<open>create_user pre clk w actor n dn e t role phc = Inr p\<close> p
      by (simp add: create_with_reset_code_def)
  qed
qed (simp add: create_with_reset_code_def)

lemma create_login_moves:
  assumes "create_login sha now w u tr bytes = Inr (w', token, x)" and "u \<in> us" shows "moves us w w'"
proof -
  let ?h = "os_digest (opaque sha bytes)"
  let ?l = "\<lparr>lg_token_hash = ?h, lg_user_id = u, lg_created_at = now,
    lg_expires_at = now + session_ttl_seconds, lg_revoked_at = None\<rparr>"
  obtain w1 w2 where l: "insert_login ?l w = Inr w1"
    and s: "(if tr = SecureCookie then insert_secure_cookie ?h w1 else Inr w1) = Inr w2"
    and w': "w' = prune_logins now w2"
    using assms(1) by (auto simp: create_login_def Let_def guard_simps)
  have "moves us w1 w2"
    using s moves_insert_secure_cookie by (auto split: if_splits)
  moreover have "moves us w w1" by (rule moves_insert_login [OF l]) (simp add: assms(2))
  ultimately have "moves us w w2" using moves_trans by blast
  then show ?thesis
    unfolding w' using moves_prune_logins moves_trans by blast
qed

text \<open>A login that succeeds may add a session of its user; one that fails adds none.\<close>

fun logged_in :: "login_answer \<Rightarrow> int set" where
  "logged_in LoginInvalid = {}"
| "logged_in (LoggedIn u caps expires token) = {u_id u}"

lemma login_moves:
  assumes "login sha argon pre clk w n p tr bytes = Inr (w', answer)" shows "moves (logged_in answer) w w'"
proof (cases "find_by_username (base pre) n")
  case None
  then show ?thesis using assms by (simp add: login_def)
next
  case (Some u)
  show ?thesis
  proof (cases "argon p (u_password_hash u)")
    case False
    then show ?thesis
      using assms Some moves_record by (auto simp: login_def guard_simps)
  next
    case True
    then obtain w1 token x where c: "create_login sha (clk 0) w (u_id u) tr bytes = Inr (w1, token, x)"
      and a: "in_base (record_audit EvLoginSucceeded (Some (u_id u)) (Some (u_id u)) (clk 1)) w1 = Inr w'"
      and "logged_in answer = {u_id u}"
      using assms Some by (auto simp: login_def guard_simps)
    then show ?thesis
      using create_login_moves [OF c, of "{u_id u}"] moves_record [OF a] moves_trans by auto
  qed
qed

lemma logout_moves:
  assumes "logout sha clk w cookie = Inr w'" shows "moves us w w'"
proof (cases cookie)
  case None
  then show ?thesis using assms by (simp add: logout_def)
next
  case (Some token)
  have r: "moves us x (revoke sha (clk 2) token x)" for x
    unfolding revoke_def by (rule moves_revoke_where)
  show ?thesis
  proof (cases "validate_token sha (clk 0) w token")
    case None
    then have "w' = revoke sha (clk 2) token w" using assms Some by (simp add: logout_def)
    then show ?thesis using r by simp
  next
    case (Some l)
    then obtain x where "in_base (record_audit EvLogout (Some (lg_user_id l)) (Some (lg_user_id l)) (clk 1)) w = Inr x"
      "w' = revoke sha (clk 2) token x"
      using assms \<open>cookie = Some token\<close> by (auto simp: logout_def guard_simps)
    then show ?thesis using moves_record r moves_trans by blast
  qed
qed

lemma use_reset_code_effect:
  assumes "use_reset_code sha pre clk w n code pw phc = Inr w'"
  shows "\<exists>u i h. find_by_username (base pre) n = Some u \<and> phc = Inr h \<and>
    usable_code (clk 0) w (u_id u) (digest_hex sha code) = Some i \<and>
    in_base (record_audit EvResetCodeUsed (Some (u_id u)) (Some (u_id u)) (clk 2))
      (revoke_all_for_user (clk 1) (u_id u) ((mark_code_used (clk 0) i w)\<lparr>base := set_password (u_id u) h (base w)\<rparr>)) = Inr w'"
proof -
  have m: "base (mark_code_used t i w) = base w" for t i by (simp add: mark_code_used_def)
  show ?thesis
    using assms by (auto simp: use_reset_code_def guard_simps row_simps m)
qed

lemma use_reset_code_moves:
  assumes "use_reset_code sha pre clk w n code pw phc = Inr w'" shows "moves us w w'"
proof -
  obtain u i h where e: "in_base (record_audit EvResetCodeUsed (Some u) (Some u) (clk 2))
      (revoke_all_for_user (clk 1) u ((mark_code_used (clk 0) i w)\<lparr>base := set_password u h (base w)\<rparr>)) = Inr w'"
    using use_reset_code_effect [OF assms] by blast
  let ?x = "mark_code_used (clk 0) i w"
  have "moves us ?x (?x\<lparr>base := set_password u h (base w)\<rparr>)"
    using moves_set_password [of us ?x u h] by (simp add: mark_code_used_def)
  then have "moves us w (?x\<lparr>base := set_password u h (base w)\<rparr>)"
    using moves_mark_code_used moves_trans by blast
  then show ?thesis
    using moves_record [OF e] moves_revoke_where moves_trans unfolding revoke_all_for_user_def by blast
qed

lemma issue_setup_code_moves: "issue_setup_code sha now w bytes = Some (w', c, x) \<Longrightarrow> moves us w w'"
  by (auto simp: issue_setup_code_def Let_def split: if_splits intro!: moves_frame)

lemma moves_insert_agency: "agency w = None \<Longrightarrow> moves us w (w\<lparr>agency := Some a\<rparr>)"
  by (simp add: moves_def accounts_kept_def code_spent_def locked_out_def accounts_ok_def)

lemma initialize_effect:
  assumes "initialize sha clk w code an n dn pw phc = Inr (w', i)"
  shows "\<exists>h d d1 d2. agency w = None \<and> i = next_id (map u_id (users (base w))) \<and>
    insert_user (new_user (base w) (trim n) (or_else dn (trim n)) [] [] h (clk 1)) (base w) = Inr d \<and>
    grant_bundle i administrator_bundle None (clk 2) d = Inr d1 \<and>
    record_audit EvSetupCompleted (Some i) (Some i) (clk 3) d1 = Inr d2 \<and>
    w' = w\<lparr>agency := Some \<lparr>ag_name = trim an, ag_created_at = clk 0\<rparr>, setup_code := None, base := d2\<rparr>"
proof -
  obtain h d d1 d2 where "agency w = None" "i = next_id (map u_id (users (base w)))"
    "insert_user (new_user (base w) (trim n) (or_else dn (trim n)) [] [] h (clk 1)) (base w) = Inr d"
    "grant_bundle i administrator_bundle None (clk 2) d = Inr d1"
    "record_audit EvSetupCompleted (Some i) (Some i) (clk 3) d1 = Inr d2"
    "w' = w\<lparr>agency := Some \<lparr>ag_name = trim an, ag_created_at = clk 0\<rparr>, setup_code := None, base := d2\<rparr>"
    using assms
    by (auto simp: initialize_def Let_def guard_simps row_simps insert_agency_def split: if_splits option.splits)
  then show ?thesis by blast
qed

lemma initialize_moves:
  assumes "initialize sha clk w code an n dn pw phc = Inr (w', i)" shows "moves us w w'"
proof -
  let ?a = "\<lparr>ag_name = trim an, ag_created_at = clk 0\<rparr>"
  obtain h d d1 d2 where a: "agency w = None"
    and u: "insert_user (new_user (base w) (trim n) (or_else dn (trim n)) [] [] h (clk 1)) (base w) = Inr d"
    and g: "grant_bundle i administrator_bundle None (clk 2) d = Inr d1"
    and r: "record_audit EvSetupCompleted (Some i) (Some i) (clk 3) d1 = Inr d2"
    and w': "w' = w\<lparr>agency := Some ?a, setup_code := None, base := d2\<rparr>"
    using initialize_effect [OF assms] by blast
  let ?x = "w\<lparr>agency := Some ?a\<rparr>"
  have "moves us ?x (?x\<lparr>base := d\<rparr>)"
    using u by (intro moves_insert_user) (auto simp: row_simps)
  moreover have "moves us (?x\<lparr>base := d\<rparr>) (?x\<lparr>base := d1\<rparr>)"
    using g by (intro moves_grant_bundle) (auto simp: row_simps)
  moreover have "moves us (?x\<lparr>base := d1\<rparr>) (?x\<lparr>base := d2\<rparr>)"
    using r by (intro moves_record) (auto simp: row_simps)
  moreover have "moves us (?x\<lparr>base := d2\<rparr>) w'"
  proof (rule moves_frame)
    have "w' = (?x\<lparr>base := d2\<rparr>)\<lparr>setup_code := None\<rparr>" by (simp add: w')
    then show "account_writes (?x\<lparr>base := d2\<rparr>) w'" by (simp only: account_writes_tables)
  qed (simp_all add: w')
  ultimately show ?thesis
    by (blast intro: moves_trans [OF moves_insert_agency [OF a]] moves_trans)
qed

section \<open>A password reset\<close>

lemma validate_locked_out: "locked_out u w \<Longrightarrow> validate_token sha now w token = Some l \<Longrightarrow> lg_user_id l \<noteq> u"
  by (auto simp: validate_token_def locked_out_def dest!: find_eq_SomeD)

lemma spent_not_usable:
  assumes "accounts_ok w" and "code_spent h w"
  shows "usable_code now w u h = None"
proof (rule ccontr)
  assume "usable_code now w u h \<noteq> None"
  then obtain c where c: "c \<in> set (reset_codes w)" "rc_code_hash c = h" "rc_used_at c = None"
    by (auto simp: usable_code_def dest!: find_eq_SomeD)
  obtain c' where c': "c' \<in> set (reset_codes w)" "rc_code_hash c' = h" "rc_used_at c' \<noteq> None"
    using assms(2) by (auto simp: code_spent_def)
  have "c = c'"
    using assms(1) c c' by (auto simp: accounts_ok_def distinct_map dest: inj_onD)
  with c c' show False by simp
qed

lemma use_reset_code_settles:
  assumes "use_reset_code sha pre clk w n code pw phc = Inr w'" and "find_by_username (base pre) n = Some u"
  shows "locked_out (u_id u) w'" "code_spent (digest_hex sha code) w'"
proof -
  let ?h = "digest_hex sha code"
  obtain i h where c: "usable_code (clk 0) w (u_id u) ?h = Some i"
    and e: "in_base (record_audit EvResetCodeUsed (Some (u_id u)) (Some (u_id u)) (clk 2))
      (revoke_all_for_user (clk 1) (u_id u) ((mark_code_used (clk 0) i w)\<lparr>base := set_password (u_id u) h (base w)\<rparr>)) = Inr w'"
    using use_reset_code_effect [OF assms(1)] assms(2) by auto
  let ?x = "revoke_all_for_user (clk 1) (u_id u) ((mark_code_used (clk 0) i w)\<lparr>base := set_password (u_id u) h (base w)\<rparr>)"
  have t: "logins w' = logins ?x" "reset_codes w' = reset_codes ?x"
    using audited_tables [OF audited_record [OF e]] by simp_all
  show "locked_out (u_id u) w'"
    unfolding locked_out_def t by (auto simp: revoke_all_for_user_def revoke_where_def)
  obtain k where k: "k \<in> set (reset_codes w)" "rc_code_hash k = ?h" "rc_id k = i"
    using c by (auto simp: usable_code_def dest!: find_eq_SomeD)
  then have in': "k\<lparr>rc_used_at := Some (clk 0)\<rparr> \<in> set (reset_codes ?x)"
    by (force simp: revoke_all_for_user_def revoke_where_def mark_code_used_def)
  show "code_spent ?h w'"
    unfolding code_spent_def t by (rule bexI [OF _ in']) (simp add: k(2))
qed

end
