(* ===== verification/Authoring.thy ===== *)
theory Authoring
  imports Office Enrollments Canonical
begin

text \<open>
  The content document of a program version and its structural validation
  (programs/content.rs): the same document is what an author sends, what a read gives back and
  what an export carries. A document with no problem is \<open>well_formed\<close>, and conversely.
\<close>

section \<open>The content document\<close>

record citation_def =
  cd_body :: string
  cd_edition :: string
  cd_clause :: string
  cd_note :: string

record policy_def =
  pd_review_approved :: bool
  pd_required_narratives :: bool
  pd_ratings_complete :: bool

definition default_policy :: policy_def where
  "default_policy = \<lparr>pd_review_approved = True, pd_required_narratives = True, pd_ratings_complete = True\<rparr>"

record phase_def =
  hd_name :: string
  hd_description :: string
  hd_number :: int

record transition_def =
  td_from :: string
  td_to :: string
  td_kind :: transition_kind

record task_def =
  kd_prompt :: string
  kd_citations :: "citation_def list"

record competency_def =
  md_category :: string
  md_name :: string
  md_description :: string
  md_tasks :: "task_def list"
  md_citations :: "citation_def list"

record anchor_def =
  nd_value :: int
  nd_label :: string
  nd_definition :: string

record scale_def =
  sd_name :: string
  sd_kind :: scale_kind
  sd_min :: "int option"
  sd_max :: "int option"
  sd_anchors :: "anchor_def list"

record modifier_def =
  od_code :: string
  od_label :: string
  od_description :: string

record binding_def =
  bd_competency :: string
  bd_scale :: string

record narrative_def =
  rd_prompt :: string
  rd_required :: bool

record form_def =
  fd_record_type :: record_type
  fd_name :: string
  fd_instructions :: string
  fd_competencies :: "binding_def list"
  fd_narratives :: "narrative_def list"

record version_content =
  vc_name :: string
  vc_label :: string
  vc_description :: string
  vc_phases :: "phase_def list"
  vc_transitions :: "transition_def list"
  vc_competencies :: "competency_def list"
  vc_scales :: "scale_def list"
  vc_modifiers :: "modifier_def list"
  vc_forms :: "form_def list"
  vc_citations :: "citation_def list"
  vc_policy :: policy_def

section \<open>Validation\<close>

definition blank_text :: "string \<Rightarrow> bool" where
  "blank_text s \<longleftrightarrow> trim s = []"

definition quoted :: "string \<Rightarrow> string" where
  "quoted s = CHR 0x27 # s @ [CHR 0x27]"

text \<open>
  The problems of a document, in the order found. A \<open>HashSet\<close> a loop fills is the argument
  \<open>seen\<close>; \<open>note_duplicate\<close> asks whether the name, in ASCII lower case, was in it.
\<close>

definition note_duplicate :: "string set \<Rightarrow> string \<Rightarrow> bool" where
  "note_duplicate seen value \<longleftrightarrow> nocase value \<in> seen"

definition citation_problems :: "string \<Rightarrow> citation_def list \<Rightarrow> string list" where
  "citation_problems owner cs =
     concat (map (\<lambda>c.
       (if blank_text (cd_body c) then [owner @ '': citation has an empty standards body''] else []) @
       (if blank_text (cd_clause c) then [owner @ '': citation has an empty clause''] else [])) cs)"

fun phase_problems :: "string set \<Rightarrow> phase_def list \<Rightarrow> string list" where
  "phase_problems seen [] = []"
| "phase_problems seen (p # ps) =
     (if blank_text (hd_name p) then ''phase has an empty name'' # phase_problems seen ps
      else if note_duplicate seen (hd_name p)
      then (''duplicate phase name '' @ quoted (hd_name p)) # phase_problems seen ps
      else phase_problems (insert (nocase (hd_name p)) seen) ps)"

fun transition_problems :: "string set \<Rightarrow> (string \<times> string) set \<Rightarrow> transition_def list \<Rightarrow> string list" where
  "transition_problems defined seen [] = []"
| "transition_problems defined seen (t # ts) =
     map (\<lambda>e. ''transition references unknown phase '' @ quoted e)
       (filter (\<lambda>e. e \<notin> defined) [td_from t, td_to t]) @
     (if (td_from t, td_to t) \<in> seen
      then [''duplicate transition from '' @ quoted (td_from t) @ '' to '' @ quoted (td_to t)] else []) @
     transition_problems defined (insert (td_from t, td_to t) seen) ts"

fun task_problems :: "string \<Rightarrow> string set \<Rightarrow> task_def list \<Rightarrow> string list" where
  "task_problems name seen [] = []"
| "task_problems name seen (t # ts) =
     (if blank_text (kd_prompt t) then [''competency '' @ quoted name @ '': task has an empty prompt'']
      else if note_duplicate seen (kd_prompt t)
      then [''competency '' @ quoted name @ '': duplicate task prompt '' @ quoted (kd_prompt t)]
      else []) @
     citation_problems (''task '' @ quoted (kd_prompt t)) (kd_citations t) @
     task_problems name
       (if blank_text (kd_prompt t) then seen else insert (nocase (kd_prompt t)) seen) ts"

fun competency_problems :: "string set \<Rightarrow> competency_def list \<Rightarrow> string list" where
  "competency_problems seen [] = []"
| "competency_problems seen (c # cs) =
     (if blank_text (md_name c) then ''competency has an empty name'' # competency_problems seen cs
      else
        (if note_duplicate seen (md_name c) then [''duplicate competency name '' @ quoted (md_name c)] else []) @
        task_problems (md_name c) {} (md_tasks c) @
        citation_problems (''competency '' @ quoted (md_name c)) (md_citations c) @
        competency_problems (insert (nocase (md_name c)) seen) cs)"

fun anchor_problems :: "string \<Rightarrow> int set \<Rightarrow> anchor_def list \<Rightarrow> string list" where
  "anchor_problems name seen [] = []"
| "anchor_problems name seen (a # as) =
     (if blank_text (nd_label a) then [''scale '' @ quoted name @ '': anchor has an empty label''] else []) @
     (if nd_value a \<in> seen
      then [''scale '' @ quoted name @ '': duplicate anchor value '' @ int_str (nd_value a)] else []) @
     anchor_problems name (insert (nd_value a) seen) as"

definition bound_problems :: "string \<Rightarrow> scale_def \<Rightarrow> string list" where
  "bound_problems no_bounds s =
     (if sd_min s \<noteq> None \<or> sd_max s \<noteq> None then [''scale '' @ quoted (sd_name s) @ no_bounds] else [])"

definition kind_problems :: "scale_def \<Rightarrow> string list" where
  "kind_problems s =
     (let scale = ''scale '' @ quoted (sd_name s) in
      case sd_kind s of
        AnchoredNumeric \<Rightarrow>
          (case (sd_min s, sd_max s) of
             (Some lo, Some hi) \<Rightarrow>
               (if hi \<le> lo then [scale @ '': min_value must be less than max_value''] else []) @
               (if sd_anchors s = [] then [scale @ '': anchored_numeric requires at least one anchor''] else []) @
               map (\<lambda>a. scale @ '': anchor value '' @ int_str (nd_value a) @ '' is outside '' @
                   int_str lo @ ''..='' @ int_str hi)
                 (filter (\<lambda>a. nd_value a < lo \<or> hi < nd_value a) (sd_anchors s))
           | _ \<Rightarrow> [scale @ '': anchored_numeric requires min_value and max_value''])
      | PassFail \<Rightarrow>
          bound_problems '': pass_fail does not take numeric bounds'' s @
          (let values = map nd_value (sd_anchors s) in
           if length values = 2 \<and> 0 \<in> set values \<and> 1 \<in> set values then []
           else [scale @ '': pass_fail requires exactly two anchors with values 0 and 1''])
      | NarrativeOnly \<Rightarrow>
          bound_problems '': narrative_only does not take numeric bounds'' s @
          (if sd_anchors s \<noteq> [] then [scale @ '': narrative_only takes no anchors''] else []))"

definition validate_scale :: "scale_def \<Rightarrow> string list" where
  "validate_scale s = anchor_problems (sd_name s) {} (sd_anchors s) @ kind_problems s"

fun scale_problems :: "string set \<Rightarrow> scale_def list \<Rightarrow> string list" where
  "scale_problems seen [] = []"
| "scale_problems seen (s # ss) =
     (if blank_text (sd_name s) then ''rating scale has an empty name'' # scale_problems seen ss
      else
        (if note_duplicate seen (sd_name s) then [''duplicate rating scale name '' @ quoted (sd_name s)] else []) @
        validate_scale s @ scale_problems (insert (nocase (sd_name s)) seen) ss)"

fun modifier_problems :: "string set \<Rightarrow> modifier_def list \<Rightarrow> string list" where
  "modifier_problems seen [] = []"
| "modifier_problems seen (m # ms) =
     (if blank_text (od_code m) \<or> blank_text (od_label m)
      then ''rating modifier has an empty code or label'' # modifier_problems seen ms
      else if note_duplicate seen (od_code m)
      then (''duplicate rating modifier code '' @ quoted (od_code m)) # modifier_problems seen ms
      else modifier_problems (insert (nocase (od_code m)) seen) ms)"

fun binding_problems :: "string \<Rightarrow> string set \<Rightarrow> string set \<Rightarrow> string set \<Rightarrow> binding_def list \<Rightarrow> string list" where
  "binding_problems form cs ss bound [] = []"
| "binding_problems form cs ss bound (b # bs) =
     (if bd_competency b \<notin> cs
      then [''form '' @ quoted form @ '': references unknown competency '' @ quoted (bd_competency b)] else []) @
     (if bd_scale b \<notin> ss
      then [''form '' @ quoted form @ '': references unknown rating scale '' @ quoted (bd_scale b)] else []) @
     (if bd_competency b \<in> bound
      then [''form '' @ quoted form @ '': competency '' @ quoted (bd_competency b) @ '' is bound more than once'']
      else []) @
     binding_problems form cs ss (insert (bd_competency b) bound) bs"

fun form_problems :: "string set \<Rightarrow> string set \<Rightarrow> string set \<Rightarrow> form_def list \<Rightarrow> string list" where
  "form_problems cs ss seen [] = []"
| "form_problems cs ss seen (f # fs) =
     (if blank_text (fd_name f) then ''evaluation form has an empty name'' # form_problems cs ss seen fs
      else
        (if note_duplicate seen (fd_name f) then [''duplicate evaluation form name '' @ quoted (fd_name f)] else []) @
        binding_problems (fd_name f) cs ss {} (fd_competencies f) @
        map (\<lambda>n. ''form '' @ quoted (fd_name f) @ '': narrative has an empty prompt'')
          (filter (\<lambda>n. blank_text (rd_prompt n)) (fd_narratives f)) @
        form_problems cs ss (insert (nocase (fd_name f)) seen) fs)"

definition validate_phases :: "version_content \<Rightarrow> string list" where
  "validate_phases c =
     phase_problems {} (vc_phases c) @
     transition_problems (set (map hd_name (vc_phases c))) {} (vc_transitions c)"

definition validate_forms :: "version_content \<Rightarrow> string list" where
  "validate_forms c =
     form_problems (set (map md_name (vc_competencies c))) (set (map sd_name (vc_scales c))) {} (vc_forms c)"

definition validate_content :: "version_content \<Rightarrow> string list" where
  "validate_content c =
     (if blank_text (vc_name c) then [''version has an empty program name''] else []) @
     validate_phases c @
     competency_problems {} (vc_competencies c) @
     scale_problems {} (vc_scales c) @
     modifier_problems {} (vc_modifiers c) @
     validate_forms c @
     citation_problems ''version'' (vc_citations c)"

section \<open>Well-formed documents\<close>

text \<open>Required text present and names unique as the database's \<open>NOCASE\<close> indexes count them.\<close>

definition named :: "('a \<Rightarrow> string) \<Rightarrow> 'a list \<Rightarrow> bool" where
  "named f xs \<longleftrightarrow> (\<forall>x \<in> set xs. \<not> blank_text (f x)) \<and> distinct (map (\<lambda>x. nocase (f x)) xs)"

definition citations_wf :: "citation_def list \<Rightarrow> bool" where
  "citations_wf cs \<longleftrightarrow> (\<forall>c \<in> set cs. \<not> blank_text (cd_body c) \<and> \<not> blank_text (cd_clause c))"

definition scale_wf :: "scale_def \<Rightarrow> bool" where
  "scale_wf s \<longleftrightarrow>
     (\<forall>a \<in> set (sd_anchors s). \<not> blank_text (nd_label a)) \<and> distinct (map nd_value (sd_anchors s)) \<and>
     (case sd_kind s of
        AnchoredNumeric \<Rightarrow> (\<exists>lo hi. sd_min s = Some lo \<and> sd_max s = Some hi \<and> lo < hi \<and>
          sd_anchors s \<noteq> [] \<and> (\<forall>a \<in> set (sd_anchors s). lo \<le> nd_value a \<and> nd_value a \<le> hi))
      | PassFail \<Rightarrow> sd_min s = None \<and> sd_max s = None \<and> set (map nd_value (sd_anchors s)) = {0, 1}
      | NarrativeOnly \<Rightarrow> sd_min s = None \<and> sd_max s = None \<and> sd_anchors s = [])"

definition form_wf :: "version_content \<Rightarrow> form_def \<Rightarrow> bool" where
  "form_wf c f \<longleftrightarrow>
     (\<forall>b \<in> set (fd_competencies f). bd_competency b \<in> md_name ` set (vc_competencies c) \<and>
        bd_scale b \<in> sd_name ` set (vc_scales c)) \<and>
     distinct (map bd_competency (fd_competencies f)) \<and>
     (\<forall>n \<in> set (fd_narratives f). \<not> blank_text (rd_prompt n))"

definition well_formed :: "version_content \<Rightarrow> bool" where
  "well_formed c \<longleftrightarrow>
     \<not> blank_text (vc_name c) \<and>
     named hd_name (vc_phases c) \<and>
     (\<forall>t \<in> set (vc_transitions c). td_from t \<in> hd_name ` set (vc_phases c) \<and>
        td_to t \<in> hd_name ` set (vc_phases c)) \<and>
     distinct (map (\<lambda>t. (td_from t, td_to t)) (vc_transitions c)) \<and>
     named md_name (vc_competencies c) \<and>
     (\<forall>m \<in> set (vc_competencies c). named kd_prompt (md_tasks m) \<and>
        (\<forall>t \<in> set (md_tasks m). citations_wf (kd_citations t)) \<and> citations_wf (md_citations m)) \<and>
     named sd_name (vc_scales c) \<and> (\<forall>s \<in> set (vc_scales c). scale_wf s) \<and>
     named od_code (vc_modifiers c) \<and> (\<forall>m \<in> set (vc_modifiers c). \<not> blank_text (od_label m)) \<and>
     named fd_name (vc_forms c) \<and> (\<forall>f \<in> set (vc_forms c). form_wf c f) \<and>
     citations_wf (vc_citations c)"

lemma citation_problems_Nil: "citation_problems owner cs = [] \<longleftrightarrow> citations_wf cs"
  by (induction cs) (auto simp: citation_problems_def citations_wf_def)

lemma named_simps [simp]:
  "named f []"
  "named f (x # xs) \<longleftrightarrow> \<not> blank_text (f x) \<and> (\<forall>y \<in> set xs. nocase (f y) \<noteq> nocase (f x)) \<and> named f xs"
   by (simp_all add: named_def image_iff) metis

text \<open>What a scan reports nothing of: the names are good and none was seen before.\<close>

abbreviation unseen :: "('a \<Rightarrow> string) \<Rightarrow> string set \<Rightarrow> 'a list \<Rightarrow> bool" where
  "unseen f seen xs \<equiv> \<forall>x \<in> set xs. nocase (f x) \<notin> seen"

lemma phase_problems_Nil:
  "phase_problems seen ps = [] \<longleftrightarrow> named hd_name ps \<and> unseen hd_name seen ps"
  by (induction seen ps rule: phase_problems.induct) (auto simp: note_duplicate_def)

lemma transition_problems_Nil:
  "transition_problems defined seen ts = [] \<longleftrightarrow>
     (\<forall>t \<in> set ts. td_from t \<in> defined \<and> td_to t \<in> defined \<and> (td_from t, td_to t) \<notin> seen) \<and>
     distinct (map (\<lambda>t. (td_from t, td_to t)) ts)"
  by (induction ts arbitrary: seen) (auto simp: image_iff split: if_splits)

lemma task_problems_Nil:
  "task_problems name seen ts = [] \<longleftrightarrow>
     named kd_prompt ts \<and> unseen kd_prompt seen ts \<and> (\<forall>t \<in> set ts. citations_wf (kd_citations t))"
  by (induction ts arbitrary: seen) (auto simp: note_duplicate_def citation_problems_Nil)

lemma competency_problems_Nil:
  "competency_problems seen cs = [] \<longleftrightarrow>
     named md_name cs \<and> unseen md_name seen cs \<and>
     (\<forall>m \<in> set cs. named kd_prompt (md_tasks m) \<and>
        (\<forall>t \<in> set (md_tasks m). citations_wf (kd_citations t)) \<and> citations_wf (md_citations m))"
  by (induction cs arbitrary: seen) (auto simp: note_duplicate_def citation_problems_Nil task_problems_Nil)

lemma anchor_problems_Nil:
  "anchor_problems name seen as = [] \<longleftrightarrow>
     (\<forall>a \<in> set as. \<not> blank_text (nd_label a) \<and> nd_value a \<notin> seen) \<and> distinct (map nd_value as)"
  by (induction as arbitrary: seen) (auto simp: image_iff)

lemma pass_fail_values:
  fixes xs :: "int list"
  assumes "distinct xs"
  shows "length xs = 2 \<and> 0 \<in> set xs \<and> 1 \<in> set xs \<longleftrightarrow> set xs = {0, 1}"
proof
  assume l: "length xs = 2 \<and> 0 \<in> set xs \<and> 1 \<in> set xs"
  then obtain x y where "xs = [x, y]"
    by (metis Suc_1 length_0_conv length_Suc_conv numeral_2_eq_2)
  with l show "set xs = {0, 1}" by auto
next
  assume s: "set xs = {0, 1}"
  then have "length xs = card {0 :: int, 1}"
    using distinct_card [OF assms] by simp
  with s show "length xs = 2 \<and> 0 \<in> set xs \<and> 1 \<in> set xs" by simp
qed

lemma validate_scale_Nil: "validate_scale s = [] \<longleftrightarrow> scale_wf s"
proof (cases "distinct (map nd_value (sd_anchors s))")
  case True
  note pf = pass_fail_values [OF True]
  show ?thesis
  proof (cases "sd_kind s")
    case AnchoredNumeric
    then show ?thesis
      by (cases "sd_min s"; cases "sd_max s")
        (auto simp: validate_scale_def kind_problems_def anchor_problems_Nil scale_wf_def Let_def
          filter_empty_conv not_less not_le)
  next
    case PassFail
    then show ?thesis
      using pf True
      by (simp add: validate_scale_def kind_problems_def bound_problems_def anchor_problems_Nil
          scale_wf_def Let_def)
  next
    case NarrativeOnly
    then show ?thesis
      by (auto simp: validate_scale_def kind_problems_def bound_problems_def anchor_problems_Nil
          scale_wf_def Let_def)
  qed
qed (simp add: validate_scale_def anchor_problems_Nil scale_wf_def)

lemma scale_problems_Nil:
  "scale_problems seen ss = [] \<longleftrightarrow>
     named sd_name ss \<and> unseen sd_name seen ss \<and> (\<forall>s \<in> set ss. scale_wf s)"
  by (induction ss arbitrary: seen) (auto simp: note_duplicate_def validate_scale_Nil)

lemma modifier_problems_Nil:
  "modifier_problems seen ms = [] \<longleftrightarrow>
     named od_code ms \<and> unseen od_code seen ms \<and> (\<forall>m \<in> set ms. \<not> blank_text (od_label m))"
  by (induction seen ms rule: modifier_problems.induct) (auto simp: note_duplicate_def)

lemma binding_problems_Nil:
  "binding_problems form cs ss bound bs = [] \<longleftrightarrow>
     (\<forall>b \<in> set bs. bd_competency b \<in> cs \<and> bd_scale b \<in> ss \<and> bd_competency b \<notin> bound) \<and>
     distinct (map bd_competency bs)"
  by (induction bs arbitrary: bound) (auto simp: image_iff)

lemma form_problems_Nil:
  "form_problems (md_name ` set (vc_competencies c)) (sd_name ` set (vc_scales c)) seen fs = [] \<longleftrightarrow>
     named fd_name fs \<and> unseen fd_name seen fs \<and> (\<forall>f \<in> set fs. form_wf c f)"
  by (induction fs arbitrary: seen)
    (auto simp: note_duplicate_def binding_problems_Nil form_wf_def filter_empty_conv)

lemma validate_content_Nil: "validate_content c = [] \<longleftrightarrow> well_formed c"
  unfolding well_formed_def
  by (simp add: validate_content_def validate_phases_def validate_forms_def phase_problems_Nil
      transition_problems_Nil competency_problems_Nil scale_problems_Nil modifier_problems_Nil
      form_problems_Nil citation_problems_Nil conj_assoc)

end
