(* ===== verification/Publishing.thy ===== *)
theory Publishing
  imports Authoring
begin

text \<open>
  Programs and their versions (programs.rs, programs/persistence.rs, migration 0004): how a
  content document is written as rows, read back and deleted, and the services that create,
  replace, publish and discard versions. The triggers that freeze a published version are part
  of every statement.
\<close>

section \<open>Statements\<close>

text \<open>A loop of statements: the first failure ends it.\<close>

fun each :: "('a \<Rightarrow> 's \<Rightarrow> db_error + 's) \<Rightarrow> 'a list \<Rightarrow> 's \<Rightarrow> db_error + 's" where
  "each f [] s = Inr s"
| "each f (x # xs) s = seq (f x s) (each f xs)"

text \<open>\<open>ids[name]\<close> on a \<open>HashMap\<close>: a missing key panics.\<close>

definition at_key :: "('k \<Rightarrow> 'v option) \<Rightarrow> 'k \<Rightarrow> ('v \<Rightarrow> db_error + 'b) \<Rightarrow> db_error + 'b" where
  "at_key m k f = (case m k of None \<Rightarrow> Inl (Defect ''no entry found for key'') | Some v \<Rightarrow> f v)"

definition frozen :: "catalog \<Rightarrow> int \<Rightarrow> bool" where
  "frozen c v \<longleftrightarrow>
     (case find (\<lambda>p. pv_id p = v) (program_versions c) of None \<Rightarrow> False | Some p \<Rightarrow> pv_published_at p \<noteq> None)"

definition immutable :: db_error where
  "immutable = Raised ''published program versions are immutable''"

text \<open>
  An insert of a row owned by version \<open>v\<close>: the freeze trigger, the checks, the unique index, and
  the foreign keys with the one to the version.
\<close>

definition insert_owned :: "int \<Rightarrow> bool \<Rightarrow> bool \<Rightarrow> bool \<Rightarrow> catalog \<Rightarrow> 's \<Rightarrow> db_error + 's" where
  "insert_owned v check unique keys c s =
     demand (\<not> frozen c v) immutable
    (demand check CheckConstraint
    (demand unique UniqueIndex
    (demand (v \<in> set (map pv_id (program_versions c)) \<and> keys) ForeignKey (Inr s))))"

definition has_phase :: "catalog \<Rightarrow> int \<Rightarrow> int \<Rightarrow> bool" where
  "has_phase c i v \<longleftrightarrow> (i, v) \<in> set (map (\<lambda>p. (ph_id p, ph_version_id p)) (phases c))"

definition has_competency :: "catalog \<Rightarrow> int \<Rightarrow> int \<Rightarrow> bool" where
  "has_competency c i v \<longleftrightarrow> (i, v) \<in> set (map (\<lambda>p. (co_id p, co_version_id p)) (competencies c))"

definition has_task :: "catalog \<Rightarrow> int \<Rightarrow> int \<Rightarrow> bool" where
  "has_task c i v \<longleftrightarrow> (i, v) \<in> set (map (\<lambda>p. (tk_id p, tk_version_id p)) (tasks c))"

definition has_scale :: "catalog \<Rightarrow> int \<Rightarrow> int \<Rightarrow> bool" where
  "has_scale c i v \<longleftrightarrow> (i, v) \<in> set (map (\<lambda>p. (rs_id p, rs_version_id p)) (rating_scales c))"

definition has_form :: "catalog \<Rightarrow> int \<Rightarrow> int \<Rightarrow> bool" where
  "has_form c i v \<longleftrightarrow> (i, v) \<in> set (map (\<lambda>p. (f_id p, f_version_id p)) (evaluation_forms c))"

definition insert_phase :: "phase_row \<Rightarrow> catalog \<Rightarrow> db_error + catalog" where
  "insert_phase p c =
     insert_owned (ph_version_id p) (0 < sql_length (ph_name p))
       ((ph_version_id p, nocase (ph_name p)) \<notin> set (map (\<lambda>q. (ph_version_id q, nocase (ph_name q))) (phases c)))
       True c (c\<lparr>phases := phases c @ [p]\<rparr>)"

definition insert_transition :: "phase_transition_row \<Rightarrow> catalog \<Rightarrow> db_error + catalog" where
  "insert_transition t c =
     insert_owned (pt_version_id t) True
       ((pt_version_id t, pt_from t, pt_to t) \<notin>
          set (map (\<lambda>q. (pt_version_id q, pt_from q, pt_to q)) (phase_transitions c)))
       (has_phase c (pt_from t) (pt_version_id t) \<and> has_phase c (pt_to t) (pt_version_id t))
       c (c\<lparr>phase_transitions := phase_transitions c @ [t]\<rparr>)"

definition insert_competency :: "competency_row \<Rightarrow> catalog \<Rightarrow> db_error + catalog" where
  "insert_competency m c =
     insert_owned (co_version_id m) (0 < sql_length (co_name m))
       ((co_version_id m, nocase (co_name m)) \<notin>
          set (map (\<lambda>q. (co_version_id q, nocase (co_name q))) (competencies c)))
       True c (c\<lparr>competencies := competencies c @ [m]\<rparr>)"

definition insert_task :: "task_row \<Rightarrow> catalog \<Rightarrow> db_error + catalog" where
  "insert_task t c =
     insert_owned (tk_version_id t) (0 < sql_length (tk_prompt t))
       ((tk_competency_id t, nocase (tk_prompt t)) \<notin>
          set (map (\<lambda>q. (tk_competency_id q, nocase (tk_prompt q))) (tasks c)))
       (has_competency c (tk_competency_id t) (tk_version_id t)) c (c\<lparr>tasks := tasks c @ [t]\<rparr>)"

definition scale_shape :: "rating_scale_row \<Rightarrow> bool" where
  "scale_shape s \<longleftrightarrow>
     (rs_kind s = AnchoredNumeric) = (rs_min s \<noteq> None \<and> rs_max s \<noteq> None) \<and>
     (case (rs_min s, rs_max s) of (Some lo, Some hi) \<Rightarrow> lo < hi | _ \<Rightarrow> True)"

definition insert_scale :: "rating_scale_row \<Rightarrow> catalog \<Rightarrow> db_error + catalog" where
  "insert_scale s c =
     insert_owned (rs_version_id s) (0 < sql_length (rs_name s) \<and> scale_shape s)
       ((rs_version_id s, nocase (rs_name s)) \<notin>
          set (map (\<lambda>q. (rs_version_id q, nocase (rs_name q))) (rating_scales c)))
       True c (c\<lparr>rating_scales := rating_scales c @ [s]\<rparr>)"

definition insert_anchor :: "rating_anchor_row \<Rightarrow> catalog \<Rightarrow> db_error + catalog" where
  "insert_anchor a c =
     insert_owned (ra_version_id a) (0 < sql_length (ra_label a))
       ((ra_scale_id a, ra_value a) \<notin> set (map (\<lambda>q. (ra_scale_id q, ra_value q)) (rating_anchors c)))
       (has_scale c (ra_scale_id a) (ra_version_id a)) c (c\<lparr>rating_anchors := rating_anchors c @ [a]\<rparr>)"

definition insert_rating_modifier :: "rating_modifier_row \<Rightarrow> catalog \<Rightarrow> db_error + catalog" where
  "insert_rating_modifier m c =
     insert_owned (rm_version_id m) (0 < sql_length (rm_code m) \<and> 0 < sql_length (rm_label m))
       ((rm_version_id m, nocase (rm_code m)) \<notin>
          set (map (\<lambda>q. (rm_version_id q, nocase (rm_code q))) (rating_modifiers c)))
       True c (c\<lparr>rating_modifiers := rating_modifiers c @ [m]\<rparr>)"

definition insert_form :: "evaluation_form_row \<Rightarrow> catalog \<Rightarrow> db_error + catalog" where
  "insert_form f c =
     insert_owned (f_version_id f) (0 < sql_length (f_name f))
       ((f_version_id f, nocase (f_name f)) \<notin>
          set (map (\<lambda>q. (f_version_id q, nocase (f_name q))) (evaluation_forms c)))
       True c (c\<lparr>evaluation_forms := evaluation_forms c @ [f]\<rparr>)"

definition insert_form_competency :: "form_competency_row \<Rightarrow> catalog \<Rightarrow> db_error + catalog" where
  "insert_form_competency b c =
     insert_owned (fc_version_id b) True
       ((fc_form_id b, fc_competency_id b) \<notin>
          set (map (\<lambda>q. (fc_form_id q, fc_competency_id q)) (form_competencies c)))
       (has_form c (fc_form_id b) (fc_version_id b) \<and>
        has_competency c (fc_competency_id b) (fc_version_id b) \<and>
        has_scale c (fc_scale_id b) (fc_version_id b))
       c (c\<lparr>form_competencies := form_competencies c @ [b]\<rparr>)"

definition insert_form_narrative :: "form_narrative_row \<Rightarrow> catalog \<Rightarrow> db_error + catalog" where
  "insert_form_narrative n c =
     insert_owned (fn_version_id n) (0 < sql_length (fn_prompt n)) True
       (has_form c (fn_form_id n) (fn_version_id n)) c (c\<lparr>form_narratives := form_narratives c @ [n]\<rparr>)"

definition insert_policy_row :: "policy_row \<Rightarrow> catalog \<Rightarrow> db_error + catalog" where
  "insert_policy_row p c =
     insert_owned (fp_version_id p) True (fp_version_id p \<notin> set (map fp_version_id (policies c))) True
       c (c\<lparr>policies := policies c @ [p]\<rparr>)"

definition opt_key :: "int option \<Rightarrow> (int \<Rightarrow> bool) \<Rightarrow> bool" where
  "opt_key i P = (case i of None \<Rightarrow> True | Some i \<Rightarrow> P i)"

type_synonym config = "catalog \<times> citation_row list"

definition insert_citation_row :: "citation_row \<Rightarrow> config \<Rightarrow> db_error + config" where
  "insert_citation_row r = (\<lambda>(c, cs).
     insert_owned (ci_version_id r)
       (0 < sql_length (ci_body r) \<and> 0 < sql_length (ci_clause r) \<and>
        (ci_competency_id r = None \<or> ci_task_id r = None)) True
       (opt_key (ci_competency_id r) (\<lambda>i. has_competency c i (ci_version_id r)) \<and>
        opt_key (ci_task_id r) (\<lambda>i. has_task c i (ci_version_id r)))
       c (c, cs @ [r]))"

section \<open>Writing a document\<close>

definition insert_citation ::
    "int \<Rightarrow> int option \<Rightarrow> int option \<Rightarrow> citation_def \<Rightarrow> config \<Rightarrow> db_error + config" where
  "insert_citation v competency_id task_id x = (\<lambda>(c, cs).
     insert_citation_row
       \<lparr>ci_id = next_id (map ci_id cs), ci_version_id = v, ci_competency_id = competency_id,
        ci_task_id = task_id, ci_body = cd_body x, ci_edition = cd_edition x,
        ci_clause = cd_clause x, ci_note = cd_note x\<rparr> (c, cs))"

type_synonym key_ids = "string \<Rightarrow> int option"

definition insert_phase_def :: "int \<Rightarrow> phase_def \<Rightarrow> catalog \<times> key_ids \<Rightarrow> db_error + catalog \<times> key_ids" where
  "insert_phase_def v p = (\<lambda>(c, ids).
     let i = next_id (map ph_id (phases c)) in
     seq (insert_phase \<lparr>ph_id = i, ph_version_id = v, ph_name = hd_name p,
            ph_description = hd_description p, ph_number = hd_number p\<rparr> c) (\<lambda>c.
     Inr (c, ids(hd_name p \<mapsto> i))))"

definition insert_transition_def :: "int \<Rightarrow> key_ids \<Rightarrow> transition_def \<Rightarrow> catalog \<Rightarrow> db_error + catalog" where
  "insert_transition_def v ids t c =
     at_key ids (td_from t) (\<lambda>from_id.
     at_key ids (td_to t) (\<lambda>to_id.
     insert_transition \<lparr>pt_id = next_id (map pt_id (phase_transitions c)), pt_version_id = v,
       pt_from = from_id, pt_to = to_id, pt_kind = td_kind t\<rparr> c))"

definition insert_phases :: "int \<Rightarrow> version_content \<Rightarrow> catalog \<Rightarrow> db_error + catalog" where
  "insert_phases v x c =
     seq (each (insert_phase_def v) (vc_phases x) (c, Map.empty)) (\<lambda>(c, phase_ids).
     each (insert_transition_def v phase_ids) (vc_transitions x) c)"

text \<open>\<open>(0_i64..).zip(\<dots>)\<close>: each element with its position.\<close>

definition zip_order :: "'a list \<Rightarrow> (int \<times> 'a) list" where
  "zip_order xs = map (\<lambda>(n, x). (int n, x)) (List.enumerate 0 xs)"

definition insert_task_def :: "int \<Rightarrow> int \<Rightarrow> int \<times> task_def \<Rightarrow> config \<Rightarrow> db_error + config" where
  "insert_task_def v competency_id = (\<lambda>(order, t) (c, cs).
     let i = next_id (map tk_id (tasks c)) in
     seq (insert_task \<lparr>tk_id = i, tk_version_id = v, tk_competency_id = competency_id,
            tk_prompt = kd_prompt t, tk_sort = order\<rparr> c) (\<lambda>c.
     each (insert_citation v None (Some i)) (kd_citations t) (c, cs)))"

definition insert_competency_def ::
    "int \<Rightarrow> int \<times> competency_def \<Rightarrow> config \<times> key_ids \<Rightarrow> db_error + config \<times> key_ids" where
  "insert_competency_def v = (\<lambda>(order, m) ((c, cs), ids).
     let i = next_id (map co_id (competencies c)) in
     seq (insert_competency \<lparr>co_id = i, co_version_id = v, co_category = md_category m,
            co_name = md_name m, co_description = md_description m, co_sort = order\<rparr> c) (\<lambda>c.
     seq (each (insert_task_def v i) (zip_order (md_tasks m)) (c, cs)) (\<lambda>s.
     seq (each (insert_citation v (Some i) None) (md_citations m) s) (\<lambda>s.
     Inr (s, ids(md_name m \<mapsto> i))))))"

definition insert_competencies :: "int \<Rightarrow> version_content \<Rightarrow> config \<Rightarrow> db_error + config \<times> key_ids" where
  "insert_competencies v x s = each (insert_competency_def v) (zip_order (vc_competencies x)) (s, Map.empty)"

definition insert_anchor_def :: "int \<Rightarrow> int \<Rightarrow> anchor_def \<Rightarrow> catalog \<Rightarrow> db_error + catalog" where
  "insert_anchor_def v scale_id a c =
     insert_anchor \<lparr>ra_id = next_id (map ra_id (rating_anchors c)), ra_version_id = v,
       ra_scale_id = scale_id, ra_value = nd_value a, ra_label = nd_label a,
       ra_definition = nd_definition a\<rparr> c"

definition insert_scale_def :: "int \<Rightarrow> scale_def \<Rightarrow> catalog \<times> key_ids \<Rightarrow> db_error + catalog \<times> key_ids" where
  "insert_scale_def v s = (\<lambda>(c, ids).
     let i = next_id (map rs_id (rating_scales c)) in
     seq (insert_scale \<lparr>rs_id = i, rs_version_id = v, rs_name = sd_name s, rs_kind = sd_kind s,
            rs_min = sd_min s, rs_max = sd_max s\<rparr> c) (\<lambda>c.
     seq (each (insert_anchor_def v i) (sd_anchors s) c) (\<lambda>c.
     Inr (c, ids(sd_name s \<mapsto> i)))))"

definition insert_modifier_def :: "int \<Rightarrow> modifier_def \<Rightarrow> catalog \<Rightarrow> db_error + catalog" where
  "insert_modifier_def v m c =
     insert_rating_modifier \<lparr>rm_id = next_id (map rm_id (rating_modifiers c)), rm_version_id = v,
       rm_code = od_code m, rm_label = od_label m, rm_description = od_description m\<rparr> c"

definition insert_scales :: "int \<Rightarrow> version_content \<Rightarrow> catalog \<Rightarrow> db_error + catalog \<times> key_ids" where
  "insert_scales v x c =
     seq (each (insert_scale_def v) (vc_scales x) (c, Map.empty)) (\<lambda>(c, ids).
     seq (each (insert_modifier_def v) (vc_modifiers x) c) (\<lambda>c. Inr (c, ids)))"

definition insert_binding_def ::
    "int \<Rightarrow> int \<Rightarrow> key_ids \<Rightarrow> key_ids \<Rightarrow> int \<times> binding_def \<Rightarrow> catalog \<Rightarrow> db_error + catalog" where
  "insert_binding_def v form_id competency_ids scale_ids = (\<lambda>(order, b) c.
     at_key competency_ids (bd_competency b) (\<lambda>competency_id.
     at_key scale_ids (bd_scale b) (\<lambda>scale_id.
     insert_form_competency \<lparr>fc_id = next_id (map fc_id (form_competencies c)), fc_version_id = v,
       fc_form_id = form_id, fc_competency_id = competency_id, fc_scale_id = scale_id,
       fc_sort = order\<rparr> c)))"

definition insert_narrative_def :: "int \<Rightarrow> int \<Rightarrow> int \<times> narrative_def \<Rightarrow> catalog \<Rightarrow> db_error + catalog" where
  "insert_narrative_def v form_id = (\<lambda>(order, n) c.
     insert_form_narrative \<lparr>fn_id = next_id (map fn_id (form_narratives c)), fn_version_id = v,
       fn_form_id = form_id, fn_prompt = rd_prompt n, fn_required = rd_required n,
       fn_sort = order\<rparr> c)"

definition insert_form_def :: "int \<Rightarrow> key_ids \<Rightarrow> key_ids \<Rightarrow> form_def \<Rightarrow> catalog \<Rightarrow> db_error + catalog" where
  "insert_form_def v competency_ids scale_ids f c =
     (let i = next_id (map f_id (evaluation_forms c)) in
      seq (insert_form \<lparr>f_id = i, f_version_id = v, f_record_type = fd_record_type f,
             f_name = fd_name f, f_instructions = fd_instructions f\<rparr> c) (\<lambda>c.
      seq (each (insert_binding_def v i competency_ids scale_ids) (zip_order (fd_competencies f)) c) (\<lambda>c.
      each (insert_narrative_def v i) (zip_order (fd_narratives f)) c)))"

definition insert_content :: "int \<Rightarrow> version_content \<Rightarrow> config \<Rightarrow> db_error + config" where
  "insert_content v x = (\<lambda>(c, cs).
     seq (insert_phases v x c) (\<lambda>c.
     seq (insert_competencies v x (c, cs)) (\<lambda>((c, cs), competency_ids).
     seq (insert_scales v x c) (\<lambda>(c, scale_ids).
     seq (each (insert_form_def v competency_ids scale_ids) (vc_forms x) c) (\<lambda>c.
     seq (each (insert_citation v None None) (vc_citations x) (c, cs)) (\<lambda>(c, cs).
     seq (insert_policy_row \<lparr>fp_version_id = v, fp_review_approved = pd_review_approved (vc_policy x),
            fp_required_narratives = pd_required_narratives (vc_policy x),
            fp_ratings_complete = pd_ratings_complete (vc_policy x)\<rparr> c) (\<lambda>c.
     Inr (c, cs))))))))"

section \<open>Deleting a document\<close>

text \<open>
  \<open>DELETE \<dots> WHERE program_version_id = ?\<close>: refused by the freeze trigger if it meets a row, and
  by the foreign keys of whatever still references one of the rows.
\<close>

definition delete_owned ::
    "int \<Rightarrow> ('r \<Rightarrow> int) \<Rightarrow> ('r \<Rightarrow> bool) \<Rightarrow> (office \<Rightarrow> 'r list) \<Rightarrow> ('r list \<Rightarrow> office \<Rightarrow> office)
      \<Rightarrow> office \<Rightarrow> db_error + office" where
  "delete_owned v owner used rows store w =
     (let gone = filter (\<lambda>r. owner r = v) (rows w) in
      demand (gone = [] \<or> \<not> frozen (catalog (base w)) v) immutable
     (demand (\<not> list_ex used gone) ForeignKey
     (Inr (store (filter (\<lambda>r. owner r \<noteq> v) (rows w)) w))))"

definition set_catalog :: "(catalog \<Rightarrow> catalog) \<Rightarrow> office \<Rightarrow> office" where
  "set_catalog f w = w\<lparr>base := (base w)\<lparr>catalog := f (catalog (base w))\<rparr>\<rparr>"

abbreviation cat :: "office \<Rightarrow> catalog" where
  "cat w \<equiv> catalog (base w)"

definition delete_policies :: "int \<Rightarrow> office \<Rightarrow> db_error + office" where
  "delete_policies v w = delete_owned v fp_version_id (\<lambda>_. False) (\<lambda>w. policies (cat w))
     (\<lambda>rs. set_catalog (\<lambda>c. c\<lparr>policies := rs\<rparr>)) w"

definition delete_citations :: "int \<Rightarrow> office \<Rightarrow> db_error + office" where
  "delete_citations v w = delete_owned v ci_version_id (\<lambda>_. False) citations (\<lambda>rs w. w\<lparr>citations := rs\<rparr>) w"

definition delete_narratives :: "int \<Rightarrow> office \<Rightarrow> db_error + office" where
  "delete_narratives v w = delete_owned v fn_version_id
     (\<lambda>n. list_ex (\<lambda>x. dn_fn_id x = fn_id n \<and> dn_version_id x = v) (draft_narratives (base w)))
     (\<lambda>w. form_narratives (cat w)) (\<lambda>rs. set_catalog (\<lambda>c. c\<lparr>form_narratives := rs\<rparr>)) w"

definition delete_bindings :: "int \<Rightarrow> office \<Rightarrow> db_error + office" where
  "delete_bindings v w = delete_owned v fc_version_id
     (\<lambda>b. list_ex (\<lambda>x. dr_fc_id x = fc_id b \<and> dr_version_id x = v) (draft_ratings (base w)))
     (\<lambda>w. form_competencies (cat w)) (\<lambda>rs. set_catalog (\<lambda>c. c\<lparr>form_competencies := rs\<rparr>)) w"

definition delete_forms :: "int \<Rightarrow> office \<Rightarrow> db_error + office" where
  "delete_forms v w = delete_owned v f_version_id
     (\<lambda>f. list_ex (\<lambda>x. fc_form_id x = f_id f \<and> fc_version_id x = v) (form_competencies (cat w)) \<or>
          list_ex (\<lambda>x. fn_form_id x = f_id f \<and> fn_version_id x = v) (form_narratives (cat w)) \<or>
          list_ex (\<lambda>x. r_form_id x = f_id f \<and> r_version_id x = v) (records (base w)))
     (\<lambda>w. evaluation_forms (cat w)) (\<lambda>rs. set_catalog (\<lambda>c. c\<lparr>evaluation_forms := rs\<rparr>)) w"

definition delete_anchors :: "int \<Rightarrow> office \<Rightarrow> db_error + office" where
  "delete_anchors v w = delete_owned v ra_version_id (\<lambda>_. False) (\<lambda>w. rating_anchors (cat w))
     (\<lambda>rs. set_catalog (\<lambda>c. c\<lparr>rating_anchors := rs\<rparr>)) w"

definition delete_scales :: "int \<Rightarrow> office \<Rightarrow> db_error + office" where
  "delete_scales v w = delete_owned v rs_version_id
     (\<lambda>s. list_ex (\<lambda>x. ra_scale_id x = rs_id s \<and> ra_version_id x = v) (rating_anchors (cat w)) \<or>
          list_ex (\<lambda>x. fc_scale_id x = rs_id s \<and> fc_version_id x = v) (form_competencies (cat w)))
     (\<lambda>w. rating_scales (cat w)) (\<lambda>rs. set_catalog (\<lambda>c. c\<lparr>rating_scales := rs\<rparr>)) w"

definition delete_modifiers :: "int \<Rightarrow> office \<Rightarrow> db_error + office" where
  "delete_modifiers v w = delete_owned v rm_version_id
     (\<lambda>m. list_ex (\<lambda>x. dm_modifier_id x = rm_id m \<and> dm_version_id x = v) (draft_modifiers (base w)))
     (\<lambda>w. rating_modifiers (cat w)) (\<lambda>rs. set_catalog (\<lambda>c. c\<lparr>rating_modifiers := rs\<rparr>)) w"

definition delete_tasks :: "int \<Rightarrow> office \<Rightarrow> db_error + office" where
  "delete_tasks v w = delete_owned v tk_version_id
     (\<lambda>t. list_ex (\<lambda>x. ci_task_id x = Some (tk_id t) \<and> ci_version_id x = v) (citations w) \<or>
          list_ex (\<lambda>x. so_task_id x = tk_id t) (signoffs w))
     (\<lambda>w. tasks (cat w)) (\<lambda>rs. set_catalog (\<lambda>c. c\<lparr>tasks := rs\<rparr>)) w"

definition delete_competencies :: "int \<Rightarrow> office \<Rightarrow> db_error + office" where
  "delete_competencies v w = delete_owned v co_version_id
     (\<lambda>m. list_ex (\<lambda>x. tk_competency_id x = co_id m \<and> tk_version_id x = v) (tasks (cat w)) \<or>
          list_ex (\<lambda>x. fc_competency_id x = co_id m \<and> fc_version_id x = v) (form_competencies (cat w)) \<or>
          list_ex (\<lambda>x. ci_competency_id x = Some (co_id m) \<and> ci_version_id x = v) (citations w))
     (\<lambda>w. competencies (cat w)) (\<lambda>rs. set_catalog (\<lambda>c. c\<lparr>competencies := rs\<rparr>)) w"

definition delete_transitions :: "int \<Rightarrow> office \<Rightarrow> db_error + office" where
  "delete_transitions v w = delete_owned v pt_version_id (\<lambda>_. False) (\<lambda>w. phase_transitions (cat w))
     (\<lambda>rs. set_catalog (\<lambda>c. c\<lparr>phase_transitions := rs\<rparr>)) w"

definition delete_phases :: "int \<Rightarrow> office \<Rightarrow> db_error + office" where
  "delete_phases v w = delete_owned v ph_version_id
     (\<lambda>p. list_ex (\<lambda>x. (pt_from x = ph_id p \<or> pt_to x = ph_id p) \<and> pt_version_id x = v)
            (phase_transitions (cat w)) \<or>
          list_ex (\<lambda>x. pe_from_phase x = Some (ph_id p) \<or> pe_to_phase x = Some (ph_id p)) (phase_events (base w)) \<or>
          list_ex (\<lambda>x. ts_phase_id x = Some (ph_id p) \<and> ts_version_id x = v) (training_sessions (base w)))
     (\<lambda>w. phases (cat w)) (\<lambda>rs. set_catalog (\<lambda>c. c\<lparr>phases := rs\<rparr>)) w"

definition delete_content :: "int \<Rightarrow> office \<Rightarrow> db_error + office" where
  "delete_content v =
     each (\<lambda>statement. statement v)
       [delete_policies, delete_citations, delete_narratives, delete_bindings, delete_forms,
        delete_anchors, delete_scales, delete_modifiers, delete_tasks, delete_competencies,
        delete_transitions, delete_phases]"

section \<open>Reading a document\<close>

text \<open>
  The slots a reader keeps in a \<open>HashMap\<close> from row id to position; the keys are primary keys.
  An element is pushed on the one at its owner's slot; a missing slot panics.
\<close>

definition slots :: "int list \<Rightarrow> int \<Rightarrow> nat option" where
  "slots is = map_of (zip is [0..<length is])"

definition at_slot :: "(int \<Rightarrow> nat option) \<Rightarrow> int \<Rightarrow> ('b \<Rightarrow> 'b) \<Rightarrow> 'b list \<Rightarrow> db_error + 'b list" where
  "at_slot m k f xs = at_key m k (\<lambda>i. Inr (xs[i := f (xs ! i)]))"

definition load_policy :: "catalog \<Rightarrow> int \<Rightarrow> policy_def" where
  "load_policy c v =
     (case find (\<lambda>p. fp_version_id p = v) (policies c) of
        None \<Rightarrow> default_policy
      | Some p \<Rightarrow> \<lparr>pd_review_approved = fp_review_approved p,
          pd_required_narratives = fp_required_narratives p, pd_ratings_complete = fp_ratings_complete p\<rparr>)"

definition load_phases :: "catalog \<Rightarrow> int \<Rightarrow> phase_def list" where
  "load_phases c v =
     map (\<lambda>p. \<lparr>hd_name = ph_name p, hd_description = ph_description p, hd_number = ph_number p\<rparr>)
       (sort_key (\<lambda>p. (ph_number p, ph_name p)) (filter (\<lambda>p. ph_version_id p = v) (phases c)))"

definition phase_named :: "catalog \<Rightarrow> int \<Rightarrow> string option" where
  "phase_named c i = map_option ph_name (find (\<lambda>p. ph_id p = i) (phases c))"

definition transition_of :: "catalog \<Rightarrow> phase_transition_row \<Rightarrow> transition_def option" where
  "transition_of c t =
     Option.bind (phase_named c (pt_from t)) (\<lambda>f.
     map_option (\<lambda>g. \<lparr>td_from = f, td_to = g, td_kind = pt_kind t\<rparr>) (phase_named c (pt_to t)))"

definition load_transitions :: "catalog \<Rightarrow> int \<Rightarrow> transition_def list" where
  "load_transitions c v =
     sort_key (\<lambda>t. (td_from t, td_to t))
       (List.map_filter (transition_of c) (filter (\<lambda>t. pt_version_id t = v) (phase_transitions c)))"

definition competency_rows :: "catalog \<Rightarrow> int \<Rightarrow> competency_row list" where
  "competency_rows c v =
     sort_key (\<lambda>m. (co_sort m, co_name m)) (filter (\<lambda>m. co_version_id m = v) (competencies c))"

definition bare_competency :: "competency_row \<Rightarrow> competency_def" where
  "bare_competency m =
     \<lparr>md_category = co_category m, md_name = co_name m, md_description = co_description m,
      md_tasks = [], md_citations = []\<rparr>"

text \<open>The second map routes a task row to its competency's slot and its place in the task list.\<close>

type_synonym task_index = "int \<Rightarrow> (nat \<times> nat) option"

definition push_task ::
    "(int \<Rightarrow> nat option) \<Rightarrow> task_row \<Rightarrow> competency_def list \<times> task_index
      \<Rightarrow> db_error + competency_def list \<times> task_index" where
  "push_task by_competency t = (\<lambda>(ms, index).
     at_key by_competency (tk_competency_id t) (\<lambda>i.
     Inr (ms[i := (ms ! i)\<lparr>md_tasks := md_tasks (ms ! i) @ [\<lparr>kd_prompt = tk_prompt t, kd_citations = []\<rparr>]\<rparr>],
          index(tk_id t \<mapsto> (i, length (md_tasks (ms ! i)))))))"

definition load_competencies ::
    "catalog \<Rightarrow> int \<Rightarrow> db_error + competency_def list \<times> (int \<Rightarrow> nat option) \<times> task_index" where
  "load_competencies c v =
     (let rows = competency_rows c v; by_competency = slots (map co_id rows) in
      seq (each (push_task by_competency)
             (sort_key (\<lambda>t. (tk_sort t, tk_prompt t)) (filter (\<lambda>t. tk_version_id t = v) (tasks c)))
             (map bare_competency rows, Map.empty)) (\<lambda>(ms, by_task).
      Inr (ms, by_competency, by_task)))"

definition bare_scale :: "rating_scale_row \<Rightarrow> scale_def" where
  "bare_scale s =
     \<lparr>sd_name = rs_name s, sd_kind = rs_kind s, sd_min = rs_min s, sd_max = rs_max s, sd_anchors = []\<rparr>"

definition push_anchor :: "(int \<Rightarrow> nat option) \<Rightarrow> rating_anchor_row \<Rightarrow> scale_def list \<Rightarrow> db_error + scale_def list" where
  "push_anchor by_scale a =
     at_slot by_scale (ra_scale_id a) (\<lambda>s. s\<lparr>sd_anchors := sd_anchors s @
       [\<lparr>nd_value = ra_value a, nd_label = ra_label a, nd_definition = ra_definition a\<rparr>]\<rparr>)"

definition load_scales :: "catalog \<Rightarrow> int \<Rightarrow> db_error + scale_def list" where
  "load_scales c v =
     (let rows = sort_key rs_name (filter (\<lambda>s. rs_version_id s = v) (rating_scales c)) in
      each (push_anchor (slots (map rs_id rows)))
        (sort_key ra_value (filter (\<lambda>a. ra_version_id a = v) (rating_anchors c))) (map bare_scale rows))"

definition load_modifiers :: "catalog \<Rightarrow> int \<Rightarrow> modifier_def list" where
  "load_modifiers c v =
     map (\<lambda>m. \<lparr>od_code = rm_code m, od_label = rm_label m, od_description = rm_description m\<rparr>)
       (sort_key rm_code (filter (\<lambda>m. rm_version_id m = v) (rating_modifiers c)))"

definition bare_form :: "evaluation_form_row \<Rightarrow> form_def" where
  "bare_form f =
     \<lparr>fd_record_type = f_record_type f, fd_name = f_name f, fd_instructions = f_instructions f,
      fd_competencies = [], fd_narratives = []\<rparr>"

definition binding_of :: "catalog \<Rightarrow> form_competency_row \<Rightarrow> (int \<times> binding_def) option" where
  "binding_of c b =
     Option.bind (find (\<lambda>m. co_id m = fc_competency_id b) (competencies c)) (\<lambda>m.
     map_option (\<lambda>s. (fc_form_id b, \<lparr>bd_competency = co_name m, bd_scale = rs_name s\<rparr>))
       (find (\<lambda>s. rs_id s = fc_scale_id b) (rating_scales c)))"

definition load_bindings :: "catalog \<Rightarrow> int \<Rightarrow> (int \<times> binding_def) list" where
  "load_bindings c v =
     map snd (sort_key (\<lambda>(order, _, b). (order, bd_competency b))
       (List.map_filter (\<lambda>b. map_option (Pair (fc_sort b)) (binding_of c b))
         (filter (\<lambda>b. fc_version_id b = v) (form_competencies c))))"

definition push_binding :: "(int \<Rightarrow> nat option) \<Rightarrow> int \<times> binding_def \<Rightarrow> form_def list \<Rightarrow> db_error + form_def list" where
  "push_binding by_form = (\<lambda>(f, b). at_slot by_form f (\<lambda>x. x\<lparr>fd_competencies := fd_competencies x @ [b]\<rparr>))"

definition push_narrative :: "(int \<Rightarrow> nat option) \<Rightarrow> form_narrative_row \<Rightarrow> form_def list \<Rightarrow> db_error + form_def list" where
  "push_narrative by_form n = at_slot by_form (fn_form_id n)
     (\<lambda>x. x\<lparr>fd_narratives := fd_narratives x @ [\<lparr>rd_prompt = fn_prompt n, rd_required = fn_required n\<rparr>]\<rparr>)"

definition load_forms :: "catalog \<Rightarrow> int \<Rightarrow> db_error + form_def list" where
  "load_forms c v =
     (let rows = sort_key f_name (filter (\<lambda>f. f_version_id f = v) (evaluation_forms c));
          by_form = slots (map f_id rows) in
      seq (each (push_binding by_form) (load_bindings c v) (map bare_form rows))
        (each (push_narrative by_form)
           (sort_key (\<lambda>n. (fn_sort n, fn_prompt n)) (filter (\<lambda>n. fn_version_id n = v) (form_narratives c)))))"

definition citation_of :: "citation_row \<Rightarrow> citation_def" where
  "citation_of r = \<lparr>cd_body = ci_body r, cd_edition = ci_edition r, cd_clause = ci_clause r, cd_note = ci_note r\<rparr>"

definition push_citation ::
    "(int \<Rightarrow> nat option) \<Rightarrow> task_index \<Rightarrow> citation_row \<Rightarrow> competency_def list \<times> citation_def list
      \<Rightarrow> db_error + competency_def list \<times> citation_def list" where
  "push_citation by_competency by_task r = (\<lambda>(ms, cs).
     case (ci_competency_id r, ci_task_id r) of
       (Some i, None) \<Rightarrow>
         seq (at_slot by_competency i (\<lambda>m. m\<lparr>md_citations := md_citations m @ [citation_of r]\<rparr>) ms)
           (\<lambda>ms. Inr (ms, cs))
     | (None, Some t) \<Rightarrow>
         at_key by_task t (\<lambda>(i, k). Inr
           (ms[i := (ms ! i)\<lparr>md_tasks := (md_tasks (ms ! i))[k := (md_tasks (ms ! i) ! k)\<lparr>kd_citations :=
              kd_citations (md_tasks (ms ! i) ! k) @ [citation_of r]\<rparr>]\<rparr>], cs))
     | (None, None) \<Rightarrow> Inr (ms, cs @ [citation_of r])
     | (Some _, Some _) \<Rightarrow>
         Inl (Defect ''citation targets both a competency and a task; the schema forbids this''))"

definition citation_order :: "citation_row \<Rightarrow> string \<times> string \<times> string \<times> string" where
  "citation_order r = (ci_body r, ci_edition r, ci_clause r, ci_note r)"

definition load_citations ::
    "citation_row list \<Rightarrow> int \<Rightarrow> (int \<Rightarrow> nat option) \<Rightarrow> task_index \<Rightarrow> competency_def list
      \<Rightarrow> db_error + competency_def list \<times> citation_def list" where
  "load_citations cs v by_competency by_task ms =
     each (push_citation by_competency by_task)
       (sort_key citation_order (filter (\<lambda>r. ci_version_id r = v) cs)) (ms, [])"

definition load_content :: "office \<Rightarrow> int \<Rightarrow> db_error + version_content option" where
  "load_content w v =
     (let c = cat w in
      case find (\<lambda>p. pv_id p = v) (program_versions c) of
        None \<Rightarrow> Inr None
      | Some p \<Rightarrow>
          seq (load_competencies c v) (\<lambda>(ms, by_competency, by_task).
          seq (load_scales c v) (\<lambda>scales.
          seq (load_forms c v) (\<lambda>forms.
          seq (load_citations (citations w) v by_competency by_task ms) (\<lambda>(ms, cs).
          Inr (Some
            \<lparr>vc_name = pv_name p, vc_label = pv_label p, vc_description = pv_description p,
             vc_phases = load_phases c v, vc_transitions = load_transitions c v,
             vc_competencies = ms, vc_scales = scales, vc_modifiers = load_modifiers c v,
             vc_forms = forms, vc_citations = cs, vc_policy = load_policy c v\<rparr>))))))"

section \<open>Services\<close>

record program_summary =
  pm_id :: int
  pm_name :: string
  pm_created_at :: int

record version_summary_view =
  vs_id :: int
  vs_program_id :: int
  vs_version_number :: int
  vs_label :: string
  vs_name :: string
  vs_created_at :: int
  vs_published_at :: "int option"

datatype program_refusal = PgCapabilityRequired | PgNameEmpty | PgNameTaken

datatype author_refusal =
    AuCapabilityRequired
  | AuNoSuchProgram
  | AuNoSuchVersion
  | AuAlreadyPublished
  | AuInvalid "string list"

datatype publish_refusal =
    PuCapabilityRequired
  | PuNoSuchVersion
  | PuAlreadyPublished
  | PuIncomplete "string list"

definition holds_manage_programs :: "office \<Rightarrow> int \<Rightarrow> bool" where
  "holds_manage_programs w u \<longleftrightarrow> user_has (base w) u ManagePrograms"

definition program_named :: "office \<Rightarrow> string \<Rightarrow> program_row option" where
  "program_named w name = find (\<lambda>p. nocase (pg_name p) = nocase name) (programs w)"

definition program_of :: "office \<Rightarrow> int \<Rightarrow> program_row option" where
  "program_of w i = find (\<lambda>p. pg_id p = i) (programs w)"

definition insert_program_row :: "program_row \<Rightarrow> office \<Rightarrow> db_error + office" where
  "insert_program_row p w =
     demand (0 < sql_length (pg_name p)) CheckConstraint
    (demand (program_named w (pg_name p) = None) UniqueIndex
    (demand (opt_user_ok (base w) (pg_created_by p)) ForeignKey
    (Inr (w\<lparr>programs := programs w @ [p]\<rparr>))))"

definition insert_program :: "clock \<Rightarrow> string \<Rightarrow> int \<Rightarrow> office \<Rightarrow> db_error + office \<times> int" where
  "insert_program clk name actor w =
     (let i = next_id (map pg_id (programs w)) in
      seq (insert_program_row \<lparr>pg_id = i, pg_name = name, pg_created_at = clk 0, pg_created_by = Some actor\<rparr> w) (\<lambda>w.
      seq (in_base (record_for_subject EvProgramCreated (Some actor) None (SubjProgram i) (clk 1)) w) (\<lambda>w.
      Inr (w, i))))"

definition create_program :: "office \<Rightarrow> clock \<Rightarrow> office \<Rightarrow> int \<Rightarrow> string \<Rightarrow> (program_refusal, office \<times> int) outcome" where
  "create_program pre clk w actor name =
     (if \<not> holds_manage_programs pre actor then refuse PgCapabilityRequired
      else let name = trim name in
      if name = [] then refuse PgNameEmpty
      else if program_named w name \<noteq> None then refuse PgNameTaken
      else run (insert_program clk name actor w) Inr)"

definition program_summary_of :: "program_row \<Rightarrow> program_summary" where
  "program_summary_of p = \<lparr>pm_id = pg_id p, pm_name = pg_name p, pm_created_at = pg_created_at p\<rparr>"

definition list_programs :: "office \<Rightarrow> program_summary list" where
  "list_programs w = map program_summary_of (sort_key (\<lambda>p. nocase (pg_name p)) (programs w))"

definition get_program :: "office \<Rightarrow> int \<Rightarrow> program_summary option" where
  "get_program w i = map_option program_summary_of (program_of w i)"

definition version_summary_of :: "program_version_row \<Rightarrow> version_summary_view" where
  "version_summary_of p =
     \<lparr>vs_id = pv_id p, vs_program_id = pv_program_id p, vs_version_number = pv_version_number p,
      vs_label = pv_label p, vs_name = pv_name p, vs_created_at = pv_created_at p,
      vs_published_at = pv_published_at p\<rparr>"

definition version_summary :: "office \<Rightarrow> int \<Rightarrow> version_summary_view option" where
  "version_summary w v = map_option version_summary_of (version_of (base w) v)"

definition list_versions :: "office \<Rightarrow> int \<Rightarrow> version_summary_view list" where
  "list_versions w program_id =
     map version_summary_of (sort_key pv_version_number
       (filter (\<lambda>p. pv_program_id p = program_id) (program_versions (cat w))))"

definition insert_version_row :: "program_version_row \<Rightarrow> office \<Rightarrow> db_error + office" where
  "insert_version_row p w =
     demand (1 \<le> pv_version_number p \<and> 0 < sql_length (pv_name p)) CheckConstraint
    (demand ((pv_program_id p, pv_version_number p) \<notin>
        set (map (\<lambda>q. (pv_program_id q, pv_version_number q)) (program_versions (cat w)))) UniqueIndex
    (demand (program_of w (pv_program_id p) \<noteq> None \<and> opt_user_ok (base w) (pv_created_by p) \<and>
        opt_user_ok (base w) (pv_published_by p)) ForeignKey
    (Inr (set_catalog (\<lambda>c. c\<lparr>program_versions := program_versions c @ [p]\<rparr>) w))))"

text \<open>The content statements touch the configuration tables only.\<close>

definition in_config :: "(config \<Rightarrow> db_error + config) \<Rightarrow> office \<Rightarrow> db_error + office" where
  "in_config f w =
     seq (f (cat w, citations w)) (\<lambda>(c, cs). Inr ((set_catalog (\<lambda>_. c) w)\<lparr>citations := cs\<rparr>))"

definition next_number :: "office \<Rightarrow> int \<Rightarrow> int" where
  "next_number w program_id =
     (case max_id (map pv_version_number
        (filter (\<lambda>p. pv_program_id p = program_id) (program_versions (cat w)))) of
        None \<Rightarrow> 1
      | Some n \<Rightarrow> n + 1)"

definition insert_program_version ::
    "clock \<Rightarrow> int \<Rightarrow> version_content \<Rightarrow> int \<Rightarrow> event_kind \<Rightarrow> office \<Rightarrow> db_error + office \<times> int" where
  "insert_program_version clk program_id x actor kind w =
     (let v = next_id (map pv_id (program_versions (cat w))) in
      seq (insert_version_row
             \<lparr>pv_id = v, pv_program_id = program_id, pv_version_number = next_number w program_id,
              pv_label = vc_label x, pv_name = vc_name x, pv_description = vc_description x,
              pv_created_at = clk 0, pv_created_by = Some actor, pv_published_at = None,
              pv_published_by = None\<rparr> w) (\<lambda>w.
      seq (in_config (insert_content v x) w) (\<lambda>w.
      seq (in_base (record_for_subject kind (Some actor) None (SubjProgramVersion v) (clk 1)) w) (\<lambda>w.
      Inr (w, v)))))"

definition create_version ::
    "office \<Rightarrow> clock \<Rightarrow> office \<Rightarrow> int \<Rightarrow> int \<Rightarrow> version_content \<Rightarrow> (author_refusal, office \<times> int) outcome" where
  "create_version pre clk w actor program_id x =
     (if \<not> holds_manage_programs pre actor then refuse AuCapabilityRequired
      else let problems = validate_content x in
      if problems \<noteq> [] then refuse (AuInvalid problems)
      else if program_of w program_id = None then refuse AuNoSuchProgram
      else run (insert_program_version clk program_id x actor EvProgramVersionCreated w) Inr)"

datatype version_state = VsMissing | VsDraft | VsPublished

definition version_state_of :: "office \<Rightarrow> int \<Rightarrow> version_state" where
  "version_state_of w v =
     (case version_of (base w) v of
        None \<Rightarrow> VsMissing
      | Some p \<Rightarrow> if pv_published_at p \<noteq> None then VsPublished else VsDraft)"

text \<open>An update of a version row, refused by the trigger once it is published.\<close>

definition update_version_row ::
    "int \<Rightarrow> (program_version_row \<Rightarrow> program_version_row) \<Rightarrow> office \<Rightarrow> db_error + office" where
  "update_version_row v f w =
     demand (\<not> frozen (cat w) v) immutable
    (demand (list_all (\<lambda>p. pv_id p = v \<longrightarrow> 0 < sql_length (pv_name (f p))) (program_versions (cat w))) CheckConstraint
    (demand (list_all (\<lambda>p. pv_id p = v \<longrightarrow> opt_user_ok (base w) (pv_published_by (f p)))
        (program_versions (cat w))) ForeignKey
    (Inr (set_catalog (\<lambda>c. c\<lparr>program_versions :=
        map (\<lambda>p. if pv_id p = v then f p else p) (program_versions c)\<rparr>) w))))"

definition replace_draft ::
    "office \<Rightarrow> office \<Rightarrow> int \<Rightarrow> int \<Rightarrow> version_content \<Rightarrow> (author_refusal, office) outcome" where
  "replace_draft pre w actor v x =
     (if \<not> holds_manage_programs pre actor then refuse AuCapabilityRequired
      else let problems = validate_content x in
      if problems \<noteq> [] then refuse (AuInvalid problems)
      else case version_state_of w v of
        VsMissing \<Rightarrow> refuse AuNoSuchVersion
      | VsPublished \<Rightarrow> refuse AuAlreadyPublished
      | VsDraft \<Rightarrow>
          run (delete_content v w) (\<lambda>w.
          run (update_version_row v (\<lambda>p. p\<lparr>pv_label := vc_label x, pv_name := vc_name x,
                 pv_description := vc_description x\<rparr>) w) (\<lambda>w.
          run (in_config (insert_content v x) w) Inr)))"

definition empty_forms :: "catalog \<Rightarrow> int \<Rightarrow> string list" where
  "empty_forms c v =
     sort (map f_name (filter (\<lambda>f. f_version_id f = v \<and>
       f_id f \<notin> set (map fc_form_id (filter (\<lambda>b. fc_version_id b = v) (form_competencies c))) \<and>
       f_id f \<notin> set (map fn_form_id (filter (\<lambda>n. fn_version_id n = v) (form_narratives c))))
       (evaluation_forms c)))"

definition publish_version ::
    "office \<Rightarrow> clock \<Rightarrow> office \<Rightarrow> int \<Rightarrow> int \<Rightarrow> (publish_refusal, office) outcome" where
  "publish_version pre clk w actor v =
     (if \<not> holds_manage_programs pre actor then refuse PuCapabilityRequired
      else case version_state_of w v of
        VsMissing \<Rightarrow> refuse PuNoSuchVersion
      | VsPublished \<Rightarrow> refuse PuAlreadyPublished
      | VsDraft \<Rightarrow>
          if empty_forms (cat w) v \<noteq> []
          then refuse (PuIncomplete (map (\<lambda>name. ''form '' @ quoted name @ '' has no competencies and no narratives'')
                 (empty_forms (cat w) v)))
          else if length (filter (\<lambda>p. pv_id p = v \<and> pv_published_at p = None) (program_versions (cat w))) \<noteq> 1
          then refuse PuAlreadyPublished
          else
            run (update_version_row v (\<lambda>p. p\<lparr>pv_published_at := Some (clk 0), pv_published_by := Some actor\<rparr>) w) (\<lambda>w.
            run (in_base (record_for_subject EvProgramVersionPublished (Some actor) None
                   (SubjProgramVersion v) (clk 1)) w) Inr))"

definition delete_version_row :: "int \<Rightarrow> office \<Rightarrow> db_error + office" where
  "delete_version_row v w =
     (let d = base w; c = cat w in
      demand (\<not> frozen c v) immutable
     (demand (v \<notin> set (map e_version_id (enrollments d)) \<and>
        Some v \<notin> set (map ee_from_version (enrollment_events d)) \<and>
        Some v \<notin> set (map ee_to_version (enrollment_events d)) \<and>
        v \<notin> set (map ts_version_id (training_sessions d)) \<and> v \<notin> set (map r_version_id (records d)) \<and>
        v \<notin> set (map ph_version_id (phases c)) \<and> v \<notin> set (map pt_version_id (phase_transitions c)) \<and>
        v \<notin> set (map co_version_id (competencies c)) \<and> v \<notin> set (map tk_version_id (tasks c)) \<and>
        v \<notin> set (map rs_version_id (rating_scales c)) \<and> v \<notin> set (map ra_version_id (rating_anchors c)) \<and>
        v \<notin> set (map rm_version_id (rating_modifiers c)) \<and> v \<notin> set (map f_version_id (evaluation_forms c)) \<and>
        v \<notin> set (map fc_version_id (form_competencies c)) \<and>
        v \<notin> set (map fn_version_id (form_narratives c)) \<and> v \<notin> set (map fp_version_id (policies c)) \<and>
        v \<notin> set (map ci_version_id (citations w))) ForeignKey
     (Inr (set_catalog (\<lambda>c. c\<lparr>program_versions := filter (\<lambda>p. pv_id p \<noteq> v) (program_versions c)\<rparr>) w))))"

definition discard_draft :: "office \<Rightarrow> clock \<Rightarrow> office \<Rightarrow> int \<Rightarrow> int \<Rightarrow> (author_refusal, office) outcome" where
  "discard_draft pre clk w actor v =
     (if \<not> holds_manage_programs pre actor then refuse AuCapabilityRequired
      else case version_state_of w v of
        VsMissing \<Rightarrow> refuse AuNoSuchVersion
      | VsPublished \<Rightarrow> refuse AuAlreadyPublished
      | VsDraft \<Rightarrow>
          run (delete_content v w) (\<lambda>w.
          run (delete_version_row v w) (\<lambda>w.
          run (in_base (record_for_subject EvProgramVersionDiscarded (Some actor) None
                 (SubjProgramVersion v) (clk 0)) w) Inr)))"

end
