(* ===== verification/Configuration.thy ===== *)
theory Configuration
  imports Publishing
begin

text \<open>
  What the program services keep: rows of different versions are independent, a published
  version's rows are fixed, ids and references stay sound. The effect of each service on the
  configuration tables is one lemma.
\<close>

section \<open>Loops\<close>

lemma each_append: "each f (xs @ ys) s = seq (each f xs s) (each f ys)"
  by (induction xs arbitrary: s) (simp_all add: seq_def split: sum.split)

lemma each_invariant:
  assumes "\<And>x s s'. x \<in> set xs \<Longrightarrow> P s \<Longrightarrow> f x s = Inr s' \<Longrightarrow> P s'"
  shows "P s \<Longrightarrow> each f xs s = Inr s' \<Longrightarrow> P s'"
  using assms
proof (induction xs arbitrary: s)
  case (Cons x xs)
  from Cons.prems(2) obtain t where "f x s = Inr t" "each f xs t = Inr s'"
    by (auto simp: guard_simps)
  with Cons show ?case
    by (meson list.set_intros)
qed simp

lemma insert_owned_Inr [row_simps]:
  "insert_owned v check unique keys c s = Inr s' \<longleftrightarrow>
     \<not> frozen c v \<and> check \<and> unique \<and> v \<in> set (map pv_id (program_versions c)) \<and> keys \<and> s' = s"
  by (auto simp: insert_owned_def guard_simps)

section \<open>The rows of a version\<close>

definition owned_rows :: "int \<Rightarrow> config \<Rightarrow> config" where
  "owned_rows v = (\<lambda>(c, cs).
     (\<lparr>program_versions = filter (\<lambda>r. pv_id r = v) (program_versions c),
       phases = filter (\<lambda>r. ph_version_id r = v) (phases c),
       phase_transitions = filter (\<lambda>r. pt_version_id r = v) (phase_transitions c),
       competencies = filter (\<lambda>r. co_version_id r = v) (competencies c),
       tasks = filter (\<lambda>r. tk_version_id r = v) (tasks c),
       rating_scales = filter (\<lambda>r. rs_version_id r = v) (rating_scales c),
       rating_anchors = filter (\<lambda>r. ra_version_id r = v) (rating_anchors c),
       rating_modifiers = filter (\<lambda>r. rm_version_id r = v) (rating_modifiers c),
       evaluation_forms = filter (\<lambda>r. f_version_id r = v) (evaluation_forms c),
       form_competencies = filter (\<lambda>r. fc_version_id r = v) (form_competencies c),
       form_narratives = filter (\<lambda>r. fn_version_id r = v) (form_narratives c),
       policies = filter (\<lambda>r. fp_version_id r = v) (policies c)\<rparr>,
      filter (\<lambda>r. ci_version_id r = v) cs))"

definition config_of :: "office \<Rightarrow> config" where
  "config_of w = (cat w, citations w)"

abbreviation version_rows :: "int \<Rightarrow> office \<Rightarrow> config" where
  "version_rows v w \<equiv> owned_rows v (config_of w)"

text \<open>Every table without the rows of a version, its own row kept.\<close>

definition without :: "int \<Rightarrow> config \<Rightarrow> config" where
  "without v = (\<lambda>(c, cs).
     (c\<lparr>policies := filter (\<lambda>r. fp_version_id r \<noteq> v) (policies c),
       form_narratives := filter (\<lambda>r. fn_version_id r \<noteq> v) (form_narratives c),
       form_competencies := filter (\<lambda>r. fc_version_id r \<noteq> v) (form_competencies c),
       evaluation_forms := filter (\<lambda>r. f_version_id r \<noteq> v) (evaluation_forms c),
       rating_anchors := filter (\<lambda>r. ra_version_id r \<noteq> v) (rating_anchors c),
       rating_scales := filter (\<lambda>r. rs_version_id r \<noteq> v) (rating_scales c),
       rating_modifiers := filter (\<lambda>r. rm_version_id r \<noteq> v) (rating_modifiers c),
       tasks := filter (\<lambda>r. tk_version_id r \<noteq> v) (tasks c),
       competencies := filter (\<lambda>r. co_version_id r \<noteq> v) (competencies c),
       phase_transitions := filter (\<lambda>r. pt_version_id r \<noteq> v) (phase_transitions c),
       phases := filter (\<lambda>r. ph_version_id r \<noteq> v) (phases c)\<rparr>,
      filter (\<lambda>r. ci_version_id r \<noteq> v) cs))"

definition set_config :: "config \<Rightarrow> office \<Rightarrow> office" where
  "set_config = (\<lambda>(c, cs) w. (set_catalog (\<lambda>_. c) w)\<lparr>citations := cs\<rparr>)"

lemma in_config_Inr [row_simps]:
  "in_config f w = Inr w' \<longleftrightarrow> (\<exists>x. f (config_of w) = Inr x \<and> w' = set_config x w)"
  by (auto simp: in_config_def guard_simps config_of_def set_config_def split: prod.splits)

lemma config_of_set [simp]: "config_of (set_config x w) = x"
  by (cases x) (simp add: config_of_def set_config_def set_catalog_def)

lemma set_config_again [simp]: "set_config x (set_config y w) = set_config x w"
  by (cases x; cases y) (simp add: set_config_def set_catalog_def)

lemma set_config_same [simp]: "set_config (config_of w) w = w"
  by (simp add: config_of_def set_config_def set_catalog_def)

lemma filter_other: "u \<noteq> v \<Longrightarrow> filter (\<lambda>r. f r \<noteq> v \<and> f r = u) xs = filter (\<lambda>r. f r = u) xs"
  by (rule filter_cong) auto

lemma owned_without: "u \<noteq> v \<Longrightarrow> owned_rows u (without v x) = owned_rows u x"
  by (cases x) (simp add: owned_rows_def without_def filter_other)

section \<open>Inserts\<close>

text \<open>One statement of a content write: a row of the version, at the next id of its table.\<close>

inductive adds :: "int \<Rightarrow> config \<Rightarrow> config \<Rightarrow> bool" for v :: int where
  phase: "insert_phase r c = Inr c' \<Longrightarrow> ph_version_id r = v \<Longrightarrow> ph_id r = next_id (map ph_id (phases c)) \<Longrightarrow>
    adds v (c, cs) (c', cs)"
| transition: "insert_transition r c = Inr c' \<Longrightarrow> pt_version_id r = v \<Longrightarrow> pt_id r = next_id (map pt_id (phase_transitions c)) \<Longrightarrow>
    adds v (c, cs) (c', cs)"
| competency: "insert_competency r c = Inr c' \<Longrightarrow> co_version_id r = v \<Longrightarrow> co_id r = next_id (map co_id (competencies c)) \<Longrightarrow>
    adds v (c, cs) (c', cs)"
| task: "insert_task r c = Inr c' \<Longrightarrow> tk_version_id r = v \<Longrightarrow> tk_id r = next_id (map tk_id (tasks c)) \<Longrightarrow>
    adds v (c, cs) (c', cs)"
| scale: "insert_scale r c = Inr c' \<Longrightarrow> rs_version_id r = v \<Longrightarrow> rs_id r = next_id (map rs_id (rating_scales c)) \<Longrightarrow>
    adds v (c, cs) (c', cs)"
| anchor: "insert_anchor r c = Inr c' \<Longrightarrow> ra_version_id r = v \<Longrightarrow> ra_id r = next_id (map ra_id (rating_anchors c)) \<Longrightarrow>
    adds v (c, cs) (c', cs)"
| modifier: "insert_rating_modifier r c = Inr c' \<Longrightarrow> rm_version_id r = v \<Longrightarrow> rm_id r = next_id (map rm_id (rating_modifiers c)) \<Longrightarrow>
    adds v (c, cs) (c', cs)"
| form: "insert_form r c = Inr c' \<Longrightarrow> f_version_id r = v \<Longrightarrow> f_id r = next_id (map f_id (evaluation_forms c)) \<Longrightarrow>
    adds v (c, cs) (c', cs)"
| form_competency: "insert_form_competency r c = Inr c' \<Longrightarrow> fc_version_id r = v \<Longrightarrow> fc_id r = next_id (map fc_id (form_competencies c)) \<Longrightarrow>
    adds v (c, cs) (c', cs)"
| form_narrative: "insert_form_narrative r c = Inr c' \<Longrightarrow> fn_version_id r = v \<Longrightarrow> fn_id r = next_id (map fn_id (form_narratives c)) \<Longrightarrow>
    adds v (c, cs) (c', cs)"
| policy: "insert_policy_row r c = Inr c' \<Longrightarrow> fp_version_id r = v \<Longrightarrow> adds v (c, cs) (c', cs)"
| citation: "insert_citation_row r (c, cs) = Inr y \<Longrightarrow> ci_version_id r = v \<Longrightarrow> ci_id r = next_id (map ci_id cs) \<Longrightarrow>
    adds v (c, cs) y"

abbreviation stored :: "int \<Rightarrow> config \<Rightarrow> config \<Rightarrow> bool" where
  "stored v \<equiv> (adds v)\<^sup>*\<^sup>*"

lemmas stored_step = adds.intros [THEN r_into_rtranclp [where r = "adds v" for v]]

lemma stored_trans: "stored v x y \<Longrightarrow> stored v y z \<Longrightarrow> stored v x z"
  by (rule rtranclp_trans)

lemma stored_each:
  assumes "\<And>x s s'. x \<in> set xs \<Longrightarrow> f x s = Inr s' \<Longrightarrow> stored v (g s) (g s')" and "each f xs s = Inr s'"
  shows "stored v (g s) (g s')"
proof -
  have "stored v (g s) (g s')"
    by (rule each_invariant [where P = "\<lambda>t. stored v (g s) (g t)", OF _ _ assms(2)])
      (use assms(1) stored_trans in blast, simp)
  then show ?thesis .
qed

lemma insert_citation_stored: "insert_citation v i t x y = Inr z \<Longrightarrow> stored v y z"
  by (cases y) (auto simp: insert_citation_def intro!: stored_step(12))

lemma insert_phases_stored:
  assumes "insert_phases v x c = Inr c'" shows "stored v (c, cs) (c', cs)"
proof -
  obtain c1 ids where a: "each (insert_phase_def v) (vc_phases x) (c, Map.empty) = Inr (c1, ids)"
    and b: "each (insert_transition_def v ids) (vc_transitions x) c1 = Inr c'"
    using assms by (auto simp: insert_phases_def guard_simps)
  have "stored v (c, cs) (c1, cs)"
    by (rule stored_each [where g = "\<lambda>s. (fst s, cs)", OF _ a, simplified])
      (auto simp: insert_phase_def_def guard_simps Let_def intro!: stored_step(1))
  moreover have "stored v (c1, cs) (c', cs)"
    by (rule stored_each [where g = "\<lambda>s. (s, cs)", OF _ b])
      (auto simp: insert_transition_def_def at_key_def split: option.splits
        intro!: stored_step(2))
  ultimately show ?thesis by (rule stored_trans)
qed

lemma insert_task_stored:
  assumes "insert_task_def v i (n, t) y = Inr z" shows "stored v y z"
proof -
  obtain c cs c1 j where y: "y = (c, cs)"
    and a: "insert_task \<lparr>tk_id = next_id (map tk_id (tasks c)), tk_version_id = v, tk_competency_id = i,
      tk_prompt = kd_prompt t, tk_sort = n\<rparr> c = Inr c1"
    and b: "each (insert_citation v None (Some j)) (kd_citations t) (c1, cs) = Inr z"
    using assms by (cases y) (auto simp: insert_task_def_def Let_def guard_simps)
  have "stored v (c1, cs) z"
    by (rule stored_each [where g = "\<lambda>s. s", OF _ b]) (rule insert_citation_stored)
  then show ?thesis
    using stored_step(4) [OF a, of v cs] stored_trans y by simp
qed

lemma insert_competency_stored:
  assumes "insert_competency_def v (n, m) (y, ids) = Inr (z, ids')" shows "stored v y z"
proof -
  obtain c cs c1 s1 i where y: "y = (c, cs)"
    and a: "insert_competency \<lparr>co_id = next_id (map co_id (competencies c)), co_version_id = v,
      co_category = md_category m, co_name = md_name m, co_description = md_description m,
      co_sort = n\<rparr> c = Inr c1"
    and b: "each (insert_task_def v i) (zip_order (md_tasks m)) (c1, cs) = Inr s1"
    and d: "each (insert_citation v (Some i) None) (md_citations m) s1 = Inr z"
    using assms by (cases y) (auto simp: insert_competency_def_def Let_def guard_simps)
  have "stored v (c, cs) (c1, cs)" using stored_step(3) [OF a, of v cs] by simp
  moreover have "stored v (c1, cs) s1"
    by (rule stored_each [where g = "\<lambda>s. s", OF _ b]) (auto dest: insert_task_stored)
  moreover have "stored v s1 z"
    by (rule stored_each [where g = "\<lambda>s. s", OF _ d]) (rule insert_citation_stored)
  ultimately show ?thesis using stored_trans y by blast
qed

lemma insert_competencies_stored:
  assumes "insert_competencies v x y = Inr (z, ids)" shows "stored v y z"
proof -
  have "stored v (fst (y, Map.empty :: key_ids)) (fst (z, ids))"
    by (rule stored_each [OF _ assms [unfolded insert_competencies_def]])
      (auto dest: insert_competency_stored)
  then show ?thesis by simp
qed

lemma insert_scale_stored:
  assumes "insert_scale_def v s (c, ids) = Inr (c', ids')" shows "stored v (c, cs) (c', cs)"
proof -
  obtain c1 i where a: "insert_scale \<lparr>rs_id = next_id (map rs_id (rating_scales c)), rs_version_id = v,
      rs_name = sd_name s, rs_kind = sd_kind s, rs_min = sd_min s, rs_max = sd_max s\<rparr> c = Inr c1"
    and b: "each (insert_anchor_def v i) (sd_anchors s) c1 = Inr c'"
    using assms by (auto simp: insert_scale_def_def Let_def guard_simps)
  have "stored v (c1, cs) (c', cs)"
    by (rule stored_each [where g = "\<lambda>s. (s, cs)", OF _ b])
      (auto simp: insert_anchor_def_def intro!: stored_step(6))
  then show ?thesis
    using stored_step(5) [OF a, of v cs] stored_trans by simp
qed

lemma insert_scales_stored:
  assumes "insert_scales v x c = Inr (c', ids)" shows "stored v (c, cs) (c', cs)"
proof -
  obtain c1 where a: "each (insert_scale_def v) (vc_scales x) (c, Map.empty) = Inr (c1, ids)"
    and b: "each (insert_modifier_def v) (vc_modifiers x) c1 = Inr c'"
    using assms by (auto simp: insert_scales_def guard_simps)
  have "stored v (c, cs) (c1, cs)"
    by (rule stored_each [where g = "\<lambda>s. (fst s, cs)", OF _ a, simplified])
      (auto dest: insert_scale_stored)
  moreover have "stored v (c1, cs) (c', cs)"
    by (rule stored_each [where g = "\<lambda>s. (s, cs)", OF _ b])
      (auto simp: insert_modifier_def_def intro!: stored_step(7))
  ultimately show ?thesis by (rule stored_trans)
qed

lemma insert_form_stored:
  assumes "insert_form_def v ms ss f c = Inr c'" shows "stored v (c, cs) (c', cs)"
proof -
  obtain c1 c2 i where a: "insert_form \<lparr>f_id = next_id (map f_id (evaluation_forms c)), f_version_id = v,
      f_record_type = fd_record_type f, f_name = fd_name f, f_instructions = fd_instructions f\<rparr> c = Inr c1"
    and b: "each (insert_binding_def v i ms ss) (zip_order (fd_competencies f)) c1 = Inr c2"
    and d: "each (insert_narrative_def v i) (zip_order (fd_narratives f)) c2 = Inr c'"
    using assms unfolding insert_form_def_def Let_def seq_Inr_iff by blast
  have "stored v (c1, cs) (c2, cs)"
    by (rule stored_each [where g = "\<lambda>s. (s, cs)", OF _ b])
      (clarsimp simp: insert_binding_def_def at_key_def split: option.splits, erule stored_step(9); simp)
  moreover have "stored v (c2, cs) (c', cs)"
    by (rule stored_each [where g = "\<lambda>s. (s, cs)", OF _ d])
      (auto simp: insert_narrative_def_def intro!: stored_step(10))
  moreover have "stored v (c, cs) (c1, cs)" using stored_step(8) [OF a, of v cs] by simp
  ultimately show ?thesis using stored_trans by blast
qed

lemma insert_content_Inr:
  assumes "insert_content v x y = Inr z"
  obtains c1 s2 s3 c4 s5 c6 where "insert_phases v x (fst y) = Inr c1"
    "insert_competencies v x (c1, snd y) = Inr s2"
    "insert_scales v x (fst (fst s2)) = Inr s3"
    "each (insert_form_def v (snd s2) (snd s3)) (vc_forms x) (fst s3) = Inr c4"
    "each (insert_citation v None None) (vc_citations x) (c4, snd (fst s2)) = Inr s5"
    "insert_policy_row \<lparr>fp_version_id = v, fp_review_approved = pd_review_approved (vc_policy x),
      fp_required_narratives = pd_required_narratives (vc_policy x),
      fp_ratings_complete = pd_ratings_complete (vc_policy x)\<rparr> (fst s5) = Inr c6"
    "z = (c6, snd s5)"
  using assms unfolding insert_content_def split_beta seq_Inr_iff by (auto simp del: split_paired_Ex)

lemma insert_content_stored:
  assumes "insert_content v x y = Inr z" shows "stored v y z"
  using assms
proof (rule insert_content_Inr)
  fix c1 s2 s3 c4 s5 c6
  assume a: "insert_phases v x (fst y) = Inr c1"
    and b: "insert_competencies v x (c1, snd y) = Inr s2"
    and d: "insert_scales v x (fst (fst s2)) = Inr s3"
    and e: "each (insert_form_def v (snd s2) (snd s3)) (vc_forms x) (fst s3) = Inr c4"
    and f: "each (insert_citation v None None) (vc_citations x) (c4, snd (fst s2)) = Inr s5"
    and g: "insert_policy_row \<lparr>fp_version_id = v, fp_review_approved = pd_review_approved (vc_policy x),
      fp_required_narratives = pd_required_narratives (vc_policy x),
      fp_ratings_complete = pd_ratings_complete (vc_policy x)\<rparr> (fst s5) = Inr c6"
    and z: "z = (c6, snd s5)"
  have p1: "stored v y (c1, snd y)"
    using insert_phases_stored [OF a, of "snd y"] by simp
  have p2: "stored v (c1, snd y) (fst s2)"
    using insert_competencies_stored b by (cases s2) auto
  have p3: "stored v (fst s2) (fst s3, snd (fst s2))"
    using insert_scales_stored [of v x "fst (fst s2)" "fst s3" "snd s3" "snd (fst s2)"] d by simp
  have p4: "stored v (fst s3, snd (fst s2)) (c4, snd (fst s2))"
    by (rule stored_each [where g = "\<lambda>s. (s, snd (fst s2))", OF _ e]) (rule insert_form_stored)
  have p5: "stored v (c4, snd (fst s2)) s5"
    by (rule stored_each [where g = "\<lambda>s. s", OF _ f]) (rule insert_citation_stored)
  have p6: "stored v s5 z"
    using stored_step(11) [OF g, of v "snd s5"] z by simp
  show ?thesis
    by (rule stored_trans [OF p1 stored_trans [OF p2 stored_trans [OF p3 stored_trans [OF p4 stored_trans [OF p5 p6]]]]])
qed

section \<open>What inserts leave alone\<close>

text \<open>The version of a row decides whose rows an insert extends; the version rows are not touched.\<close>

definition only :: "int \<Rightarrow> config \<Rightarrow> config \<Rightarrow> bool" where
  "only v x y \<longleftrightarrow>
     program_versions (fst y) = program_versions (fst x) \<and>
     (\<forall>u. u \<noteq> v \<longrightarrow> owned_rows u y = owned_rows u x)"

lemmas insert_defs =
  insert_phase_def insert_transition_def insert_competency_def insert_task_def insert_scale_def
  insert_anchor_def insert_rating_modifier_def insert_form_def insert_form_competency_def
  insert_form_narrative_def insert_policy_row_def insert_citation_row_def

lemma adds_only: "adds v x y \<Longrightarrow> only v x y"
  by (induction rule: adds.induct)
    (auto simp: insert_defs row_simps only_def owned_rows_def)

lemma stored_only: "stored v x y \<Longrightarrow> only v x y"
  by (induction rule: rtranclp_induct) (auto simp: only_def dest: adds_only)

section \<open>Deletions\<close>

lemma delete_owned_Inr [row_simps]:
  "delete_owned v owner used rows store w = Inr w' \<longleftrightarrow>
     (filter (\<lambda>r. owner r = v) (rows w) = [] \<or> \<not> frozen (cat w) v) \<and>
     (\<forall>r \<in> set (rows w). owner r = v \<longrightarrow> \<not> used r) \<and>
     w' = store (filter (\<lambda>r. owner r \<noteq> v) (rows w)) w"
  by (auto simp: delete_owned_def Let_def guard_simps list_ex_iff)

lemmas delete_defs =
  delete_policies_def delete_citations_def delete_narratives_def delete_bindings_def delete_forms_def
  delete_anchors_def delete_scales_def delete_modifiers_def delete_tasks_def delete_competencies_def
  delete_transitions_def delete_phases_def

lemma delete_owned_effect:
  "delete_owned v owner used rows store w = Inr w' \<Longrightarrow> w' = store (filter (\<lambda>r. owner r \<noteq> v) (rows w)) w"
  by (simp add: row_simps)

lemma delete_effects:
  "delete_citations v w = Inr w' \<Longrightarrow> w' = set_config (apsnd (filter (\<lambda>r. ci_version_id r \<noteq> v)) (config_of w)) w"
  "delete_policies v w = Inr w' \<Longrightarrow> w' = set_config (apfst (\<lambda>c. c\<lparr>policies :=
      filter (\<lambda>r. fp_version_id r \<noteq> v) (policies c)\<rparr>) (config_of w)) w"
  "delete_narratives v w = Inr w' \<Longrightarrow> w' = set_config (apfst (\<lambda>c. c\<lparr>form_narratives :=
      filter (\<lambda>r. fn_version_id r \<noteq> v) (form_narratives c)\<rparr>) (config_of w)) w"
  "delete_bindings v w = Inr w' \<Longrightarrow> w' = set_config (apfst (\<lambda>c. c\<lparr>form_competencies :=
      filter (\<lambda>r. fc_version_id r \<noteq> v) (form_competencies c)\<rparr>) (config_of w)) w"
  "delete_forms v w = Inr w' \<Longrightarrow> w' = set_config (apfst (\<lambda>c. c\<lparr>evaluation_forms :=
      filter (\<lambda>r. f_version_id r \<noteq> v) (evaluation_forms c)\<rparr>) (config_of w)) w"
  "delete_anchors v w = Inr w' \<Longrightarrow> w' = set_config (apfst (\<lambda>c. c\<lparr>rating_anchors :=
      filter (\<lambda>r. ra_version_id r \<noteq> v) (rating_anchors c)\<rparr>) (config_of w)) w"
  "delete_scales v w = Inr w' \<Longrightarrow> w' = set_config (apfst (\<lambda>c. c\<lparr>rating_scales :=
      filter (\<lambda>r. rs_version_id r \<noteq> v) (rating_scales c)\<rparr>) (config_of w)) w"
  "delete_modifiers v w = Inr w' \<Longrightarrow> w' = set_config (apfst (\<lambda>c. c\<lparr>rating_modifiers :=
      filter (\<lambda>r. rm_version_id r \<noteq> v) (rating_modifiers c)\<rparr>) (config_of w)) w"
  "delete_tasks v w = Inr w' \<Longrightarrow> w' = set_config (apfst (\<lambda>c. c\<lparr>tasks :=
      filter (\<lambda>r. tk_version_id r \<noteq> v) (tasks c)\<rparr>) (config_of w)) w"
  "delete_competencies v w = Inr w' \<Longrightarrow> w' = set_config (apfst (\<lambda>c. c\<lparr>competencies :=
      filter (\<lambda>r. co_version_id r \<noteq> v) (competencies c)\<rparr>) (config_of w)) w"
  "delete_transitions v w = Inr w' \<Longrightarrow> w' = set_config (apfst (\<lambda>c. c\<lparr>phase_transitions :=
      filter (\<lambda>r. pt_version_id r \<noteq> v) (phase_transitions c)\<rparr>) (config_of w)) w"
  "delete_phases v w = Inr w' \<Longrightarrow> w' = set_config (apfst (\<lambda>c. c\<lparr>phases :=
      filter (\<lambda>r. ph_version_id r \<noteq> v) (phases c)\<rparr>) (config_of w)) w"
  unfolding delete_defs
  by (auto simp: set_config_def config_of_def set_catalog_def dest!: delete_owned_effect)

lemma delete_content_effect:
  assumes "delete_content v w = Inr w'" shows "w' = set_config (without v (config_of w)) w"
proof -
  have "w' = set_config (without v (config_of w)) w"
    using assms unfolding delete_content_def each.simps seq_Inr_iff
    apply -
    apply (elim exE conjE)
    apply (drule delete_effects)+
    apply (simp only: config_of_set set_config_again sum.inject)
    apply (cases "config_of w")
    apply (simp add: without_def)
    done
  then show ?thesis .
qed


section \<open>Ids and references\<close>

definition ids_sound :: "config \<Rightarrow> bool" where
  "ids_sound = (\<lambda>(c, cs).
     ids_ok (map pv_id (program_versions c)) \<and> ids_ok (map ph_id (phases c)) \<and>
     ids_ok (map pt_id (phase_transitions c)) \<and> ids_ok (map co_id (competencies c)) \<and>
     ids_ok (map tk_id (tasks c)) \<and> ids_ok (map rs_id (rating_scales c)) \<and>
     ids_ok (map ra_id (rating_anchors c)) \<and> ids_ok (map rm_id (rating_modifiers c)) \<and>
     ids_ok (map f_id (evaluation_forms c)) \<and> ids_ok (map fc_id (form_competencies c)) \<and>
     ids_ok (map fn_id (form_narratives c)) \<and> ids_ok (map ci_id cs))"

definition owners :: "config \<Rightarrow> int set" where
  "owners = (\<lambda>(c, cs).
     set (map ph_version_id (phases c)) \<union> set (map pt_version_id (phase_transitions c)) \<union>
     set (map co_version_id (competencies c)) \<union> set (map tk_version_id (tasks c)) \<union>
     set (map rs_version_id (rating_scales c)) \<union> set (map ra_version_id (rating_anchors c)) \<union>
     set (map rm_version_id (rating_modifiers c)) \<union> set (map f_version_id (evaluation_forms c)) \<union>
     set (map fc_version_id (form_competencies c)) \<union> set (map fn_version_id (form_narratives c)) \<union>
     set (map fp_version_id (policies c)) \<union> set (map ci_version_id cs))"

text \<open>Every reference of a row resolves inside the row's own version.\<close>

definition references_ok :: "config \<Rightarrow> bool" where
  "references_ok = (\<lambda>(c, cs).
     (\<forall>t \<in> set (phase_transitions c). has_phase c (pt_from t) (pt_version_id t) \<and>
        has_phase c (pt_to t) (pt_version_id t)) \<and>
     (\<forall>t \<in> set (tasks c). has_competency c (tk_competency_id t) (tk_version_id t)) \<and>
     (\<forall>a \<in> set (rating_anchors c). has_scale c (ra_scale_id a) (ra_version_id a)) \<and>
     (\<forall>b \<in> set (form_competencies c). has_form c (fc_form_id b) (fc_version_id b) \<and>
        has_competency c (fc_competency_id b) (fc_version_id b) \<and>
        has_scale c (fc_scale_id b) (fc_version_id b)) \<and>
     (\<forall>n \<in> set (form_narratives c). has_form c (fn_form_id n) (fn_version_id n)) \<and>
     (\<forall>r \<in> set cs. (ci_competency_id r = None \<or> ci_task_id r = None) \<and>
        opt_key (ci_competency_id r) (\<lambda>i. has_competency c i (ci_version_id r)) \<and>
        opt_key (ci_task_id r) (\<lambda>i. has_task c i (ci_version_id r))))"

definition config_ok :: "config \<Rightarrow> bool" where
  "config_ok x \<longleftrightarrow>
     ids_sound x \<and> references_ok x \<and> owners x \<subseteq> set (map pv_id (program_versions (fst x))) \<and>
     (\<forall>p \<in> set (program_versions (fst x)). 1 \<le> pv_version_number p)"

lemma opt_key_mono: "opt_key i P \<Longrightarrow> (\<And>j. P j \<Longrightarrow> Q j) \<Longrightarrow> opt_key i Q"
  by (cases i) (simp_all add: opt_key_def)

lemmas has_defs = has_phase_def has_competency_def has_task_def has_scale_def has_form_def

lemma adds_ids: "adds v x y \<Longrightarrow> ids_sound x \<Longrightarrow> ids_sound y"
  by (induction rule: adds.induct) (auto simp: insert_defs row_simps ids_sound_def)

lemma adds_owners:
  "adds v x y \<Longrightarrow> owners x \<subseteq> set (map pv_id (program_versions (fst x))) \<Longrightarrow>
    owners y \<subseteq> set (map pv_id (program_versions (fst y)))"
  by (induction rule: adds.induct) (simp_all add: insert_defs row_simps owners_def)

lemma adds_has:
  assumes "adds v x y"
  shows "has_phase (fst x) i u \<Longrightarrow> has_phase (fst y) i u"
    "has_competency (fst x) i u \<Longrightarrow> has_competency (fst y) i u"
    "has_task (fst x) i u \<Longrightarrow> has_task (fst y) i u"
    "has_scale (fst x) i u \<Longrightarrow> has_scale (fst y) i u"
    "has_form (fst x) i u \<Longrightarrow> has_form (fst y) i u"
  using assms by (induction rule: adds.induct) (auto simp: insert_defs row_simps has_defs)

lemma opt_key_simps [simp]:
  "opt_key None P"
  "opt_key (Some i) P \<longleftrightarrow> P i"
  by (simp_all add: opt_key_def)

lemma adds_references: "adds v x y \<Longrightarrow> references_ok x \<Longrightarrow> references_ok y"
proof (induction rule: adds.induct)
  case (citation r c cs y)
  then show ?case by (auto simp: insert_defs row_simps references_ok_def)
qed (fastforce simp: insert_defs row_simps references_ok_def has_defs elim: opt_key_mono)+

lemma adds_versions: "adds v x y \<Longrightarrow> program_versions (fst y) = program_versions (fst x)"
  using adds_only by (simp add: only_def)

lemma adds_ok: "adds v x y \<Longrightarrow> config_ok x \<Longrightarrow> config_ok y"
  using adds_ids adds_references adds_owners adds_versions unfolding config_ok_def by metis

lemma stored_ok: "stored v x y \<Longrightarrow> config_ok x \<Longrightarrow> config_ok y"
  by (induction rule: rtranclp_induct) (auto dest: adds_ok)

lemma without_has [simp]:
  "has_phase (fst (without v x)) i u \<longleftrightarrow> has_phase (fst x) i u \<and> u \<noteq> v"
  "has_competency (fst (without v x)) i u \<longleftrightarrow> has_competency (fst x) i u \<and> u \<noteq> v"
  "has_task (fst (without v x)) i u \<longleftrightarrow> has_task (fst x) i u \<and> u \<noteq> v"
  "has_scale (fst (without v x)) i u \<longleftrightarrow> has_scale (fst x) i u \<and> u \<noteq> v"
  "has_form (fst (without v x)) i u \<longleftrightarrow> has_form (fst x) i u \<and> u \<noteq> v"
  by (auto simp: without_def has_defs split_beta)

lemma without_references:
  assumes "references_ok x" shows "references_ok (without v x)"
proof -
  obtain c cs where x: "x = (c, cs)" by (cases x)
  note h = without_has [of v x, unfolded x without_def, simplified]
  show ?thesis
    using assms unfolding x references_ok_def without_def prod.case
    by (auto simp: h elim!: opt_key_mono)
qed

lemma without_ok: "config_ok x \<Longrightarrow> config_ok (without v x)"
proof -
  assume ok: "config_ok x"
  obtain c cs where x: "x = (c, cs)" by (cases x)
  have "ids_sound (without v x)"
    using ok unfolding config_ok_def x by (simp add: ids_sound_def without_def ids_ok_filter)
  moreover have "owners (without v x) \<subseteq> owners x"
    unfolding x by (auto simp: owners_def without_def)
  moreover have "program_versions (fst (without v x)) = program_versions (fst x)"
    unfolding x by (simp add: without_def)
  ultimately show ?thesis
    using ok without_references unfolding config_ok_def by auto
qed

lemma without_owner: "v \<notin> owners (without v x)"
  by (cases x) (auto simp: owners_def without_def)


section \<open>What the services do\<close>

text \<open>
  Every service of this component journals, extends the programs, and changes the configuration
  so that a published version keeps its rows, ids and references stay sound, and no phase an
  event of an enrollment names disappears.
\<close>

definition reconfigures :: "phase_event_row list \<Rightarrow> config \<Rightarrow> config \<Rightarrow> bool" where
  "reconfigures ps x y \<longleftrightarrow>
     (config_ok x \<longrightarrow> config_ok y) \<and>
     (\<forall>u. frozen (fst x) u \<longrightarrow> owned_rows u y = owned_rows u x) \<and>
     (\<forall>p \<in> set ps. \<forall>i. pe_to_phase p = Some i \<longrightarrow> i \<in> ph_id ` set (phases (fst x)) \<longrightarrow>
        i \<in> ph_id ` set (phases (fst y)))"

definition authored :: "office \<Rightarrow> office \<Rightarrow> bool" where
  "authored w w' \<longleftrightarrow>
     journaled ((base w)\<lparr>catalog := cat w'\<rparr>) (base w') \<and> prefix (programs w) (programs w') \<and>
     w' = w\<lparr>base := base w', programs := programs w', citations := citations w'\<rparr> \<and>
     reconfigures (phase_events (base w)) (config_of w) (config_of w')"

lemma frozen_owned: "frozen c u \<longleftrightarrow> frozen (fst (owned_rows u (c, cs))) u"
proof -
  have f: "find (\<lambda>p. pv_id p = u) (filter (\<lambda>r. pv_id r = u) xs) = find (\<lambda>p. pv_id p = u) xs" for xs
    by (induction xs) auto
  show ?thesis by (simp add: frozen_def owned_rows_def f)
qed

lemma frozen_same_rows: "owned_rows u y = owned_rows u x \<Longrightarrow> frozen (fst y) u = frozen (fst x) u"
  using frozen_owned [of "fst y" u "snd y"] frozen_owned [of "fst x" u "snd x"] by simp

lemma reconfigures_trans:
  assumes "reconfigures ps x y" and "reconfigures ps y z" shows "reconfigures ps x z"
proof -
  have "owned_rows u z = owned_rows u x" if "frozen (fst x) u" for u
    using that assms frozen_same_rows [of u y x] by (simp add: reconfigures_def)
  then show ?thesis
    using assms by (simp add: reconfigures_def)
qed

lemma authored_trans:
  assumes "authored w x" and "authored x y" shows "authored w y"
proof -
  have j: "journaled ((base w)\<lparr>catalog := cat x\<rparr>) (base x)" "journaled ((base x)\<lparr>catalog := cat y\<rparr>) (base y)"
    using assms by (simp_all add: authored_def)
  then obtain as ns as' ns' where
      x: "base x = (base w)\<lparr>catalog := cat x, audits := audits (base w) @ as, notices := notices (base w) @ ns\<rparr>"
    and y: "base y = (base x)\<lparr>catalog := cat y, audits := audits (base x) @ as', notices := notices (base x) @ ns'\<rparr>"
    by (auto simp: journaled_def)
  have "phase_events (base x) = phase_events (base w)"
    by (subst x) simp
  moreover have "journaled ((base w)\<lparr>catalog := cat y\<rparr>) (base y)"
    unfolding journaled_def
    by (rule exI [of _ "as @ as'"], rule exI [of _ "ns @ ns'"]) (subst y, subst (1 2 3) x, simp)
  moreover have "y = w\<lparr>base := base y, programs := programs y, citations := citations y\<rparr>"
    using assms by (metis (no_types, lifting) authored_def office.surjective office.update_convs(1-3))
  moreover have "prefix (programs w) (programs y)"
    using assms prefix_order.trans by (auto simp: authored_def)
  moreover have "reconfigures (phase_events (base w)) (config_of w) (config_of y)"
    using assms reconfigures_trans \<open>phase_events (base x) = phase_events (base w)\<close>
    unfolding authored_def by metis
  ultimately show ?thesis
    unfolding authored_def by blast
qed

lemma reconfigures_refl [simp]: "reconfigures ps x x"
  by (simp add: reconfigures_def)

lemma audited_authored: "audited w w' \<Longrightarrow> authored w w'"
proof -
  assume "audited w w'"
  then obtain d where d: "journaled (base w) d" "w' = w\<lparr>base := d\<rparr>"
    by (auto simp: audited_def)
  with journaled_tables(3) [OF d(1)] show ?thesis
    by (simp add: authored_def config_of_def)
qed

lemma set_config_authored:
  "reconfigures (phase_events (base w)) (config_of w) y \<Longrightarrow> authored w (set_config y w)"
  by (cases y) (simp add: authored_def config_of_def set_config_def set_catalog_def)

end
