(* ===== verification/Programs.thy ===== *)
theory Programs
  imports Configuration
begin

text \<open>
  The services of Publishing seen from outside: each is a step that journals, may add programs,
  and leaves every published version's rows as they were (\<open>authored\<close>).
\<close>

section \<open>The statements\<close>

lemma frozen_exists: "frozen c v \<Longrightarrow> v \<in> set (map pv_id (program_versions c))"
  by (auto simp: frozen_def split: option.splits dest: find_eq_SomeD)

lemma stored_phases: "stored v x y \<Longrightarrow> ph_id ` set (phases (fst x)) \<subseteq> ph_id ` set (phases (fst y))"
proof (induction rule: rtranclp_induct)
  case (step y z)
  have "ph_id ` set (phases (fst y)) \<subseteq> ph_id ` set (phases (fst z))"
    using step.hyps(2) by (induction rule: adds.induct) (auto simp: insert_defs row_simps)
  with step.IH show ?case by blast
qed simp

lemma stored_reconfigures:
  assumes "stored v x y" and "\<not> frozen (fst x) v" shows "reconfigures ps x y"
proof -
  have "owned_rows u y = owned_rows u x" if "frozen (fst x) u" for u
    using that assms(2) stored_only [OF assms(1)] by (cases "u = v") (simp_all add: only_def)
  then show ?thesis
    using stored_ok [OF assms(1)] stored_phases [OF assms(1)] by (simp add: reconfigures_def subset_iff)
qed

lemma without_reconfigures:
  assumes "\<not> frozen (fst x) v"
    and "\<And>r p. r \<in> set (phases (fst x)) \<Longrightarrow> ph_version_id r = v \<Longrightarrow> p \<in> set ps \<Longrightarrow> pe_to_phase p \<noteq> Some (ph_id r)"
  shows "reconfigures ps x (without v x)"
proof -
  have "owned_rows u (without v x) = owned_rows u x" if "frozen (fst x) u" for u
    using that assms(1) by (intro owned_without) auto
  moreover have "i \<in> ph_id ` set (phases (fst (without v x)))"
    if p: "p \<in> set ps" "pe_to_phase p = Some i" "i \<in> ph_id ` set (phases (fst x))" for p i
  proof -
    obtain r where r: "r \<in> set (phases (fst x))" "i = ph_id r" using p(3) by blast
    then have "ph_version_id r \<noteq> v" using assms(2) p(1,2) by blast
    with r show ?thesis by (cases x) (auto simp: without_def)
  qed
  ultimately show ?thesis
    using without_ok by (auto simp: reconfigures_def)
qed

lemma delete_phases_unreferenced:
  assumes "delete_phases v w = Inr w'" and "r \<in> set (phases (cat w))" and "ph_version_id r = v"
    and "p \<in> set (phase_events (base w))"
  shows "pe_to_phase p \<noteq> Some (ph_id r)"
  using assms by (auto simp: delete_phases_def row_simps list_ex_iff)

lemma set_config_frame [simp]:
  "phase_events (base (set_config x w)) = phase_events (base w)"
  "cat (set_config x w) = fst x"
  by (cases x, simp add: set_config_def set_catalog_def)+

lemma delete_content_authored:
  assumes "delete_content v w = Inr w'" and "\<not> frozen (cat w) v"
  shows "authored w w'"
proof -
  obtain y where y: "delete_phases v (set_config y w) = Inr w'" "phases (fst y) = phases (cat w)"
  proof -
    obtain x1 x2 x3 x4 x5 x6 x7 x8 x9 x10 x11 where d:
      "delete_policies v w = Inr x1" "delete_citations v x1 = Inr x2" "delete_narratives v x2 = Inr x3"
      "delete_bindings v x3 = Inr x4" "delete_forms v x4 = Inr x5" "delete_anchors v x5 = Inr x6"
      "delete_scales v x6 = Inr x7" "delete_modifiers v x7 = Inr x8" "delete_tasks v x8 = Inr x9"
      "delete_competencies v x9 = Inr x10" "delete_transitions v x10 = Inr x11"
      "delete_phases v x11 = Inr w'"
      using assms(1) unfolding delete_content_def each.simps seq_Inr_iff by blast
    have "\<exists>y. x11 = set_config y w \<and> phases (fst y) = phases (cat w)"
      using d(1-11)
      apply -
      apply (drule delete_effects)+
      apply (simp only: config_of_set set_config_again)
      apply (cases "config_of w")
      apply (auto simp: config_of_def)
      done
    with d(12) that show thesis by blast
  qed
  have "reconfigures (phase_events (base w)) (config_of w) (without v (config_of w))"
  proof (rule without_reconfigures)
    show "pe_to_phase p \<noteq> Some (ph_id r)"
      if "r \<in> set (phases (fst (config_of w)))" "ph_version_id r = v" "p \<in> set (phase_events (base w))" for r p
      using delete_phases_unreferenced [OF y(1)] that y(2) by (simp add: config_of_def)
  qed (use assms(2) in \<open>simp add: config_of_def\<close>)
  then show ?thesis
    using set_config_authored delete_content_effect [OF assms(1)] by simp
qed

lemma insert_content_authored:
  assumes "in_config (insert_content v x) w = Inr w'" and "\<not> frozen (cat w) v"
  shows "authored w w'"
  using assms insert_content_stored stored_reconfigures set_config_authored
  by (fastforce simp: row_simps config_of_def)

text \<open>The statements on version rows.\<close>

lemma reversion_authored:
  assumes w': "w' = set_catalog (\<lambda>c. c\<lparr>program_versions := ps\<rparr>) w"
    and ids: "ids_ok (map pv_id (program_versions (cat w))) \<Longrightarrow> ids_ok (map pv_id ps)"
    and own: "\<And>u. u \<in> owners (config_of w) \<Longrightarrow> u \<in> set (map pv_id (program_versions (cat w))) \<Longrightarrow>
      u \<in> set (map pv_id ps)"
    and same: "\<And>u. frozen (cat w) u \<Longrightarrow>
      filter (\<lambda>r. pv_id r = u) ps = filter (\<lambda>r. pv_id r = u) (program_versions (cat w))"
    and num: "\<forall>p \<in> set (program_versions (cat w)). 1 \<le> pv_version_number p \<Longrightarrow> \<forall>p \<in> set ps. 1 \<le> pv_version_number p"
  shows "authored w w'"
proof -
  let ?y = "((cat w)\<lparr>program_versions := ps\<rparr>, citations w)"
  have "config_ok ?y" if "config_ok (config_of w)"
  proof -
    have "owners ?y = owners (config_of w)" by (simp add: owners_def config_of_def)
    moreover have "ids_sound ?y"
      using that ids by (simp add: config_ok_def ids_sound_def config_of_def)
    moreover have "references_ok ?y"
      using that by (simp add: config_ok_def references_ok_def config_of_def has_defs)
    ultimately show ?thesis
      using that own num by (auto simp: config_ok_def config_of_def)
  qed
  moreover have "owned_rows u ?y = owned_rows u (config_of w)" if "frozen (cat w) u" for u
    using same [OF that] by (simp add: owned_rows_def config_of_def)
  ultimately have "reconfigures (phase_events (base w)) (config_of w) ?y"
    by (simp add: reconfigures_def config_of_def)
  moreover have "w' = set_config ?y w"
    by (simp add: w' set_config_def set_catalog_def)
  ultimately show ?thesis
    using set_config_authored by simp
qed

lemma insert_version_row_authored:
  assumes "insert_version_row p w = Inr w'" and "pv_id p = next_id (map pv_id (program_versions (cat w)))"
  shows "authored w w'"
proof (rule reversion_authored)
  show "w' = set_catalog (\<lambda>c. c\<lparr>program_versions := program_versions (cat w) @ [p]\<rparr>) w"
    using assms(1) by (simp add: insert_version_row_def guard_simps set_catalog_def)
  show "filter (\<lambda>r. pv_id r = u) (program_versions (cat w) @ [p]) =
      filter (\<lambda>r. pv_id r = u) (program_versions (cat w))" if "frozen (cat w) u" for u
    using frozen_exists [OF that] assms(2) next_id_fresh [of "map pv_id (program_versions (cat w))"] by auto
  show "\<forall>q \<in> set (program_versions (cat w) @ [p]). 1 \<le> pv_version_number q"
    if "\<forall>q \<in> set (program_versions (cat w)). 1 \<le> pv_version_number q"
    using that assms(1) by (simp add: insert_version_row_def guard_simps)
qed (use assms(2) in auto)

lemma update_version_row_authored:
  assumes "update_version_row v f w = Inr w'" and "\<And>p. pv_id (f p) = pv_id p"
    and "\<And>p. pv_version_number (f p) = pv_version_number p"
  shows "authored w w'"
proof (rule reversion_authored)
  let ?ps = "map (\<lambda>p. if pv_id p = v then f p else p) (program_versions (cat w))"
  have nf: "\<not> frozen (cat w) v"
    using assms(1) by (simp add: update_version_row_def guard_simps)
  show "w' = set_catalog (\<lambda>c. c\<lparr>program_versions := ?ps\<rparr>) w"
    using assms(1) by (simp add: update_version_row_def guard_simps set_catalog_def)
  have ids: "map pv_id ?ps = map pv_id (program_versions (cat w))"
    using assms(2) by simp
  show "ids_ok (map pv_id (program_versions (cat w))) \<Longrightarrow> ids_ok (map pv_id ?ps)"
    by (simp only: ids)
  show "u \<in> set (map pv_id (program_versions (cat w))) \<Longrightarrow> u \<in> set (map pv_id ?ps)" for u
    by (simp only: ids)
  show "\<forall>q \<in> set ?ps. 1 \<le> pv_version_number q" if "\<forall>q \<in> set (program_versions (cat w)). 1 \<le> pv_version_number q"
    using that assms(3) by auto
  show "filter (\<lambda>r. pv_id r = u) ?ps = filter (\<lambda>r. pv_id r = u) (program_versions (cat w))"
    if "frozen (cat w) u" for u
  proof -
    have "v \<noteq> u" using nf that by auto
    then have "filter (\<lambda>r. pv_id r = u) (map (\<lambda>p. if pv_id p = v then f p else p) ps) =
        filter (\<lambda>r. pv_id r = u) ps" for ps
      by (induction ps) (auto simp: assms(2))
    then show ?thesis by simp
  qed
qed

lemma delete_version_row_authored:
  assumes "delete_version_row v w = Inr w'" shows "authored w w'"
proof (rule reversion_authored)
  let ?ps = "filter (\<lambda>p. pv_id p \<noteq> v) (program_versions (cat w))"
  have nf: "\<not> frozen (cat w) v" and no: "v \<notin> owners (config_of w)"
    using assms by (simp_all add: delete_version_row_def Let_def guard_simps owners_def config_of_def)
  show "w' = set_catalog (\<lambda>c. c\<lparr>program_versions := ?ps\<rparr>) w"
    using assms by (simp add: delete_version_row_def Let_def guard_simps set_catalog_def)
  show "u \<in> set (map pv_id ?ps)" if "u \<in> owners (config_of w)" "u \<in> set (map pv_id (program_versions (cat w)))" for u
  proof -
    have "u \<noteq> v" using that(1) no by blast
    then show ?thesis using that(2) by auto
  qed
  show "filter (\<lambda>r. pv_id r = u) ?ps = filter (\<lambda>r. pv_id r = u) (program_versions (cat w))"
    if "frozen (cat w) u" for u
  proof -
    have "u \<noteq> v" using nf that by auto
    then show ?thesis by (simp add: filter_other)
  qed
  show "\<forall>q \<in> set ?ps. 1 \<le> pv_version_number q" if "\<forall>q \<in> set (program_versions (cat w)). 1 \<le> pv_version_number q"
    using that by simp
qed (rule ids_ok_filter)

section \<open>The services\<close>

lemma insert_program_authored:
  assumes "insert_program clk name a w = Inr (w', i)" shows "authored w w'"
proof -
  obtain p x where x: "x = w\<lparr>programs := programs w @ [p]\<rparr>"
    and a: "in_base (record_for_subject EvProgramCreated (Some a) None (SubjProgram i) (clk 1)) x = Inr w'"
    using assms by (auto simp: insert_program_def insert_program_row_def Let_def guard_simps)
  have "authored w x"
    unfolding x by (simp add: authored_def config_of_def)
  then show ?thesis
    using audited_authored [OF audited_in_base [OF a]] authored_trans by blast
qed

lemma insert_program_version_authored:
  assumes "insert_program_version clk pid x a k w = Inr (w', v)" shows "authored w w'"
proof -
  let ?v = "next_id (map pv_id (program_versions (cat w)))"
  obtain p w1 w2 where p: "pv_id p = ?v" "pv_published_at p = None"
    and r: "insert_version_row p w = Inr w1" and c: "in_config (insert_content ?v x) w1 = Inr w2"
    and a: "in_base (record_for_subject k (Some a) None (SubjProgramVersion ?v) (clk 1)) w2 = Inr w'"
  proof -
    let ?p = "\<lparr>pv_id = ?v, pv_program_id = pid, pv_version_number = next_number w pid,
      pv_label = vc_label x, pv_name = vc_name x, pv_description = vc_description x,
      pv_created_at = clk 0, pv_created_by = Some a, pv_published_at = None, pv_published_by = None\<rparr>"
    have "\<exists>w1 w2. insert_version_row ?p w = Inr w1 \<and> in_config (insert_content ?v x) w1 = Inr w2 \<and>
      in_base (record_for_subject k (Some a) None (SubjProgramVersion ?v) (clk 1)) w2 = Inr w'"
      using assms unfolding insert_program_version_def Let_def seq_Inr_iff by blast
    then show thesis using that [of ?p] by auto
  qed
  have "find (\<lambda>q. pv_id q = ?v) (program_versions (cat w)) = None"
    using next_id_fresh [of "map pv_id (program_versions (cat w))"] by (auto simp: find_None_iff) (metis imageI)
  then have "\<not> frozen (cat w1) ?v"
    using r p by (auto simp: insert_version_row_def guard_simps set_catalog_def frozen_def find_snoc)
  with insert_version_row_authored [OF r p(1)] insert_content_authored [OF c]
    audited_authored [OF audited_in_base [OF a]] authored_trans
  show ?thesis by blast
qed

lemma draft_not_frozen: "version_state_of w v = VsDraft \<Longrightarrow> \<not> frozen (cat w) v"
  by (auto simp: version_state_of_def version_of_def frozen_def split: option.splits if_splits)

lemma create_program_authored:
  "create_program pre clk w a name = Inr (w', i) \<Longrightarrow> authored w w'"
  by (auto simp: create_program_def Let_def guard_simps dest: insert_program_authored)

lemma create_version_authored:
  "create_version pre clk w a pid x = Inr (w', v) \<Longrightarrow> authored w w'"
  by (auto simp: create_version_def Let_def guard_simps dest: insert_program_version_authored)

lemma version_state_Inr [guard_simps]:
  "(case version_state_of w v of VsMissing \<Rightarrow> refuse a | VsDraft \<Rightarrow> m | VsPublished \<Rightarrow> refuse b) = Inr y \<longleftrightarrow>
     version_state_of w v = VsDraft \<and> m = Inr y"
  by (cases "version_state_of w v") simp_all

lemma replace_draft_authored:
  assumes "replace_draft pre w a v x = Inr w'" shows "authored w w'"
proof -
  obtain w1 w2 where d: "version_state_of w v = VsDraft" "delete_content v w = Inr w1"
    and u: "update_version_row v (\<lambda>p. p\<lparr>pv_label := vc_label x, pv_name := vc_name x,
      pv_description := vc_description x\<rparr>) w1 = Inr w2"
    and i: "in_config (insert_content v x) w2 = Inr w'"
    using assms by (auto simp: replace_draft_def Let_def guard_simps)
  note nf = draft_not_frozen [OF d(1)]
  have "program_versions (cat w1) = program_versions (cat w)"
    using delete_content_effect [OF d(2)] by (simp add: without_def config_of_def)
  with nf have nf1: "\<not> frozen (cat w1) v" by (simp add: frozen_def)
  let ?f = "\<lambda>p. p\<lparr>pv_label := vc_label x, pv_name := vc_name x, pv_description := vc_description x\<rparr>"
  have c: "cat w2 = (cat w1)\<lparr>program_versions := map (\<lambda>p. if pv_id p = v then ?f p else p) (program_versions (cat w1))\<rparr>"
    using u by (auto simp: update_version_row_def guard_simps set_catalog_def)
  have f: "find (\<lambda>p. pv_id p = v) (map (\<lambda>p. if pv_id p = v then ?f p else p) ps) =
      map_option (\<lambda>p. if pv_id p = v then ?f p else p) (find (\<lambda>p. pv_id p = v) ps)" for ps
    by (rule find_map_update) simp
  have "\<not> frozen (cat w2) v"
    using nf1 by (cases "find (\<lambda>p. pv_id p = v) (program_versions (cat w1))") (simp_all add: frozen_def c f)
  then have "authored w2 w'" by (rule insert_content_authored [OF i])
  moreover have "authored w1 w2" by (rule update_version_row_authored [OF u]) simp_all
  ultimately show ?thesis
    using delete_content_authored [OF d(2) nf] authored_trans by blast
qed

lemma publish_version_authored:
  assumes "publish_version pre clk w a v = Inr w'" shows "authored w w'"
proof -
  obtain w1 where u: "update_version_row v (\<lambda>p. p\<lparr>pv_published_at := Some (clk 0), pv_published_by := Some a\<rparr>) w = Inr w1"
    and j: "in_base (record_for_subject EvProgramVersionPublished (Some a) None (SubjProgramVersion v) (clk 1)) w1 = Inr w'"
    using assms by (auto simp: publish_version_def guard_simps split: if_splits)
  then show ?thesis
    using update_version_row_authored [OF u] audited_authored [OF audited_in_base [OF j]] authored_trans
    by simp
qed

lemma discard_draft_authored:
  assumes "discard_draft pre clk w a v = Inr w'" shows "authored w w'"
proof -
  obtain w1 w2 where d: "version_state_of w v = VsDraft" "delete_content v w = Inr w1"
    and r: "delete_version_row v w1 = Inr w2"
    and j: "in_base (record_for_subject EvProgramVersionDiscarded (Some a) None (SubjProgramVersion v) (clk 0)) w2 = Inr w'"
    using assms by (auto simp: discard_draft_def guard_simps)
  then show ?thesis
    using delete_content_authored [OF d(2) draft_not_frozen [OF d(1)]] delete_version_row_authored [OF r]
      audited_authored [OF audited_in_base [OF j]] authored_trans by blast
qed

end
