(* ===== verification/Storing.thy ===== *)
theory Storing
  imports Programs
begin

text \<open>
  Storing a well-formed document always succeeds, and what it stores: for each part the rows
  written, in order, carrying the part's fields and pointing at the rows of the parts they
  belong to.
\<close>

section \<open>Loops that append blocks of rows\<close>

lemma each_blocks:
  assumes "\<And>ys x zs bs. xs = ys @ x # zs \<Longrightarrow> list_all2 R ys bs \<Longrightarrow> \<exists>b. R x b \<and> f x (S bs) = Inr (S (bs @ [b]))"
  shows "\<exists>bs. list_all2 R xs bs \<and> each f xs (S []) = Inr (S bs)"
proof -
  have "\<exists>bs. list_all2 R ys bs \<and> each f ys (S []) = Inr (S bs)" if "xs = ys @ zs" for ys zs
    using that
  proof (induction ys arbitrary: zs rule: rev_induct)
    case (snoc x ys)
    then obtain bs where bs: "list_all2 R ys bs" "each f ys (S []) = Inr (S bs)" by auto
    from snoc.prems assms bs(1) obtain b where "R x b" "f x (S bs) = Inr (S (bs @ [b]))"
      by (metis append.assoc append_Cons append_Nil)
    with bs show ?case
      by (intro exI [of _ "bs @ [b]"]) (simp add: each_append list_all2_appendI)
  qed simp
  then show ?thesis by simp
qed

lemma next_id_image:
  assumes "\<And>k. k \<in> A \<Longrightarrow> f k \<in> set is" shows "next_id is \<notin> f ` A"
proof
  assume "next_id is \<in> f ` A"
  then obtain k where "k \<in> A" "f k = next_id is" by auto
  with assms [of k] next_id_fresh [of "is"] show False by simp
qed

text \<open>The map a loop of inserts leaves behind, from a name to the id of its row.\<close>

definition keys :: "('r \<Rightarrow> string) \<Rightarrow> ('r \<Rightarrow> int) \<Rightarrow> 'r list \<Rightarrow> key_ids" where
  "keys f g rs = map_of (rev (map (\<lambda>r. (f r, g r)) rs))"

lemma keys_simps [simp]:
  "keys f g [] = Map.empty"
  "keys f g (rs @ [r]) = (keys f g rs)(f r \<mapsto> g r)"
  by (simp_all add: keys_def)

lemma keys_Some: "n \<in> f ` set rs \<Longrightarrow> \<exists>r \<in> set rs. f r = n \<and> keys f g rs n = Some (g r)"
  by (induction rs rule: rev_induct) auto

lemma frozen_tables [simp]:
  "frozen (c\<lparr>phases := a\<rparr>) v = frozen c v" "frozen (c\<lparr>phase_transitions := b\<rparr>) v = frozen c v"
  "frozen (c\<lparr>competencies := d\<rparr>) v = frozen c v" "frozen (c\<lparr>tasks := e\<rparr>) v = frozen c v"
  "frozen (c\<lparr>rating_scales := f\<rparr>) v = frozen c v" "frozen (c\<lparr>rating_anchors := g\<rparr>) v = frozen c v"
  "frozen (c\<lparr>rating_modifiers := h\<rparr>) v = frozen c v" "frozen (c\<lparr>evaluation_forms := i\<rparr>) v = frozen c v"
  "frozen (c\<lparr>form_competencies := j\<rparr>) v = frozen c v" "frozen (c\<lparr>form_narratives := k\<rparr>) v = frozen c v"
  "frozen (c\<lparr>policies := l\<rparr>) v = frozen c v"
  by (simp_all add: frozen_def)

section \<open>Text a database stores\<close>

text \<open>The UTF-8 of a text without U+0000: SQL's \<open>length\<close> is positive as soon as it is not blank.\<close>

definition sql_safe :: "string \<Rightarrow> bool" where
  "sql_safe s \<longleftrightarrow> blank_text s \<or> 0 < sql_length s"

lemma sql_safe_length: "sql_safe s \<Longrightarrow> \<not> blank_text s \<Longrightarrow> 0 < sql_length s"
  by (simp add: sql_safe_def)

lemma text_sql_safe: "no_nul s \<Longrightarrow> s = [] \<or> \<not> continuation (hd s) \<Longrightarrow> sql_safe s"
  by (cases s) (auto simp: sql_safe_def sql_length_no_nul char_count_def blank_text_def)

definition citation_texts :: "citation_def list \<Rightarrow> string list" where
  "citation_texts cs = concat (map (\<lambda>x. [cd_body x, cd_clause x]) cs)"

definition required_texts :: "version_content \<Rightarrow> string list" where
  "required_texts x =
     [vc_name x] @ map hd_name (vc_phases x) @
     concat (map (\<lambda>m. [md_name m] @ concat (map (\<lambda>t. kd_prompt t # citation_texts (kd_citations t)) (md_tasks m)) @
       citation_texts (md_citations m)) (vc_competencies x)) @
     concat (map (\<lambda>s. sd_name s # map nd_label (sd_anchors s)) (vc_scales x)) @
     concat (map (\<lambda>m. [od_code m, od_label m]) (vc_modifiers x)) @
     concat (map (\<lambda>f. fd_name f # map rd_prompt (fd_narratives f)) (vc_forms x)) @
     citation_texts (vc_citations x)"

definition storable :: "version_content \<Rightarrow> bool" where
  "storable x \<longleftrightarrow> list_all sql_safe (required_texts x)"

section \<open>The rows of each part\<close>

definition writable :: "int \<Rightarrow> catalog \<Rightarrow> bool" where
  "writable v c \<longleftrightarrow> \<not> frozen c v \<and> v \<in> set (map pv_id (program_versions c))"

lemma writable_tables [simp]:
  "writable v (c\<lparr>phases := a\<rparr>) = writable v c" "writable v (c\<lparr>phase_transitions := b\<rparr>) = writable v c"
  "writable v (c\<lparr>competencies := d\<rparr>) = writable v c" "writable v (c\<lparr>tasks := e\<rparr>) = writable v c"
  "writable v (c\<lparr>rating_scales := f\<rparr>) = writable v c" "writable v (c\<lparr>rating_anchors := g\<rparr>) = writable v c"
  "writable v (c\<lparr>rating_modifiers := h\<rparr>) = writable v c" "writable v (c\<lparr>evaluation_forms := i\<rparr>) = writable v c"
  "writable v (c\<lparr>form_competencies := j\<rparr>) = writable v c" "writable v (c\<lparr>form_narratives := k\<rparr>) = writable v c"
  "writable v (c\<lparr>policies := l\<rparr>) = writable v c"
  by (simp_all add: writable_def)

lemma insert_owned_writable:
  "writable v c \<Longrightarrow> check \<Longrightarrow> unique \<Longrightarrow> refs \<Longrightarrow> insert_owned v check unique refs c s = Inr s"
  by (simp add: row_simps writable_def)

definition phase_as :: "int \<Rightarrow> phase_def \<Rightarrow> phase_row \<Rightarrow> bool" where
  "phase_as v p r \<longleftrightarrow>
     ph_version_id r = v \<and> p = \<lparr>hd_name = ph_name r, hd_description = ph_description r, hd_number = ph_number r\<rparr>"

lemma all2_in: "list_all2 R xs ys \<Longrightarrow> y \<in> set ys \<Longrightarrow> \<exists>x \<in> set xs. R x y"
  by (induction rule: list_all2_induct) auto

lemma all2_map: "list_all2 R xs ys \<Longrightarrow> (\<And>x y. R x y \<Longrightarrow> f x = g y) \<Longrightarrow> map f xs = map g ys"
  by (induction rule: list_all2_induct) auto

lemma all2_image:
  "list_all2 R xs ys \<Longrightarrow> (\<And>x y. R x y \<Longrightarrow> f x = g y) \<Longrightarrow> g ` set ys = f ` set xs"
  using all2_map [of R xs ys f g] by (metis list.set_map)

lemma named_split:
  assumes "named f xs" and "xs = ys @ x # zs"
  shows "\<not> blank_text (f x)" and "nocase (f x) \<notin> (\<lambda>y. nocase (f y)) ` set ys"
  using assms by (auto simp: named_def)

lemma store_phases:
  assumes "writable v c" and "named hd_name ps" and "\<forall>p \<in> set ps. sql_safe (hd_name p)"
    and "v \<notin> ph_version_id ` set (phases c)"
  shows "\<exists>rs. list_all2 (phase_as v) ps rs \<and>
    each (insert_phase_def v) ps (c, Map.empty) = Inr (c\<lparr>phases := phases c @ rs\<rparr>, keys ph_name ph_id rs)"
proof -
  let ?S = "\<lambda>rs. (c\<lparr>phases := phases c @ rs\<rparr>, keys ph_name ph_id rs)"
  have "\<exists>bs. list_all2 (phase_as v) ps bs \<and> each (insert_phase_def v) ps (?S []) = Inr (?S bs)"
  proof (rule each_blocks)
    fix ys p zs bs
    assume s: "ps = ys @ p # zs" and b: "list_all2 (phase_as v) ys bs"
    let ?r = "\<lparr>ph_id = next_id (map ph_id (phases c @ bs)), ph_version_id = v, ph_name = hd_name p,
      ph_description = hd_description p, ph_number = hd_number p\<rparr>"
    have "nocase (hd_name p) \<notin> (\<lambda>r. nocase (ph_name r)) ` set bs"
      using named_split(2) [OF assms(2) s]
        all2_image [OF b, of "\<lambda>p. nocase (hd_name p)" "\<lambda>r. nocase (ph_name r)"]
      by (simp add: phase_as_def)
    moreover have "0 < sql_length (hd_name p)"
      using named_split(1) [OF assms(2) s] assms(3) s by (simp add: sql_safe_length)
    ultimately have "insert_phase ?r (fst (?S bs)) = Inr (fst (?S (bs @ [?r])))"
      using assms(1,4) by (auto simp: insert_phase_def intro!: insert_owned_writable)
    then show "\<exists>r. phase_as v p r \<and> insert_phase_def v p (?S bs) = Inr (?S (bs @ [r]))"
      by (intro exI [of _ ?r]) (simp add: phase_as_def insert_phase_def_def Let_def)
  qed
  then show ?thesis by simp
qed


definition transition_as :: "int \<Rightarrow> key_ids \<Rightarrow> transition_def \<Rightarrow> phase_transition_row \<Rightarrow> bool" where
  "transition_as v ids t r \<longleftrightarrow>
     pt_version_id r = v \<and> pt_kind r = td_kind t \<and> ids (td_from t) = Some (pt_from r) \<and>
     ids (td_to t) = Some (pt_to r)"

text \<open>The map of a table's names: the ids are ids of its rows, and no two names share one.\<close>

definition key_map :: "(int \<Rightarrow> bool) \<Rightarrow> key_ids \<Rightarrow> bool" where
  "key_map has ids \<longleftrightarrow>
     (\<forall>n i. ids n = Some i \<longrightarrow> has i) \<and> (\<forall>n m i. ids n = Some i \<longrightarrow> ids m = Some i \<longrightarrow> n = m)"

lemma keys_key_map:
  assumes "distinct (map g rs)" and "\<And>r. r \<in> set rs \<Longrightarrow> has (g r)"
  shows "key_map has (keys f g rs)"
proof -
  have k: "\<exists>r \<in> set rs. f r = n \<and> g r = i" if "keys f g rs n = Some i" for n i
    using that by (auto simp: keys_def dest!: map_of_SomeD)
  have "r = s" if "r \<in> set rs" "s \<in> set rs" "g r = g s" for r s
    using that assms(1) by (auto simp: distinct_map dest: inj_onD)
  with k assms(2) show ?thesis
    unfolding key_map_def by metis
qed

lemma store_transitions:
  assumes "writable v c" and "key_map (\<lambda>i. has_phase c i v) ids"
    and "\<forall>t \<in> set ts. ids (td_from t) \<noteq> None \<and> ids (td_to t) \<noteq> None"
    and "distinct (map (\<lambda>t. (td_from t, td_to t)) ts)"
    and "v \<notin> pt_version_id ` set (phase_transitions c)"
  shows "\<exists>rs. list_all2 (transition_as v ids) ts rs \<and>
    each (insert_transition_def v ids) ts c = Inr (c\<lparr>phase_transitions := phase_transitions c @ rs\<rparr>)"
proof -
  let ?S = "\<lambda>rs. c\<lparr>phase_transitions := phase_transitions c @ rs\<rparr>"
  have "\<exists>bs. list_all2 (transition_as v ids) ts bs \<and> each (insert_transition_def v ids) ts (?S []) = Inr (?S bs)"
  proof (rule each_blocks)
    fix ys t zs bs
    assume s: "ts = ys @ t # zs" and b: "list_all2 (transition_as v ids) ys bs"
    obtain i k where ik: "ids (td_from t) = Some i" "ids (td_to t) = Some k"
      using assms(3) s by auto
    let ?r = "\<lparr>pt_id = next_id (map pt_id (phase_transitions c @ bs)), pt_version_id = v, pt_from = i,
      pt_to = k, pt_kind = td_kind t\<rparr>"
    have "(v, i, k) \<notin> (\<lambda>q. (pt_version_id q, pt_from q, pt_to q)) ` set bs"
    proof
      assume "(v, i, k) \<in> (\<lambda>q. (pt_version_id q, pt_from q, pt_to q)) ` set bs"
      then obtain q where q: "q \<in> set bs" "pt_from q = i" "pt_to q = k" by auto
      from all2_in [OF b q(1)] obtain u where "u \<in> set ys" "transition_as v ids u q" by blast
      with q(2,3) have u: "u \<in> set ys" "ids (td_from u) = Some i" "ids (td_to u) = Some k"
        by (simp_all add: transition_as_def)
      have inj: "n = m" if "ids n = Some a" "ids m = Some a" for n m a
        using that assms(2) by (simp add: key_map_def)
      have "td_from u = td_from t" "td_to u = td_to t"
        using inj u ik by auto
      then have "(td_from t, td_to t) \<in> (\<lambda>t. (td_from t, td_to t)) ` set ys"
        using u(1) by (intro image_eqI [of _ _ u]) simp_all
      then show False using assms(4) unfolding s by (simp del: map_map)
    qed
    moreover have "has_phase c i v" "has_phase c k v"
      using ik assms(2) by (auto simp: key_map_def)
    ultimately have "insert_transition ?r (?S bs) = Inr (?S (bs @ [?r]))"
      using assms(1,5) by (auto simp: insert_transition_def has_phase_def intro!: insert_owned_writable)
    then show "\<exists>r. transition_as v ids t r \<and> insert_transition_def v ids t (?S bs) = Inr (?S (bs @ [r]))"
      by (intro exI [of _ ?r]) (simp add: transition_as_def insert_transition_def_def at_key_def ik)
  qed
  then show ?thesis by simp
qed

definition citation_as :: "int \<Rightarrow> int option \<Rightarrow> int option \<Rightarrow> citation_def \<Rightarrow> citation_row \<Rightarrow> bool" where
  "citation_as v m t x r \<longleftrightarrow>
     ci_version_id r = v \<and> ci_competency_id r = m \<and> ci_task_id r = t \<and> citation_of r = x"

lemma store_citations:
  assumes "writable v c" and "citations_wf xs" and "list_all sql_safe (citation_texts xs)"
    and "m = None \<or> t = None" "opt_key m (\<lambda>i. has_competency c i v)" "opt_key t (\<lambda>i. has_task c i v)"
  shows "\<exists>rs. list_all2 (citation_as v m t) xs rs \<and>
    each (insert_citation v m t) xs (c, cs) = Inr (c, cs @ rs)"
proof -
  let ?S = "\<lambda>rs. (c, cs @ rs)"
  have "\<exists>bs. list_all2 (citation_as v m t) xs bs \<and> each (insert_citation v m t) xs (?S []) = Inr (?S bs)"
  proof (rule each_blocks)
    fix ys x zs bs
    assume s: "xs = ys @ x # zs"
    let ?r = "\<lparr>ci_id = next_id (map ci_id (cs @ bs)), ci_version_id = v, ci_competency_id = m, ci_task_id = t,
      ci_body = cd_body x, ci_edition = cd_edition x, ci_clause = cd_clause x, ci_note = cd_note x\<rparr>"
    have "0 < sql_length (cd_body x)" "0 < sql_length (cd_clause x)"
      using s assms(2,3) by (auto simp: citations_wf_def citation_texts_def list_all_iff intro!: sql_safe_length)
    then have "insert_citation_row ?r (?S bs) = Inr (?S (bs @ [?r]))"
      using assms(1,4-6) by (auto simp: insert_citation_row_def intro!: insert_owned_writable)
    then show "\<exists>r. citation_as v m t x r \<and> insert_citation v m t x (?S bs) = Inr (?S (bs @ [r]))"
      by (intro exI [of _ ?r]) (simp add: citation_as_def citation_of_def insert_citation_def)
  qed
  then show ?thesis by simp
qed


lemma zip_order_snd [simp]: "map snd (zip_order xs) = xs"
  by (simp add: zip_order_def comp_def split_beta)

lemma zip_order_in: "x \<in> set (zip_order xs) \<Longrightarrow> snd x \<in> set xs"
  using zip_order_snd [of xs] by (metis image_eqI list.set_map)

lemma zip_order_map: "map (\<lambda>x. g (snd x)) (zip_order xs) = map g xs"
proof -
  have "map (\<lambda>x. g (snd x)) (zip_order xs) = map g (map snd (zip_order xs))"
    by (simp only: map_map comp_def)
  then show ?thesis by simp
qed

lemma named_order: "named (\<lambda>x. f (snd x)) (zip_order xs) = named f xs"
proof -
  have "(\<forall>x \<in> set (zip_order xs). \<not> blank_text (f (snd x))) = (\<forall>y \<in> set (map snd (zip_order xs)). \<not> blank_text (f y))"
    by (simp del: zip_order_snd)
  then show ?thesis
    unfolding named_def zip_order_map [of "\<lambda>x. nocase (f x)"] zip_order_snd by simp
qed

text \<open>A task with its citations.\<close>

type_synonym task_block = "task_row \<times> citation_row list"

definition task_as :: "int \<Rightarrow> int \<Rightarrow> int \<times> task_def \<Rightarrow> task_block \<Rightarrow> bool" where
  "task_as v i = (\<lambda>(n, t) (r, zs).
     tk_version_id r = v \<and> tk_competency_id r = i \<and> tk_prompt r = kd_prompt t \<and> tk_sort r = n \<and>
     list_all2 (citation_as v None (Some (tk_id r))) (kd_citations t) zs)"

lemma store_tasks:
  assumes w: "writable v c" and n: "named kd_prompt ts" and z: "\<forall>t \<in> set ts. citations_wf (kd_citations t)"
    and t: "\<forall>t \<in> set ts. sql_safe (kd_prompt t) \<and> list_all sql_safe (citation_texts (kd_citations t))"
    and i: "has_competency c i v" "i \<notin> tk_competency_id ` set (tasks c)"
  shows "\<exists>bs. list_all2 (task_as v i) (zip_order ts) bs \<and>
    each (insert_task_def v i) (zip_order ts) (c, cs) =
      Inr (c\<lparr>tasks := tasks c @ map fst bs\<rparr>, cs @ concat (map snd bs))"
proof -
  have nn: "named (\<lambda>x. kd_prompt (snd x)) (zip_order ts)" using n by (simp only: named_order)
  let ?S = "\<lambda>bs. (c\<lparr>tasks := tasks c @ map fst bs\<rparr>, cs @ concat (map snd bs))"
  have "\<exists>bs. list_all2 (task_as v i) (zip_order ts) bs \<and> each (insert_task_def v i) (zip_order ts) (?S []) = Inr (?S bs)"
  proof (rule each_blocks)
    fix ys x zs and bs :: "task_block list"
    assume s: "zip_order ts = ys @ x # zs" and b: "list_all2 (task_as v i) ys bs"
    obtain o' u where x: "x = (o', u)" by (cases x)
    have u: "u \<in> set ts"
      using zip_order_in [of x ts] s x by simp
    let ?r = "\<lparr>tk_id = next_id (map tk_id (tasks c @ map fst bs)), tk_version_id = v, tk_competency_id = i,
      tk_prompt = kd_prompt u, tk_sort = o'\<rparr>"
    let ?c = "c\<lparr>tasks := tasks c @ map fst bs @ [?r]\<rparr>"
    note sp = named_split [OF nn s, unfolded x snd_conv]
    have img: "(\<lambda>b. nocase (tk_prompt (fst b))) ` set bs = (\<lambda>y. nocase (kd_prompt (snd y))) ` set ys"
      by (rule all2_image [OF b]) (auto simp: task_as_def)
    have mem: "(i, p) \<in> (\<lambda>q. (tk_competency_id q, nocase (tk_prompt q))) ` set (tasks c @ map fst bs) \<Longrightarrow>
        p \<in> (\<lambda>b. nocase (tk_prompt (fst b))) ` set bs" for p
      using i(2) by auto
    have "nocase (kd_prompt u) \<notin> (\<lambda>b. nocase (tk_prompt (fst b))) ` set bs"
      unfolding img by (rule sp(2))
    then have "(i, nocase (kd_prompt u)) \<notin>
        (\<lambda>q. (tk_competency_id q, nocase (tk_prompt q))) ` set (tasks c @ map fst bs)"
      using mem by blast
    moreover have "0 < sql_length (kd_prompt u)"
      using sp(1) t u by (simp add: sql_safe_length)
    ultimately have ins: "insert_task ?r (fst (?S bs)) = Inr ?c"
      using w i(1) by (auto simp: insert_task_def has_competency_def intro!: insert_owned_writable)
    have "has_task ?c (tk_id ?r) v" by (simp add: has_task_def)
    then obtain rs where rs: "list_all2 (citation_as v None (Some (tk_id ?r))) (kd_citations u) rs"
      "each (insert_citation v None (Some (tk_id ?r))) (kd_citations u) (?c, cs @ concat (map snd bs)) =
        Inr (?c, (cs @ concat (map snd bs)) @ rs)"
      using store_citations [of v ?c "kd_citations u" None "Some (tk_id ?r)" "cs @ concat (map snd bs)"] w z t u
      by auto
    show "\<exists>b. task_as v i x b \<and> insert_task_def v i x (?S bs) = Inr (?S (bs @ [b]))"
      using ins rs by (intro exI [of _ "(?r, rs)"]) (simp add: x task_as_def insert_task_def_def Let_def)
  qed
  then show ?thesis by simp
qed

type_synonym competency_block = "competency_row \<times> task_block list \<times> citation_row list"

definition competency_as :: "int \<Rightarrow> int \<times> competency_def \<Rightarrow> competency_block \<Rightarrow> bool" where
  "competency_as v = (\<lambda>(n, m) (r, bs, zs).
     co_version_id r = v \<and> co_category r = md_category m \<and> co_name r = md_name m \<and>
     co_description r = md_description m \<and> co_sort r = n \<and>
     list_all2 (task_as v (co_id r)) (zip_order (md_tasks m)) bs \<and>
     list_all2 (citation_as v (Some (co_id r)) None) (md_citations m) zs)"

definition block_tasks :: "competency_block \<Rightarrow> task_row list" where
  "block_tasks b = map fst (fst (snd b))"

definition block_citations :: "competency_block \<Rightarrow> citation_row list" where
  "block_citations b = concat (map snd (fst (snd b))) @ snd (snd b)"

lemma block_tasks_owner: "competency_as v x b \<Longrightarrow> t \<in> set (block_tasks b) \<Longrightarrow> tk_competency_id t = co_id (fst b)"
  by (auto simp: competency_as_def block_tasks_def task_as_def dest!: all2_in split: prod.splits)

lemma store_competencies:
  assumes w: "writable v c" and n: "named md_name ms"
    and z: "\<forall>m \<in> set ms. named kd_prompt (md_tasks m) \<and> (\<forall>t \<in> set (md_tasks m). citations_wf (kd_citations t)) \<and>
      citations_wf (md_citations m)"
    and t: "\<forall>m \<in> set ms. sql_safe (md_name m) \<and> list_all sql_safe (citation_texts (md_citations m)) \<and>
      (\<forall>t \<in> set (md_tasks m). sql_safe (kd_prompt t) \<and> list_all sql_safe (citation_texts (kd_citations t)))"
    and f: "v \<notin> co_version_id ` set (competencies c)"
    and r: "\<forall>k \<in> set (tasks c). tk_competency_id k \<in> co_id ` set (competencies c)"
  shows "\<exists>bs. list_all2 (competency_as v) (zip_order ms) bs \<and>
    each (insert_competency_def v) (zip_order ms) ((c, cs), Map.empty) =
      Inr ((c\<lparr>competencies := competencies c @ map fst bs, tasks := tasks c @ concat (map block_tasks bs)\<rparr>,
        cs @ concat (map block_citations bs)), keys co_name co_id (map fst bs))"
proof -
  have nn: "named (\<lambda>x. md_name (snd x)) (zip_order ms)" using n by (simp only: named_order)
  let ?C = "\<lambda>bs. c\<lparr>competencies := competencies c @ map fst bs, tasks := tasks c @ concat (map block_tasks bs)\<rparr>"
  let ?S = "\<lambda>bs. ((?C bs, cs @ concat (map block_citations bs)), keys co_name co_id (map fst bs))"
  have "\<exists>bs. list_all2 (competency_as v) (zip_order ms) bs \<and>
    each (insert_competency_def v) (zip_order ms) (?S []) = Inr (?S bs)"
  proof (rule each_blocks)
    fix ys x zs and bs :: "competency_block list"
    assume s: "zip_order ms = ys @ x # zs" and b: "list_all2 (competency_as v) ys bs"
    obtain o' m where x: "x = (o', m)" by (cases x)
    have m: "m \<in> set ms"
      using zip_order_in [of x ms] s x by simp
    let ?r = "\<lparr>co_id = next_id (map co_id (competencies c @ map fst bs)), co_version_id = v,
      co_category = md_category m, co_name = md_name m, co_description = md_description m, co_sort = o'\<rparr>"
    let ?c = "(?C bs)\<lparr>competencies := competencies c @ map fst bs @ [?r]\<rparr>"
    let ?cs = "cs @ concat (map block_citations bs)"
    note sp = named_split [OF nn s, unfolded x snd_conv]
    have img: "(\<lambda>b. nocase (co_name (fst b))) ` set bs = (\<lambda>y. nocase (md_name (snd y))) ` set ys"
      by (rule all2_image [OF b]) (auto simp: competency_as_def)
    have mem: "(v, p) \<in> (\<lambda>q. (co_version_id q, nocase (co_name q))) ` set (competencies c @ map fst bs) \<Longrightarrow>
        p \<in> (\<lambda>b. nocase (co_name (fst b))) ` set bs" for p
      using f by auto
    have "nocase (md_name m) \<notin> (\<lambda>b. nocase (co_name (fst b))) ` set bs"
      unfolding img by (rule sp(2))
    then have "(v, nocase (md_name m)) \<notin>
        (\<lambda>q. (co_version_id q, nocase (co_name q))) ` set (competencies c @ map fst bs)"
      using mem by blast
    moreover have "0 < sql_length (md_name m)"
      using sp(1) t m by (simp add: sql_safe_length)
    ultimately have ins: "insert_competency ?r (?C bs) = Inr ?c"
      using w by (auto simp: insert_competency_def intro!: insert_owned_writable)
    have has: "has_competency ?c (co_id ?r) v" by (simp add: has_competency_def)
    have "tk_competency_id k \<in> set (map co_id (competencies c @ map fst bs))" if k: "k \<in> set (tasks ?c)" for k
    proof (cases "k \<in> set (tasks c)")
      case True
      then show ?thesis using r by auto
    next
      case False
      with k obtain d where d: "d \<in> set bs" "k \<in> set (block_tasks d)"
        by auto
      with all2_in [OF b d(1)] block_tasks_owner have "tk_competency_id k = co_id (fst d)" by blast
      with d(1) show ?thesis by auto
    qed
    then have "next_id (map co_id (competencies c @ map fst bs)) \<notin> tk_competency_id ` set (tasks ?c)"
      by (rule next_id_image)
    then have fresh: "co_id ?r \<notin> tk_competency_id ` set (tasks ?c)"
      by (simp only: competency_row.select_convs not_False_eq_True)
    obtain tbs where tbs: "list_all2 (task_as v (co_id ?r)) (zip_order (md_tasks m)) tbs"
      "each (insert_task_def v (co_id ?r)) (zip_order (md_tasks m)) (?c, ?cs) =
        Inr (?c\<lparr>tasks := tasks ?c @ map fst tbs\<rparr>, ?cs @ concat (map snd tbs))"
      using store_tasks [of v ?c "md_tasks m" "co_id ?r" ?cs] w z t m has fresh by auto
    let ?d = "?c\<lparr>tasks := tasks ?c @ map fst tbs\<rparr>"
    have "has_competency ?d (co_id ?r) v" by (simp add: has_competency_def)
    then obtain rs where rs: "list_all2 (citation_as v (Some (co_id ?r)) None) (md_citations m) rs"
      "each (insert_citation v (Some (co_id ?r)) None) (md_citations m) (?d, ?cs @ concat (map snd tbs)) =
        Inr (?d, (?cs @ concat (map snd tbs)) @ rs)"
      using store_citations [of v ?d "md_citations m" "Some (co_id ?r)" None "?cs @ concat (map snd tbs)"] w z t m
      by auto
    show "\<exists>b. competency_as v x b \<and> insert_competency_def v x (?S bs) = Inr (?S (bs @ [b]))"
      using ins tbs rs
      by (intro exI [of _ "(?r, tbs, rs)"])
        (simp add: x competency_as_def insert_competency_def_def Let_def block_tasks_def block_citations_def)
  qed
  then show ?thesis by simp
qed

text \<open>A scale with its anchors, and the modifiers.\<close>

type_synonym scale_block = "rating_scale_row \<times> rating_anchor_row list"

definition anchor_as :: "int \<Rightarrow> int \<Rightarrow> anchor_def \<Rightarrow> rating_anchor_row \<Rightarrow> bool" where
  "anchor_as v i a r \<longleftrightarrow>
     ra_version_id r = v \<and> ra_scale_id r = i \<and>
     a = \<lparr>nd_value = ra_value r, nd_label = ra_label r, nd_definition = ra_definition r\<rparr>"

definition scale_as :: "int \<Rightarrow> scale_def \<Rightarrow> scale_block \<Rightarrow> bool" where
  "scale_as v s = (\<lambda>(r, as).
     rs_version_id r = v \<and> rs_name r = sd_name s \<and> rs_kind r = sd_kind s \<and> rs_min r = sd_min s \<and>
     rs_max r = sd_max s \<and> list_all2 (anchor_as v (rs_id r)) (sd_anchors s) as)"

lemma store_anchors:
  assumes "writable v c" and "has_scale c i v" and "distinct (map nd_value as)"
    and "\<forall>a \<in> set as. \<not> blank_text (nd_label a) \<and> sql_safe (nd_label a)"
    and "i \<notin> ra_scale_id ` set (rating_anchors c)"
  shows "\<exists>rs. list_all2 (anchor_as v i) as rs \<and>
    each (insert_anchor_def v i) as c = Inr (c\<lparr>rating_anchors := rating_anchors c @ rs\<rparr>)"
proof -
  let ?S = "\<lambda>rs. c\<lparr>rating_anchors := rating_anchors c @ rs\<rparr>"
  have "\<exists>bs. list_all2 (anchor_as v i) as bs \<and> each (insert_anchor_def v i) as (?S []) = Inr (?S bs)"
  proof (rule each_blocks)
    fix ys a zs bs
    assume s: "as = ys @ a # zs" and b: "list_all2 (anchor_as v i) ys bs"
    let ?r = "\<lparr>ra_id = next_id (map ra_id (rating_anchors c @ bs)), ra_version_id = v, ra_scale_id = i,
      ra_value = nd_value a, ra_label = nd_label a, ra_definition = nd_definition a\<rparr>"
    have img: "ra_value ` set bs = nd_value ` set ys"
      by (rule all2_image [OF b]) (simp add: anchor_as_def)
    have "nd_value a \<notin> ra_value ` set bs"
      unfolding img using assms(3) by (simp add: s)
    then have "(i, nd_value a) \<notin> (\<lambda>q. (ra_scale_id q, ra_value q)) ` set (rating_anchors c @ bs)"
      using assms(5) by auto
    moreover have "0 < sql_length (nd_label a)"
      using assms(4) s by (simp add: sql_safe_length)
    ultimately have "insert_anchor ?r (?S bs) = Inr (?S (bs @ [?r]))"
      using assms(1,2) by (auto simp: insert_anchor_def has_scale_def intro!: insert_owned_writable)
    then show "\<exists>r. anchor_as v i a r \<and> insert_anchor_def v i a (?S bs) = Inr (?S (bs @ [r]))"
      by (intro exI [of _ ?r]) (simp add: anchor_as_def insert_anchor_def_def)
  qed
  then show ?thesis by simp
qed

lemma scale_wf_shape: "scale_wf s \<Longrightarrow> scale_shape \<lparr>rs_id = i, rs_version_id = v, rs_name = sd_name s,
    rs_kind = sd_kind s, rs_min = sd_min s, rs_max = sd_max s\<rparr>"
  by (cases "sd_kind s") (auto simp: scale_wf_def scale_shape_def)

lemma store_scales:
  assumes w: "writable v c" and n: "named sd_name ss" and z: "\<forall>s \<in> set ss. scale_wf s"
    and t: "\<forall>s \<in> set ss. sql_safe (sd_name s) \<and> (\<forall>a \<in> set (sd_anchors s). sql_safe (nd_label a))"
    and f: "v \<notin> rs_version_id ` set (rating_scales c)"
    and r: "\<forall>a \<in> set (rating_anchors c). ra_scale_id a \<in> rs_id ` set (rating_scales c)"
  shows "\<exists>bs. list_all2 (scale_as v) ss bs \<and> each (insert_scale_def v) ss (c, Map.empty) =
      Inr (c\<lparr>rating_scales := rating_scales c @ map fst bs, rating_anchors := rating_anchors c @ concat (map snd bs)\<rparr>,
        keys rs_name rs_id (map fst bs))"
proof -
  let ?C = "\<lambda>bs. c\<lparr>rating_scales := rating_scales c @ map fst bs, rating_anchors := rating_anchors c @ concat (map snd bs)\<rparr>"
  let ?S = "\<lambda>bs. (?C bs, keys rs_name rs_id (map fst bs))"
  have "\<exists>bs. list_all2 (scale_as v) ss bs \<and> each (insert_scale_def v) ss (?S []) = Inr (?S bs)"
  proof (rule each_blocks)
    fix ys x zs and bs :: "scale_block list"
    assume s: "ss = ys @ x # zs" and b: "list_all2 (scale_as v) ys bs"
    let ?r = "\<lparr>rs_id = next_id (map rs_id (rating_scales c @ map fst bs)), rs_version_id = v,
      rs_name = sd_name x, rs_kind = sd_kind x, rs_min = sd_min x, rs_max = sd_max x\<rparr>"
    let ?c = "(?C bs)\<lparr>rating_scales := rating_scales c @ map fst bs @ [?r]\<rparr>"
    have img: "(\<lambda>b. nocase (rs_name (fst b))) ` set bs = (\<lambda>y. nocase (sd_name y)) ` set ys"
      by (rule all2_image [OF b]) (auto simp: scale_as_def)
    have mem: "(v, p) \<in> (\<lambda>q. (rs_version_id q, nocase (rs_name q))) ` set (rating_scales c @ map fst bs) \<Longrightarrow>
        p \<in> (\<lambda>b. nocase (rs_name (fst b))) ` set bs" for p
      using f by auto
    have "nocase (sd_name x) \<notin> (\<lambda>b. nocase (rs_name (fst b))) ` set bs"
      unfolding img by (rule named_split(2) [OF n s])
    then have "(v, nocase (sd_name x)) \<notin>
        (\<lambda>q. (rs_version_id q, nocase (rs_name q))) ` set (rating_scales c @ map fst bs)"
      using mem by blast
    moreover have "0 < sql_length (sd_name x)"
      using named_split(1) [OF n s] t s by (simp add: sql_safe_length)
    ultimately have ins: "insert_scale ?r (?C bs) = Inr ?c"
      using w z s by (auto simp: insert_scale_def scale_wf_shape intro!: insert_owned_writable)
    have "ra_scale_id k \<in> set (map rs_id (rating_scales c @ map fst bs))" if k: "k \<in> set (rating_anchors ?c)" for k
    proof (cases "k \<in> set (rating_anchors c)")
      case True
      then show ?thesis using r by auto
    next
      case False
      with k obtain d where d: "d \<in> set bs" "k \<in> set (snd d)" by auto
      obtain y where "scale_as v y d" using all2_in [OF b d(1)] by blast
      with d(2) have "ra_scale_id k = rs_id (fst d)"
        by (auto simp: scale_as_def anchor_as_def dest!: all2_in)
      with d(1) show ?thesis by auto
    qed
    then have "next_id (map rs_id (rating_scales c @ map fst bs)) \<notin> ra_scale_id ` set (rating_anchors ?c)"
      by (rule next_id_image)
    then have "rs_id ?r \<notin> ra_scale_id ` set (rating_anchors ?c)"
      by (simp only: rating_scale_row.select_convs not_False_eq_True)
    moreover have "has_scale ?c (rs_id ?r) v" by (simp add: has_scale_def)
    moreover have "scale_wf x" "\<forall>a \<in> set (sd_anchors x). sql_safe (nd_label a)" using z t s by auto
    ultimately obtain as where as: "list_all2 (anchor_as v (rs_id ?r)) (sd_anchors x) as"
      "each (insert_anchor_def v (rs_id ?r)) (sd_anchors x) ?c =
        Inr (?c\<lparr>rating_anchors := rating_anchors ?c @ as\<rparr>)"
      using store_anchors [of v ?c "rs_id ?r" "sd_anchors x"] w by (auto simp: scale_wf_def)
    show "\<exists>b. scale_as v x b \<and> insert_scale_def v x (?S bs) = Inr (?S (bs @ [b]))"
      using ins as by (intro exI [of _ "(?r, as)"]) (simp add: scale_as_def insert_scale_def_def Let_def)
  qed
  then show ?thesis by simp
qed

definition modifier_as :: "int \<Rightarrow> modifier_def \<Rightarrow> rating_modifier_row \<Rightarrow> bool" where
  "modifier_as v m r \<longleftrightarrow>
     rm_version_id r = v \<and> m = \<lparr>od_code = rm_code r, od_label = rm_label r, od_description = rm_description r\<rparr>"

lemma store_modifiers:
  assumes "writable v c" and "named od_code ms"
    and "\<forall>m \<in> set ms. \<not> blank_text (od_label m) \<and> sql_safe (od_code m) \<and> sql_safe (od_label m)"
    and "v \<notin> rm_version_id ` set (rating_modifiers c)"
  shows "\<exists>rs. list_all2 (modifier_as v) ms rs \<and>
    each (insert_modifier_def v) ms c = Inr (c\<lparr>rating_modifiers := rating_modifiers c @ rs\<rparr>)"
proof -
  let ?S = "\<lambda>rs. c\<lparr>rating_modifiers := rating_modifiers c @ rs\<rparr>"
  have "\<exists>bs. list_all2 (modifier_as v) ms bs \<and> each (insert_modifier_def v) ms (?S []) = Inr (?S bs)"
  proof (rule each_blocks)
    fix ys m zs bs
    assume s: "ms = ys @ m # zs" and b: "list_all2 (modifier_as v) ys bs"
    let ?r = "\<lparr>rm_id = next_id (map rm_id (rating_modifiers c @ bs)), rm_version_id = v, rm_code = od_code m,
      rm_label = od_label m, rm_description = od_description m\<rparr>"
    have img: "(\<lambda>r. nocase (rm_code r)) ` set bs = (\<lambda>y. nocase (od_code y)) ` set ys"
      by (rule all2_image [OF b]) (simp add: modifier_as_def)
    have "nocase (od_code m) \<notin> (\<lambda>r. nocase (rm_code r)) ` set bs"
      unfolding img by (rule named_split(2) [OF assms(2) s])
    moreover have "0 < sql_length (od_code m)" "0 < sql_length (od_label m)"
      using named_split(1) [OF assms(2) s] assms(3) s by (simp_all add: sql_safe_length)
    ultimately have "insert_rating_modifier ?r (?S bs) = Inr (?S (bs @ [?r]))"
      using assms(1,4) by (auto simp: insert_rating_modifier_def intro!: insert_owned_writable)
    then show "\<exists>r. modifier_as v m r \<and> insert_modifier_def v m (?S bs) = Inr (?S (bs @ [r]))"
      by (intro exI [of _ ?r]) (simp add: modifier_as_def insert_modifier_def_def)
  qed
  then show ?thesis by simp
qed

text \<open>A form with its bindings and narratives.\<close>

type_synonym form_block = "evaluation_form_row \<times> form_competency_row list \<times> form_narrative_row list"

definition binding_as :: "int \<Rightarrow> int \<Rightarrow> key_ids \<Rightarrow> key_ids \<Rightarrow> int \<times> binding_def \<Rightarrow> form_competency_row \<Rightarrow> bool" where
  "binding_as v i ms ss = (\<lambda>(n, b) r.
     fc_version_id r = v \<and> fc_form_id r = i \<and> fc_sort r = n \<and>
     ms (bd_competency b) = Some (fc_competency_id r) \<and> ss (bd_scale b) = Some (fc_scale_id r))"

definition narrative_as :: "int \<Rightarrow> int \<Rightarrow> int \<times> narrative_def \<Rightarrow> form_narrative_row \<Rightarrow> bool" where
  "narrative_as v i = (\<lambda>(n, x) r.
     fn_version_id r = v \<and> fn_form_id r = i \<and> fn_sort r = n \<and>
     x = \<lparr>rd_prompt = fn_prompt r, rd_required = fn_required r\<rparr>)"

definition form_as :: "int \<Rightarrow> key_ids \<Rightarrow> key_ids \<Rightarrow> form_def \<Rightarrow> form_block \<Rightarrow> bool" where
  "form_as v ms ss f = (\<lambda>(r, bs, ns).
     f_version_id r = v \<and> f_record_type r = fd_record_type f \<and> f_name r = fd_name f \<and>
     f_instructions r = fd_instructions f \<and>
     list_all2 (binding_as v (f_id r) ms ss) (zip_order (fd_competencies f)) bs \<and>
     list_all2 (narrative_as v (f_id r)) (zip_order (fd_narratives f)) ns)"

lemma store_bindings:
  assumes w: "writable v c" and h: "has_form c i v"
    and m: "key_map (\<lambda>i. has_competency c i v) ms" and s': "key_map (\<lambda>i. has_scale c i v) ss"
    and k: "\<forall>b \<in> set bds. ms (bd_competency b) \<noteq> None \<and> ss (bd_scale b) \<noteq> None"
    and d: "distinct (map bd_competency bds)" and f: "i \<notin> fc_form_id ` set (form_competencies c)"
  shows "\<exists>rs. list_all2 (binding_as v i ms ss) (zip_order bds) rs \<and>
    each (insert_binding_def v i ms ss) (zip_order bds) c = Inr (c\<lparr>form_competencies := form_competencies c @ rs\<rparr>)"
proof -
  let ?S = "\<lambda>rs. c\<lparr>form_competencies := form_competencies c @ rs\<rparr>"
  have "\<exists>bs. list_all2 (binding_as v i ms ss) (zip_order bds) bs \<and>
    each (insert_binding_def v i ms ss) (zip_order bds) (?S []) = Inr (?S bs)"
  proof (rule each_blocks)
    fix ys x zs bs
    assume s: "zip_order bds = ys @ x # zs" and b: "list_all2 (binding_as v i ms ss) ys bs"
    obtain o' u where x: "x = (o', u)" by (cases x)
    have u: "u \<in> set bds"
      using zip_order_in [of x bds] s x by simp
    obtain p q where pq: "ms (bd_competency u) = Some p" "ss (bd_scale u) = Some q"
      using k u by blast
    let ?r = "\<lparr>fc_id = next_id (map fc_id (form_competencies c @ bs)), fc_version_id = v, fc_form_id = i,
      fc_competency_id = p, fc_scale_id = q, fc_sort = o'\<rparr>"
    have inj: "n = m" if "ms n = Some a" "ms m = Some a" for n m a
      using that m by (simp add: key_map_def)
    have "p \<notin> fc_competency_id ` set bs"
    proof
      assume "p \<in> fc_competency_id ` set bs"
      then obtain r where r: "r \<in> set bs" "fc_competency_id r = p" by blast
      from all2_in [OF b r(1)] obtain y where y: "y \<in> set ys" "binding_as v i ms ss y r" by blast
      then have "bd_competency (snd y) = bd_competency u"
        using inj [of "bd_competency (snd y)" p "bd_competency u"] pq(1) r(2)
        by (simp add: binding_as_def split_beta)
      then have "bd_competency u \<in> (\<lambda>y. bd_competency (snd y)) ` set ys"
        using y(1) by (intro image_eqI [of _ _ y]) simp_all
      moreover have "distinct (map (\<lambda>y. bd_competency (snd y)) (zip_order bds))"
        using d by (simp only: zip_order_map)
      ultimately show False
        by (simp add: s x)
    qed
    moreover have "has_competency c p v" "has_scale c q v"
      using pq m s' by (auto simp: key_map_def)
    ultimately have "insert_form_competency ?r (?S bs) = Inr (?S (bs @ [?r]))"
      using w h f by (auto simp: insert_form_competency_def has_defs intro!: insert_owned_writable)
    then show "\<exists>r. binding_as v i ms ss x r \<and> insert_binding_def v i ms ss x (?S bs) = Inr (?S (bs @ [r]))"
      by (intro exI [of _ ?r]) (simp add: x binding_as_def insert_binding_def_def at_key_def pq)
  qed
  then show ?thesis by simp
qed

lemma store_narratives:
  assumes "writable v c" and "has_form c i v" and "\<forall>n \<in> set ns. \<not> blank_text (rd_prompt n) \<and> sql_safe (rd_prompt n)"
  shows "\<exists>rs. list_all2 (narrative_as v i) (zip_order ns) rs \<and>
    each (insert_narrative_def v i) (zip_order ns) c = Inr (c\<lparr>form_narratives := form_narratives c @ rs\<rparr>)"
proof -
  let ?S = "\<lambda>rs. c\<lparr>form_narratives := form_narratives c @ rs\<rparr>"
  have "\<exists>bs. list_all2 (narrative_as v i) (zip_order ns) bs \<and>
    each (insert_narrative_def v i) (zip_order ns) (?S []) = Inr (?S bs)"
  proof (rule each_blocks)
    fix ys x zs bs
    assume s: "zip_order ns = ys @ x # zs"
    obtain o' u where x: "x = (o', u)" by (cases x)
    have u: "u \<in> set ns"
      using zip_order_in [of x ns] s x by simp
    let ?r = "\<lparr>fn_id = next_id (map fn_id (form_narratives c @ bs)), fn_version_id = v, fn_form_id = i,
      fn_prompt = rd_prompt u, fn_required = rd_required u, fn_sort = o'\<rparr>"
    have "0 < sql_length (rd_prompt u)"
      using assms(3) u by (simp add: sql_safe_length)
    then have "insert_form_narrative ?r (?S bs) = Inr (?S (bs @ [?r]))"
      using assms(1,2) by (auto simp: insert_form_narrative_def has_form_def intro!: insert_owned_writable)
    then show "\<exists>r. narrative_as v i x r \<and> insert_narrative_def v i x (?S bs) = Inr (?S (bs @ [r]))"
      by (intro exI [of _ ?r]) (simp add: x narrative_as_def insert_narrative_def_def)
  qed
  then show ?thesis by simp
qed

lemma has_rows [simp]:
  "has_competency (c\<lparr>evaluation_forms := a\<rparr>) = has_competency c"
  "has_competency (c\<lparr>form_competencies := b\<rparr>) = has_competency c"
  "has_competency (c\<lparr>form_narratives := d\<rparr>) = has_competency c"
  "has_scale (c\<lparr>evaluation_forms := a\<rparr>) = has_scale c"
  "has_scale (c\<lparr>form_competencies := b\<rparr>) = has_scale c"
  "has_scale (c\<lparr>form_narratives := d\<rparr>) = has_scale c"
  by (simp_all add: fun_eq_iff has_defs)

lemma store_forms:
  assumes w: "writable v c" and n: "named fd_name fs"
    and m: "key_map (\<lambda>i. has_competency c i v) ms" and s': "key_map (\<lambda>i. has_scale c i v) ss"
    and k: "\<forall>f \<in> set fs. (\<forall>b \<in> set (fd_competencies f). ms (bd_competency b) \<noteq> None \<and> ss (bd_scale b) \<noteq> None) \<and>
      distinct (map bd_competency (fd_competencies f)) \<and>
      (\<forall>n \<in> set (fd_narratives f). \<not> blank_text (rd_prompt n) \<and> sql_safe (rd_prompt n)) \<and> sql_safe (fd_name f)"
    and f: "v \<notin> f_version_id ` set (evaluation_forms c)"
    and r: "\<forall>b \<in> set (form_competencies c). fc_form_id b \<in> f_id ` set (evaluation_forms c)"
  shows "\<exists>bs. list_all2 (form_as v ms ss) fs bs \<and> each (insert_form_def v ms ss) fs c =
      Inr (c\<lparr>evaluation_forms := evaluation_forms c @ map fst bs,
        form_competencies := form_competencies c @ concat (map (\<lambda>b. fst (snd b)) bs),
        form_narratives := form_narratives c @ concat (map (\<lambda>b. snd (snd b)) bs)\<rparr>)"
proof -
  let ?S = "\<lambda>bs. c\<lparr>evaluation_forms := evaluation_forms c @ map fst bs,
    form_competencies := form_competencies c @ concat (map (\<lambda>b. fst (snd b)) bs),
    form_narratives := form_narratives c @ concat (map (\<lambda>b. snd (snd b)) bs)\<rparr>"
  have "\<exists>bs. list_all2 (form_as v ms ss) fs bs \<and> each (insert_form_def v ms ss) fs (?S []) = Inr (?S bs)"
  proof (rule each_blocks)
    fix ys x zs and bs :: "form_block list"
    assume s: "fs = ys @ x # zs" and b: "list_all2 (form_as v ms ss) ys bs"
    let ?r = "\<lparr>f_id = next_id (map f_id (evaluation_forms c @ map fst bs)), f_version_id = v,
      f_record_type = fd_record_type x, f_name = fd_name x, f_instructions = fd_instructions x\<rparr>"
    let ?c = "(?S bs)\<lparr>evaluation_forms := evaluation_forms c @ map fst bs @ [?r]\<rparr>"
    have img: "(\<lambda>b. nocase (f_name (fst b))) ` set bs = (\<lambda>y. nocase (fd_name y)) ` set ys"
      by (rule all2_image [OF b]) (auto simp: form_as_def)
    have mem: "(v, p) \<in> (\<lambda>q. (f_version_id q, nocase (f_name q))) ` set (evaluation_forms c @ map fst bs) \<Longrightarrow>
        p \<in> (\<lambda>b. nocase (f_name (fst b))) ` set bs" for p
      using f by auto
    have "nocase (fd_name x) \<notin> (\<lambda>b. nocase (f_name (fst b))) ` set bs"
      unfolding img by (rule named_split(2) [OF n s])
    then have "(v, nocase (fd_name x)) \<notin>
        (\<lambda>q. (f_version_id q, nocase (f_name q))) ` set (evaluation_forms c @ map fst bs)"
      using mem by blast
    moreover have "0 < sql_length (fd_name x)"
      using named_split(1) [OF n s] k s by (simp add: sql_safe_length)
    ultimately have ins: "insert_form ?r (?S bs) = Inr ?c"
      using w by (auto simp: insert_form_def intro!: insert_owned_writable)
    have "fc_form_id a \<in> set (map f_id (evaluation_forms c @ map fst bs))" if a: "a \<in> set (form_competencies ?c)" for a
    proof (cases "a \<in> set (form_competencies c)")
      case True
      then show ?thesis using r by auto
    next
      case False
      with a obtain d where d: "d \<in> set bs" "a \<in> set (fst (snd d))" by auto
      obtain y where "form_as v ms ss y d" using all2_in [OF b d(1)] by blast
      with d(2) have "fc_form_id a = f_id (fst d)"
        by (auto simp: form_as_def binding_as_def dest!: all2_in)
      with d(1) show ?thesis by auto
    qed
    then have "next_id (map f_id (evaluation_forms c @ map fst bs)) \<notin> fc_form_id ` set (form_competencies ?c)"
      by (rule next_id_image)
    then have fresh: "f_id ?r \<notin> fc_form_id ` set (form_competencies ?c)"
      by (simp only: evaluation_form_row.select_convs not_False_eq_True)
    have has: "has_form ?c (f_id ?r) v" by (simp add: has_form_def)
    have x: "x \<in> set fs" by (simp add: s)
    obtain rs where rs: "list_all2 (binding_as v (f_id ?r) ms ss) (zip_order (fd_competencies x)) rs"
      "each (insert_binding_def v (f_id ?r) ms ss) (zip_order (fd_competencies x)) ?c =
        Inr (?c\<lparr>form_competencies := form_competencies ?c @ rs\<rparr>)"
      using store_bindings [of v ?c "f_id ?r" ms ss "fd_competencies x"] w m s' k x has fresh by auto
    let ?d = "?c\<lparr>form_competencies := form_competencies ?c @ rs\<rparr>"
    have "has_form ?d (f_id ?r) v" by (simp add: has_form_def)
    then obtain ns where ns: "list_all2 (narrative_as v (f_id ?r)) (zip_order (fd_narratives x)) ns"
      "each (insert_narrative_def v (f_id ?r)) (zip_order (fd_narratives x)) ?d =
        Inr (?d\<lparr>form_narratives := form_narratives ?d @ ns\<rparr>)"
      using store_narratives [of v ?d "f_id ?r" "fd_narratives x"] w k x by auto
    show "\<exists>b. form_as v ms ss x b \<and> insert_form_def v ms ss x (?S bs) = Inr (?S (bs @ [b]))"
      using ins rs ns
      by (intro exI [of _ "(?r, rs, ns)"]) (simp add: form_as_def insert_form_def_def Let_def)
  qed
  then show ?thesis by simp
qed

end
