(* ===== verification/Documents.thy ===== *)
theory Documents
  imports Storing
begin

text \<open>
  A well-formed document is stored whole: every statement succeeds, and the configuration is
  the one before with the document's rows at the end of each table.
\<close>

section \<open>Storing a document\<close>

lemma storableD:
  assumes "storable x"
  shows "sql_safe (vc_name x)" "\<forall>p \<in> set (vc_phases x). sql_safe (hd_name p)"
    "\<forall>m \<in> set (vc_competencies x). sql_safe (md_name m) \<and> list_all sql_safe (citation_texts (md_citations m)) \<and>
      (\<forall>t \<in> set (md_tasks m). sql_safe (kd_prompt t) \<and> list_all sql_safe (citation_texts (kd_citations t)))"
    "\<forall>s \<in> set (vc_scales x). sql_safe (sd_name s) \<and> (\<forall>a \<in> set (sd_anchors s). sql_safe (nd_label a))"
    "\<forall>m \<in> set (vc_modifiers x). sql_safe (od_code m) \<and> sql_safe (od_label m)"
    "\<forall>f \<in> set (vc_forms x). sql_safe (fd_name f) \<and> (\<forall>n \<in> set (fd_narratives f). sql_safe (rd_prompt n))"
    "list_all sql_safe (citation_texts (vc_citations x))"
  using assms by (simp_all add: storable_def required_texts_def list_all_iff ball_Un)

text \<open>The rows a document leaves, as what its parts ask for.\<close>

record stored_rows =
  w_phases :: "phase_row list"
  w_transitions :: "phase_transition_row list"
  w_competencies :: "competency_block list"
  w_scales :: "scale_block list"
  w_modifiers :: "rating_modifier_row list"
  w_forms :: "form_block list"
  w_citations :: "citation_row list"

abbreviation phase_keys :: "stored_rows \<Rightarrow> key_ids" where
  "phase_keys s \<equiv> keys ph_name ph_id (w_phases s)"

abbreviation competency_keys :: "stored_rows \<Rightarrow> key_ids" where
  "competency_keys s \<equiv> keys co_name co_id (map fst (w_competencies s))"

abbreviation scale_keys :: "stored_rows \<Rightarrow> key_ids" where
  "scale_keys s \<equiv> keys rs_name rs_id (map fst (w_scales s))"

definition rows_as :: "int \<Rightarrow> version_content \<Rightarrow> stored_rows \<Rightarrow> bool" where
  "rows_as v x s \<longleftrightarrow>
     list_all2 (phase_as v) (vc_phases x) (w_phases s) \<and>
     list_all2 (transition_as v (phase_keys s)) (vc_transitions x) (w_transitions s) \<and>
     list_all2 (competency_as v) (zip_order (vc_competencies x)) (w_competencies s) \<and>
     list_all2 (scale_as v) (vc_scales x) (w_scales s) \<and>
     list_all2 (modifier_as v) (vc_modifiers x) (w_modifiers s) \<and>
     list_all2 (form_as v (competency_keys s) (scale_keys s)) (vc_forms x) (w_forms s) \<and>
     list_all2 (citation_as v None None) (vc_citations x) (w_citations s)"

definition policy_row_of :: "int \<Rightarrow> policy_def \<Rightarrow> policy_row" where
  "policy_row_of v p =
     \<lparr>fp_version_id = v, fp_review_approved = pd_review_approved p,
      fp_required_narratives = pd_required_narratives p, fp_ratings_complete = pd_ratings_complete p\<rparr>"

definition with_rows :: "int \<Rightarrow> policy_def \<Rightarrow> stored_rows \<Rightarrow> config \<Rightarrow> config" where
  "with_rows v p s = (\<lambda>(c, cs).
     (c\<lparr>phases := phases c @ w_phases s,
        phase_transitions := phase_transitions c @ w_transitions s,
        competencies := competencies c @ map fst (w_competencies s),
        tasks := tasks c @ concat (map block_tasks (w_competencies s)),
        rating_scales := rating_scales c @ map fst (w_scales s),
        rating_anchors := rating_anchors c @ concat (map snd (w_scales s)),
        rating_modifiers := rating_modifiers c @ w_modifiers s,
        evaluation_forms := evaluation_forms c @ map fst (w_forms s),
        form_competencies := form_competencies c @ concat (map (\<lambda>b. fst (snd b)) (w_forms s)),
        form_narratives := form_narratives c @ concat (map (\<lambda>b. snd (snd b)) (w_forms s)),
        policies := policies c @ [policy_row_of v p]\<rparr>,
      cs @ concat (map block_citations (w_competencies s)) @ w_citations s))"

lemma each_phase_stored:
  "each (insert_phase_def v) ps (c, ids) = Inr (c', ids') \<Longrightarrow> stored v (c, cs) (c', cs)"
  by (drule stored_each [where g = "\<lambda>s. (fst s, cs)", rotated])
    (auto simp: insert_phase_def_def guard_simps Let_def intro!: stored_step(1))

lemma ids_ok_part: "ids_ok (map f (xs @ ys)) \<Longrightarrow> distinct (map f ys)"
  using ids_ok_distinct [of "map f (xs @ ys)"] by simp

lemma store_content:
  assumes ok: "config_ok y" and w: "writable v (fst y)" and new: "v \<notin> owners y"
    and wf: "well_formed x" and st: "storable x"
  shows "\<exists>s. rows_as v x s \<and> insert_content v x y = Inr (with_rows v (vc_policy x) s y)"
proof -
  obtain c cs where y: "y = (c, cs)" by (cases y)
  note t = storableD [OF st]
  have wr: "writable v c" using w by (simp add: y)
  have refs: "\<forall>k \<in> set (tasks c). tk_competency_id k \<in> co_id ` set (competencies c)"
    "\<forall>a \<in> set (rating_anchors c). ra_scale_id a \<in> rs_id ` set (rating_scales c)"
    "\<forall>b \<in> set (form_competencies c). fc_form_id b \<in> f_id ` set (evaluation_forms c)"
    using ok by (force simp: y config_ok_def references_ok_def has_defs)+
  have new': "v \<notin> ph_version_id ` set (phases c)" "v \<notin> pt_version_id ` set (phase_transitions c)"
    "v \<notin> co_version_id ` set (competencies c)" "v \<notin> rs_version_id ` set (rating_scales c)"
    "v \<notin> rm_version_id ` set (rating_modifiers c)" "v \<notin> f_version_id ` set (evaluation_forms c)"
    "v \<notin> fp_version_id ` set (policies c)"
    using new by (simp_all add: y owners_def)
  obtain prs where prs: "list_all2 (phase_as v) (vc_phases x) prs"
    "each (insert_phase_def v) (vc_phases x) (c, Map.empty) = Inr (c\<lparr>phases := phases c @ prs\<rparr>, keys ph_name ph_id prs)"
    using store_phases [of v c "vc_phases x"] wr wf t(2) new'(1) by (auto simp: well_formed_def)
  let ?pk = "keys ph_name ph_id prs" and ?c1 = "c\<lparr>phases := phases c @ prs\<rparr>"
  have ok1: "config_ok (?c1, cs)"
    using stored_ok [OF each_phase_stored [OF prs(2)]] ok y by simp
  have "key_map (\<lambda>i. has_phase ?c1 i v) ?pk"
  proof (rule keys_key_map)
    show "distinct (map ph_id prs)"
      using ok1 by (intro ids_ok_part [of _ "phases c"]) (simp add: config_ok_def ids_sound_def)
    show "has_phase ?c1 (ph_id r) v" if "r \<in> set prs" for r
      using all2_in [OF prs(1) that] that by (force simp: has_phase_def phase_as_def)
  qed
  moreover have names: "ph_name ` set prs = hd_name ` set (vc_phases x)"
    by (rule all2_image [OF prs(1)]) (simp add: phase_as_def)
  have "?pk n \<noteq> None" if "n \<in> hd_name ` set (vc_phases x)" for n
    using keys_Some [of n ph_name prs ph_id] that names by auto
  then have "\<forall>t \<in> set (vc_transitions x). ?pk (td_from t) \<noteq> None \<and> ?pk (td_to t) \<noteq> None"
    using wf by (simp add: well_formed_def)
  ultimately obtain trs where trs: "list_all2 (transition_as v ?pk) (vc_transitions x) trs"
    "each (insert_transition_def v ?pk) (vc_transitions x) ?c1 =
      Inr (?c1\<lparr>phase_transitions := phase_transitions ?c1 @ trs\<rparr>)"
    using store_transitions [of v ?c1 ?pk "vc_transitions x"] wr wf new'(2) by (auto simp: well_formed_def)
  let ?c2 = "?c1\<lparr>phase_transitions := phase_transitions ?c1 @ trs\<rparr>"
  have i1: "insert_phases v x c = Inr ?c2"
    using prs(2) trs(2) by (simp add: insert_phases_def)
  have ok2: "config_ok (?c2, cs)"
    using stored_ok [OF insert_phases_stored [OF i1]] ok y by simp
  obtain cbs where cbs: "list_all2 (competency_as v) (zip_order (vc_competencies x)) cbs"
    "each (insert_competency_def v) (zip_order (vc_competencies x)) ((?c2, cs), Map.empty) =
      Inr ((?c2\<lparr>competencies := competencies ?c2 @ map fst cbs, tasks := tasks ?c2 @ concat (map block_tasks cbs)\<rparr>,
        cs @ concat (map block_citations cbs)), keys co_name co_id (map fst cbs))"
    using store_competencies [of v ?c2 "vc_competencies x" cs] wr wf t(3) new'(3) refs(1)
    by (auto simp: well_formed_def)
  let ?c3 = "?c2\<lparr>competencies := competencies ?c2 @ map fst cbs, tasks := tasks ?c2 @ concat (map block_tasks cbs)\<rparr>"
  let ?cs3 = "cs @ concat (map block_citations cbs)" and ?ck = "keys co_name co_id (map fst cbs)"
  have i2: "insert_competencies v x (?c2, cs) = Inr ((?c3, ?cs3), ?ck)"
    using cbs(2) by (simp add: insert_competencies_def)
  have ok3: "config_ok (?c3, ?cs3)"
    by (rule stored_ok [OF insert_competencies_stored [OF i2] ok2])
  obtain sbs where sbs: "list_all2 (scale_as v) (vc_scales x) sbs"
    "each (insert_scale_def v) (vc_scales x) (?c3, Map.empty) =
      Inr (?c3\<lparr>rating_scales := rating_scales ?c3 @ map fst sbs,
        rating_anchors := rating_anchors ?c3 @ concat (map snd sbs)\<rparr>, keys rs_name rs_id (map fst sbs))"
    using store_scales [of v ?c3 "vc_scales x"] wr wf t(4) new'(4) refs(2) by (auto simp: well_formed_def)
  let ?c4 = "?c3\<lparr>rating_scales := rating_scales ?c3 @ map fst sbs,
    rating_anchors := rating_anchors ?c3 @ concat (map snd sbs)\<rparr>"
  let ?sk = "keys rs_name rs_id (map fst sbs)"
  obtain mrs where mrs: "list_all2 (modifier_as v) (vc_modifiers x) mrs"
    "each (insert_modifier_def v) (vc_modifiers x) ?c4 =
      Inr (?c4\<lparr>rating_modifiers := rating_modifiers ?c4 @ mrs\<rparr>)"
    using store_modifiers [of v ?c4 "vc_modifiers x"] wr wf t(5) new'(5) by (auto simp: well_formed_def)
  let ?c5 = "?c4\<lparr>rating_modifiers := rating_modifiers ?c4 @ mrs\<rparr>"
  have i3: "insert_scales v x ?c3 = Inr (?c5, ?sk)"
    using sbs(2) mrs(2) by (simp add: insert_scales_def)
  have ok5: "config_ok (?c5, ?cs3)"
    by (rule stored_ok [OF insert_scales_stored [OF i3] ok3])
  have ck: "key_map (\<lambda>i. has_competency ?c5 i v) ?ck"
  proof (rule keys_key_map)
    show "distinct (map co_id (map fst cbs))"
      using ok5 by (intro ids_ok_part [of _ "competencies c"]) (simp add: config_ok_def ids_sound_def)
    show "has_competency ?c5 (co_id r) v" if r: "r \<in> set (map fst cbs)" for r
    proof -
      obtain b where b: "b \<in> set cbs" "r = fst b" using r by auto
      with all2_in [OF cbs(1) b(1)] have "co_version_id r = v" by (auto simp: competency_as_def)
      with r show ?thesis by (force simp: has_competency_def)
    qed
  qed
  have sk: "key_map (\<lambda>i. has_scale ?c5 i v) ?sk"
  proof (rule keys_key_map)
    show "distinct (map rs_id (map fst sbs))"
      using ok5 by (intro ids_ok_part [of _ "rating_scales c"]) (simp add: config_ok_def ids_sound_def)
    show "has_scale ?c5 (rs_id r) v" if r: "r \<in> set (map fst sbs)" for r
    proof -
      obtain b where b: "b \<in> set sbs" "r = fst b" using r by auto
      with all2_in [OF sbs(1) b(1)] have "rs_version_id r = v" by (auto simp: scale_as_def)
      with r show ?thesis by (force simp: has_scale_def)
    qed
  qed
  have "(\<lambda>b. co_name (fst b)) ` set cbs = (\<lambda>m. md_name (snd m)) ` set (zip_order (vc_competencies x))"
    by (rule all2_image [OF cbs(1)]) (auto simp: competency_as_def)
  also have "\<dots> = set (map (\<lambda>m. md_name (snd m)) (zip_order (vc_competencies x)))"
    by simp
  finally have cn: "co_name ` set (map fst cbs) = md_name ` set (vc_competencies x)"
    unfolding zip_order_map [of md_name] by (simp add: image_image)
  have "(\<lambda>b. rs_name (fst b)) ` set sbs = sd_name ` set (vc_scales x)"
    by (rule all2_image [OF sbs(1)]) (auto simp: scale_as_def)
  then have sn: "rs_name ` set (map fst sbs) = sd_name ` set (vc_scales x)"
    by (simp add: image_image)
  have ckn: "?ck n \<noteq> None" if "n \<in> md_name ` set (vc_competencies x)" for n
    using keys_Some [of n co_name "map fst cbs" co_id] that cn by auto
  have skn: "?sk n \<noteq> None" if "n \<in> sd_name ` set (vc_scales x)" for n
    using keys_Some [of n rs_name "map fst sbs" rs_id] that sn by auto
  obtain fbs where fbs: "list_all2 (form_as v ?ck ?sk) (vc_forms x) fbs"
    "each (insert_form_def v ?ck ?sk) (vc_forms x) ?c5 =
      Inr (?c5\<lparr>evaluation_forms := evaluation_forms ?c5 @ map fst fbs,
        form_competencies := form_competencies ?c5 @ concat (map (\<lambda>b. fst (snd b)) fbs),
        form_narratives := form_narratives ?c5 @ concat (map (\<lambda>b. snd (snd b)) fbs)\<rparr>)"
  proof -
    have "\<forall>f \<in> set (vc_forms x). (\<forall>b \<in> set (fd_competencies f). ?ck (bd_competency b) \<noteq> None \<and> ?sk (bd_scale b) \<noteq> None) \<and>
      distinct (map bd_competency (fd_competencies f)) \<and>
      (\<forall>n \<in> set (fd_narratives f). \<not> blank_text (rd_prompt n) \<and> sql_safe (rd_prompt n)) \<and> sql_safe (fd_name f)"
      using wf t(6) ckn skn by (simp add: well_formed_def form_wf_def)
    moreover have "named fd_name (vc_forms x)" using wf by (simp add: well_formed_def)
    ultimately show thesis
      using store_forms [of v ?c5 "vc_forms x" ?ck ?sk] wr ck sk new'(6) refs(3) that by auto
  qed
  let ?c6 = "?c5\<lparr>evaluation_forms := evaluation_forms ?c5 @ map fst fbs,
    form_competencies := form_competencies ?c5 @ concat (map (\<lambda>b. fst (snd b)) fbs),
    form_narratives := form_narratives ?c5 @ concat (map (\<lambda>b. snd (snd b)) fbs)\<rparr>"
  obtain grs where grs: "list_all2 (citation_as v None None) (vc_citations x) grs"
    "each (insert_citation v None None) (vc_citations x) (?c6, ?cs3) = Inr (?c6, ?cs3 @ grs)"
    using store_citations [of v ?c6 "vc_citations x" None None ?cs3] wr wf t(7) by (auto simp: well_formed_def)
  have pol: "insert_policy_row (policy_row_of v (vc_policy x)) ?c6 =
      Inr (?c6\<lparr>policies := policies ?c6 @ [policy_row_of v (vc_policy x)]\<rparr>)"
    using wr new'(7) by (auto simp: insert_policy_row_def policy_row_of_def intro!: insert_owned_writable)
  let ?s = "\<lparr>w_phases = prs, w_transitions = trs, w_competencies = cbs, w_scales = sbs, w_modifiers = mrs,
    w_forms = fbs, w_citations = grs\<rparr>"
  have "rows_as v x ?s"
    using prs(1) trs(1) cbs(1) sbs(1) mrs(1) fbs(1) grs(1) by (simp add: rows_as_def)
  moreover have "insert_content v x y = Inr (with_rows v (vc_policy x) ?s y)"
    unfolding y insert_content_def prod.case i1 seq_Inr i2 i3 fbs(2) grs(2)
      policy_row_of_def [symmetric] pol
    by (simp add: with_rows_def)
  ultimately show ?thesis by blast
qed

section \<open>A document that was stored\<close>

text \<open>The checks of the schema on its required texts, whatever the validation said of them.\<close>

lemma each_Inr_in: "each f xs s = Inr s' \<Longrightarrow> x \<in> set xs \<Longrightarrow> \<exists>t t'. f x t = Inr t'"
  by (induction xs arbitrary: s) (auto simp: guard_simps)

lemma each_safe:
  assumes "each f xs s = Inr s'" and "\<And>x t t'. f x t = Inr t' \<Longrightarrow> P x" shows "\<forall>x \<in> set xs. P x"
proof
  fix x assume "x \<in> set xs"
  from each_Inr_in [OF assms(1) this] assms(2) show "P x" by blast
qed

lemma each_order_safe:
  assumes "each f (zip_order xs) s = Inr s'" and "\<And>x t t'. f x t = Inr t' \<Longrightarrow> P (snd x)" shows "\<forall>x \<in> set xs. P x"
proof -
  have "\<forall>y \<in> set (zip_order xs). P (snd y)"
    using assms(1) by (rule each_safe [where P = "\<lambda>y. P (snd y)"]) (rule assms(2))
  moreover have "set xs = snd ` set (zip_order xs)" by (metis list.set_map zip_order_snd)
  ultimately show ?thesis by simp
qed

lemma citation_safe:
  "insert_citation v m t x s = Inr s' \<Longrightarrow> sql_safe (cd_body x) \<and> sql_safe (cd_clause x)"
  by (cases s) (auto simp: insert_citation_def insert_citation_row_def row_simps sql_safe_def)

lemma citations_safe:
  "each (insert_citation v m t) cs s = Inr s' \<Longrightarrow> list_all sql_safe (citation_texts cs)"
  using each_safe [of "insert_citation v m t" cs s s' "\<lambda>x. sql_safe (cd_body x) \<and> sql_safe (cd_clause x)"]
    citation_safe by (auto simp: citation_texts_def list_all_iff)

lemma task_safe:
  assumes "insert_task_def v i x s = Inr s'"
  shows "sql_safe (kd_prompt (snd x)) \<and> list_all sql_safe (citation_texts (kd_citations (snd x)))"
proof -
  obtain n t c cs where x: "x = (n, t)" "s = (c, cs)" by (cases x; cases s)
  from assms obtain j c1 where "insert_task \<lparr>tk_id = j, tk_version_id = v, tk_competency_id = i,
        tk_prompt = kd_prompt t, tk_sort = n\<rparr> c = Inr c1"
    and r: "each (insert_citation v None (Some j)) (kd_citations t) (c1, cs) = Inr s'"
    by (auto simp: x insert_task_def_def Let_def guard_simps)
  then have "sql_safe (kd_prompt t)" by (auto simp: insert_task_def row_simps sql_safe_def)
  then show ?thesis using citations_safe [OF r] by (simp add: x)
qed

lemma tasks_safe:
  "each (insert_task_def v i) (zip_order ts) s = Inr s' \<Longrightarrow>
     \<forall>t \<in> set ts. sql_safe (kd_prompt t) \<and> list_all sql_safe (citation_texts (kd_citations t))"
  by (erule each_order_safe [where P = "\<lambda>t. sql_safe (kd_prompt t) \<and> list_all sql_safe (citation_texts (kd_citations t))"])
    (rule task_safe)

lemma competency_safe:
  assumes "insert_competency_def v x s = Inr s'"
  shows "sql_safe (md_name (snd x)) \<and> list_all sql_safe (citation_texts (md_citations (snd x))) \<and>
    (\<forall>t \<in> set (md_tasks (snd x)). sql_safe (kd_prompt t) \<and> list_all sql_safe (citation_texts (kd_citations t)))"
proof -
  obtain n m where x: "x = (n, m)" by (cases x)
  obtain c cs ids where s: "s = ((c, cs), ids)" by (metis prod.exhaust)
  from assms obtain i c1 y z where "insert_competency \<lparr>co_id = i, co_version_id = v, co_category = md_category m,
        co_name = md_name m, co_description = md_description m, co_sort = n\<rparr> c = Inr c1"
    and t: "each (insert_task_def v i) (zip_order (md_tasks m)) (c1, cs) = Inr y"
    and r: "each (insert_citation v (Some i) None) (md_citations m) y = Inr z"
    by (auto simp: x s insert_competency_def_def Let_def guard_simps)
  then have "sql_safe (md_name m)" by (auto simp: insert_competency_def row_simps sql_safe_def)
  then show ?thesis using tasks_safe [OF t] citations_safe [OF r] by (simp add: x)
qed

lemma anchor_safe: "insert_anchor_def v i a t = Inr t' \<Longrightarrow> sql_safe (nd_label a)"
  by (auto simp: insert_anchor_def_def insert_anchor_def row_simps sql_safe_def)

lemma scale_safe:
  assumes "insert_scale_def v x s = Inr s'"
  shows "sql_safe (sd_name x) \<and> (\<forall>a \<in> set (sd_anchors x). sql_safe (nd_label a))"
proof -
  obtain c ids where s: "s = (c, ids)" by (cases s)
  from assms obtain i c1 c2 where "insert_scale \<lparr>rs_id = i, rs_version_id = v, rs_name = sd_name x, rs_kind = sd_kind x,
        rs_min = sd_min x, rs_max = sd_max x\<rparr> c = Inr c1"
    and a: "each (insert_anchor_def v i) (sd_anchors x) c1 = Inr c2"
    by (auto simp: s insert_scale_def_def Let_def guard_simps)
  then have "sql_safe (sd_name x)" by (auto simp: insert_scale_def row_simps sql_safe_def)
  moreover have "\<forall>a \<in> set (sd_anchors x). sql_safe (nd_label a)"
    using a by (rule each_safe [where P = "\<lambda>a. sql_safe (nd_label a)"]) (rule anchor_safe)
  ultimately show ?thesis by simp
qed

lemma modifier_safe: "insert_modifier_def v x s = Inr s' \<Longrightarrow> sql_safe (od_code x) \<and> sql_safe (od_label x)"
  by (auto simp: insert_modifier_def_def insert_rating_modifier_def row_simps sql_safe_def)

lemma narrative_safe: "insert_narrative_def v i n t = Inr t' \<Longrightarrow> sql_safe (rd_prompt (snd n))"
  by (cases n) (auto simp: insert_narrative_def_def insert_form_narrative_def row_simps sql_safe_def)

lemma form_safe:
  assumes "insert_form_def v ms ss x s = Inr s'"
  shows "sql_safe (fd_name x) \<and> (\<forall>n \<in> set (fd_narratives x). sql_safe (rd_prompt n))"
proof -
  from assms obtain i c1 c2 where "insert_form \<lparr>f_id = i, f_version_id = v, f_record_type = fd_record_type x,
        f_name = fd_name x, f_instructions = fd_instructions x\<rparr> s = Inr c1"
    and n: "each (insert_narrative_def v i) (zip_order (fd_narratives x)) c2 = Inr s'"
    by (auto simp: insert_form_def_def Let_def guard_simps)
  then have "sql_safe (fd_name x)" by (auto simp: insert_form_def row_simps sql_safe_def)
  moreover have "\<forall>n \<in> set (fd_narratives x). sql_safe (rd_prompt n)"
    using n by (rule each_order_safe [where P = "\<lambda>n. sql_safe (rd_prompt n)"]) (rule narrative_safe)
  ultimately show ?thesis by simp
qed

lemma insert_content_storable:
  assumes "insert_content v x y = Inr z" and "sql_safe (vc_name x)" shows "storable x"
  using assms(1)
proof (rule insert_content_Inr)
  fix c1 s2 s3 c4 s5 c6
  assume a: "insert_phases v x (fst y) = Inr c1"
    and b: "insert_competencies v x (c1, snd y) = Inr s2"
    and d: "insert_scales v x (fst (fst s2)) = Inr s3"
    and e: "each (insert_form_def v (snd s2) (snd s3)) (vc_forms x) (fst s3) = Inr c4"
    and f: "each (insert_citation v None None) (vc_citations x) (c4, snd (fst s2)) = Inr s5"
  have p: "sql_safe (hd_name p)" if "insert_phase_def v p t = Inr t'" for p t t'
    using that by (cases t) (auto simp: insert_phase_def_def insert_phase_def Let_def guard_simps row_simps sql_safe_def)
  obtain t where "each (insert_phase_def v) (vc_phases x) (fst y, Map.empty) = Inr t"
    using a by (auto simp: insert_phases_def guard_simps)
  then have "\<forall>p \<in> set (vc_phases x). sql_safe (hd_name p)"
    by (rule each_safe [where P = "\<lambda>p. sql_safe (hd_name p)"]) (rule p)
  moreover have "\<forall>m \<in> set (vc_competencies x). sql_safe (md_name m) \<and> list_all sql_safe (citation_texts (md_citations m)) \<and>
      (\<forall>t \<in> set (md_tasks m). sql_safe (kd_prompt t) \<and> list_all sql_safe (citation_texts (kd_citations t)))"
    using b [unfolded insert_competencies_def]
    by (rule each_order_safe [where P = "\<lambda>m. sql_safe (md_name m) \<and> list_all sql_safe (citation_texts (md_citations m)) \<and>
      (\<forall>t \<in> set (md_tasks m). sql_safe (kd_prompt t) \<and> list_all sql_safe (citation_texts (kd_citations t)))"])
      (rule competency_safe)
  moreover obtain u c3 where u: "each (insert_scale_def v) (vc_scales x) (fst (fst s2), Map.empty) = Inr u"
    and m: "each (insert_modifier_def v) (vc_modifiers x) (fst u) = Inr c3"
    using d by (auto simp: insert_scales_def guard_simps)
  moreover from u have "\<forall>s \<in> set (vc_scales x). sql_safe (sd_name s) \<and> (\<forall>a \<in> set (sd_anchors s). sql_safe (nd_label a))"
    by (rule each_safe [where P = "\<lambda>s. sql_safe (sd_name s) \<and> (\<forall>a \<in> set (sd_anchors s). sql_safe (nd_label a))"])
      (rule scale_safe)
  moreover from m have "\<forall>m \<in> set (vc_modifiers x). sql_safe (od_code m) \<and> sql_safe (od_label m)"
    by (rule each_safe [where P = "\<lambda>m. sql_safe (od_code m) \<and> sql_safe (od_label m)"]) (rule modifier_safe)
  moreover from e have "\<forall>f \<in> set (vc_forms x). sql_safe (fd_name f) \<and> (\<forall>n \<in> set (fd_narratives f). sql_safe (rd_prompt n))"
    by (rule each_safe [where P = "\<lambda>f. sql_safe (fd_name f) \<and> (\<forall>n \<in> set (fd_narratives f). sql_safe (rd_prompt n))"])
      (rule form_safe)
  moreover note citations_safe [OF f]
  ultimately show ?thesis
    using assms(2) by (simp add: storable_def required_texts_def list_all_iff ball_Un)
qed

end
