(* ===== verification/Reading.thy ===== *)
theory Reading
  imports Documents
begin

text \<open>
  Reading a stored document back: the slots route every row to its owner, so the read gives the
  document that was written, in export order.
\<close>

section \<open>Sorting\<close>

lemma insort_map: "(\<And>x. k x = k' (g x)) \<Longrightarrow> map g (insort_key k a xs) = insort_key k' (g a) (map g xs)"
  by (induction xs) simp_all

lemma sort_map: "(\<And>x. k x = k' (g x)) \<Longrightarrow> map g (sort_key k xs) = sort_key k' (map g xs)"
  by (induction xs) (simp_all add: insort_map)

lemma orders_ascend: "sorted_wrt (<) (map fst (zip_order xs))"
proof -
  have "sorted_wrt (<) (map int [0..<n])" for n
    by (induction n) (auto simp: sorted_wrt_append)
  moreover have "map fst (zip_order xs) = map int [0..<length xs]"
    by (rule nth_equalityI) (simp_all add: zip_order_def nth_enumerate_eq)
  ultimately show ?thesis by simp
qed

text \<open>Rows whose first sort column ascends are in the order of any key that starts with it.\<close>

lemma ascending_sorted:
  fixes f :: "'a \<Rightarrow> 'k :: linorder" and g :: "'a \<Rightarrow> 'l :: linorder"
  assumes "sorted_wrt (<) (map f xs)" shows "sort_key (\<lambda>x. (f x, g x)) xs = xs"
  using assms by (intro sort_key_id_if_sorted) (induction xs, auto simp: less_prod_def)

section \<open>Slots\<close>

lemma slots_nth:
  assumes "distinct is" and "i < length is" shows "slots is (is ! i) = Some i"
  using assms map_of_zip_nth [of "is" "[0..<length is]" i] by (simp add: slots_def)

lemma at_slot_rows:
  assumes "distinct (map key rows)" and "k \<in> key ` set rows"
  shows "at_slot (slots (map key rows)) k f (map G rows) = Inr (map (\<lambda>r. if key r = k then f (G r) else G r) rows)"
proof -
  obtain i where i: "i < length rows" "key (rows ! i) = k"
    using assms(2) by (auto simp: in_set_conv_nth)
  have "slots (map key rows) k = Some i"
    using slots_nth [OF assms(1), of i] i by simp
  moreover have "(map G rows)[i := f (map G rows ! i)] = map (\<lambda>r. if key r = k then f (G r) else G r) rows"
  proof (rule nth_equalityI)
    fix j assume "j < length ((map G rows)[i := f (map G rows ! i)])"
    then have j: "j < length rows" by simp
    have "key (rows ! j) = k \<longleftrightarrow> j = i"
      using nth_eq_iff_index_eq [OF assms(1), of j i] i j by simp
    then show "(map G rows)[i := f (map G rows ! i)] ! j = map (\<lambda>r. if key r = k then f (G r) else G r) rows ! j"
      using i j by (simp add: nth_list_update)
  qed simp
  ultimately show ?thesis by (simp add: at_slot_def at_key_def)
qed

lemma each_at_slot:
  assumes "distinct (map key rows)" and "\<forall>a \<in> set as. owner a \<in> key ` set rows"
  shows "each (\<lambda>a. at_slot (slots (map key rows)) (owner a) (push a)) as (map G rows) =
    Inr (map (\<lambda>r. fold push (filter (\<lambda>a. owner a = key r) as) (G r)) rows)"
  using assms(2)
proof (induction as arbitrary: G)
  case (Cons a as)
  have "each (\<lambda>a. at_slot (slots (map key rows)) (owner a) (push a)) (a # as) (map G rows) =
      each (\<lambda>a. at_slot (slots (map key rows)) (owner a) (push a)) as
        (map (\<lambda>r. if key r = owner a then push a (G r) else G r) rows)"
    using Cons.prems by (simp add: at_slot_rows [OF assms(1)])
  also have "\<dots> = Inr (map (\<lambda>r. fold push (filter (\<lambda>b. owner b = key r) as)
      (if key r = owner a then push a (G r) else G r)) rows)"
    using Cons by simp
  also have "\<dots> = Inr (map (\<lambda>r. fold push (filter (\<lambda>b. owner b = key r) (a # as)) (G r)) rows)"
    by (auto intro!: map_cong)
  finally show ?case .
qed simp

text \<open>The rows of one owner among blocks of rows, each block with its own owner.\<close>

lemma filter_blocks:
  assumes "distinct (map kf bs)" and "\<And>b a. b \<in> set bs \<Longrightarrow> a \<in> set (g b) \<Longrightarrow> key a = kf b" and "b \<in> set bs"
  shows "filter (\<lambda>a. key a = kf b) (concat (map g bs)) = g b"
  using assms
proof (induction bs)
  case (Cons d bs)
  have other: "filter (\<lambda>a. key a = kf e) (g e') = []" if "e' \<in> set (d # bs)" "kf e \<noteq> kf e'" for e e'
    using that Cons.prems(2) by (auto simp: filter_empty_conv)
  have same: "filter (\<lambda>a. key a = kf e) (g e) = g e" if "e \<in> set (d # bs)" for e
    using that Cons.prems(2) by (auto simp: filter_id_conv)
  show ?case
  proof (cases "b = d")
    case True
    have "filter (\<lambda>a. key a = kf d) (g e) = []" if "e \<in> set bs" for e
      using that Cons.prems(1) by (intro other) (auto simp: image_iff)
    then have "filter (\<lambda>a. key a = kf d) (concat (map g bs)) = []"
      by (auto simp: filter_empty_conv)
    with True same [of d] show ?thesis by simp
  next
    case False
    then have b: "b \<in> set bs" using Cons.prems(3) by simp
    then have "kf b \<noteq> kf d" using Cons.prems(1) by (auto simp: image_iff)
    then have "filter (\<lambda>a. key a = kf b) (g d) = []" by (intro other) simp_all
    with b Cons show ?thesis by simp
  qed
qed simp

lemma filter_new:
  "(\<forall>r \<in> set xs. g r \<noteq> v) \<Longrightarrow> (\<forall>r \<in> set ys. g r = v) \<Longrightarrow> filter (\<lambda>r. g r = v) (xs @ ys) = ys"
  by (simp add: filter_empty_conv filter_id_conv)

lemma all2_map_in:
  "list_all2 R xs ys \<Longrightarrow> (\<And>x y. x \<in> set xs \<Longrightarrow> y \<in> set ys \<Longrightarrow> R x y \<Longrightarrow> f x = g y) \<Longrightarrow> map f xs = map g ys"
  by (induction rule: list_all2_induct) auto

lemma all2_ball: "list_all2 R xs ys \<Longrightarrow> (\<And>x y. R x y \<Longrightarrow> P y) \<Longrightarrow> \<forall>y \<in> set ys. P y"
  by (induction rule: list_all2_induct) auto

lemma all2_map_filter: "list_all2 R xs ys \<Longrightarrow> (\<And>x y. R x y \<Longrightarrow> f y = Some x) \<Longrightarrow> List.map_filter f ys = xs"
  by (induction rule: list_all2_induct) (auto simp: List.map_filter_simps)

section \<open>Competencies, tasks and citations\<close>

text \<open>
  A competency list filled from the rows of its competencies and tasks: \<open>T\<close> gives the citations
  of a task row, \<open>D\<close> those of a competency row.
\<close>

definition filled_task :: "(task_row \<Rightarrow> citation_def list) \<Rightarrow> task_row \<Rightarrow> task_def" where
  "filled_task T t = \<lparr>kd_prompt = tk_prompt t, kd_citations = T t\<rparr>"

definition tasks_under :: "task_row list \<Rightarrow> competency_row \<Rightarrow> task_row list" where
  "tasks_under ts m = filter (\<lambda>t. tk_competency_id t = co_id m) ts"

definition filled ::
    "(task_row \<Rightarrow> citation_def list) \<Rightarrow> (competency_row \<Rightarrow> citation_def list) \<Rightarrow> task_row list
      \<Rightarrow> competency_row \<Rightarrow> competency_def" where
  "filled T D ts m =
     \<lparr>md_category = co_category m, md_name = co_name m, md_description = co_description m,
      md_tasks = map (filled_task T) (tasks_under ts m), md_citations = D m\<rparr>"

text \<open>The map of task rows leads to the competency and the place of the task.\<close>

definition indexes :: "competency_row list \<Rightarrow> task_row list \<Rightarrow> task_index \<Rightarrow> bool" where
  "indexes rows ts index \<longleftrightarrow>
     (\<forall>t \<in> set ts. \<exists>i k. index (tk_id t) = Some (i, k) \<and> i < length rows \<and>
        k < length (tasks_under ts (rows ! i)) \<and> tasks_under ts (rows ! i) ! k = t)"

lemma tasks_under_snoc:
  "tasks_under (ts @ [t]) m = tasks_under ts m @ (if tk_competency_id t = co_id m then [t] else [])"
  by (simp add: tasks_under_def)

lemma load_tasks:
  assumes "distinct (map co_id rows)" and "distinct (map tk_id ts)"
    and "\<forall>t \<in> set ts. tk_competency_id t \<in> co_id ` set rows"
  shows "\<exists>index. indexes rows ts index \<and>
    each (push_task (slots (map co_id rows))) ts (map bare_competency rows, Map.empty) =
      Inr (map (filled (\<lambda>_. []) (\<lambda>_. []) ts) rows, index)"
  using assms(2,3)
proof (induction ts rule: rev_induct)
  case Nil
  have "bare_competency = filled (\<lambda>_. []) (\<lambda>_. []) []"
    by (simp add: fun_eq_iff bare_competency_def filled_def tasks_under_def)
  then show ?case by (simp add: indexes_def)
next
  case (snoc t ts)
  then obtain index where ix: "indexes rows ts index"
    and e: "each (push_task (slots (map co_id rows))) ts (map bare_competency rows, Map.empty) =
      Inr (map (filled (\<lambda>_. []) (\<lambda>_. []) ts) rows, index)" by auto
  let ?F = "filled (\<lambda>_. []) (\<lambda>_. [])"
  obtain i where i: "i < length rows" "co_id (rows ! i) = tk_competency_id t"
    using snoc.prems(2) by (auto simp: in_set_conv_nth)
  have s: "slots (map co_id rows) (tk_competency_id t) = Some i"
    using slots_nth [OF assms(1), of i] i by simp
  let ?k = "length (tasks_under ts (rows ! i))"
  have upd: "(map (?F ts) rows)[i := (?F ts (rows ! i))\<lparr>md_tasks := md_tasks (?F ts (rows ! i)) @
      [\<lparr>kd_prompt = tk_prompt t, kd_citations = []\<rparr>]\<rparr>] = map (?F (ts @ [t])) rows"
  proof (rule nth_equalityI)
    fix j assume j: "j < length ((map (?F ts) rows)[i := (?F ts (rows ! i))\<lparr>md_tasks :=
      md_tasks (?F ts (rows ! i)) @ [\<lparr>kd_prompt = tk_prompt t, kd_citations = []\<rparr>]\<rparr>])"
    have "co_id (rows ! j) = tk_competency_id t \<longleftrightarrow> j = i"
      using nth_eq_iff_index_eq [OF assms(1), of j i] i j by auto
    then show "(map (?F ts) rows)[i := (?F ts (rows ! i))\<lparr>md_tasks := md_tasks (?F ts (rows ! i)) @
      [\<lparr>kd_prompt = tk_prompt t, kd_citations = []\<rparr>]\<rparr>] ! j = map (?F (ts @ [t])) rows ! j"
      using i j by (auto simp: nth_list_update filled_def filled_task_def tasks_under_snoc)
  qed simp
  have "indexes rows (ts @ [t]) (index(tk_id t \<mapsto> (i, ?k)))"
    unfolding indexes_def
  proof
    fix u assume u: "u \<in> set (ts @ [t])"
    show "\<exists>i' k. (index(tk_id t \<mapsto> (i, ?k))) (tk_id u) = Some (i', k) \<and> i' < length rows \<and>
      k < length (tasks_under (ts @ [t]) (rows ! i')) \<and> tasks_under (ts @ [t]) (rows ! i') ! k = u"
    proof (cases "u = t")
      case True
      then show ?thesis using i by (simp add: tasks_under_snoc)
    next
      case False
      with u have "u \<in> set ts" by simp
      moreover have "tk_id u \<noteq> tk_id t"
        using \<open>u \<in> set ts\<close> snoc.prems(1) by (auto simp: image_iff)
      ultimately show ?thesis
        using ix unfolding indexes_def by (fastforce simp: tasks_under_snoc nth_append)
    qed
  qed
  moreover have "push_task (slots (map co_id rows)) t (map (?F ts) rows, index) =
      Inr (map (?F (ts @ [t])) rows, index(tk_id t \<mapsto> (i, ?k)))"
    using upd i(1) by (simp add: push_task_def at_key_def s filled_def)
  ultimately show ?case
    using e by (auto simp: each_append)
qed


text \<open>The citations of each owner, in the order they are read.\<close>

definition task_cites :: "citation_row list \<Rightarrow> task_row \<Rightarrow> citation_def list" where
  "task_cites cs t = map citation_of (filter (\<lambda>r. ci_task_id r = Some (tk_id t)) cs)"

definition competency_cites :: "citation_row list \<Rightarrow> competency_row \<Rightarrow> citation_def list" where
  "competency_cites cs m = map citation_of (filter (\<lambda>r. ci_competency_id r = Some (co_id m)) cs)"

definition version_cites :: "citation_row list \<Rightarrow> citation_def list" where
  "version_cites cs = map citation_of (filter (\<lambda>r. ci_competency_id r = None \<and> ci_task_id r = None) cs)"

definition cites_resolve :: "competency_row list \<Rightarrow> task_row list \<Rightarrow> citation_row \<Rightarrow> bool" where
  "cites_resolve rows ts r \<longleftrightarrow>
     (ci_competency_id r = None \<or> ci_task_id r = None) \<and>
     opt_key (ci_competency_id r) (\<lambda>i. i \<in> co_id ` set rows) \<and> opt_key (ci_task_id r) (\<lambda>i. i \<in> tk_id ` set ts)"

lemma filled_push_task:
  assumes d: "distinct (map co_id rows)" and t: "distinct (map tk_id ts)"
    and i: "i < length rows" and k: "k < length (tasks_under ts (rows ! i))" "tasks_under ts (rows ! i) ! k = t"
    and n: "\<And>u. U u = (if tk_id u = tk_id t then T u @ [x] else T u)"
  shows "(map (filled T D ts) rows)[i := (filled T D ts (rows ! i))\<lparr>md_tasks :=
      (md_tasks (filled T D ts (rows ! i)))[k := (md_tasks (filled T D ts (rows ! i)) ! k)\<lparr>kd_citations :=
        kd_citations (md_tasks (filled T D ts (rows ! i)) ! k) @ [x]\<rparr>]\<rparr>] = map (filled U D ts) rows"
    (is "?L = ?R")
proof (rule nth_equalityI)
  have inj: "u = u'" if "u \<in> set ts" "u' \<in> set ts" "tk_id u = tk_id u'" for u u'
    using that t by (auto simp: distinct_map dest: inj_onD)
  have sub: "set (tasks_under ts m) \<subseteq> set ts" for m by (auto simp: tasks_under_def)
  have tin: "t \<in> set (tasks_under ts (rows ! i))" using k nth_mem by metis
  fix j assume "j < length ?L"
  then have j: "j < length rows" by simp
  show "?L ! j = ?R ! j"
  proof (cases "j = i")
    case True
    have "(map (filled_task T) (tasks_under ts (rows ! i)))[k := (filled_task T t)\<lparr>kd_citations := T t @ [x]\<rparr>] =
        map (filled_task U) (tasks_under ts (rows ! i))" (is "?A = ?B")
    proof (rule nth_equalityI)
      fix l assume "l < length ?A"
      then have l: "l < length (tasks_under ts (rows ! i))" by simp
      have dt: "distinct (map tk_id (tasks_under ts (rows ! i)))"
        using t by (auto simp: tasks_under_def distinct_map intro: inj_on_subset)
      have "tk_id (tasks_under ts (rows ! i) ! l) = tk_id t \<longleftrightarrow> l = k"
        using nth_eq_iff_index_eq [OF dt, of l k] k l by simp
      then show "?A ! l = ?B ! l"
        using l k by (auto simp: nth_list_update filled_task_def n)
    qed simp
    then show ?thesis
      using True i k by (simp add: filled_def filled_task_def)
  next
    case False
    have "tk_id u \<noteq> tk_id t" if u: "u \<in> set (tasks_under ts (rows ! j))" for u
    proof
      assume "tk_id u = tk_id t"
      then have "u = t" using inj u tin sub by blast
      then have "co_id (rows ! j) = co_id (rows ! i)"
        using u tin by (simp add: tasks_under_def)
      then show False
        using nth_eq_iff_index_eq [OF d, of j i] i j False by simp
    qed
    then show ?thesis
      using False i j by (simp add: filled_def filled_task_def n)
  qed
qed simp

lemma load_cites:
  assumes d: "distinct (map co_id rows)" and t: "distinct (map tk_id ts)" and ix: "indexes rows ts index"
    and r: "\<forall>r \<in> set cs. cites_resolve rows ts r"
  shows "each (push_citation (slots (map co_id rows)) index) cs (map (filled (\<lambda>_. []) (\<lambda>_. []) ts) rows, []) =
    Inr (map (filled (task_cites cs) (competency_cites cs) ts) rows, version_cites cs)"
  using r
proof (induction cs rule: rev_induct)
  case Nil
  have "task_cites [] = (\<lambda>_. [])" "competency_cites [] = (\<lambda>_. [])"
    by (simp_all add: fun_eq_iff task_cites_def competency_cites_def)
  then show ?case by (simp add: version_cites_def)
next
  case (snoc r cs)
  let ?F = "\<lambda>cs. map (filled (task_cites cs) (competency_cites cs) ts) rows"
  have IH: "each (push_citation (slots (map co_id rows)) index) cs (map (filled (\<lambda>_. []) (\<lambda>_. []) ts) rows, []) =
    Inr (?F cs, version_cites cs)"
    using snoc by simp
  have res: "cites_resolve rows ts r" using snoc.prems by simp
  have "push_citation (slots (map co_id rows)) index r (?F cs, version_cites cs) =
      Inr (?F (cs @ [r]), version_cites (cs @ [r]))"
  proof (cases "ci_competency_id r")
    case (Some i)
    with res have tn: "ci_task_id r = None" and i: "i \<in> co_id ` set rows"
      by (auto simp: cites_resolve_def)
    have tc: "task_cites (cs @ [r]) = task_cites cs"
      by (simp add: fun_eq_iff task_cites_def tn)
    have "at_slot (slots (map co_id rows)) i (\<lambda>m. m\<lparr>md_citations := md_citations m @ [citation_of r]\<rparr>) (?F cs) =
      Inr (?F (cs @ [r]))"
      unfolding at_slot_rows [OF d i] tc
      by (auto simp: filled_def competency_cites_def Some intro!: map_cong)
    then show ?thesis
      by (simp add: push_citation_def Some tn version_cites_def)
  next
    case None
    have cc: "competency_cites (cs @ [r]) = competency_cites cs"
      by (simp add: fun_eq_iff competency_cites_def None)
    show ?thesis
    proof (cases "ci_task_id r")
      case (Some k)
      with res obtain u where u: "u \<in> set ts" "tk_id u = k" by (auto simp: cites_resolve_def)
      then obtain i l where il: "index k = Some (i, l)" "i < length rows" "l < length (tasks_under ts (rows ! i))"
        "tasks_under ts (rows ! i) ! l = u"
        using ix by (auto simp: indexes_def)
      have "task_cites (cs @ [r]) w = (if tk_id w = tk_id u then task_cites cs w @ [citation_of r] else task_cites cs w)" for w
        using u Some by (auto simp: task_cites_def)
      note upd = filled_push_task [OF d t il(2-4) this, of "competency_cites cs"]
      show ?thesis
        using upd il(1,2) None Some cc by (simp add: push_citation_def at_key_def version_cites_def)
    next
      case None
      have "task_cites (cs @ [r]) = task_cites cs"
        by (simp add: fun_eq_iff task_cites_def None)
      then show ?thesis
        using cc None \<open>ci_competency_id r = None\<close> by (simp add: push_citation_def version_cites_def)
    qed
  qed
  then show ?case
    using IH by (simp add: each_append)
qed

section \<open>The export order\<close>

definition cite_order :: "citation_def \<Rightarrow> string \<times> string \<times> string \<times> string" where
  "cite_order c = (cd_body c, cd_edition c, cd_clause c, cd_note c)"

definition order_task :: "task_def \<Rightarrow> task_def" where
  "order_task t = t\<lparr>kd_citations := sort_key cite_order (kd_citations t)\<rparr>"

definition order_competency :: "competency_def \<Rightarrow> competency_def" where
  "order_competency m = m\<lparr>md_tasks := map order_task (md_tasks m),
     md_citations := sort_key cite_order (md_citations m)\<rparr>"

definition order_scale :: "scale_def \<Rightarrow> scale_def" where
  "order_scale s = s\<lparr>sd_anchors := sort_key nd_value (sd_anchors s)\<rparr>"

text \<open>A document with its lists in the order a read gives them.\<close>

definition export_order :: "version_content \<Rightarrow> version_content" where
  "export_order x =
     x\<lparr>vc_phases := sort_key (\<lambda>p. (hd_number p, hd_name p)) (vc_phases x),
       vc_transitions := sort_key (\<lambda>t. (td_from t, td_to t)) (vc_transitions x),
       vc_competencies := map order_competency (vc_competencies x),
       vc_scales := sort_key sd_name (map order_scale (vc_scales x)),
       vc_modifiers := sort_key od_code (vc_modifiers x),
       vc_forms := sort_key fd_name (vc_forms x),
       vc_citations := sort_key cite_order (vc_citations x)\<rparr>"

lemma sort_twice [simp]: "sort_key k (sort_key k xs) = sort_key k xs"
  by (simp add: sort_key_id_if_sorted)

lemma export_order_twice: "export_order (export_order x) = export_order x"
proof -
  have o: "map order_scale (map order_scale ss) = map order_scale ss" for ss
    by (simp add: order_scale_def)
  have "sd_name s = sd_name (order_scale s)" for s
    by (simp add: order_scale_def)
  then have "map order_scale (sort_key sd_name (map order_scale ss)) = sort_key sd_name (map order_scale ss)" for ss
    by (subst sort_map [where k' = sd_name]) (simp_all only: o)
  moreover have "order_competency (order_competency m) = order_competency m" for m
    by (simp add: order_competency_def order_task_def comp_def)
  ultimately show ?thesis
    by (simp add: export_order_def comp_def)
qed

lemma distinct_map_sort: "distinct (map f (sort_key k xs)) = distinct (map f xs)"
  by (simp add: distinct_map)

section \<open>Reading what was stored\<close>

lemma rows_owner:
  assumes "rows_as v x s"
  shows "\<forall>r \<in> set (w_phases s). ph_version_id r = v" "\<forall>r \<in> set (w_transitions s). pt_version_id r = v"
    "\<forall>b \<in> set (w_competencies s). co_version_id (fst b) = v"
    "\<forall>b \<in> set (w_competencies s). \<forall>t \<in> set (fst (snd b)). tk_version_id (fst t) = v \<and>
       tk_competency_id (fst t) = co_id (fst b) \<and>
       (\<forall>c \<in> set (snd t). ci_version_id c = v \<and> ci_competency_id c = None \<and> ci_task_id c = Some (tk_id (fst t)))"
    "\<forall>b \<in> set (w_competencies s). \<forall>c \<in> set (snd (snd b)). ci_version_id c = v \<and>
       ci_competency_id c = Some (co_id (fst b)) \<and> ci_task_id c = None"
    "\<forall>b \<in> set (w_scales s). rs_version_id (fst b) = v \<and>
       (\<forall>a \<in> set (snd b). ra_version_id a = v \<and> ra_scale_id a = rs_id (fst b))"
    "\<forall>r \<in> set (w_modifiers s). rm_version_id r = v"
    "\<forall>b \<in> set (w_forms s). f_version_id (fst b) = v \<and>
       (\<forall>c \<in> set (fst (snd b)). fc_version_id c = v \<and> fc_form_id c = f_id (fst b)) \<and>
       (\<forall>n \<in> set (snd (snd b)). fn_version_id n = v \<and> fn_form_id n = f_id (fst b))"
    "\<forall>c \<in> set (w_citations s). ci_version_id c = v \<and> ci_competency_id c = None \<and> ci_task_id c = None"
proof -
  have cit: "\<forall>c \<in> set zs. ci_version_id c = v \<and> ci_competency_id c = m \<and> ci_task_id c = t"
    if "list_all2 (citation_as v m t) xs zs" for m t xs zs
    using all2_in [OF that] by (fastforce simp: citation_as_def)
  show "\<forall>r \<in> set (w_phases s). ph_version_id r = v" "\<forall>r \<in> set (w_transitions s). pt_version_id r = v"
    "\<forall>r \<in> set (w_modifiers s). rm_version_id r = v"
    using assms all2_in by (fastforce simp: rows_as_def phase_as_def transition_as_def modifier_as_def)+
  show "\<forall>c \<in> set (w_citations s). ci_version_id c = v \<and> ci_competency_id c = None \<and> ci_task_id c = None"
    using assms cit unfolding rows_as_def by blast
  have task: "\<forall>t \<in> set tbs. tk_version_id (fst t) = v \<and> tk_competency_id (fst t) = i \<and>
      (\<forall>c \<in> set (snd t). ci_version_id c = v \<and> ci_competency_id c = None \<and> ci_task_id c = Some (tk_id (fst t)))"
    if l: "list_all2 (task_as v i) ts tbs" for i ts tbs
  proof
    fix t assume "t \<in> set tbs"
    then obtain u where "task_as v i u t" using all2_in [OF l] by blast
    then show "tk_version_id (fst t) = v \<and> tk_competency_id (fst t) = i \<and>
        (\<forall>c \<in> set (snd t). ci_version_id c = v \<and> ci_competency_id c = None \<and> ci_task_id c = Some (tk_id (fst t)))"
      using cit by (auto simp: task_as_def)
  qed
  have comp: "\<exists>n m. competency_as v (n, m) b" if b: "b \<in> set (w_competencies s)" for b
  proof -
    have "list_all2 (competency_as v) (zip_order (vc_competencies x)) (w_competencies s)"
      using assms by (simp add: rows_as_def)
    from all2_in [OF this b] show ?thesis by auto
  qed
  show "\<forall>b \<in> set (w_competencies s). co_version_id (fst b) = v"
    using comp by (fastforce simp: competency_as_def)
  show "\<forall>b \<in> set (w_competencies s). \<forall>t \<in> set (fst (snd b)). tk_version_id (fst t) = v \<and>
       tk_competency_id (fst t) = co_id (fst b) \<and>
       (\<forall>c \<in> set (snd t). ci_version_id c = v \<and> ci_competency_id c = None \<and> ci_task_id c = Some (tk_id (fst t)))"
  proof
    fix b assume "b \<in> set (w_competencies s)"
    then obtain n m where "competency_as v (n, m) b" using comp by blast
    then have "list_all2 (task_as v (co_id (fst b))) (zip_order (md_tasks m)) (fst (snd b))"
      by (auto simp: competency_as_def)
    then show "\<forall>t \<in> set (fst (snd b)). tk_version_id (fst t) = v \<and> tk_competency_id (fst t) = co_id (fst b) \<and>
       (\<forall>c \<in> set (snd t). ci_version_id c = v \<and> ci_competency_id c = None \<and> ci_task_id c = Some (tk_id (fst t)))"
      by (rule task)
  qed
  show "\<forall>b \<in> set (w_competencies s). \<forall>c \<in> set (snd (snd b)). ci_version_id c = v \<and>
       ci_competency_id c = Some (co_id (fst b)) \<and> ci_task_id c = None"
  proof
    fix b assume "b \<in> set (w_competencies s)"
    then obtain n m where "competency_as v (n, m) b" using comp by blast
    then have "list_all2 (citation_as v (Some (co_id (fst b))) None) (md_citations m) (snd (snd b))"
      by (auto simp: competency_as_def)
    then show "\<forall>c \<in> set (snd (snd b)). ci_version_id c = v \<and> ci_competency_id c = Some (co_id (fst b)) \<and>
        ci_task_id c = None"
      by (rule cit)
  qed
  show "\<forall>b \<in> set (w_scales s). rs_version_id (fst b) = v \<and>
       (\<forall>a \<in> set (snd b). ra_version_id a = v \<and> ra_scale_id a = rs_id (fst b))"
  proof
    fix b assume "b \<in> set (w_scales s)"
    then obtain u where "scale_as v u b"
      using assms all2_in [of "scale_as v" _ "w_scales s" b] by (auto simp: rows_as_def)
    then have "rs_version_id (fst b) = v" and l: "list_all2 (anchor_as v (rs_id (fst b))) (sd_anchors u) (snd b)"
      by (auto simp: scale_as_def)
    moreover have "\<forall>a \<in> set (snd b). ra_version_id a = v \<and> ra_scale_id a = rs_id (fst b)"
      by (rule all2_ball [OF l]) (simp add: anchor_as_def)
    ultimately show "rs_version_id (fst b) = v \<and> (\<forall>a \<in> set (snd b). ra_version_id a = v \<and> ra_scale_id a = rs_id (fst b))"
      by blast
  qed
  show "\<forall>b \<in> set (w_forms s). f_version_id (fst b) = v \<and>
       (\<forall>c \<in> set (fst (snd b)). fc_version_id c = v \<and> fc_form_id c = f_id (fst b)) \<and>
       (\<forall>n \<in> set (snd (snd b)). fn_version_id n = v \<and> fn_form_id n = f_id (fst b))"
  proof
    fix b assume "b \<in> set (w_forms s)"
    then obtain u where "form_as v (competency_keys s) (scale_keys s) u b"
      using assms all2_in [of _ _ "w_forms s" b] unfolding rows_as_def by blast
    then have "f_version_id (fst b) = v"
      and l: "list_all2 (binding_as v (f_id (fst b)) (competency_keys s) (scale_keys s)) (zip_order (fd_competencies u)) (fst (snd b))"
      and n: "list_all2 (narrative_as v (f_id (fst b))) (zip_order (fd_narratives u)) (snd (snd b))"
      by (auto simp: form_as_def)
    moreover have "\<forall>c \<in> set (fst (snd b)). fc_version_id c = v \<and> fc_form_id c = f_id (fst b)"
      by (rule all2_ball [OF l]) (auto simp: binding_as_def)
    moreover have "\<forall>n \<in> set (snd (snd b)). fn_version_id n = v \<and> fn_form_id n = f_id (fst b)"
      by (rule all2_ball [OF n]) (auto simp: narrative_as_def)
    ultimately show "f_version_id (fst b) = v \<and>
       (\<forall>c \<in> set (fst (snd b)). fc_version_id c = v \<and> fc_form_id c = f_id (fst b)) \<and>
       (\<forall>n \<in> set (snd (snd b)). fn_version_id n = v \<and> fn_form_id n = f_id (fst b))"
      by blast
  qed
qed


lemma load_phases_stored:
  assumes "list_all2 (phase_as v) ps rs" and "filter (\<lambda>p. ph_version_id p = v) (phases c) = rs"
  shows "load_phases c v = sort_key (\<lambda>p. (hd_number p, hd_name p)) ps"
proof -
  let ?g = "\<lambda>p. \<lparr>hd_name = ph_name p, hd_description = ph_description p, hd_number = ph_number p\<rparr>"
  have "map (\<lambda>p. p) ps = map ?g rs"
    by (rule all2_map [OF assms(1)]) (simp add: phase_as_def)
  then show ?thesis
    unfolding load_phases_def assms(2) by (subst sort_map [where k' = "\<lambda>p. (hd_number p, hd_name p)"]) simp_all
qed

lemma load_modifiers_stored:
  assumes "list_all2 (modifier_as v) ms rs" and "filter (\<lambda>p. rm_version_id p = v) (rating_modifiers c) = rs"
  shows "load_modifiers c v = sort_key od_code ms"
proof -
  let ?g = "\<lambda>m. \<lparr>od_code = rm_code m, od_label = rm_label m, od_description = rm_description m\<rparr>"
  have "map (\<lambda>p. p) ms = map ?g rs"
    by (rule all2_map [OF assms(1)]) (simp add: modifier_as_def)
  then show ?thesis
    unfolding load_modifiers_def assms(2) by (subst sort_map [where k' = od_code]) simp_all
qed

text \<open>A name's key is the id of the one row with that id, so a join gives the name back.\<close>

lemma keys_find:
  assumes "keys f g rs n = Some i" and "ids_ok (map g xs)" and "set rs \<subseteq> set xs"
  shows "\<exists>r. find (\<lambda>r. g r = i) xs = Some r \<and> f r = n"
proof -
  obtain r where r: "r \<in> set rs" "f r = n" "g r = i"
    using assms(1) by (auto simp: keys_def dest!: map_of_SomeD)
  then have "find (\<lambda>y. g y = g r) xs = Some r"
    using find_id_unique [OF assms(2)] assms(3) by blast
  with r show ?thesis by simp
qed

lemma load_transitions_stored:
  assumes "list_all2 (transition_as v (keys ph_name ph_id ps)) ts rs"
    and "filter (\<lambda>p. pt_version_id p = v) (phase_transitions c) = rs"
    and "ids_ok (map ph_id (phases c))" and "set ps \<subseteq> set (phases c)"
  shows "load_transitions c v = sort_key (\<lambda>t. (td_from t, td_to t)) ts"
proof -
  have "List.map_filter (transition_of c) rs = ts"
  proof (rule all2_map_filter [OF assms(1)])
    fix t r assume t: "transition_as v (keys ph_name ph_id ps) t r"
    have "phase_named c i = Some n" if "keys ph_name ph_id ps n = Some i" for n i
      using keys_find [OF that assms(3,4)] by (auto simp: phase_named_def)
    with t show "transition_of c r = Some t"
      by (auto simp: transition_as_def transition_of_def)
  qed
  then show ?thesis by (simp add: load_transitions_def assms(2))
qed

lemma load_scales_stored:
  assumes as: "list_all2 (scale_as v) ss bs" and sc: "filter (\<lambda>s. rs_version_id s = v) (rating_scales c) = map fst bs"
    and an: "filter (\<lambda>a. ra_version_id a = v) (rating_anchors c) = concat (map snd bs)"
    and own: "\<forall>b \<in> set bs. \<forall>a \<in> set (snd b). ra_scale_id a = rs_id (fst b)"
    and d: "distinct (map rs_id (map fst bs))"
  shows "load_scales c v = Inr (sort_key sd_name (map order_scale ss))"
proof -
  let ?rows = "sort_key rs_name (map fst bs)" and ?as = "sort_key ra_value (concat (map snd bs))"
  let ?def = "\<lambda>a. \<lparr>nd_value = ra_value a, nd_label = ra_label a, nd_definition = ra_definition a\<rparr>"
  let ?push = "\<lambda>a s. s\<lparr>sd_anchors := sd_anchors s @ [?def a]\<rparr>"
  let ?G = "\<lambda>r. fold ?push (filter (\<lambda>a. ra_scale_id a = rs_id r) ?as) (bare_scale r)"
  have push: "fold ?push as s = s\<lparr>sd_anchors := sd_anchors s @ map ?def as\<rparr>" for as s
    by (induction as arbitrary: s) simp_all
  have dr: "distinct (map rs_id ?rows)"
    using d by (simp only: distinct_map_sort)
  have oin: "\<forall>a \<in> set ?as. ra_scale_id a \<in> rs_id ` set ?rows"
    using own by auto
  have "load_scales c v = each (\<lambda>a. at_slot (slots (map rs_id ?rows)) (ra_scale_id a) (?push a)) ?as (map bare_scale ?rows)"
    by (simp add: load_scales_def sc an push_anchor_def [abs_def] Let_def)
  also have "\<dots> = Inr (map ?G ?rows)"
    by (rule each_at_slot [OF dr oin])
  also have "map ?G ?rows = sort_key sd_name (map ?G (map fst bs))"
    by (rule sort_map) (simp add: push bare_scale_def)
  also have "map ?G (map fst bs) = map order_scale ss"
  proof -
    have "map order_scale ss = map (\<lambda>b. ?G (fst b)) bs"
    proof (rule all2_map_in [OF as])
      fix s b assume b: "b \<in> set bs" and sb: "scale_as v s b"
      have "filter (\<lambda>a. ra_scale_id a = rs_id (fst b)) (concat (map snd bs)) = snd b"
        using d own b by (intro filter_blocks [where kf = "\<lambda>b. rs_id (fst b)"]) (simp_all add: comp_def)
      then have "filter (\<lambda>a. ra_scale_id a = rs_id (fst b)) ?as = sort_key ra_value (snd b)"
        by (simp add: filter_sort)
      moreover have "map (\<lambda>a. a) (sd_anchors s) = map ?def (snd b)"
        using sb by (intro all2_map [of "anchor_as v (rs_id (fst b))"]) (auto simp: scale_as_def anchor_as_def)
      moreover have "map ?def (sort_key ra_value (snd b)) = sort_key nd_value (map ?def (snd b))"
        by (rule sort_map) simp
      ultimately show "order_scale s = ?G (fst b)"
        using sb by (auto simp: push bare_scale_def order_scale_def scale_as_def)
    qed
    then show ?thesis by simp
  qed
  finally show ?thesis .
qed


lemma zip_order_fst: "map fst (zip_order xs) = map int [0..<length xs]"
  by (rule nth_equalityI) (simp_all add: zip_order_def nth_enumerate_eq)

lemma all2_orders:
  assumes "list_all2 R (zip_order xs) ys" and "\<And>x y. R x y \<Longrightarrow> fst x = k y"
  shows "sorted_wrt (<) (map k ys)"
  using all2_map [OF assms(1), of fst k] assms(2) orders_ascend [of xs] by simp

lemma load_forms_stored:
  assumes as: "list_all2 (form_as v ms ss) fs bs"
    and fm: "filter (\<lambda>f. f_version_id f = v) (evaluation_forms c) = map fst bs"
    and bd: "filter (\<lambda>b. fc_version_id b = v) (form_competencies c) = concat (map (\<lambda>b. fst (snd b)) bs)"
    and nr: "filter (\<lambda>n. fn_version_id n = v) (form_narratives c) = concat (map (\<lambda>b. snd (snd b)) bs)"
    and own: "\<forall>b \<in> set bs. (\<forall>r \<in> set (fst (snd b)). fc_form_id r = f_id (fst b)) \<and>
      (\<forall>n \<in> set (snd (snd b)). fn_form_id n = f_id (fst b))"
    and d: "distinct (map f_id (map fst bs))"
    and mk: "\<And>n i. ms n = Some i \<Longrightarrow> map_option co_name (find (\<lambda>m. co_id m = i) (competencies c)) = Some n"
    and sk: "\<And>n i. ss n = Some i \<Longrightarrow> map_option rs_name (find (\<lambda>s. rs_id s = i) (rating_scales c)) = Some n"
  shows "load_forms c v = Inr (sort_key fd_name fs)"
proof -
  let ?rows = "sort_key f_name (map fst bs)"
  define raw where "raw = List.map_filter (\<lambda>b. map_option (Pair (fc_sort b)) (binding_of c b))
    (concat (map (\<lambda>b. fst (snd b)) bs))"
  define listed where "listed f b = map (\<lambda>(n, x). (n, f_id (fst b), x)) (zip_order (fd_competencies f))"
    for f :: form_def and b :: form_block
  let ?key = "\<lambda>(n :: int, _ :: int, x). (n, bd_competency x)"
  have joined: "map_option (Pair (fc_sort r)) (binding_of c r) = Some (n, fc_form_id r, x)"
    if r: "binding_as v i ms ss (n, x) r" for i n x r
  proof -
    have "map_option co_name (find (\<lambda>m. co_id m = fc_competency_id r) (competencies c)) = Some (bd_competency x)"
      "map_option rs_name (find (\<lambda>s. rs_id s = fc_scale_id r) (rating_scales c)) = Some (bd_scale x)"
      using r mk sk by (auto simp: binding_as_def)
    then show ?thesis
      using r by (auto simp: binding_of_def binding_as_def)
  qed
  have block: "List.map_filter (\<lambda>b. map_option (Pair (fc_sort b)) (binding_of c b)) (fst (snd b)) = listed f b"
    if fb: "form_as v ms ss f b" for f b
  proof -
    have l: "list_all2 (binding_as v (f_id (fst b)) ms ss) (zip_order (fd_competencies f)) (fst (snd b))"
      using fb by (auto simp: form_as_def)
    have "list_all2 (\<lambda>y r. map_option (Pair (fc_sort r)) (binding_of c r) = Some y) (listed f b) (fst (snd b))"
      unfolding listed_def list_all2_map1
    proof (rule list_all2_mono [OF l])
      fix y r assume y: "binding_as v (f_id (fst b)) ms ss y r"
      obtain n x where nx: "y = (n, x)" by (cases y)
      have "fc_form_id r = f_id (fst b)" using y by (simp add: nx binding_as_def)
      with joined [OF y [unfolded nx]]
      show "map_option (Pair (fc_sort r)) (binding_of c r) = Some (case y of (n, x) \<Rightarrow> (n, f_id (fst b), x))"
        by (simp add: nx)
    qed
    then show ?thesis by (rule all2_map_filter) simp
  qed
  have raw_filter: "filter (\<lambda>y. fst (snd y) = f_id (fst b)) raw = listed f b"
    if b: "b \<in> set bs" and fb: "form_as v ms ss f b" for f b
  proof -
    have "raw = concat (map (\<lambda>b. List.map_filter (\<lambda>b. map_option (Pair (fc_sort b)) (binding_of c b)) (fst (snd b))) bs)"
      unfolding raw_def by (induction bs) (simp_all add: List.map_filter_def)
    moreover have "fst (snd y) = f_id (fst e)"
      if e: "e \<in> set bs" "y \<in> set (List.map_filter (\<lambda>b. map_option (Pair (fc_sort b)) (binding_of c b)) (fst (snd e)))"
      for e y
    proof -
      obtain f' where "form_as v ms ss f' e" using all2_in [OF as e(1)] by blast
      from block [OF this] e(2) show ?thesis by (auto simp: listed_def)
    qed
    ultimately show ?thesis
      using filter_blocks [of "\<lambda>b. f_id (fst b)" bs
          "\<lambda>b. List.map_filter (\<lambda>b. map_option (Pair (fc_sort b)) (binding_of c b)) (fst (snd b))"
          "\<lambda>y. fst (snd y)" b] b block [OF fb] d by (simp add: comp_def)
  qed
  have sorted_listed: "sort_key ?key (listed f b) = listed f b" for f b
  proof -
    have "sorted_wrt (<) (map fst (listed f b))"
      using orders_ascend [of "fd_competencies f"] by (simp add: listed_def comp_def split_beta)
    then have "sort_key (\<lambda>y. (fst y, bd_competency (snd (snd y)))) (listed f b) = listed f b"
      by (rule ascending_sorted)
    then show ?thesis by (simp add: case_prod_unfold)
  qed
  let ?pairs = "load_bindings c v"
  have pairs: "?pairs = map snd (sort_key ?key raw)"
    by (simp add: load_bindings_def bd raw_def)
  have pairs_of: "filter (\<lambda>y. fst y = f_id (fst b)) ?pairs = map (Pair (f_id (fst b))) (fd_competencies f)"
    if b: "b \<in> set bs" and fb: "form_as v ms ss f b" for f b
  proof -
    have "filter (\<lambda>y. fst y = f_id (fst b)) ?pairs = map snd (filter (\<lambda>y. fst (snd y) = f_id (fst b)) (sort_key ?key raw))"
      by (simp add: pairs filter_map comp_def)
    also have "\<dots> = map snd (sort_key ?key (listed f b))"
      by (simp add: filter_sort raw_filter [OF b fb])
    also have "\<dots> = map (\<lambda>y. (f_id (fst b), snd y)) (zip_order (fd_competencies f))"
      unfolding sorted_listed by (simp add: listed_def comp_def split_beta)
    also have "\<dots> = map (Pair (f_id (fst b))) (fd_competencies f)"
      by (rule zip_order_map)
    finally show ?thesis .
  qed
  have pairs_in: "\<forall>y \<in> set ?pairs. fst y \<in> f_id ` set ?rows"
  proof
    fix y assume "y \<in> set ?pairs"
    then obtain n b r where "b \<in> set bs" "r \<in> set (fst (snd b))" "binding_of c r = Some y"
      by (auto simp: pairs raw_def List.map_filter_def)
    moreover from this have "fst y = fc_form_id r"
      by (auto simp: binding_of_def bind_eq_Some_conv)
    ultimately show "fst y \<in> f_id ` set ?rows" using own by force
  qed
  have dr: "distinct (map f_id ?rows)"
    using d by (simp only: distinct_map_sort)
  let ?pushb = "\<lambda>y x. x\<lparr>fd_competencies := fd_competencies x @ [snd y]\<rparr>"
  let ?H = "\<lambda>r. fold ?pushb (filter (\<lambda>y. fst y = f_id r) ?pairs) (bare_form r)"
  have pb: "fold ?pushb ys x = x\<lparr>fd_competencies := fd_competencies x @ map snd ys\<rparr>" for ys x
    by (induction ys arbitrary: x) simp_all
  have e1: "each (push_binding (slots (map f_id ?rows))) ?pairs (map bare_form ?rows) = Inr (map ?H ?rows)"
    using each_at_slot [OF dr pairs_in, where push = ?pushb and G = bare_form]
    by (simp add: push_binding_def [abs_def] case_prod_unfold)
  let ?ns = "sort_key (\<lambda>n. (fn_sort n, fn_prompt n)) (concat (map (\<lambda>b. snd (snd b)) bs))"
  let ?nd = "\<lambda>n. \<lparr>rd_prompt = fn_prompt n, rd_required = fn_required n\<rparr>"
  let ?pushn = "\<lambda>n x. x\<lparr>fd_narratives := fd_narratives x @ [?nd n]\<rparr>"
  let ?G = "\<lambda>r. fold ?pushn (filter (\<lambda>n. fn_form_id n = f_id r) ?ns) (?H r)"
  have pn: "fold ?pushn ns x = x\<lparr>fd_narratives := fd_narratives x @ map ?nd ns\<rparr>" for ns x
    by (induction ns arbitrary: x) simp_all
  have ns_in: "\<forall>n \<in> set ?ns. fn_form_id n \<in> f_id ` set ?rows"
    using own by auto
  have "load_forms c v = Inr (map ?G ?rows)"
    using each_at_slot [OF dr ns_in, where push = ?pushn and G = ?H]
    by (simp add: load_forms_def Let_def fm nr e1 push_narrative_def [abs_def])
  also have "map ?G ?rows = sort_key fd_name (map ?G (map fst bs))"
    by (rule sort_map) (simp add: pn pb bare_form_def)
  also have "map ?G (map fst bs) = fs"
  proof -
    have "map (\<lambda>f. f) fs = map (\<lambda>b. ?G (fst b)) bs"
    proof (rule all2_map_in [OF as])
      fix f b assume b: "b \<in> set bs" and fb: "form_as v ms ss f b"
      have "filter (\<lambda>n. fn_form_id n = f_id (fst b)) (concat (map (\<lambda>b. snd (snd b)) bs)) = snd (snd b)"
        using d own b by (intro filter_blocks [where kf = "\<lambda>b. f_id (fst b)"]) (simp_all add: comp_def)
      moreover have l: "list_all2 (narrative_as v (f_id (fst b))) (zip_order (fd_narratives f)) (snd (snd b))"
        using fb by (auto simp: form_as_def)
      have "sorted_wrt (<) (map fn_sort (snd (snd b)))"
        by (rule all2_orders [OF l]) (auto simp: narrative_as_def)
      then have "sort_key (\<lambda>n. (fn_sort n, fn_prompt n)) (snd (snd b)) = snd (snd b)"
        by (rule ascending_sorted)
      moreover have "map snd (zip_order (fd_narratives f)) = map ?nd (snd (snd b))"
        by (rule all2_map [OF l]) (auto simp: narrative_as_def)
      ultimately have "map ?nd (filter (\<lambda>n. fn_form_id n = f_id (fst b)) ?ns) = fd_narratives f"
        by (simp add: filter_sort)
      then show "f = ?G (fst b)"
        using fb pairs_of [OF b fb] by (auto simp: pn pb bare_form_def form_as_def comp_def)
    qed
    then show ?thesis by simp
  qed
  finally show ?thesis .
qed


text \<open>The configuration after the document was stored reads as the document in export order.\<close>

lemma map_fst_concat: "concat (map block_tasks bs) = map fst (concat (map (\<lambda>b. fst (snd b)) bs))"
  by (induction bs) (simp_all add: block_tasks_def)

lemma stored_cites:
  assumes own: "\<forall>b \<in> set bs. \<forall>t \<in> set (fst (snd b)).
      \<forall>c \<in> set (snd t). ci_competency_id c = None \<and> ci_task_id c = Some (tk_id (fst t))"
    "\<forall>b \<in> set bs. \<forall>c \<in> set (snd (snd b)). ci_competency_id c = Some (co_id (fst b)) \<and> ci_task_id c = None"
    "\<forall>c \<in> set gs. ci_competency_id c = None \<and> ci_task_id c = None"
    and d: "distinct (map co_id (map fst bs))" "distinct (map tk_id (concat (map block_tasks bs)))"
  shows "b \<in> set bs \<Longrightarrow> t \<in> set (fst (snd b)) \<Longrightarrow>
      filter (\<lambda>r. ci_task_id r = Some (tk_id (fst t))) (concat (map block_citations bs) @ gs) = snd t"
    "b \<in> set bs \<Longrightarrow>
      filter (\<lambda>r. ci_competency_id r = Some (co_id (fst b))) (concat (map block_citations bs) @ gs) = snd (snd b)"
    "filter (\<lambda>r. ci_competency_id r = None \<and> ci_task_id r = None) (concat (map block_citations bs) @ gs) = gs"
proof -
  let ?T = "concat (map (\<lambda>b. fst (snd b)) bs)"
  have keep: "filter (\<lambda>r. ci_task_id r = Some k) (concat (map block_citations bs)) =
      filter (\<lambda>r. ci_task_id r = Some k) (concat (map snd ?T))" for k
    using own(2) by (induction bs) (auto simp: block_citations_def filter_empty_conv)
  have dT: "distinct (map (\<lambda>t. Some (tk_id (fst t))) ?T)"
  proof -
    have "map (\<lambda>t. Some (tk_id (fst t))) ?T = map Some (map tk_id (concat (map block_tasks bs)))"
      unfolding map_fst_concat by simp
    then show ?thesis using d(2) by (simp only: distinct_map inj_on_def) auto
  qed
  show "filter (\<lambda>r. ci_task_id r = Some (tk_id (fst t))) (concat (map block_citations bs) @ gs) = snd t"
    if b: "b \<in> set bs" and t: "t \<in> set (fst (snd b))"
  proof -
    have "filter (\<lambda>r. ci_task_id r = Some (tk_id (fst t))) (concat (map snd ?T)) = snd t"
      by (rule filter_blocks [OF dT]) (use own(1) b t in auto)
    moreover have "filter (\<lambda>r. ci_task_id r = Some (tk_id (fst t))) gs = []"
      using own(3) by (auto simp: filter_empty_conv)
    ultimately show ?thesis by (simp add: keep)
  qed
  have keep': "filter (\<lambda>r. ci_competency_id r = Some k) (concat (map block_citations bs)) =
      filter (\<lambda>r. ci_competency_id r = Some k) (concat (map (\<lambda>b. snd (snd b)) bs))" for k
    using own(1) by (induction bs) (auto simp: block_citations_def filter_empty_conv)
  have dC: "distinct (map (\<lambda>b. Some (co_id (fst b))) bs)"
    using d(1) by (simp add: distinct_map inj_on_def)
  show "filter (\<lambda>r. ci_competency_id r = Some (co_id (fst b))) (concat (map block_citations bs) @ gs) = snd (snd b)"
    if b: "b \<in> set bs"
  proof -
    have "filter (\<lambda>r. ci_competency_id r = Some (co_id (fst b))) (concat (map (\<lambda>b. snd (snd b)) bs)) = snd (snd b)"
      by (rule filter_blocks [OF dC]) (use own(2) b in auto)
    moreover have "filter (\<lambda>r. ci_competency_id r = Some (co_id (fst b))) gs = []"
      using own(3) by (auto simp: filter_empty_conv)
    ultimately show ?thesis by (simp add: keep')
  qed
  have "filter (\<lambda>r. ci_competency_id r = None \<and> ci_task_id r = None) (concat (map block_citations bs)) = []"
    using own(1,2) by (fastforce simp: filter_empty_conv block_citations_def)
  then show "filter (\<lambda>r. ci_competency_id r = None \<and> ci_task_id r = None) (concat (map block_citations bs) @ gs) = gs"
    using own(3) by (simp add: filter_id_conv)
qed

lemma load_competencies_stored:
  assumes as: "list_all2 (competency_as v) (zip_order ms) bs" and gs: "list_all2 (citation_as v None None) gx gs"
    and cm: "filter (\<lambda>m. co_version_id m = v) (competencies c) = map fst bs"
    and tk: "filter (\<lambda>t. tk_version_id t = v) (tasks c) = concat (map block_tasks bs)"
    and ci: "filter (\<lambda>r. ci_version_id r = v) cs = concat (map block_citations bs) @ gs"
    and own: "\<forall>b \<in> set bs. \<forall>t \<in> set (fst (snd b)). tk_competency_id (fst t) = co_id (fst b) \<and>
      (\<forall>c \<in> set (snd t). ci_competency_id c = None \<and> ci_task_id c = Some (tk_id (fst t)))"
    "\<forall>b \<in> set bs. \<forall>c \<in> set (snd (snd b)). ci_competency_id c = Some (co_id (fst b)) \<and> ci_task_id c = None"
    "\<forall>c \<in> set gs. ci_competency_id c = None \<and> ci_task_id c = None"
    and d: "distinct (map co_id (map fst bs))" "distinct (map tk_id (concat (map block_tasks bs)))"
  shows "\<exists>ms' by_competency index. load_competencies c v = Inr (ms', by_competency, index) \<and>
    load_citations cs v by_competency index ms' = Inr (map order_competency ms, sort_key cite_order gx)"
proof -
  let ?rows = "map fst bs"
  let ?ts = "sort_key (\<lambda>t. (tk_sort t, tk_prompt t)) (concat (map block_tasks bs))"
  let ?cs = "sort_key citation_order (concat (map block_citations bs) @ gs)"
  have order: "competency_rows c v = ?rows"
  proof -
    have "sorted_wrt (<) (map (\<lambda>b. co_sort (fst b)) bs)"
      by (rule all2_orders [OF as]) (auto simp: competency_as_def)
    then have "sorted_wrt (<) (map co_sort ?rows)" by (simp add: comp_def)
    then show ?thesis unfolding competency_rows_def cm by (rule ascending_sorted)
  qed
  have dt: "distinct (map tk_id ?ts)"
    using d(2) by (simp only: distinct_map_sort)
  have tin: "\<forall>t \<in> set ?ts. tk_competency_id t \<in> co_id ` set ?rows"
    using own(1) by (force simp: block_tasks_def)
  obtain index where ix: "indexes ?rows ?ts index"
    and load: "each (push_task (slots (map co_id ?rows))) ?ts (map bare_competency ?rows, Map.empty) =
      Inr (map (filled (\<lambda>_. []) (\<lambda>_. []) ?ts) ?rows, index)"
    using load_tasks [OF d(1) dt tin] by blast
  have res: "\<forall>r \<in> set ?cs. cites_resolve ?rows ?ts r"
  proof
    fix r assume "r \<in> set ?cs"
    then consider (task) b t where "b \<in> set bs" "t \<in> set (fst (snd b))" "r \<in> set (snd t)"
      | (competency) b where "b \<in> set bs" "r \<in> set (snd (snd b))" | (version) "r \<in> set gs"
      by (auto simp: block_citations_def)
    then show "cites_resolve ?rows ?ts r"
    proof cases
      case task
      then have "fst t \<in> set ?ts" by (force simp: block_tasks_def)
      with task own(1) show ?thesis by (auto simp: cites_resolve_def)
    next
      case competency
      with own(2) show ?thesis by (auto simp: cites_resolve_def)
    next
      case version
      with own(3) show ?thesis by (auto simp: cites_resolve_def)
    qed
  qed
  have "load_citations cs v (slots (map co_id ?rows)) index (map (filled (\<lambda>_. []) (\<lambda>_. []) ?ts) ?rows) =
      Inr (map (filled (task_cites ?cs) (competency_cites ?cs) ?ts) ?rows, version_cites ?cs)"
    unfolding load_citations_def ci by (rule load_cites [OF d(1) dt ix res])
  moreover have co: "map citation_of (sort_key citation_order zs) = sort_key cite_order (map citation_of zs)" for zs
    by (rule sort_map) (simp add: citation_order_def cite_order_def citation_of_def)
  have cb: "map citation_of zs = xs" if "list_all2 (citation_as v m t) xs zs" for m t xs zs
    using all2_map [OF that, of "\<lambda>x. x" citation_of] by (simp add: citation_as_def)
  have own1: "\<forall>b \<in> set bs. \<forall>t \<in> set (fst (snd b)).
      \<forall>c \<in> set (snd t). ci_competency_id c = None \<and> ci_task_id c = Some (tk_id (fst t))"
    using own(1) by blast
  note cites = stored_cites [OF own1 own(2,3) d]
  have "version_cites ?cs = sort_key cite_order gx"
    unfolding version_cites_def filter_sort cites(3) co cb [OF gs] ..
  moreover have "map (filled (task_cites ?cs) (competency_cites ?cs) ?ts) ?rows = map order_competency ms"
  proof -
    have "map (\<lambda>x. order_competency (snd x)) (zip_order ms) =
        map (\<lambda>b. filled (task_cites ?cs) (competency_cites ?cs) ?ts (fst b)) bs"
    proof (rule all2_map_in [OF as])
      fix x b assume b: "b \<in> set bs" and x: "competency_as v x b"
      obtain n m where nm: "x = (n, m)" by (cases x)
      have l: "list_all2 (task_as v (co_id (fst b))) (zip_order (md_tasks m)) (fst (snd b))"
        and z: "list_all2 (citation_as v (Some (co_id (fst b))) None) (md_citations m) (snd (snd b))"
        using x by (auto simp: nm competency_as_def)
      have "filter (\<lambda>t. tk_competency_id t = co_id (fst b)) (concat (map block_tasks bs)) = block_tasks b"
        using d(1) own(1) b by (intro filter_blocks [where kf = "\<lambda>b. co_id (fst b)"]) (auto simp: comp_def block_tasks_def)
      moreover have "sort_key (\<lambda>t. (tk_sort t, tk_prompt t)) (block_tasks b) = block_tasks b"
      proof (rule ascending_sorted)
        have "sorted_wrt (<) (map (\<lambda>t. tk_sort (fst t)) (fst (snd b)))"
          by (rule all2_orders [OF l]) (auto simp: task_as_def)
        then show "sorted_wrt (<) (map tk_sort (block_tasks b))" by (simp add: block_tasks_def comp_def)
      qed
      ultimately have under: "tasks_under ?ts (fst b) = block_tasks b"
        by (simp add: tasks_under_def filter_sort)
      have "map (filled_task (task_cites ?cs)) (block_tasks b) = map order_task (md_tasks m)"
      proof -
        have "map (\<lambda>t. order_task (snd t)) (zip_order (md_tasks m)) =
            map (\<lambda>t. filled_task (task_cites ?cs) (fst t)) (fst (snd b))"
        proof (rule all2_map_in [OF l])
          fix y t assume t: "t \<in> set (fst (snd b))" and y: "task_as v (co_id (fst b)) y t"
          then have "map citation_of (snd t) = kd_citations (snd y)" "tk_prompt (fst t) = kd_prompt (snd y)"
            by (auto simp: task_as_def split_beta intro: cb)
          moreover have "task_cites ?cs (fst t) = sort_key cite_order (map citation_of (snd t))"
            unfolding task_cites_def filter_sort cites(1) [OF b t] co ..
          ultimately show "order_task (snd y) = filled_task (task_cites ?cs) (fst t)"
            by (simp add: order_task_def filled_task_def)
        qed
        then show ?thesis by (simp add: zip_order_map block_tasks_def comp_def)
      qed
      moreover have "competency_cites ?cs (fst b) = sort_key cite_order (md_citations m)"
        unfolding competency_cites_def filter_sort cites(2) [OF b] co cb [OF z] ..
      moreover have "co_category (fst b) = md_category m" "co_name (fst b) = md_name m"
        "co_description (fst b) = md_description m"
        using x by (auto simp: nm competency_as_def)
      ultimately show "order_competency (snd x) = filled (task_cites ?cs) (competency_cites ?cs) ?ts (fst b)"
        by (simp add: nm filled_def under order_competency_def)
    qed
    then show ?thesis by (simp add: zip_order_map comp_def)
  qed
  ultimately show ?thesis
    using load by (simp add: load_competencies_def Let_def order tk)
qed


lemma load_stored:
  assumes w: "config_of w = with_rows v (vc_policy x) s y" and ok: "config_ok (config_of w)"
    and rows: "rows_as v x s" and new: "v \<notin> owners y"
    and r: "version_of (base w) v = Some r" "pv_name r = vc_name x" "pv_label r = vc_label x"
      "pv_description r = vc_description x"
  shows "load_content w v = Inr (Some (export_order x))"
proof -
  obtain c cs where y: "y = (c, cs)" by (cases y)
  let ?c = "cat w"
  note own = rows_owner [OF rows]
  have t: "phases ?c = phases c @ w_phases s" "phase_transitions ?c = phase_transitions c @ w_transitions s"
    "competencies ?c = competencies c @ map fst (w_competencies s)"
    "tasks ?c = tasks c @ concat (map block_tasks (w_competencies s))"
    "rating_scales ?c = rating_scales c @ map fst (w_scales s)"
    "rating_anchors ?c = rating_anchors c @ concat (map snd (w_scales s))"
    "rating_modifiers ?c = rating_modifiers c @ w_modifiers s"
    "evaluation_forms ?c = evaluation_forms c @ map fst (w_forms s)"
    "form_competencies ?c = form_competencies c @ concat (map (\<lambda>b. fst (snd b)) (w_forms s))"
    "form_narratives ?c = form_narratives c @ concat (map (\<lambda>b. snd (snd b)) (w_forms s))"
    "policies ?c = policies c @ [policy_row_of v (vc_policy x)]"
    "citations w = cs @ concat (map block_citations (w_competencies s)) @ w_citations s"
    using w by (auto simp: config_of_def y with_rows_def)
  have ids: "ids_ok (map ph_id (phases ?c))" "ids_ok (map co_id (competencies ?c))"
    "ids_ok (map tk_id (tasks ?c))" "ids_ok (map rs_id (rating_scales ?c))"
    "ids_ok (map f_id (evaluation_forms ?c))"
    using ok by (auto simp: config_ok_def ids_sound_def config_of_def)
  have as: "list_all2 (phase_as v) (vc_phases x) (w_phases s)"
    "list_all2 (transition_as v (phase_keys s)) (vc_transitions x) (w_transitions s)"
    "list_all2 (competency_as v) (zip_order (vc_competencies x)) (w_competencies s)"
    "list_all2 (scale_as v) (vc_scales x) (w_scales s)"
    "list_all2 (modifier_as v) (vc_modifiers x) (w_modifiers s)"
    "list_all2 (form_as v (competency_keys s) (scale_keys s)) (vc_forms x) (w_forms s)"
    "list_all2 (citation_as v None None) (vc_citations x) (w_citations s)"
    using rows by (simp_all add: rows_as_def)
  have f: "filter (\<lambda>p. ph_version_id p = v) (phases ?c) = w_phases s"
    "filter (\<lambda>p. pt_version_id p = v) (phase_transitions ?c) = w_transitions s"
    "filter (\<lambda>p. rm_version_id p = v) (rating_modifiers ?c) = w_modifiers s"
    "filter (\<lambda>m. co_version_id m = v) (competencies ?c) = map fst (w_competencies s)"
    "filter (\<lambda>t. tk_version_id t = v) (tasks ?c) = concat (map block_tasks (w_competencies s))"
    "filter (\<lambda>t. rs_version_id t = v) (rating_scales ?c) = map fst (w_scales s)"
    "filter (\<lambda>t. ra_version_id t = v) (rating_anchors ?c) = concat (map snd (w_scales s))"
    "filter (\<lambda>f. f_version_id f = v) (evaluation_forms ?c) = map fst (w_forms s)"
    "filter (\<lambda>b. fc_version_id b = v) (form_competencies ?c) = concat (map (\<lambda>b. fst (snd b)) (w_forms s))"
    "filter (\<lambda>n. fn_version_id n = v) (form_narratives ?c) = concat (map (\<lambda>b. snd (snd b)) (w_forms s))"
    "filter (\<lambda>r. ci_version_id r = v) (citations w) =
      concat (map block_citations (w_competencies s)) @ w_citations s"
    unfolding t by (rule filter_new; use new own in \<open>force simp: y owners_def block_tasks_def block_citations_def\<close>)+
  have p: "load_policy ?c v = vc_policy x"
  proof -
    have "find (\<lambda>p. fp_version_id p = v) (policies c) = None"
      using new by (auto simp: y owners_def find_None_iff)
    then show ?thesis
      by (simp add: load_policy_def t find_snoc policy_row_of_def)
  qed
  have sub: "set (w_phases s) \<subseteq> set (phases ?c)" "set (map fst (w_competencies s)) \<subseteq> set (competencies ?c)"
    "set (map fst (w_scales s)) \<subseteq> set (rating_scales ?c)"
    by (simp_all add: t)
  have d: "distinct (map co_id (map fst (w_competencies s)))"
    "distinct (map tk_id (concat (map block_tasks (w_competencies s))))"
    "distinct (map rs_id (map fst (w_scales s)))" "distinct (map f_id (map fst (w_forms s)))"
    using ids unfolding t by (auto intro!: ids_ok_part simp del: map_map map_append)
  have scales: "load_scales ?c v = Inr (sort_key sd_name (map order_scale (vc_scales x)))"
    by (rule load_scales_stored [OF as(4) f(6,7) _ d(3)]) (use own(6) in auto)
  have forms: "load_forms ?c v = Inr (sort_key fd_name (vc_forms x))"
  proof (rule load_forms_stored [OF as(6) f(8-10) _ d(4)])
    show "map_option co_name (find (\<lambda>m. co_id m = i) (competencies ?c)) = Some n" if "competency_keys s n = Some i" for n i
      using keys_find [OF that ids(2) sub(2)] by auto
    show "map_option rs_name (find (\<lambda>m. rs_id m = i) (rating_scales ?c)) = Some n" if "scale_keys s n = Some i" for n i
      using keys_find [OF that ids(4) sub(3)] by auto
  qed (use own(8) in auto)
  obtain ms bc index where ms: "load_competencies ?c v = Inr (ms, bc, index)"
    "load_citations (citations w) v bc index ms =
      Inr (map order_competency (vc_competencies x), sort_key cite_order (vc_citations x))"
    using load_competencies_stored [OF as(3,7) f(4,5,11) _ _ _ d(1,2)] own(4,5,9) by blast
  have "find (\<lambda>p. pv_id p = v) (program_versions ?c) = Some r"
    using r(1) by (simp add: version_of_def)
  then show ?thesis
    by (simp add: load_content_def Let_def ms scales forms p r export_order_def
        load_phases_stored [OF as(1) f(1)] load_transitions_stored [OF as(2) f(2) ids(1) sub(1)]
        load_modifiers_stored [OF as(5) f(3)])
qed

end
