(* ===== verification/Versions.thy ===== *)
theory Versions
  imports Programs Reading
begin

text \<open>
  What the services of Publishing promise of one program version: a document that passes
  validation is stored by \<open>create_version\<close> and \<open>replace_draft\<close> and read back as it was given, in
  the order of an export, and once published a version reads the same for good.
\<close>

section \<open>A created version\<close>

definition new_version :: "clock \<Rightarrow> office \<Rightarrow> int \<Rightarrow> int \<Rightarrow> version_content \<Rightarrow> program_version_row" where
  "new_version clk w actor program_id x =
     \<lparr>pv_id = next_id (map pv_id (program_versions (cat w))), pv_program_id = program_id,
      pv_version_number = next_number w program_id, pv_label = vc_label x, pv_name = vc_name x,
      pv_description = vc_description x, pv_created_at = clk 0, pv_created_by = Some actor,
      pv_published_at = None, pv_published_by = None\<rparr>"

lemma next_number_pos: "config_ok (config_of w) \<Longrightarrow> 1 \<le> next_number w p"
  using max_id_in by (fastforce simp: next_number_def config_ok_def config_of_def split: option.splits)

lemma next_number_fresh:
  "(p, next_number w p) \<notin> set (map (\<lambda>q. (pv_program_id q, pv_version_number q)) (program_versions (cat w)))"
proof
  assume "(p, next_number w p) \<in> set (map (\<lambda>q. (pv_program_id q, pv_version_number q)) (program_versions (cat w)))"
  then obtain q where q: "q \<in> set (program_versions (cat w))" "pv_program_id q = p"
    "pv_version_number q = next_number w p" by auto
  let ?ns = "map pv_version_number (filter (\<lambda>p'. pv_program_id p' = p) (program_versions (cat w)))"
  have "next_number w p \<in> set ?ns" using q by (force simp: image_iff)
  moreover from this obtain m where m: "max_id ?ns = Some m" by (cases "max_id ?ns") (metis empty_iff list.set(1) max_id_None_iff, blast)
  ultimately have "next_number w p \<le> m" using max_id_ge by blast
  then show False using m by (simp add: next_number_def)
qed

lemma find_snoc_new: "f r \<notin> f ` set xs \<Longrightarrow> find (\<lambda>x. f x = f r) (xs @ [r]) = Some r"
  by (induction xs) auto

lemma insert_program_version_total:
  assumes ok: "config_ok (config_of w)" and wf: "well_formed x" and st: "storable x"
    and pg: "program_of w p \<noteq> None" and u: "user_of (base w) a \<noteq> None"
  shows "\<exists>w'. insert_program_version clk p x a k w = Inr (w', next_id (map pv_id (program_versions (cat w)))) \<and>
    load_content w' (next_id (map pv_id (program_versions (cat w)))) = Inr (Some (export_order x)) \<and>
    version_of (base w') (next_id (map pv_id (program_versions (cat w)))) = Some (new_version clk w a p x)"
proof -
  let ?r = "new_version clk w a p x" and ?v = "next_id (map pv_id (program_versions (cat w)))"
  let ?w1 = "set_catalog (\<lambda>c. c\<lparr>program_versions := program_versions c @ [?r]\<rparr>) w"
  have id: "pv_id ?r = ?v" by (simp add: new_version_def)
  have fresh: "pv_id ?r \<notin> pv_id ` set (program_versions (cat w))"
    unfolding id using next_id_fresh [of "map pv_id (program_versions (cat w))"] by simp
  have "0 < sql_length (vc_name x)"
    using wf storableD(1) [OF st] sql_safe_length by (simp add: well_formed_def)
  then have i1: "insert_version_row ?r w = Inr ?w1"
    using next_number_pos [OF ok] next_number_fresh [of p w] pg u
    by (simp add: insert_version_row_def new_version_def opt_user_ok_def)
  have found: "find (\<lambda>q. pv_id q = ?v) (program_versions (cat ?w1)) = Some ?r"
    using find_snoc_new [OF fresh] unfolding id by (simp add: set_catalog_def)
  have ok1: "config_ok (config_of ?w1)"
    using insert_version_row_authored [OF i1 id] ok by (simp add: authored_def reconfigures_def)
  have wr: "writable ?v (fst (config_of ?w1))"
    using found id by (auto simp: writable_def frozen_def config_of_def new_version_def set_catalog_def)
  have "owners (config_of ?w1) = owners (config_of w)"
    by (simp add: owners_def config_of_def set_catalog_def)
  then have new: "?v \<notin> owners (config_of ?w1)"
    using ok next_id_fresh [of "map pv_id (program_versions (cat w))"] by (auto simp: config_ok_def config_of_def)
  obtain s where s: "rows_as ?v x s"
    "insert_content ?v x (config_of ?w1) = Inr (with_rows ?v (vc_policy x) s (config_of ?w1))"
    using store_content [OF ok1 wr new wf st] by blast
  let ?y = "with_rows ?v (vc_policy x) s (config_of ?w1)"
  let ?w2 = "set_config ?y ?w1"
  have i2: "in_config (insert_content ?v x) ?w1 = Inr ?w2"
    using s(2) by (simp add: row_simps)
  have "opt_user_ok (base ?w2) (Some a)"
    using u by (cases ?y) (simp add: opt_user_ok_def user_of_def set_config_def set_catalog_def)
  then obtain d where d: "record_for_subject k (Some a) None (SubjProgramVersion ?v) (clk 1) (base ?w2) = Inr d"
    using record_for_subject_total [of "base ?w2" "Some a" None k "SubjProgramVersion ?v" "clk 1"]
    unfolding opt_user_ok_def by fastforce
  let ?w' = "?w2\<lparr>base := d\<rparr>"
  have i3: "in_base (record_for_subject k (Some a) None (SubjProgramVersion ?v) (clk 1)) ?w2 = Inr ?w'"
    using d by (simp add: row_simps)
  have cat: "cat ?w' = cat ?w2"
    using journaled_tables(3) [OF journaled_record_for_subject [OF d]] by simp
  have conf: "config_of ?w' = ?y"
    using cat config_of_set [of ?y ?w1] by (simp add: config_of_def)
  have stored: "config_ok ?y"
    using stored_ok [OF insert_content_stored [OF s(2)] ok1] .
  have "program_versions (cat ?w2) = program_versions (cat ?w1)"
    by (cases "config_of ?w1") (simp add: with_rows_def config_of_def)
  then have row: "version_of (base ?w') ?v = Some ?r"
    using found cat by (simp add: version_of_def)
  have ok': "config_ok (config_of ?w')" by (subst conf) (rule stored)
  have "load_content ?w' ?v = Inr (Some (export_order x))"
    by (rule load_stored [OF conf ok' s(1) new row]) (simp_all only: new_version_def program_version_row.simps)
  moreover have "insert_program_version clk p x a k w = Inr (?w', ?v)"
    using i1 i2 i3 by (simp add: insert_program_version_def new_version_def [symmetric] Let_def)
  ultimately show ?thesis using row by blast
qed

lemma insert_program_version_reads_back:
  assumes ok: "config_ok (config_of w)" and wf: "well_formed x"
    and i: "insert_program_version clk p x a k w = Inr (w', v)"
  shows "load_content w' v = Inr (Some (export_order x)) \<and> version_of (base w') v = Some (new_version clk w a p x)"
proof -
  let ?v = "next_id (map pv_id (program_versions (cat w)))"
  obtain w1 w2 where r: "insert_version_row (new_version clk w a p x) w = Inr w1"
    and c: "in_config (insert_content ?v x) w1 = Inr w2" and v: "v = ?v"
    using i by (auto simp: insert_program_version_def new_version_def Let_def guard_simps)
  have n: "sql_safe (vc_name x)" "program_of w p \<noteq> None" "user_of (base w) a \<noteq> None"
    using r by (auto simp: insert_version_row_def new_version_def guard_simps sql_safe_def opt_user_ok_def)
  obtain z where "insert_content ?v x (config_of w1) = Inr z"
    using c by (auto simp: row_simps)
  then have "storable x" using n(1) by (rule insert_content_storable)
  from insert_program_version_total [OF ok wf this n(2,3), of clk k] i show ?thesis
    unfolding v by auto
qed

text \<open>And a document that is not storable is never stored.\<close>

lemma insert_program_version_storable:
  assumes "insert_program_version clk p x a k w = Inr r" shows "storable x"
proof -
  obtain q w1 w2 v where "insert_version_row q w = Inr w1" "pv_name q = vc_name x"
    and i: "in_config (insert_content v x) w1 = Inr w2"
    using assms by (cases r) (auto simp: insert_program_version_def guard_simps Let_def)
  then have "sql_safe (vc_name x)" by (simp add: insert_version_row_def guard_simps sql_safe_def)
  moreover obtain z where "insert_content v x (config_of w1) = Inr z"
    using i by (cases "insert_content v x (config_of w1)") (auto simp: in_config_def config_of_def guard_simps)
  ultimately show ?thesis using insert_content_storable by blast
qed

section \<open>A replaced draft\<close>

lemma replace_draft_reads_back:
  assumes ok: "config_ok (config_of w)" and r: "replace_draft pre w a v x = Inr w'"
  shows "load_content w' v = Inr (Some (export_order x))"
proof -
  let ?f = "\<lambda>p. p\<lparr>pv_label := vc_label x, pv_name := vc_name x, pv_description := vc_description x\<rparr>"
  obtain w1 w2 where d: "version_state_of w v = VsDraft" "delete_content v w = Inr w1"
    and u: "update_version_row v ?f w1 = Inr w2"
    and i: "in_config (insert_content v x) w2 = Inr w'"
    and wf: "well_formed x"
    using r by (auto simp: replace_draft_def Let_def guard_simps validate_content_Nil)
  have w1: "w1 = set_config (without v (config_of w)) w" by (rule delete_content_effect [OF d(2)])
  have vs1: "program_versions (cat w1) = program_versions (cat w)"
    by (cases "config_of w") (simp add: w1 without_def config_of_def)
  have w2: "w2 = set_catalog (\<lambda>c. c\<lparr>program_versions := map (\<lambda>p. if pv_id p = v then ?f p else p) (program_versions (cat w1))\<rparr>) w1"
    using u by (simp add: update_version_row_def guard_simps set_catalog_def)
  obtain old where old: "version_of (base w) v = Some old" "pv_published_at old = None"
    using d(1) by (auto simp: version_state_of_def split: option.splits if_splits)
  have row: "find (\<lambda>p. pv_id p = v) (program_versions (cat w2)) = Some (?f old)"
  proof -
    have "find (\<lambda>p. pv_id p = v) (map (\<lambda>p. if pv_id p = v then ?f p else p) ps) =
        map_option (\<lambda>p. if pv_id p = v then ?f p else p) (find (\<lambda>p. pv_id p = v) ps)" for ps :: "program_version_row list"
      by (rule find_map_update) simp
    moreover have "find (\<lambda>p. pv_id p = v) (program_versions (cat w1)) = Some old" "pv_id old = v"
      using old(1) by (auto simp: vs1 version_of_def dest: find_eq_SomeD)
    moreover have "program_versions (cat w2) = map (\<lambda>p. if pv_id p = v then ?f p else p) (program_versions (cat w1))"
      by (simp add: w2 set_catalog_def)
    ultimately show ?thesis by simp
  qed
  have ok2: "config_ok (config_of w2)"
  proof -
    have "config_ok (config_of w1)" using without_ok [OF ok] by (simp add: w1)
    then show ?thesis
      using update_version_row_authored [OF u] by (simp add: authored_def reconfigures_def)
  qed
  have wr: "writable v (fst (config_of w2))"
  proof -
    have "v \<in> pv_id ` set (program_versions (cat w2))"
      using find_eq_SomeD [OF row] by (metis imageI)
    then show ?thesis using row old(2) by (simp add: writable_def frozen_def config_of_def)
  qed
  have "owners (config_of w2) = owners (config_of w1)"
    by (simp add: owners_def config_of_def w2 set_catalog_def)
  then have new: "v \<notin> owners (config_of w2)"
    using without_owner by (simp add: w1)
  have st: "storable x"
  proof (rule insert_content_storable)
    show "insert_content v x (config_of w2) = Inr (config_of w')" using i by (auto simp: row_simps)
    have "old \<in> set (program_versions (cat w1))" "pv_id old = v"
      using old(1) unfolding version_of_def vs1 by (auto dest: find_eq_SomeD)
    then show "sql_safe (vc_name x)"
      using u by (auto simp: update_version_row_def guard_simps list_all_iff sql_safe_def)
  qed
  obtain s where s: "rows_as v x s"
    "insert_content v x (config_of w2) = Inr (with_rows v (vc_policy x) s (config_of w2))"
    using store_content [OF ok2 wr new wf st] by blast
  let ?y = "with_rows v (vc_policy x) s (config_of w2)"
  have conf: "config_of w' = ?y" and w': "w' = set_config ?y w2"
    using i s(2) by (simp_all add: row_simps)
  have stored: "config_ok ?y"
    using stored_ok [OF insert_content_stored [OF s(2)] ok2] .
  have "program_versions (cat w') = program_versions (cat w2)"
    by (cases "config_of w2") (simp add: w' with_rows_def config_of_def)
  then have r': "version_of (base w') v = Some (?f old)"
    using row by (simp add: version_of_def)
  have ok': "config_ok (config_of w')" by (subst conf) (rule stored)
  show ?thesis
    by (rule load_stored [OF conf ok' s(1) new r']) simp_all
qed

section \<open>What a read depends on\<close>

text \<open>The read of a version sees the version's own rows, and names through their ids.\<close>


lemma find_owned:
  assumes "ids_ok (map f xs)" and "\<exists>x \<in> set xs. f x = i \<and> P x"
  shows "find (\<lambda>y. f y = i) (filter P xs) = find (\<lambda>y. f y = i) xs"
proof -
  obtain x where x: "x \<in> set xs" "f x = i" "P x" using assms(2) by blast
  have "find (\<lambda>y. f y = i) xs = Some x"
    using find_id_unique [OF assms(1) x(1)] x(2) by simp
  moreover have "find (\<lambda>y. f y = i) (filter P xs) = Some x"
    using find_id_unique [OF ids_ok_filter [OF assms(1)], of x P] x by simp
  ultimately show ?thesis by simp
qed

lemma find_owner [simp]: "find (\<lambda>r. f r = v) (filter (\<lambda>r. f r = v) xs) = find (\<lambda>r. f r = v) xs"
  by (induction xs) auto

lemma map_filter_cong: "(\<And>x. x \<in> set xs \<Longrightarrow> f x = g x) \<Longrightarrow> List.map_filter f xs = List.map_filter g xs"
  by (induction xs) (auto simp: map_filter_simps split: option.splits)

lemma load_owned_rows:
  fixes c :: catalog and cs :: "citation_row list"
  shows "load_policy (fst (owned_rows v (c, cs))) v = load_policy c v"
    "load_phases (fst (owned_rows v (c, cs))) v = load_phases c v"
    "load_modifiers (fst (owned_rows v (c, cs))) v = load_modifiers c v"
    "load_scales (fst (owned_rows v (c, cs))) v = load_scales c v"
    "load_competencies (fst (owned_rows v (c, cs))) v = load_competencies c v"
    "load_citations (snd (owned_rows v (c, cs))) v bc index ms = load_citations cs v bc index ms"
    "find (\<lambda>p. pv_id p = v) (program_versions (fst (owned_rows v (c, cs)))) = find (\<lambda>p. pv_id p = v) (program_versions c)"
  by (simp_all add: owned_rows_def load_policy_def load_phases_def load_modifiers_def load_scales_def
      load_competencies_def competency_rows_def load_citations_def)

lemma load_transitions_owned:
  fixes c :: catalog
  assumes "config_ok (c, cs)"
  shows "load_transitions (fst (owned_rows v (c, cs))) v = load_transitions c v"
proof -
  let ?o = "fst (owned_rows v (c, cs))"
  have "phase_named ?o i = phase_named c i" if h: "has_phase c i v" for i
  proof -
    have "find (\<lambda>p. ph_id p = i) (filter (\<lambda>r. ph_version_id r = v) (phases c)) = find (\<lambda>p. ph_id p = i) (phases c)"
    proof (rule find_owned)
      show "ids_ok (map ph_id (phases c))" using assms by (simp add: config_ok_def ids_sound_def)
      show "\<exists>x \<in> set (phases c). ph_id x = i \<and> ph_version_id x = v" using h by (auto simp: has_phase_def)
    qed
    then show ?thesis by (simp add: phase_named_def owned_rows_def)
  qed
  then have "transition_of ?o t = transition_of c t"
    if "t \<in> set (phase_transitions c)" "pt_version_id t = v" for t
    using that assms by (auto simp: transition_of_def config_ok_def references_ok_def)
  then have "List.map_filter (transition_of ?o) (filter (\<lambda>t. pt_version_id t = v) (phase_transitions c)) =
      List.map_filter (transition_of c) (filter (\<lambda>t. pt_version_id t = v) (phase_transitions c))"
    by (intro map_filter_cong) auto
  then show ?thesis
    by (simp add: load_transitions_def) (simp add: owned_rows_def)
qed

lemma load_forms_owned:
  fixes c :: catalog
  assumes "config_ok (c, cs)"
  shows "load_forms (fst (owned_rows v (c, cs))) v = load_forms c v"
proof -
  let ?o = "fst (owned_rows v (c, cs))"
  have m: "find (\<lambda>m. co_id m = i) (competencies ?o) = find (\<lambda>m. co_id m = i) (competencies c)"
    if h: "has_competency c i v" for i
  proof -
    have "find (\<lambda>m. co_id m = i) (filter (\<lambda>r. co_version_id r = v) (competencies c)) = find (\<lambda>m. co_id m = i) (competencies c)"
    proof (rule find_owned)
      show "ids_ok (map co_id (competencies c))" using assms by (simp add: config_ok_def ids_sound_def)
      show "\<exists>x \<in> set (competencies c). co_id x = i \<and> co_version_id x = v" using h by (auto simp: has_competency_def)
    qed
    then show ?thesis by (simp add: owned_rows_def)
  qed
  have s: "find (\<lambda>m. rs_id m = i) (rating_scales ?o) = find (\<lambda>m. rs_id m = i) (rating_scales c)"
    if h: "has_scale c i v" for i
  proof -
    have "find (\<lambda>m. rs_id m = i) (filter (\<lambda>r. rs_version_id r = v) (rating_scales c)) = find (\<lambda>m. rs_id m = i) (rating_scales c)"
    proof (rule find_owned)
      show "ids_ok (map rs_id (rating_scales c))" using assms by (simp add: config_ok_def ids_sound_def)
      show "\<exists>x \<in> set (rating_scales c). rs_id x = i \<and> rs_version_id x = v" using h by (auto simp: has_scale_def)
    qed
    then show ?thesis by (simp add: owned_rows_def)
  qed
  have "binding_of ?o b = binding_of c b" if "b \<in> set (form_competencies c)" "fc_version_id b = v" for b
    using that assms m s by (auto simp: binding_of_def config_ok_def references_ok_def)
  then have "List.map_filter (\<lambda>b. map_option (Pair (fc_sort b)) (binding_of ?o b))
        (filter (\<lambda>b. fc_version_id b = v) (form_competencies c)) =
      List.map_filter (\<lambda>b. map_option (Pair (fc_sort b)) (binding_of c b))
        (filter (\<lambda>b. fc_version_id b = v) (form_competencies c))"
    by (intro map_filter_cong) auto
  then have "load_bindings ?o v = load_bindings c v"
    by (simp add: load_bindings_def) (simp add: owned_rows_def)
  then show ?thesis
    by (simp add: load_forms_def Let_def) (simp add: owned_rows_def)
qed

lemma load_content_owned:
  assumes "config_ok (config_of w)"
  shows "load_content (set_config (version_rows v w) w) v = load_content w v"
proof -
  have c: "cat (set_config x w) = fst x" "citations (set_config x w) = snd x" for x
    by (cases x, simp add: set_config_def set_catalog_def)+
  show ?thesis
    using assms unfolding load_content_def Let_def c config_of_def
    by (simp only: load_owned_rows load_transitions_owned load_forms_owned)
qed

lemma load_content_config: "config_of w' = config_of w \<Longrightarrow> load_content w' v = load_content w v"
  unfolding config_of_def prod.inject by (elim conjE) (simp only: load_content_def)

lemma load_content_same_rows:
  assumes "config_ok (config_of w)" and "config_ok (config_of w')" and "version_rows v w' = version_rows v w"
  shows "load_content w' v = load_content w v"
proof -
  have "load_content (set_config (version_rows v w') w') v = load_content (set_config (version_rows v w) w) v"
    by (rule load_content_config) (simp add: assms(3))
  then show ?thesis
    using assms(1,2) by (simp add: load_content_owned)
qed

section \<open>Publishing\<close>

lemma publish_freezes:
  assumes "publish_version pre clk w a v = Inr w'" shows "frozen (cat w') v"
proof -
  let ?f = "\<lambda>p. p\<lparr>pv_published_at := Some (clk 0), pv_published_by := Some a\<rparr>"
  obtain w1 where d: "version_state_of w v = VsDraft" and u: "update_version_row v ?f w = Inr w1"
    and j: "in_base (record_for_subject EvProgramVersionPublished (Some a) None (SubjProgramVersion v) (clk 1)) w1 = Inr w'"
    using assms by (auto simp: publish_version_def guard_simps split: if_splits)
  have w1: "program_versions (cat w1) = map (\<lambda>p. if pv_id p = v then ?f p else p) (program_versions (cat w))"
    using u by (auto simp: update_version_row_def guard_simps set_catalog_def)
  have "cat w' = cat w1"
    using j journaled_tables(3) [OF journaled_record_for_subject] by (auto simp: row_simps)
  moreover obtain old where "find (\<lambda>p. pv_id p = v) (program_versions (cat w)) = Some old"
    using d by (auto simp: version_state_of_def version_of_def split: option.splits if_splits)
  moreover from this have "pv_id old = v" by (auto dest: find_eq_SomeD)
  moreover have "find (\<lambda>p. pv_id p = v) (map (\<lambda>p. if pv_id p = v then ?f p else p) ps) =
      map_option (\<lambda>p. if pv_id p = v then ?f p else p) (find (\<lambda>p. pv_id p = v) ps)" for ps :: "program_version_row list"
    by (rule find_map_update) simp
  ultimately show ?thesis by (simp add: frozen_def w1)
qed

end
