(* ===== verification/Exchange.thy ===== *)
theory Exchange
  imports Versions
begin

text \<open>
  The versioned JSON document of one program version (program_export.rs): exporting a version, and
  importing a document as a draft of a new or an existing program. serde_json's writer and reader
  of the document are the parameters \<open>encode\<close> and \<open>decode\<close>.
\<close>

section \<open>The document\<close>

record program_export =
  pe_format :: string
  pe_format_version :: int
  pe_content :: version_content

definition export_format :: string where
  "export_format = ''consolebook-program-version''"

definition export_format_version :: int where
  "export_format_version = 1"

definition exported :: "version_content \<Rightarrow> program_export" where
  "exported x = \<lparr>pe_format = export_format, pe_format_version = export_format_version, pe_content = x\<rparr>"

definition export_version :: "(program_export \<Rightarrow> string option) \<Rightarrow> office \<Rightarrow> int \<Rightarrow> db_error + string option" where
  "export_version encode w v =
     seq (load_content w v) (\<lambda>x.
     case x of
       None \<Rightarrow> Inr None
     | Some x \<Rightarrow>
         (case encode (exported x) of
            None \<Rightarrow> Inl (Defect ''serializing program version export'')
          | Some s \<Rightarrow> Inr (Some s)))"

section \<open>Import\<close>

datatype import_target = IntoNewProgram | VersionOf int

datatype import_refusal =
    ImCapabilityRequired
  | ImUnsupportedFormat string
  | ImInvalid "string list"
  | ImProgramNameTaken
  | ImNoSuchProgram

text \<open>The program the version goes to, created first when the target is a new one.\<close>

definition import_program ::
    "clock \<Rightarrow> office \<Rightarrow> int \<Rightarrow> version_content \<Rightarrow> import_target \<Rightarrow> (import_refusal, office \<times> int) outcome" where
  "import_program clk w actor x target =
     (case target of
        IntoNewProgram \<Rightarrow>
          let name = trim (vc_name x) in
          if program_named w name \<noteq> None then refuse ImProgramNameTaken
          else run (insert_program clk name actor w) Inr
      | VersionOf p \<Rightarrow> if program_of w p = None then refuse ImNoSuchProgram else Inr (w, p))"

definition import_version ::
    "(string \<Rightarrow> string + program_export) \<Rightarrow> office \<Rightarrow> clock \<Rightarrow> office \<Rightarrow> int \<Rightarrow> string \<Rightarrow> import_target
      \<Rightarrow> (import_refusal, office \<times> int) outcome" where
  "import_version decode pre clk w actor document target =
     (if \<not> holds_manage_programs pre actor then refuse ImCapabilityRequired
      else case decode document of
        Inl err \<Rightarrow> refuse (ImUnsupportedFormat (''not a program-version export: '' @ err))
      | Inr e \<Rightarrow>
          if pe_format e \<noteq> export_format
          then refuse (ImUnsupportedFormat (''unsupported format '' @ quoted (pe_format e)))
          else if pe_format_version e \<noteq> export_format_version
          then refuse (ImUnsupportedFormat (''unsupported format version '' @ int_str (pe_format_version e)))
          else let problems = validate_content (pe_content e) in
          if problems \<noteq> [] then refuse (ImInvalid problems)
          else case import_program clk w actor (pe_content e) target of
            Inl e \<Rightarrow> Inl e
          | Inr (x, p) \<Rightarrow>
              run (insert_program_version (\<lambda>n. clk (n + 2)) p (pe_content e) actor EvProgramVersionImported x) Inr)"

section \<open>What an import does\<close>

lemma import_program_authored:
  "import_program clk w a x target = Inr (w', p) \<Longrightarrow> authored w w'"
  by (auto simp: import_program_def Let_def guard_simps authored_def [of w' w'] config_of_def
      split: import_target.splits dest: insert_program_authored)

lemma import_version_Inr:
  assumes "import_version decode pre clk w a doc target = Inr (w', v)"
  obtains x w1 p where "decode doc = Inr (exported x)" "well_formed x"
    "import_program clk w a x target = Inr (w1, p)"
    "insert_program_version (\<lambda>n. clk (n + 2)) p x a EvProgramVersionImported w1 = Inr (w', v)"
proof -
  from assms obtain e where e: "decode doc = Inr e" "pe_format e = export_format" "pe_format_version e = export_format_version"
    "validate_content (pe_content e) = []" and i: "(case import_program clk w a (pe_content e) target of Inl e \<Rightarrow> Inl e
        | Inr (x, p) \<Rightarrow> run (insert_program_version (\<lambda>n. clk (n + 2)) p (pe_content e) a EvProgramVersionImported x) Inr) =
      Inr (w', v)"
    by (auto simp: import_version_def Let_def split: if_splits sum.splits)
  then have x: "decode doc = Inr (exported (pe_content e))" "well_formed (pe_content e)"
    by (simp_all add: exported_def validate_content_Nil)
  from i obtain w1 p where p: "import_program clk w a (pe_content e) target = Inr (w1, p)"
    "insert_program_version (\<lambda>n. clk (n + 2)) p (pe_content e) a EvProgramVersionImported w1 = Inr (w', v)"
    by (auto simp: guard_simps split: sum.splits)
  show thesis by (rule that [OF x p])
qed

lemma import_version_authored:
  assumes "import_version decode pre clk w a doc target = Inr (w', v)" shows "authored w w'"
  using assms by (rule import_version_Inr)
    (blast intro: authored_trans import_program_authored insert_program_version_authored)

lemma authored_config: "authored w w' \<Longrightarrow> config_ok (config_of w) \<Longrightarrow> config_ok (config_of w')"
  by (simp add: authored_def reconfigures_def)

lemma import_reads_back:
  assumes "config_ok (config_of w)" and "import_version decode pre clk w a doc target = Inr (w', v)"
  shows "\<exists>x. decode doc = Inr (exported x) \<and> load_content w' v = Inr (Some (export_order x)) \<and>
    version_state_of w' v = VsDraft"
  using assms(2)
proof (rule import_version_Inr)
  fix x w1 p
  assume r: "decode doc = Inr (exported x)" and wf: "well_formed x"
    and p: "import_program clk w a x target = Inr (w1, p)"
    and i: "insert_program_version (\<lambda>n. clk (n + 2)) p x a EvProgramVersionImported w1 = Inr (w', v)"
  have "config_ok (config_of w1)"
    using authored_config [OF import_program_authored [OF p] assms(1)] .
  from insert_program_version_reads_back [OF this wf i] r show ?thesis
    by (auto simp: version_state_of_def new_version_def)
qed

section \<open>An export is in export order\<close>

lemma sorted_map: "(\<And>x. k x = k' (g x)) \<Longrightarrow> sort_key k' (map g (sort_key k xs)) = map g (sort_key k xs)"
  by (simp add: sort_map [of k k' g])

lemma rows_resolve: "has_scale c i v \<longleftrightarrow> i \<in> rs_id ` set (filter (\<lambda>s. rs_version_id s = v) (rating_scales c))"
  "has_competency c i v \<longleftrightarrow> i \<in> co_id ` set (filter (\<lambda>s. co_version_id s = v) (competencies c))"
  "has_task c i v \<longleftrightarrow> i \<in> tk_id ` set (filter (\<lambda>s. tk_version_id s = v) (tasks c))"
  "has_form c i v \<longleftrightarrow> i \<in> f_id ` set (filter (\<lambda>s. f_version_id s = v) (evaluation_forms c))"
  by (auto simp: has_defs)

lemma distinct_rows: "ids_ok (map f xs) \<Longrightarrow> distinct (map f (sort_key k (filter P xs)))"
  by (simp add: distinct_map_sort) (metis ids_ok_distinct ids_ok_filter)

lemma load_scales_ordered:
  assumes ok: "config_ok (c, cs)" and l: "load_scales c v = Inr ss"
  shows "sort_key sd_name (map order_scale ss) = ss"
proof -
  let ?rows = "sort_key rs_name (filter (\<lambda>s. rs_version_id s = v) (rating_scales c))"
  let ?as = "sort_key ra_value (filter (\<lambda>a. ra_version_id a = v) (rating_anchors c))"
  let ?def = "\<lambda>a. \<lparr>nd_value = ra_value a, nd_label = ra_label a, nd_definition = ra_definition a\<rparr>"
  let ?push = "\<lambda>a s. s\<lparr>sd_anchors := sd_anchors s @ [?def a]\<rparr>"
  let ?G = "\<lambda>r. fold ?push (filter (\<lambda>a. ra_scale_id a = rs_id r) ?as) (bare_scale r)"
  have push: "fold ?push as s = s\<lparr>sd_anchors := sd_anchors s @ map ?def as\<rparr>" for as s
    by (induction as arbitrary: s) simp_all
  have d: "distinct (map rs_id ?rows)"
    using ok by (intro distinct_rows) (simp add: config_ok_def ids_sound_def)
  have own: "\<forall>a \<in> set ?as. ra_scale_id a \<in> rs_id ` set ?rows"
    using ok by (auto simp: config_ok_def references_ok_def rows_resolve)
  have "ss = map ?G ?rows"
    using l each_at_slot [OF d own, of ?push bare_scale]
    by (simp add: load_scales_def push_anchor_def [abs_def] Let_def)
  moreover have "order_scale (?G r) = ?G r" for r
    by (simp add: push bare_scale_def order_scale_def filter_sort sorted_map)
  ultimately show ?thesis
    by (simp add: comp_def) (rule sorted_map; simp add: push bare_scale_def)
qed

lemma load_forms_ordered:
  assumes ok: "config_ok (c, cs)" and l: "load_forms c v = Inr fs"
  shows "sort_key fd_name fs = fs"
proof -
  let ?rows = "sort_key f_name (filter (\<lambda>f. f_version_id f = v) (evaluation_forms c))"
  let ?bs = "load_bindings c v" and ?ns = "sort_key (\<lambda>n. (fn_sort n, fn_prompt n)) (filter (\<lambda>n. fn_version_id n = v) (form_narratives c))"
  let ?pushb = "\<lambda>y x. x\<lparr>fd_competencies := fd_competencies x @ [snd y]\<rparr>"
  let ?pushn = "\<lambda>n x. x\<lparr>fd_narratives := fd_narratives x @ [\<lparr>rd_prompt = fn_prompt n, rd_required = fn_required n\<rparr>]\<rparr>"
  let ?H = "\<lambda>r. fold ?pushb (filter (\<lambda>y. fst y = f_id r) ?bs) (bare_form r)"
  let ?G = "\<lambda>r. fold ?pushn (filter (\<lambda>n. fn_form_id n = f_id r) ?ns) (?H r)"
  have pb: "fd_name (fold ?pushb ys x) = fd_name x" for ys x by (induction ys arbitrary: x) simp_all
  have pn: "fd_name (fold ?pushn ns x) = fd_name x" for ns x by (induction ns arbitrary: x) simp_all
  have d: "distinct (map f_id ?rows)"
    using ok by (intro distinct_rows) (simp add: config_ok_def ids_sound_def)
  have "fst y \<in> f_id ` set ?rows" if "y \<in> set ?bs" for y
  proof -
    from that obtain b where b: "b \<in> set (form_competencies c)" "fc_version_id b = v" "binding_of c b = Some y"
      by (auto simp: load_bindings_def List.map_filter_def)
    then have "fst y = fc_form_id b" by (auto simp: binding_of_def bind_eq_Some_conv)
    then show ?thesis using b ok by (auto simp: config_ok_def references_ok_def rows_resolve)
  qed
  then have e: "each (push_binding (slots (map f_id ?rows))) ?bs (map bare_form ?rows) = Inr (map ?H ?rows)"
    using each_at_slot [OF d, of ?bs fst ?pushb bare_form]
    by (simp add: push_binding_def [abs_def] case_prod_unfold)
  have own: "\<forall>n \<in> set ?ns. fn_form_id n \<in> f_id ` set ?rows"
    using ok by (auto simp: config_ok_def references_ok_def rows_resolve)
  have "fs = map ?G ?rows"
    using l each_at_slot [OF d own, of ?pushn ?H]
    by (simp add: load_forms_def Let_def e push_narrative_def [abs_def])
  then show ?thesis
    by simp (rule sorted_map; simp add: pb pn bare_form_def)
qed

lemma load_competencies_ordered:
  assumes ok: "config_ok (c, cs)" and l: "load_competencies c v = Inr (ms, bc, index)"
    and r: "load_citations cs v bc index ms = Inr (ns, gs)"
  shows "map order_competency ns = ns" "sort_key cite_order gs = gs"
proof -
  let ?rows = "competency_rows c v"
  let ?ts = "sort_key (\<lambda>t. (tk_sort t, tk_prompt t)) (filter (\<lambda>t. tk_version_id t = v) (tasks c))"
  let ?cs = "sort_key citation_order (filter (\<lambda>r. ci_version_id r = v) cs)"
  have d: "distinct (map co_id ?rows)" "distinct (map tk_id ?ts)"
    using ok unfolding competency_rows_def by (intro distinct_rows; simp add: config_ok_def ids_sound_def)+
  have tin: "\<forall>t \<in> set ?ts. tk_competency_id t \<in> co_id ` set ?rows"
    using ok by (auto simp: config_ok_def references_ok_def rows_resolve competency_rows_def)
  obtain i where ix: "indexes ?rows ?ts i"
    and load: "each (push_task (slots (map co_id ?rows))) ?ts (map bare_competency ?rows, Map.empty) =
      Inr (map (filled (\<lambda>_. []) (\<lambda>_. []) ?ts) ?rows, i)"
    using load_tasks [OF d tin] by blast
  have "\<forall>r \<in> set ?cs. cites_resolve ?rows ?ts r"
    using ok by (auto simp: config_ok_def references_ok_def rows_resolve cites_resolve_def competency_rows_def
        elim!: opt_key_mono)
  from load_cites [OF d ix this] r l load
  have n: "ns = map (filled (task_cites ?cs) (competency_cites ?cs) ?ts) ?rows" "gs = version_cites ?cs"
    by (simp_all add: load_competencies_def load_citations_def Let_def)
  have cited: "sort_key cite_order (map citation_of (filter P ?cs)) = map citation_of (filter P ?cs)" for P
    unfolding filter_sort by (rule sorted_map) (simp add: citation_order_def cite_order_def citation_of_def)
  then show "sort_key cite_order gs = gs" by (simp only: n version_cites_def)
  have "order_competency (filled (task_cites ?cs) (competency_cites ?cs) ?ts m) =
      filled (task_cites ?cs) (competency_cites ?cs) ?ts m" for m
    unfolding order_competency_def order_task_def filled_def filled_task_def task_cites_def competency_cites_def
    by (simp only: competency_def.simps task_def.simps map_map comp_def cited)
  then show "map order_competency ns = ns" by (simp add: n comp_def)
qed

lemma load_content_ordered:
  assumes ok: "config_ok (config_of w)" and l: "load_content w v = Inr (Some x)"
  shows "export_order x = x"
proof -
  obtain p :: program_version_row and ms bc index scales forms ns cs where
      a: "load_competencies (cat w) v = Inr (ms, bc, index)"
    and b: "load_scales (cat w) v = Inr scales" and d: "load_forms (cat w) v = Inr forms"
    and e: "load_citations (citations w) v bc index ms = Inr (ns, cs)"
    and x: "x = \<lparr>vc_name = pv_name p, vc_label = pv_label p, vc_description = pv_description p,
       vc_phases = load_phases (cat w) v, vc_transitions = load_transitions (cat w) v,
       vc_competencies = ns, vc_scales = scales, vc_modifiers = load_modifiers (cat w) v,
       vc_forms = forms, vc_citations = cs, vc_policy = load_policy (cat w) v\<rparr>"
    using l by (auto simp: load_content_def Let_def guard_simps split: option.splits)
  note ok = ok [unfolded config_of_def]
  have "sort_key (\<lambda>p. (hd_number p, hd_name p)) (load_phases (cat w) v) = load_phases (cat w) v"
    unfolding load_phases_def by (rule sorted_map) simp
  moreover have "sort_key (\<lambda>t. (td_from t, td_to t)) (load_transitions (cat w) v) = load_transitions (cat w) v"
    by (simp add: load_transitions_def)
  moreover have "sort_key od_code (load_modifiers (cat w) v) = load_modifiers (cat w) v"
    unfolding load_modifiers_def by (rule sorted_map) simp
  ultimately show ?thesis
    using load_scales_ordered [OF ok b] load_forms_ordered [OF ok d] load_competencies_ordered [OF ok a e]
    by (simp add: export_order_def x)
qed

section \<open>Export, import, export\<close>

text \<open>Provided the reader gives back what the writer wrote, the second export is the first, byte for byte.\<close>

lemma export_import_export:
  assumes ok: "config_ok (config_of w)" "config_ok (config_of u)"
    and e: "export_version encode w v = Inr (Some doc)"
    and r: "\<And>y. encode y = Some doc \<Longrightarrow> decode doc = Inr y"
    and i: "import_version decode pre clk u a doc target = Inr (u', n)"
  shows "export_version encode u' n = Inr (Some doc) \<and> load_content u' n = load_content w v \<and>
    version_state_of u' n = VsDraft"
proof -
  obtain x where x: "load_content w v = Inr (Some x)" "encode (exported x) = Some doc"
    using e by (auto simp: export_version_def guard_simps split: option.splits)
  obtain y where y: "decode doc = Inr (exported y)" "load_content u' n = Inr (Some (export_order y))"
    "version_state_of u' n = VsDraft"
    using import_reads_back [OF ok(2) i] by blast
  have "y = x" using r [OF x(2)] y(1) by (simp add: exported_def)
  then have "load_content u' n = Inr (Some x)"
    using y(2) load_content_ordered [OF ok(1) x(1)] by simp
  then show ?thesis using x y(3) by (simp add: export_version_def)
qed

end
