(* ===== verification/Installation.thy ===== *)
theory Installation
  imports Site Signoffs Retention Accounts Exchange
begin

text \<open>
  Everything that changes an installed database, as one step relation on an office: the services
  of Site, the authoring and import of programs, task sign-offs, retention administration,
  accounts, the reading of notices, and the rest of the program, which only journals. The
  invariants of all of them hold in every office such steps reach, which needs each part to keep
  the others'.
\<close>

section \<open>What the services of a site keep\<close>

text \<open>
  They read the catalog and the accounts and write neither; an enrollment is on a version it or
  another was on before, or on a published one.
\<close>

definition pins :: "db \<Rightarrow> int set" where
  "pins d = e_version_id ` set (enrollments d)"

definition leaves :: "db \<Rightarrow> db \<Rightarrow> bool" where
  "leaves d d' \<longleftrightarrow>
     catalog d' = catalog d \<and> users d' = users d \<and> (\<forall>v \<in> pins d'. v \<in> pins d \<or> published d v)"

lemma leaves_journaled: "leaves d x \<Longrightarrow> journaled x d' \<Longrightarrow> leaves d d'"
  by (simp add: leaves_def pins_def journaled_tables)

lemma writes_leaves:
  assumes "writes ser sha d r k x" shows "leaves d x"
proof -
  have "catalog x = catalog d \<and> users x = users d \<and> enrollments x = enrollments d"
    using assms by cases (auto simp: set_revision_def map_record_def edit_frame_def)
  then show ?thesis by (simp add: leaves_def pins_def)
qed

lemma lifecycle_leaves:
  assumes "lifecycle_step d l d'" shows "leaves d d'"
  using assms
proof cases
  case (event pre clk actor i kind reason to eid)
  obtain e :: enrollment_row and fv tv where e: "if kind = EkVersionChange
     then fv = Some (e_version_id e) \<and> tv = to \<and> to \<noteq> None \<and>
       version_change_refusal d i (e_user_id e) (e_version_id e) (the to) = Inr None
     else fv = None \<and> tv = None"
    and j: "journaled (after_enrollment_event d (new_enrollment_event d (clk 0) actor i kind (trim reason) fv tv)) d'"
    using record_enrollment_event_effect [OF event(2)] by blast
  have "v \<in> pins d \<or> published d v"
    if v: "v \<in> e_version_id ` set (pinned_enrollments i tv (enrollments d))" for v
  proof (cases tv)
    case (Some u)
    then have "published d u" using e version_change_refusal_None by (auto split: if_splits)
    then show ?thesis using v Some by (auto simp: pinned_enrollments_def repinned_def pins_def split: if_splits)
  qed (use v in \<open>simp add: pinned_enrollments_def pins_def\<close>)
  then have "leaves d (after_enrollment_event d (new_enrollment_event d (clk 0) actor i kind (trim reason) fv tv))"
    by (simp add: leaves_def pins_def after_enrollment_event_def new_enrollment_event_def)
  then show ?thesis using j by (rule leaves_journaled)
next
  case (phase pre clk actor i kind to eff reason pid)
  from record_phase_event_effect [OF phase(2)] obtain p where "journaled (after_phase_event d p) d'" by blast
  moreover have "leaves d (after_phase_event d p)"
    by (simp add: leaves_def pins_def after_phase_event_def)
  ultimately show ?thesis using leaves_journaled by blast
qed

lemma enroll_leaves:
  assumes "enroll pre clk d a v u = Inr (d', i)" shows "leaves d d'"
proof -
  let ?e = "new_enrollment d u v (clk 0) a"
  obtain d1 d2 where d1: "insert_enrollment ?e d = Inr d1"
    and d2: "grant_missing u trainee_bundle (Some a) (clk 0) d1 = Inr d2"
    and d3: "record_for_subject EvEnrollmentCreated (Some a) (Some u) (SubjEnrollment (e_id ?e)) (clk 1) d2 = Inr d'"
    using assms by (auto simp: enroll_def guard_simps Let_def)
  have e: "d1 = d\<lparr>enrollments := enrollments d @ [?e]\<rparr>" "published d v"
    using d1 by (auto simp: insert_enrollment_def guard_simps new_enrollment_def)
  obtain gs where "d2 = d1\<lparr>grants := grants d1 @ gs\<rparr>"
    using grant_missing_frame [OF d2] by blast
  with e have "leaves d d2" by (auto simp: leaves_def pins_def new_enrollment_def)
  then show ?thesis using journaled_record_for_subject [OF d3] by (rule leaves_journaled)
qed

lemma assignments_leaves: "journaled (d\<lparr>assignments := as\<rparr>) d' \<Longrightarrow> leaves d d'"
  by (rule leaves_journaled [of d "d\<lparr>assignments := as\<rparr>"]) (simp_all add: leaves_def pins_def)

lemma service_leaves:
  assumes s: "service ser to_vec sha d l d'" and n: "l \<noteq> Elsewhere"
    and ok: "copy_ok d" "ids_ok (map v_id (versions d))"
  shows "leaves d d'"
proof (cases "call_write l")
  case (Some p)
  then obtain r k x where "writes ser sha d r k x" "journaled x d'"
    using service_kinds [OF s ok] unfolding writes_as_def by fastforce
  then show ?thesis using writes_leaves leaves_journaled by blast
next
  case None
  then show ?thesis
  proof (cases rule: call_none_cases)
    case (1 a s' f)
    from s 1 obtain pre clk i where c: "create pre clk d a s' f = Inr (d', i)" by (auto elim: service.cases)
    from create_change [OF c] show ?thesis using writes_leaves leaves_journaled by blast
  next
    case (2 a e f)
    from s 2 obtain pre clk i where c: "create_summary pre clk d a e f = Inr (d', i)"
      by (auto elim: service.cases)
    from create_summary_change [OF c] show ?thesis using writes_leaves leaves_journaled by blast
  next
    case (3 m)
    with s have "lifecycle_step d m d'" by (auto elim: service.cases)
    then show ?thesis by (rule lifecycle_leaves)
  next
    case (4 a v u)
    with s obtain pre clk i where "enroll pre clk d a v u = Inr (d', i)" by (auto elim: service.cases)
    then show ?thesis by (rule enroll_leaves)
  next
    case (5 a e t)
    with s obtain pre clk i where c: "create_assignment pre clk d a e t = Inr (d', i)"
      by (auto elim: service.cases)
    from create_assignment_effect [OF c] assignments_leaves show ?thesis by blast
  next
    case (6 a i)
    with s obtain pre clk where c: "end_assignment pre clk d a i = Inr d'"
      by (auto elim: service.cases)
    from end_assignment_effect [OF c] assignments_leaves show ?thesis by blast
  qed (use n in simp)
qed

lemma sessions_leaves: "journaled (d\<lparr>training_sessions := ss, session_trainers := ts\<rparr>) d' \<Longrightarrow> leaves d d'"
  by (rule leaves_journaled [of d "d\<lparr>training_sessions := ss, session_trainers := ts\<rparr>"])
    (simp_all add: leaves_def pins_def)

lemma revised_leaves: "revised d i f d' \<Longrightarrow> leaves d d'"
  using revised_rows_effect [of d i f d'] sessions_leaves [where d = d and ts = "session_trainers d" and d' = d'] by auto

lemma trainers_leaves: "journaled (d\<lparr>session_trainers := ts\<rparr>) d' \<Longrightarrow> leaves d d'"
  using sessions_leaves [where d = d and ss = "training_sessions d" and ts = ts and d' = d'] by simp

definition own_call :: "site_call \<Rightarrow> bool" where
  "own_call l \<longleftrightarrow> l \<noteq> Others \<and> l \<noteq> Service Elsewhere"

lemma site_leaves:
  assumes s: "site j ser to_vec sha d l d'" and n: "own_call l"
    and ok: "copy_ok d" "ids_ok (map v_id (versions d))"
  shows "leaves d d'"
  using s
proof cases
  case (service l)
  then show ?thesis using service_leaves [OF _ _ ok] by blast
next
  case create_session
  from create_session_effect [OF create_session(2)] sessions_leaves show ?thesis by blast
next
  case update_open
  from update_open_effect [OF update_open(2)] revised_leaves show ?thesis by blast
next
  case close_session
  from close_session_effect [OF close_session(2)] revised_leaves show ?thesis by blast
next
  case add_trainer
  from add_trainer_effect [OF add_trainer(2)] trainers_leaves show ?thesis by blast
next
  case remove_trainer
  from remove_trainer_effect [OF remove_trainer(2)] trainers_leaves show ?thesis by blast
qed (use n in \<open>simp add: own_call_def\<close>)

section \<open>Steps\<close>

text \<open>
  One committed call of an operation, under any clock and with any earlier office read by the
  checks before its transaction. A failed login commits its audit event, and the creation of an
  account may commit without the code that should come with it.
\<close>

datatype office_call =
    Training site_call
  | Signoff int int int signoff_kind
  | Policy int
  | Hold int "int option"
  | Release int int
  | Authority int int bool
  | NewProgram int
  | NewVersion int int
  | ImportVersion int
  | ReplaceDraft int int
  | Publish int int
  | Discard int int
  | NewUser int
  | IssueCode string
  | ResetPassword string
  | SignIn login_answer
  | SignOut
  | IssueSetup
  | Setup int
  | RevokePlain
  | ReadNotice int int
  | Journal

inductive installation ::
    "('tz, 'dt) jiff \<Rightarrow> (draft_content \<Rightarrow> string option) \<Rightarrow> (json \<Rightarrow> string option) \<Rightarrow> (string \<Rightarrow> string)
      \<Rightarrow> (string \<Rightarrow> string \<Rightarrow> bool) \<Rightarrow> office \<Rightarrow> office_call \<Rightarrow> office \<Rightarrow> bool"
  for j :: "('tz, 'dt) jiff" and ser :: "draft_content \<Rightarrow> string option"
    and to_vec :: "json \<Rightarrow> string option" and sha :: "string \<Rightarrow> string"
    and argon :: "string \<Rightarrow> string \<Rightarrow> bool" where
  training: "site j ser to_vec sha (base w) l d \<Longrightarrow> own_call l \<Longrightarrow>
    installation j ser to_vec sha argon w (Training l) (w\<lparr>base := d\<rparr>)"
| signoff: "record_signoff pre clk w a e t k reason = Inr w' \<Longrightarrow>
    installation j ser to_vec sha argon w (Signoff a e t k) w'"
| policy: "create_policy clk w a p = Inr (w', i) \<Longrightarrow> installation j ser to_vec sha argon w (Policy a) w'"
| hold: "write_hold clk w a h replaces = Inr (w', i) \<Longrightarrow>
    installation j ser to_vec sha argon w (Hold a replaces) w'"
| release: "release_hold clk w a i reason = Inr w' \<Longrightarrow> installation j ser to_vec sha argon w (Release a i) w'"
| authority: "set_authority clk w a u granted reason = Inr w' \<Longrightarrow>
    installation j ser to_vec sha argon w (Authority a u granted) w'"
| new_program: "create_program pre clk w a name = Inr (w', i) \<Longrightarrow>
    installation j ser to_vec sha argon w (NewProgram a) w'"
| new_version: "create_version pre clk w a p x = Inr (w', v) \<Longrightarrow>
    installation j ser to_vec sha argon w (NewVersion a p) w'"
| imported: "import_version decode pre clk w a doc target = Inr (w', v) \<Longrightarrow>
    installation j ser to_vec sha argon w (ImportVersion a) w'"
| replace_draft: "replace_draft pre w a v x = Inr w' \<Longrightarrow> installation j ser to_vec sha argon w (ReplaceDraft a v) w'"
| publish: "publish_version pre clk w a v = Inr w' \<Longrightarrow> installation j ser to_vec sha argon w (Publish a v) w'"
| discard: "discard_draft pre clk w a v = Inr w' \<Longrightarrow> installation j ser to_vec sha argon w (Discard a v) w'"
| new_user: "create_with_reset_code sha pre clk w a n dn e t role phc bytes = (w', answer) \<Longrightarrow>
    installation j ser to_vec sha argon w (NewUser a) w'"
| issue_code: "issue_reset_code sha pre clk w n origin bytes = Inr (w', code, expires) \<Longrightarrow>
    installation j ser to_vec sha argon w (IssueCode n) w'"
| reset_password: "use_reset_code sha pre clk w n code pw phc = Inr w' \<Longrightarrow>
    installation j ser to_vec sha argon w (ResetPassword n) w'"
| sign_in: "login sha argon pre clk w n pw transport bytes = Inr (w', answer) \<Longrightarrow>
    installation j ser to_vec sha argon w (SignIn answer) w'"
| sign_out: "logout sha clk w cookie = Inr w' \<Longrightarrow> installation j ser to_vec sha argon w SignOut w'"
| issue_setup: "issue_setup_code sha now w bytes = Some (w', code, expires) \<Longrightarrow>
    installation j ser to_vec sha argon w IssueSetup w'"
| first_run: "initialize sha clk w code an n dn pw phc = Inr (w', i) \<Longrightarrow>
    installation j ser to_vec sha argon w (Setup i) w'"
| revoke_plain: "installation j ser to_vec sha argon w RevokePlain (fst (revoke_not_secure now w))"
| read_notice: "installation j ser to_vec sha argon w (ReadNotice u i) (w\<lparr>base := fst (mark_read u i now (base w))\<rparr>)"
| journal: "audited w w' \<Longrightarrow> installation j ser to_vec sha argon w Journal w'"

section \<open>What each part keeps of the others\<close>

text \<open>
  Off the training tables, a step changes the shared database in its catalog, accounts and journal
  (a notice once read is a changed row of the journal).
\<close>

definition beside :: "office \<Rightarrow> office \<Rightarrow> bool" where
  "beside w w' \<longleftrightarrow>
     (\<exists>c us gs as ns. base w' =
        (base w)\<lparr>catalog := c, users := us, grants := gs, audits := as, notices := ns\<rparr>) \<and>
     (\<forall>p \<in> set (phase_events (base w)). joined_phase (base w) (pe_to_phase p) \<noteq> None \<longrightarrow>
        joined_phase (base w') (pe_to_phase p) \<noteq> None)"

lemma besideE:
  assumes "beside w w'"
  obtains c us gs as ns where "base w' = (base w)\<lparr>catalog := c, users := us, grants := gs,
      audits := as, notices := ns\<rparr>"
  using assms by (auto simp: beside_def)

lemma besideJ:
  assumes "journaled ((base w)\<lparr>catalog := c, users := us, grants := gs\<rparr>) (base w')"
    and "\<And>p. p \<in> set (phase_events (base w)) \<Longrightarrow> joined_phase (base w) (pe_to_phase p) \<noteq> None \<Longrightarrow>
      joined_phase (base w') (pe_to_phase p) \<noteq> None"
  shows "beside w w'"
proof -
  obtain as ns where "base w' = (base w)\<lparr>catalog := c, users := us, grants := gs,
      audits := audits (base w) @ as, notices := notices (base w) @ ns\<rparr>"
    using assms(1) by (auto simp: journaled_def)
  then show ?thesis using assms(2) unfolding beside_def by blast
qed

lemma beside_others: "beside w w' \<Longrightarrow> others (base w) (base w')"
proof -
  assume b: "beside w w'"
  then obtain c us gs as ns where d: "base w' = (base w)\<lparr>catalog := c, users := us, grants := gs,
      audits := as, notices := ns\<rparr>" by (rule besideE)
  have "phase_events (base w') = phase_events (base w)" "enrollments (base w') = enrollments (base w)"
    "enrollment_events (base w') = enrollment_events (base w)" "same_records (base w) (base w')"
    "training_sessions (base w') = training_sessions (base w)"
    "session_trainers (base w') = session_trainers (base w)"
    by (simp_all add: d same_records_def)
  then show ?thesis
    using b by (simp add: others_def elsewhere_def beside_def)
qed

lemma beside_pins: "beside w w' \<Longrightarrow> pins (base w') = pins (base w)"
  by (erule besideE) (simp add: pins_def)

lemma besideI:
  assumes "journaled ((base w)\<lparr>users := us, grants := gs\<rparr>) (base w')"
  shows "beside w w'" and "cat w' = cat w"
proof -
  show c: "cat w' = cat w" using journaled_tables(3) [OF assms] by simp
  have "journaled ((base w)\<lparr>catalog := cat w, users := us, grants := gs\<rparr>) (base w')" using assms by simp
  then show "beside w w'" by (rule besideJ) (simp add: joined_phase_catalog [OF c])
qed

lemma audited_beside: "audited w w' \<Longrightarrow> beside w w'"
  by (rule besideI(1) [where us = "users (base w)" and gs = "grants (base w)"]) (auto simp: audited_def)

lemma audited_cat: "audited w w' \<Longrightarrow> cat w' = cat w"
  using journaled_tables(3) by (auto simp: audited_def)

lemma moves_beside:
  assumes "moves us w w'" shows "beside w w'" "cat w' = cat w"
proof -
  have "account_writes w w'" using assms by (simp add: moves_def)
  then obtain us gs where "journaled ((base w)\<lparr>users := us, grants := gs\<rparr>) (base w')"
    unfolding account_writes_def by auto
  then show "beside w w'" "cat w' = cat w" by (rule besideI)+
qed

lemma authored_beside:
  assumes "authored w w'" shows "beside w w'"
proof -
  have j: "journaled ((base w)\<lparr>catalog := cat w', users := users (base w), grants := grants (base w)\<rparr>) (base w')"
    and r: "reconfigures (phase_events (base w)) (config_of w) (config_of w')"
    using assms by (simp_all add: authored_def)
  have joined: "joined_phase d i \<noteq> None \<longleftrightarrow> (\<exists>k. i = Some k \<and> k \<in> ph_id ` set (phases (catalog d)))" for d i
  proof (cases i)
    case (Some k)
    have "phase_of d k = None \<longleftrightarrow> k \<notin> ph_id ` set (phases (catalog d))"
      by (auto simp: phase_of_def find_None_iff)
    then show ?thesis by (simp add: joined_phase_def Some)
  qed (simp add: joined_phase_def)
  have "joined_phase (base w') (pe_to_phase p) \<noteq> None"
    if "p \<in> set (phase_events (base w))" "joined_phase (base w) (pe_to_phase p) \<noteq> None" for p
    using r that unfolding joined reconfigures_def config_of_def fst_conv by blast
  with j show ?thesis by (rule besideJ)
qed

text \<open>The parts of an office one step leaves alone.\<close>

definition same_config :: "office \<Rightarrow> office \<Rightarrow> bool" where
  "same_config w w' \<longleftrightarrow> cat w' = cat w \<and> programs w' = programs w \<and> citations w' = citations w"

definition same_retention :: "office \<Rightarrow> office \<Rightarrow> bool" where
  "same_retention w w' \<longleftrightarrow>
     retention_policies w' = retention_policies w \<and> record_holds w' = record_holds w \<and>
     hold_releases w' = hold_releases w"

definition same_accounts :: "office \<Rightarrow> office \<Rightarrow> bool" where
  "same_accounts w w' \<longleftrightarrow>
     users (base w') = users (base w) \<and> reset_codes w' = reset_codes w \<and> logins w' = logins w \<and>
     secure_cookies w' = secure_cookies w \<and> agency w' = agency w"

text \<open>Accounts seen by any step: what \<open>moves\<close> says of the account tables.\<close>

definition account_moves :: "int set \<Rightarrow> office \<Rightarrow> office \<Rightarrow> bool" where
  "account_moves us w w' \<longleftrightarrow>
     accounts_kept (base w) (base w') \<and> (\<forall>h. code_spent h w \<longrightarrow> code_spent h w') \<and>
     (\<forall>u. u \<notin> us \<longrightarrow> locked_out u w \<longrightarrow> locked_out u w') \<and>
     (agency w \<noteq> None \<longrightarrow> agency w' = agency w) \<and> (accounts_ok w \<longrightarrow> accounts_ok w')"

lemma moves_account_moves: "moves us w w' \<Longrightarrow> account_moves us w w'"
  by (simp add: moves_def account_moves_def)

lemma same_account_moves: "same_accounts w w' \<Longrightarrow> account_moves us w w'"
  by (simp add: same_accounts_def account_moves_def accounts_kept_def code_spent_def locked_out_def accounts_ok_def)

lemma same_retention_ok:
  assumes "same_retention w w'" shows "retention_ok w' = retention_ok w"
proof -
  have "hold_of w' = hold_of w" using assms by (intro hold_of_cong) (simp add: same_retention_def)
  then show ?thesis
    using assms by (simp add: same_retention_def retention_ok_def holds_ok_def policies_of_def)
qed

lemma same_signoffs_ok: "signoffs w' = signoffs w \<Longrightarrow> signoffs_ok w' = signoffs_ok w"
  by (simp add: signoffs_ok_def signoffs_of_def)

text \<open>
  What any step does: either a call of Site, which leaves everything but its own tables, or a
  change beside them.
\<close>

definition signed_in :: "office_call \<Rightarrow> int set" where
  "signed_in l = (case l of SignIn answer \<Rightarrow> logged_in answer | _ \<Rightarrow> {})"

lemma authored_same:
  assumes "authored w w'"
  shows "same_retention w w'" "same_accounts w w'" "signoffs w' = signoffs w"
proof -
  have j: "journaled ((base w)\<lparr>catalog := cat w'\<rparr>) (base w')"
    and w': "w' = w\<lparr>base := base w', programs := programs w', citations := citations w'\<rparr>"
    using assms by (simp_all add: authored_def)
  have "users (base w') = users (base w)" using journaled_tables(1) [OF j] by simp
  then show "same_retention w w'" "same_accounts w w'" "signoffs w' = signoffs w"
    unfolding same_retention_def same_accounts_def by (subst w', simp)+
qed

lemma account_writes_same:
  assumes "account_writes w w'"
  shows "same_config w w'" "same_retention w w'" "signoffs w' = signoffs w"
proof -
  obtain us gs d a c rs ls cs where j: "journaled ((base w)\<lparr>users := us, grants := gs\<rparr>) d"
    and w': "w' = w\<lparr>base := d, agency := a, setup_code := c, reset_codes := rs, logins := ls, secure_cookies := cs\<rparr>"
    using assms unfolding account_writes_def by blast
  then show "same_config w w'" "same_retention w w'" "signoffs w' = signoffs w"
    using journaled_tables(3) [OF j] by (simp_all add: same_config_def same_retention_def)
qed

lemma audited_same:
  assumes "audited w w'"
  shows "same_config w w'" "same_retention w w'" "same_accounts w w'" "signoffs w' = signoffs w"
  using audited_tables [OF assms] audited_cat [OF assms] assms journaled_tables(1)
  by (auto simp: same_config_def same_retention_def same_accounts_def audited_def)

text \<open>Sign-offs and retention journal beside their own tables.\<close>

lemma audited_after:
  assumes "audited x w'" and "base x = base w"
  shows "beside w w'" "cat w' = cat w" "users (base w') = users (base w)"
proof -
  have j: "journaled (base w) (base w')" using assms by (auto simp: audited_def)
  then show "beside w w'" "cat w' = cat w"
    using besideI [where us = "users (base w)" and gs = "grants (base w)"] by simp_all
  show "users (base w') = users (base w)" using journaled_tables(1) [OF j] .
qed

lemma record_signoff_same:
  assumes "record_signoff pre clk w a e t k reason = Inr w'"
  shows "beside w w'" "same_config w w'" "same_retention w w'" "same_accounts w w'"
proof -
  from record_signoff_effect [OF assms] obtain n where
      a: "audited (w\<lparr>signoffs := signoffs w @ [new_signoff w e t k (trim reason) a n (clk 0)]\<rparr>) w'"
    unfolding Let_def by blast
  note after = audited_after [OF a, of w, simplified]
  show "beside w w'" "same_config w w'" "same_retention w w'" "same_accounts w w'"
    using after audited_tables [OF a] by (simp_all add: same_config_def same_retention_def same_accounts_def)
qed

lemma create_policy_same:
  assumes "create_policy clk w a p = Inr (w', i)"
  shows "beside w w'" "same_config w w'" "same_accounts w w'" "signoffs w' = signoffs w"
    "record_holds w' = record_holds w" "hold_releases w' = hold_releases w"
proof -
  from create_policy_effect [OF assms] obtain q where
      a: "audited (w\<lparr>retention_policies := retention_policies w @ [q]\<rparr>) w'" by blast
  note after = audited_after [OF a, of w, simplified]
  show "beside w w'" "same_config w w'" "same_accounts w w'" "signoffs w' = signoffs w"
    "record_holds w' = record_holds w" "hold_releases w' = hold_releases w"
    using after audited_tables [OF a] by (simp_all add: same_config_def same_accounts_def)
qed

lemma insert_hold_frame:
  assumes "insert_hold h w = Inr x"
  shows "\<exists>hs rs. x = w\<lparr>record_holds := hs, hold_releases := rs\<rparr>"
proof (cases "rh_replaces h")
  case None
  have "x = w\<lparr>record_holds := record_holds w @ [h], hold_releases := hold_releases w\<rparr>"
    using insert_hold_new [OF assms None] by simp
  then show ?thesis by blast
next
  case (Some q)
  from insert_hold_replacing [OF assms Some] obtain r where
      "insert_release r (w\<lparr>record_holds := record_holds w @ [h]\<rparr>) = Inr x" by blast
  from insert_release_Inr [OF this]
  have "x = w\<lparr>record_holds := record_holds w @ [h], hold_releases := hold_releases w @ [r]\<rparr>" by simp
  then show ?thesis by blast
qed

lemma holds_same:
  assumes "audited (w\<lparr>record_holds := hs, hold_releases := rs\<rparr>) w'"
  shows "beside w w'" "same_config w w'" "same_accounts w w'" "signoffs w' = signoffs w"
    "retention_policies w' = retention_policies w"
  using audited_after [OF assms, of w, simplified] audited_tables [OF assms]
  by (simp_all add: same_config_def same_accounts_def)

lemma write_hold_same:
  assumes "write_hold clk w a h replaces = Inr (w', i)"
  shows "beside w w'" "same_config w w'" "same_accounts w w'" "signoffs w' = signoffs w"
    "retention_policies w' = retention_policies w"
proof -
  obtain n x where x: "insert_hold n w = Inr x" "audited x w'" using write_hold_effect [OF assms] by blast
  obtain hs rs where "x = w\<lparr>record_holds := hs, hold_releases := rs\<rparr>" using insert_hold_frame [OF x(1)] by blast
  with x(2) have "audited (w\<lparr>record_holds := hs, hold_releases := rs\<rparr>) w'" by simp
  then show "beside w w'" "same_config w w'" "same_accounts w w'" "signoffs w' = signoffs w"
    "retention_policies w' = retention_policies w" by (rule holds_same)+
qed

lemma release_hold_same:
  assumes "release_hold clk w a i reason = Inr w'"
  shows "beside w w'" "same_config w w'" "same_accounts w w'" "signoffs w' = signoffs w"
    "retention_policies w' = retention_policies w"
proof -
  obtain r x where x: "insert_release r w = Inr x" "audited x w'" using release_hold_effect [OF assms] by blast
  have "x = w\<lparr>record_holds := record_holds w, hold_releases := hold_releases w @ [r]\<rparr>"
    using insert_release_Inr [OF x(1)] by simp
  with x(2) have "audited (w\<lparr>record_holds := record_holds w, hold_releases := hold_releases w @ [r]\<rparr>) w'" by simp
  then show "beside w w'" "same_config w w'" "same_accounts w w'" "signoffs w' = signoffs w"
    "retention_policies w' = retention_policies w" by (rule holds_same)+
qed

lemma insert_authority_event_frame:
  "insert_authority_event e w = Inr x \<Longrightarrow> x = w\<lparr>authority_events := authority_events w @ [e]\<rparr>"
  by (simp add: insert_authority_event_def guard_simps)

lemma set_authority_effect:
  assumes "set_authority clk w a u granted reason = Inr w'"
  shows "\<exists>gs es. audited (w\<lparr>base := (base w)\<lparr>grants := gs\<rparr>, authority_events := es\<rparr>) w'"
proof -
  obtain w1 e w2 k where c: "in_base (change_grant granted u a (clk 0)) w = Inr w1"
    and i: "insert_authority_event e w1 = Inr w2"
    and r: "in_base (record_audit k (Some a) (Some u) (clk 2)) w2 = Inr w'"
    using assms by (auto simp: set_authority_def guard_simps)
  obtain d where "change_grant granted u a (clk 0) (base w) = Inr d" "w1 = w\<lparr>base := d\<rparr>"
    using c by (auto simp: row_simps)
  moreover have "\<exists>gs. d = (base w)\<lparr>grants := gs\<rparr>" if d: "change_grant granted u a (clk 0) (base w) = Inr d" for d
  proof (cases granted)
    case True
    have "grant_bundle u [ManageRetention] (Some a) (clk 0) (base w) = Inr d"
      using d unfolding change_grant_def if_P [OF True] .
    then show ?thesis by (rule grant_bundle_frame)
  qed (use d in \<open>auto simp: change_grant_def\<close>)
  ultimately obtain gs where "d = (base w)\<lparr>grants := gs\<rparr>" "w1 = w\<lparr>base := d\<rparr>" by blast
  then have "w2 = w\<lparr>base := (base w)\<lparr>grants := gs\<rparr>, authority_events := authority_events w @ [e]\<rparr>"
    using insert_authority_event_frame [OF i] by simp
  with audited_record [OF r] show ?thesis by blast
qed

lemma set_authority_same:
  assumes "set_authority clk w a u granted reason = Inr w'"
  shows "beside w w'" "same_config w w'" "same_retention w w'" "same_accounts w w'" "signoffs w' = signoffs w"
proof -
  obtain gs es where a: "audited (w\<lparr>base := (base w)\<lparr>grants := gs\<rparr>, authority_events := es\<rparr>) w'"
    using set_authority_effect [OF assms] by blast
  then have j: "journaled ((base w)\<lparr>users := users (base w), grants := gs\<rparr>) (base w')"
    by (auto simp: audited_def)
  have "users (base w') = users (base w)" using journaled_tables(1) [OF j] by simp
  then show "beside w w'" "same_config w w'" "same_retention w w'" "same_accounts w w'" "signoffs w' = signoffs w"
    using besideI [OF j] audited_tables [OF a] by (simp_all add: same_config_def same_retention_def same_accounts_def)
qed

text \<open>Reading a notice touches no other table.\<close>

lemma read_notice_same:
  assumes "w' = w\<lparr>base := fst (mark_read u i now (base w))\<rparr>"
  shows "beside w w'" "same_config w w'" "same_retention w w'" "same_accounts w w'" "signoffs w' = signoffs w"
proof -
  obtain ns where d: "fst (mark_read u i now (base w)) = (base w)\<lparr>notices := ns\<rparr>"
    by (simp add: mark_read_def Let_def)
  have "base w' = (base w)\<lparr>catalog := cat w, users := users (base w), grants := grants (base w),
      audits := audits (base w), notices := ns\<rparr>"
    by (simp add: assms d)
  moreover have "joined_phase (base w') = joined_phase (base w)"
    by (rule joined_phase_catalog) (simp add: assms d)
  ultimately show "beside w w'" unfolding beside_def by metis
  show "same_config w w'" "same_retention w w'" "same_accounts w w'" "signoffs w' = signoffs w"
    by (simp_all add: assms d same_config_def same_retention_def same_accounts_def)
qed

section \<open>The invariant\<close>

definition office_ok :: "(draft_content \<Rightarrow> string option) \<Rightarrow> (string \<Rightarrow> string) \<Rightarrow> office \<Rightarrow> bool" where
  "office_ok ser sha w \<longleftrightarrow>
     site_ok ser sha (base w) \<and> config_ok (config_of w) \<and> signoffs_ok w \<and> retention_ok w \<and>
     accounts_ok w \<and> (\<forall>v \<in> pins (base w). frozen (cat w) v)"

lemma frozen_published: "frozen (catalog d) v \<longleftrightarrow> published d v"
  by (simp add: frozen_def published_def version_of_def)

lemma beside_site_ok:
  assumes "site_ok ser sha (base w)" and "beside w w'" shows "site_ok ser sha (base w')"
  using site_step_ok [OF assms(1) site.others [OF beside_others [OF assms(2)]]] .

text \<open>Any step, as it looks to each part.\<close>

definition part_moves :: "office_call \<Rightarrow> office \<Rightarrow> office \<Rightarrow> bool" where
  "part_moves l w w' \<longleftrightarrow>
     account_moves (signed_in l) w w' \<and> (retention_ok w \<longrightarrow> retention_ok w') \<and>
     (signoffs_ok w \<longrightarrow> signoffs_ok w') \<and> (same_config w w' \<or> authored w w')"

lemma part_movesI:
  assumes "account_moves (signed_in l) w w'" and "same_retention w w'" and "signoffs w' = signoffs w"
    and "same_config w w' \<or> authored w w'"
  shows "part_moves l w w'"
  using assms same_retention_ok [of w w'] same_signoffs_ok [of w' w] by (simp add: part_moves_def)

lemma moves_part:
  assumes "moves (signed_in l) w w'" shows "part_moves l w w'"
proof -
  have "account_writes w w'" using assms by (simp add: moves_def)
  note same = account_writes_same [OF this]
  show ?thesis using same moves_account_moves [OF assms] by (intro part_movesI) simp_all
qed

lemma authored_part: "authored w w' \<Longrightarrow> part_moves l w w'"
  using authored_same [of w w'] same_account_moves by (intro part_movesI) blast+

lemma policy_part:
  assumes "create_policy clk w a p = Inr (w', i)" shows "part_moves l w w'"
proof -
  note s = create_policy_same [OF assms]
  have "retention_ok w'" if ok: "retention_ok w"
  proof -
    have "hold_of w' = hold_of w" using s(5) by (rule hold_of_cong)
    then have "holds_ok w' = holds_ok w" using s(5,6) by (simp add: holds_ok_def)
    then show ?thesis
      using ok create_policy_chain [OF _ assms] by (simp add: retention_ok_def)
  qed
  then show ?thesis
    using s same_account_moves same_signoffs_ok [OF s(4)] by (simp add: part_moves_def)
qed

lemma holds_part:
  assumes "same_config w w'" "same_accounts w w'" "signoffs w' = signoffs w"
    "retention_policies w' = retention_policies w" and "holds_ok w \<Longrightarrow> holds_ok w'"
  shows "part_moves l w w'"
  using assms same_account_moves [OF assms(2)] same_signoffs_ok [OF assms(3)]
  by (simp add: part_moves_def retention_ok_def policies_of_def)

lemma installation_part:
  assumes "installation j ser to_vec sha argon w l w'" and ok: "office_ok ser sha w"
  shows "part_moves l w w'"
  using assms(1)
proof cases
  case (training m d)
  have "copy_ok (base w)" "ids_ok (map v_id (versions (base w)))"
    using ok db_ok_tables by (auto simp: office_ok_def site_ok_def)
  then have "leaves (base w) d" by (rule site_leaves [OF training(3,4)])
  then have "same_config w w'" "same_retention w w'" "same_accounts w w'" "signoffs w' = signoffs w"
    by (simp_all add: training(2) leaves_def same_config_def same_retention_def same_accounts_def)
  then show ?thesis using same_account_moves part_movesI by blast
next
  case (signoff pre clk a e t k reason)
  note s = record_signoff_same [OF signoff(2)]
  show ?thesis
    using s same_account_moves same_retention_ok [OF s(3)] record_signoff_ok [OF _ signoff(2)]
    by (simp add: part_moves_def)
next
  case (policy clk a p i)
  then show ?thesis using policy_part by blast
next
  case (hold clk a h replaces i)
  note s = write_hold_same [OF hold(2)]
  show ?thesis using s(2-5) write_hold_ok [OF _ hold(2)] by (rule holds_part)
next
  case (release clk a i reason)
  note s = release_hold_same [OF release(2)]
  show ?thesis using s(2-5) release_hold_ok [OF _ release(2)] by (rule holds_part)
next
  case (authority clk a u granted reason)
  note s = set_authority_same [OF authority(2)]
  show ?thesis using s same_account_moves by (intro part_movesI) simp_all
next
  case (new_program pre clk a name i)
  then show ?thesis using create_program_authored authored_part by blast
next
  case (new_version pre clk a p x v)
  then show ?thesis using create_version_authored authored_part by blast
next
  case (imported decode pre clk a doc target v)
  then show ?thesis using import_version_authored authored_part by blast
next
  case (replace_draft pre a v x)
  then show ?thesis using replace_draft_authored authored_part by blast
next
  case (publish pre clk a v)
  then show ?thesis using publish_version_authored authored_part by blast
next
  case (discard pre clk a v)
  then show ?thesis using discard_draft_authored authored_part by blast
next
  case (new_user pre clk a n dn e t role phc bytes answer)
  have "moves us w w'" for us
    using create_with_reset_code_moves [of us w sha pre clk a n dn e t role phc bytes] new_user(2) by simp
  then show ?thesis by (rule moves_part)
next
  case (issue_code pre clk n origin bytes code expires)
  then show ?thesis using issue_reset_code_moves moves_part by blast
next
  case (reset_password pre clk n code pw phc)
  then show ?thesis using use_reset_code_moves moves_part by blast
next
  case (sign_in pre clk n pw transport bytes answer)
  then have "moves (signed_in l) w w'" using login_moves by (simp add: signed_in_def)
  then show ?thesis by (rule moves_part)
next
  case (sign_out clk cookie)
  then show ?thesis using logout_moves moves_part by blast
next
  case (issue_setup now bytes code expires)
  then show ?thesis using issue_setup_code_moves moves_part by blast
next
  case (first_run clk code an n dn pw phc i)
  then show ?thesis using initialize_moves moves_part by blast
next
  case (revoke_plain now)
  have "moves us w w'" for us
    using moves_revoke_where by (simp add: revoke_plain(2) revoke_not_secure_def Let_def)
  then show ?thesis by (rule moves_part)
next
  case (read_notice u i now)
  note s = read_notice_same [OF read_notice(2)]
  show ?thesis using s same_account_moves by (intro part_movesI) simp_all
next
  case journal
  then have "moves us w w'" for us by (intro moves_audited)
  then show ?thesis by (rule moves_part)
qed

lemma installation_base:
  assumes "installation j ser to_vec sha argon w l w'"
  shows "(\<exists>m. site j ser to_vec sha (base w) m (base w') \<and> own_call m \<and> l = Training m) \<or> beside w w'"
  using assms
proof cases
  case (training m d)
  then show ?thesis by simp
next
  case (signoff pre clk a e t k reason)
  then show ?thesis using record_signoff_same by blast
next
  case (policy clk a p i)
  then show ?thesis using create_policy_same by blast
next
  case (hold clk a h replaces i)
  then show ?thesis using write_hold_same by blast
next
  case (release clk a i reason)
  then show ?thesis using release_hold_same by blast
next
  case (authority clk a u granted reason)
  then show ?thesis using set_authority_same by blast
next
  case (new_program pre clk a name i)
  then show ?thesis using create_program_authored authored_beside by blast
next
  case (new_version pre clk a p x v)
  then show ?thesis using create_version_authored authored_beside by blast
next
  case (imported decode pre clk a doc target v)
  then show ?thesis using import_version_authored authored_beside by blast
next
  case (replace_draft pre a v x)
  then show ?thesis using replace_draft_authored authored_beside by blast
next
  case (publish pre clk a v)
  then show ?thesis using publish_version_authored authored_beside by blast
next
  case (discard pre clk a v)
  then show ?thesis using discard_draft_authored authored_beside by blast
next
  case (new_user pre clk a n dn e t role phc bytes answer)
  then have "moves {} w w'"
    using create_with_reset_code_moves [of "{}" w sha pre clk a n dn e t role phc bytes] by simp
  then show ?thesis using moves_beside by blast
next
  case (issue_code pre clk n origin bytes code expires)
  then show ?thesis using issue_reset_code_moves moves_beside(1) by blast
next
  case (reset_password pre clk n code pw phc)
  then show ?thesis using use_reset_code_moves moves_beside(1) by blast
next
  case (sign_in pre clk n pw transport bytes answer)
  then show ?thesis using login_moves moves_beside(1) by blast
next
  case (sign_out clk cookie)
  then show ?thesis using logout_moves moves_beside(1) by blast
next
  case (issue_setup now bytes code expires)
  then show ?thesis using issue_setup_code_moves moves_beside(1) by blast
next
  case (first_run clk code an n dn pw phc i)
  then show ?thesis using initialize_moves moves_beside(1) by blast
next
  case (revoke_plain now)
  have "moves {} w w'"
    using moves_revoke_where by (simp add: revoke_plain(2) revoke_not_secure_def Let_def)
  then show ?thesis using moves_beside by blast
next
  case (read_notice u i now)
  then show ?thesis using read_notice_same(1) by blast
next
  case journal
  then show ?thesis using audited_beside by blast
qed

text \<open>The rows of a published version stay, whoever acts.\<close>

lemma part_config:
  assumes "part_moves l w w'"
  shows "config_ok (config_of w) \<Longrightarrow> config_ok (config_of w')"
    and "frozen (cat w) v \<Longrightarrow> version_rows v w' = version_rows v w"
    and "frozen (cat w) v \<Longrightarrow> frozen (cat w') v"
proof -
  have c: "config_of w' = config_of w \<or> reconfigures (phase_events (base w)) (config_of w) (config_of w')"
    using assms by (auto simp: part_moves_def same_config_def config_of_def authored_def)
  then show "config_ok (config_of w) \<Longrightarrow> config_ok (config_of w')"
    by (auto simp: reconfigures_def)
  show rows: "version_rows v w' = version_rows v w" if "frozen (cat w) v"
    using c that by (auto simp: reconfigures_def config_of_def)
  show "frozen (cat w') v" if "frozen (cat w) v"
    using frozen_same_rows [OF rows [OF that]] that by (simp add: config_of_def)
qed

theorem installation_step_ok:
  assumes ok: "office_ok ser sha w" and s: "installation j ser to_vec sha argon w l w'"
  shows "office_ok ser sha w'"
proof -
  note part = installation_part [OF s ok]
  have "frozen (cat w') v" if v: "v \<in> pins (base w')" for v
  proof -
    have "frozen (cat w) v"
      using installation_base [OF s]
    proof (elim disjE exE conjE)
      fix m assume m: "site j ser to_vec sha (base w) m (base w')" "own_call m"
      have "copy_ok (base w)" "ids_ok (map v_id (versions (base w)))"
        using ok db_ok_tables by (auto simp: office_ok_def site_ok_def)
      from site_leaves [OF m this] v show ?thesis
        using ok frozen_published by (auto simp: leaves_def office_ok_def)
    next
      assume "beside w w'"
      then show ?thesis using beside_pins v ok by (auto simp: office_ok_def)
    qed
    then show ?thesis by (rule part_config(3) [OF part])
  qed
  moreover have "site_ok ser sha (base w')"
    using installation_base [OF s] site_step_ok beside_site_ok ok unfolding office_ok_def by blast
  ultimately show ?thesis
    using ok part part_config(1) [OF part]
    by (simp add: office_ok_def part_moves_def account_moves_def)
qed

interpretation office: invariant_steps "installation j ser to_vec sha argon" "office_ok ser sha"
  for j ser to_vec sha argon
  by unfold_locales (rule installation_step_ok)

section \<open>Offices an installation reaches\<close>

definition new_office :: "office \<Rightarrow> bool" where
  "new_office w \<longleftrightarrow>
     blank (base w) \<and> training_sessions (base w) = [] \<and> session_trainers (base w) = [] \<and>
     users (base w) = [] \<and> program_versions (cat w) = [] \<and> phases (cat w) = [] \<and>
     phase_transitions (cat w) = [] \<and> competencies (cat w) = [] \<and> tasks (cat w) = [] \<and>
     rating_scales (cat w) = [] \<and> rating_anchors (cat w) = [] \<and> rating_modifiers (cat w) = [] \<and>
     evaluation_forms (cat w) = [] \<and> form_competencies (cat w) = [] \<and> form_narratives (cat w) = [] \<and>
     policies (cat w) = [] \<and> citations w = [] \<and> signoffs w = [] \<and> retention_policies w = [] \<and>
     record_holds w = [] \<and> hold_releases w = [] \<and> reset_codes w = [] \<and> logins w = [] \<and> secure_cookies w = []"

lemma new_office_ok: "new_office w \<Longrightarrow> office_ok ser sha w"
proof -
  assume n: "new_office w"
  have "sessions_ok (base w)"
    using n by (simp add: new_office_def sessions_ok_def no_overlap_def roster_def blank_def)
  moreover have "db_ok ser sha (base w)" using n blank_ok by (simp add: new_office_def)
  moreover have "config_ok (config_of w)"
    using n by (simp add: new_office_def config_ok_def ids_sound_def references_ok_def owners_def config_of_def ids_ok_def)
  moreover have "signoffs_ok w" "retention_ok w" "accounts_ok w" "pins (base w) = {}"
    using n by (simp_all add: new_office_def signoffs_ok_def signoffs_of_def retention_ok_def policy_chain_def
        policies_of_def holds_ok_def accounts_ok_def pins_def blank_def ids_ok_def)
  ultimately show ?thesis by (simp add: office_ok_def site_ok_def)
qed

definition open_office ::
    "('tz, 'dt) jiff \<Rightarrow> (draft_content \<Rightarrow> string option) \<Rightarrow> (json \<Rightarrow> string option) \<Rightarrow> (string \<Rightarrow> string)
      \<Rightarrow> (string \<Rightarrow> string \<Rightarrow> bool) \<Rightarrow> office \<Rightarrow> bool" where
  "open_office j ser to_vec sha argon w \<longleftrightarrow>
     (\<exists>w0 ls. new_office w0 \<and> run_path (installation j ser to_vec sha argon) w0 ls w)"

lemma open_office_ok: "open_office j ser to_vec sha argon w \<Longrightarrow> office_ok ser sha w"
  unfolding open_office_def using new_office_ok office.inv_path by blast

lemma run_path_append: "run_path step s ls t \<Longrightarrow> run_path step t ms u \<Longrightarrow> run_path step s (ls @ ms) u"
  by (induction ls arbitrary: s) auto

lemma open_office_run:
  assumes "open_office j ser to_vec sha argon w" and "run_path (installation j ser to_vec sha argon) w ls w'"
  shows "open_office j ser to_vec sha argon w'"
  using assms run_path_append unfolding open_office_def by metis

text \<open>Along a run from a sound office.\<close>

lemma run_frozen:
  assumes "run_path (installation j ser to_vec sha argon) w ls w'" and "office_ok ser sha w" and "frozen (cat w) v"
  shows "frozen (cat w') v \<and> version_rows v w' = version_rows v w"
  using assms
proof (induction ls arbitrary: w)
  case (Cons l ls)
  then obtain x where x: "installation j ser to_vec sha argon w l x"
    "run_path (installation j ser to_vec sha argon) x ls w'" by auto
  note part = part_config [OF installation_part [OF x(1) Cons.prems(2)]]
  show ?case
    using Cons.IH [OF x(2) installation_step_ok [OF Cons.prems(2) x(1)] part(3)] part(2) Cons.prems(3) by simp
qed simp

lemma run_content_fixed:
  assumes "run_path (installation j ser to_vec sha argon) w ls w'" and "office_ok ser sha w" and "frozen (cat w) v"
  shows "load_content w' v = load_content w v"
proof (rule load_content_same_rows)
  show "config_ok (config_of w)" using assms(2) by (simp add: office_ok_def)
  show "config_ok (config_of w')" using office.inv_path [OF assms(2,1)] by (simp add: office_ok_def)
  show "version_rows v w' = version_rows v w" using run_frozen [OF assms] by simp
qed

lemma run_account_moves:
  assumes "run_path (installation j ser to_vec sha argon) w ls w'" and "office_ok ser sha w"
  shows "(\<forall>l \<in> set ls. u \<notin> signed_in l) \<longrightarrow> locked_out u w \<longrightarrow> locked_out u w'"
    and "code_spent h w \<longrightarrow> code_spent h w'"
proof -
  have "((\<forall>l \<in> set ls. u \<notin> signed_in l) \<longrightarrow> locked_out u w \<longrightarrow> locked_out u w') \<and>
      (code_spent h w \<longrightarrow> code_spent h w')"
    using assms
  proof (induction ls arbitrary: w)
    case (Cons l ls)
    then obtain x where x: "installation j ser to_vec sha argon w l x"
      "run_path (installation j ser to_vec sha argon) x ls w'" by auto
    have "account_moves (signed_in l) w x"
      using installation_part [OF x(1) Cons.prems(2)] by (simp add: part_moves_def)
    then show ?case
      using Cons.IH [OF x(2) installation_step_ok [OF Cons.prems(2) x(1)]]
      by (simp add: account_moves_def)
  qed simp
  then show "(\<forall>l \<in> set ls. u \<notin> signed_in l) \<longrightarrow> locked_out u w \<longrightarrow> locked_out u w'"
    "code_spent h w \<longrightarrow> code_spent h w'" by simp_all
qed

lemma run_agency:
  assumes "run_path (installation j ser to_vec sha argon) w ls w'" and "office_ok ser sha w" and "agency w \<noteq> None"
  shows "agency w' = agency w"
  using assms
proof (induction ls arbitrary: w)
  case (Cons l ls)
  then obtain x where x: "installation j ser to_vec sha argon w l x"
    "run_path (installation j ser to_vec sha argon) x ls w'" by auto
  have "agency x = agency w"
    using installation_part [OF x(1) Cons.prems(2)] Cons.prems(3) by (simp add: part_moves_def account_moves_def)
  then show ?case
    using Cons.IH [OF x(2) installation_step_ok [OF Cons.prems(2) x(1)]] Cons.prems(3) by simp
qed simp

end
