(* ===== verification/Standing.thy ===== *)
theory Standing
  imports Installation
begin

text \<open>
  Where the enrollments of an installation stand. The phase an enrollment is in is joined through
  three tables, its events, its pin and the phases of program versions, which different services
  write; in every office an installation reaches they agree.
\<close>

section \<open>The phase of the last move\<close>

definition last_move :: "db \<Rightarrow> int \<Rightarrow> phase_event_row option" where
  "last_move d i = latest_by effective_order
     (filter (\<lambda>p. pe_enrollment_id p = i \<and> moving (pe_kind p) \<and> pe_epoch p = epoch d i) (phase_events d))"

text \<open>No event's phase is ever deleted, so the join of the query drops none.\<close>

lemma current_phase_last_move:
  assumes "streams_ok d"
  shows "map_option fst (current_phase d i) = Option.bind (last_move d i) pe_to_phase"
proof -
  have joined: "joined_phase d (pe_to_phase p) \<noteq> None" if "p \<in> set (phase_events d)" "moving (pe_kind p)" for p
    using assms that by (simp add: streams_ok_def)
  have f: "filter (\<lambda>p. pe_enrollment_id p = i \<and> moving (pe_kind p) \<and> pe_epoch p = epoch d i \<and>
        joined_phase d (pe_to_phase p) \<noteq> None) (phase_events d) =
      filter (\<lambda>p. pe_enrollment_id p = i \<and> moving (pe_kind p) \<and> pe_epoch p = epoch d i) (phase_events d)"
    using joined by (intro filter_cong) auto
  show ?thesis
  proof (cases "last_move d i")
    case None
    then show ?thesis unfolding current_phase_def f by (simp add: last_move_def)
  next
    case (Some p)
    then have "p \<in> set (phase_events d)" "moving (pe_kind p)"
      unfolding last_move_def by (auto dest!: latest_by_in)
    with joined obtain ph where "joined_phase d (pe_to_phase p) = Some ph" by blast
    then show ?thesis
      using Some unfolding current_phase_def f
      by (auto simp: last_move_def joined_phase_def dest: phase_of_id split: option.splits)
  qed
qed

definition same_streams :: "db \<Rightarrow> db \<Rightarrow> bool" where
  "same_streams d d' \<longleftrightarrow>
     enrollments d' = enrollments d \<and> enrollment_events d' = enrollment_events d \<and> phase_events d' = phase_events d"

lemma same_streams_position:
  assumes "same_streams d d'" and "streams_ok d" and "streams_ok d'"
  shows "position_of d' i = position_of d i"
proof -
  have "epoch d' = epoch d" "status_events d' = status_events d" "enrollment_of d' = enrollment_of d"
    using assms(1) by (simp_all add: same_streams_def epoch_def version_changes_def status_events_def
        enrollment_of_def fun_eq_iff)
  moreover from this have "last_move d' i = last_move d i" "is_paused d' i = is_paused d i"
    using assms(1) by (simp_all add: last_move_def is_paused_def same_streams_def)
  ultimately show ?thesis
    unfolding position_of_def current_phase_last_move [OF assms(2)] current_phase_last_move [OF assms(3)]
    by (simp split: option.split)
qed

section \<open>Three ways a step touches the streams\<close>

lemma writes_same_streams: "writes ser sha d r k x \<Longrightarrow> same_streams d x"
  by (erule writes.cases) (auto simp: set_revision_def map_record_def edit_frame_def same_streams_def)

lemma same_streams_journaled: "same_streams d x \<Longrightarrow> journaled x d' \<Longrightarrow> same_streams d d'"
  by (simp add: same_streams_def journaled_tables)

lemma elsewhere_same_streams: "elsewhere d d' \<Longrightarrow> same_streams d d'"
  by (simp add: elsewhere_def same_streams_def)

lemma service_streams:
  assumes "service ser to_vec sha d l d'" and "copy_ok d" "ids_ok (map v_id (versions d))"
  shows "(\<exists>m. lifecycle_step d m d') \<or> enrolled d d' \<or> same_streams d d'"
  using service_kinds [OF assms] elsewhere_same_streams same_streams_journaled writes_same_streams
  unfolding writes_as_def by blast

lemma installation_streams:
  assumes "installation j ser to_vec sha argon w l w'" and "office_ok ser sha w"
  shows "(\<exists>m. lifecycle_step (base w) m (base w')) \<or> enrolled (base w) (base w') \<or> same_streams (base w) (base w')"
  using installation_base [OF assms(1)]
proof (elim disjE exE conjE)
  fix m assume m: "site j ser to_vec sha (base w) m (base w')"
  have t: "copy_ok (base w)" "ids_ok (map v_id (versions (base w)))"
    using assms(2) db_ok_tables by (auto simp: office_ok_def site_ok_def)
  from site_kinds [OF m t] show ?thesis using service_streams [OF _ t] elsewhere_same_streams by blast
next
  assume "beside w w'"
  then have "same_streams (base w) (base w')" by (rule besideE) (simp add: same_streams_def)
  then show ?thesis by blast
qed

section \<open>The invariant\<close>

text \<open>Every phase event is of an enrollment, and every enrollment's phase is one of its version's.\<close>

definition placed :: "db \<Rightarrow> bool" where
  "placed d \<longleftrightarrow>
     (\<forall>p \<in> set (phase_events d). pe_enrollment_id p \<in> e_id ` set (enrollments d)) \<and>
     (\<forall>i. position_ok (catalog d) (position_of d i))"

lemma lifecycle_attached:
  assumes "lifecycle_step d l d'" and "\<forall>p \<in> set (phase_events d). pe_enrollment_id p \<in> e_id ` set (enrollments d)"
  shows "\<forall>p \<in> set (phase_events d'). pe_enrollment_id p \<in> e_id ` set (enrollments d')"
  using assms(1)
proof cases
  case (event pre clk actor i kind reason to eid)
  from record_enrollment_event_effect [OF event(2)] obtain ev where
    j: "journaled (after_enrollment_event d ev) d'" by blast
  have "map e_id (pinned_enrollments k v es) = map e_id es" for k v es
    by (auto simp: pinned_enrollments_def repinned_def split: option.splits)
  then have "e_id ` set (pinned_enrollments k v es) = e_id ` set es" for k v es
    by (metis set_map)
  then show ?thesis using assms(2) journaled_tables [OF j] by (simp add: after_enrollment_event_def)
next
  case (phase pre clk actor i kind to eff reason pid)
  obtain e p fp tp t where "enrollment_of d i = Some e" "p = new_phase_event d (clk 0) actor i kind fp tp t (trim reason)"
    and j: "journaled (after_phase_event d p) d'"
    using record_phase_event_effect [OF phase(2)] by blast
  then show ?thesis
    using assms(2) journaled_tables [OF j] enrollment_of_in [of d i e] by (auto simp: after_phase_event_def)
qed

lemma enrolled_placed:
  assumes "enrolled d d'" and p: "placed d" and ok: "db_ok ser sha d"
  shows "placed d'"
proof -
  obtain e gs where i: "e_id e = next_id (map e_id (enrollments d))"
    and j: "journaled (d\<lparr>enrollments := enrollments d @ [e], grants := grants d @ gs\<rparr>) d'"
    using assms(1) by (auto simp: enrolled_def)
  note t = journaled_tables [OF j]
  have fresh: "pe_enrollment_id p \<noteq> e_id e" if "p \<in> set (phase_events d)" for p
    using p that next_id_gt [of _ "map e_id (enrollments d)"] by (force simp: placed_def i)
  have streams: "epoch d' = epoch d" "status_events d' = status_events d" "joined_phase d' = joined_phase d"
    "phase_events d' = phase_events d" "catalog d' = catalog d"
    using t joined_phase_catalog [of d' d]
    by (simp_all add: epoch_def version_changes_def status_events_def fun_eq_iff)
  then have same: "current_phase d' k = current_phase d k" "is_paused d' k = is_paused d k" for k
    by (simp_all add: current_phase_def is_paused_def split: option.split)
  have none: "current_phase d (e_id e) = None" "\<not> is_paused d (e_id e)"
  proof -
    have "filter (\<lambda>p. pe_enrollment_id p = e_id e \<and> Q p) (phase_events d) = []" for Q
      using fresh by (auto simp: filter_empty_conv)
    then show "current_phase d (e_id e) = None" "\<not> is_paused d (e_id e)"
      by (simp_all add: current_phase_def is_paused_def)
  qed
  have "position_ok (catalog d') (position_of d' k)" for k
  proof (cases "k = e_id e")
    case True
    then show ?thesis
      using none same by (simp add: position_ok_def machine_ok_def position_of_def split: option.splits)
  next
    case False
    then have "enrollment_of d' k = enrollment_of d k"
      using t by (simp add: enrollment_of_def find_snoc split: option.splits)
    then have "position_of d' k = position_of d k"
      using same streams by (simp add: position_of_def split: option.split)
    then show ?thesis using p streams by (simp add: placed_def)
  qed
  moreover have "\<forall>p \<in> set (phase_events d'). pe_enrollment_id p \<in> e_id ` set (enrollments d')"
    using p t by (auto simp: placed_def)
  ultimately show ?thesis by (simp add: placed_def)
qed

text \<open>Where the streams stay, what matters of the catalog is the phases of the versions pinned.\<close>

lemma same_streams_placed:
  assumes s: "same_streams d d'" and p: "placed d" and ok: "streams_ok d" "streams_ok d'"
    and kept: "\<And>v t. v \<in> pins d \<Longrightarrow> phase_in (catalog d') v t = phase_in (catalog d) v t"
  shows "placed d'"
proof -
  have "position_ok (catalog d') (position_of d i)" for i
  proof (cases "enrollment_of d i")
    case (Some e)
    then have "e_version_id e \<in> pins d" using enrollment_of_in [OF Some] by (auto simp: pins_def)
    note kept [OF this]
    moreover have "position_ok (catalog d) (position_of d i)" using p by (simp add: placed_def)
    ultimately show ?thesis
      using Some by (cases "current_phase d i") (simp_all add: position_ok_def machine_ok_def position_of_def)
  qed (simp add: position_ok_def position_of_def)
  then show ?thesis
    using p s by (simp add: placed_def same_streams_position [OF s ok] same_streams_def)
qed

lemma phase_in_rows: "phase_in c v t \<longleftrightarrow> t \<in> ph_id ` set (phases (fst (owned_rows v (c, cs))))"
  by (auto simp: phase_in_def owned_rows_def find_None_iff)

lemma installation_placed:
  assumes "office_ok ser sha w" and "installation j ser to_vec sha argon w l w'" and "placed (base w)"
  shows "placed (base w')"
proof -
  have ok: "db_ok ser sha (base w)" "db_ok ser sha (base w')"
    using assms(1) installation_step_ok [OF assms(1,2)] by (simp_all add: office_ok_def site_ok_def)
  from installation_streams [OF assms(2,1)] show ?thesis
  proof (elim disjE exE)
    fix m assume m: "lifecycle_step (base w) m (base w')"
    then show ?thesis
      using lifecycle_attached [OF m] lifecycle_step_position_ok [OF _ m] assms(3) ok(1)
      by (simp add: placed_def db_ok_def)
  next
    assume "enrolled (base w) (base w')"
    then show ?thesis using assms(3) ok(1) by (rule enrolled_placed)
  next
    assume "same_streams (base w) (base w')"
    then show ?thesis
    proof (rule same_streams_placed [OF _ assms(3)])
      show "streams_ok (base w)" "streams_ok (base w')" using ok by (simp_all add: db_ok_def)
      fix v t assume "v \<in> pins (base w)"
      then have "frozen (cat w) v" using assms(1) by (simp add: office_ok_def)
      from part_config(2) [OF installation_part [OF assms(2,1)] this]
      show "phase_in (cat w') v t = phase_in (cat w) v t"
        unfolding phase_in_rows [of "cat w'" _ _ "citations w'"] phase_in_rows [of "cat w" _ _ "citations w"]
        by (simp only: config_of_def)
    qed
  qed
qed

interpretation positions: invariant_steps "installation j ser to_vec sha argon"
    "\<lambda>w. office_ok ser sha w \<and> placed (base w)" for j ser to_vec sha argon
  by unfold_locales (use installation_step_ok installation_placed in blast)

lemma open_office_placed:
  assumes "open_office j ser to_vec sha argon w" shows "placed (base w)"
proof -
  obtain w0 ls where w0: "new_office w0" "run_path (installation j ser to_vec sha argon) w0 ls w"
    using assms unfolding open_office_def by blast
  have "phase_events (base w0) = []" "enrollments (base w0) = []"
    using w0(1) by (simp_all add: new_office_def blank_def)
  then have "placed (base w0)"
    by (simp add: placed_def position_ok_def position_of_def enrollment_of_def)
  then show ?thesis using positions.inv_path [OF _ w0(2)] new_office_ok [OF w0(1)] by blast
qed

end
