(* ===== verification/Opening.thy ===== *)
theory Opening
  imports Shifts Standing
begin

text \<open>
  The first day of an installation, from the setup code to a sign-off, two holds and a phase: the concrete
  run the properties of an office are applied to, with the parameters of Example.
\<close>

section \<open>The offices\<close>

definition empty_catalog :: catalog where
  "empty_catalog = \<lparr>program_versions = [], phases = [], phase_transitions = [], competencies = [],
     tasks = [], rating_scales = [], rating_anchors = [], rating_modifiers = [], evaluation_forms = [],
     form_competencies = [], form_narratives = [], policies = []\<rparr>"

definition empty_db :: db where
  "empty_db = \<lparr>instance_id = None, catalog = empty_catalog, users = [], grants = [], enrollments = [],
     enrollment_events = [], phase_events = [], assignments = [], training_sessions = [],
     session_trainers = [], records = [], record_sessions = [], contributor_events = [], decisions = [],
     snapshots = [], draft_ratings = [], draft_modifiers = [], draft_narratives = [], versions = [],
     amendments = [], acks = [], daily_links = [], audits = [], notices = []\<rparr>"

definition office0 :: office where
  "office0 = \<lparr>base = empty_db, programs = [], citations = [], signoffs = [], authority_events = [],
     retention_policies = [], record_holds = [], hold_releases = [], agency = None, setup_code = None,
     reset_codes = [], logins = [], secure_cookies = []\<rparr>"

definition stamp :: "int \<Rightarrow> int \<Rightarrow> string \<Rightarrow> int \<Rightarrow> int option \<Rightarrow> (string \<times> int) option \<Rightarrow> audit_row" where
  "stamp i t kind actor user subject =
     \<lparr>ae_id = i, ae_occurred_at = t, ae_kind = kind, ae_actor = Some actor, ae_subject_user = user,
      ae_subject_kind = map_option fst subject, ae_subject_id = map_option snd subject\<rparr>"

definition member :: "int \<Rightarrow> string \<Rightarrow> string \<Rightarrow> int \<Rightarrow> user_row" where
  "member i name phc t =
     \<lparr>u_id = i, u_username = name, u_display_name = name, u_password_hash = phc, u_created_at = t,
      u_employee_id = [], u_title = []\<rparr>"

definition granted_to :: "int \<Rightarrow> int \<Rightarrow> int option \<Rightarrow> string \<Rightarrow> grant_row" where
  "granted_to u t by c = \<lparr>g_user_id = u, g_capability = c, g_granted_at = t, g_granted_by = by\<rparr>"

definition day_log :: "audit_row list" where
  "day_log =
     [stamp 1 103 ''setup_completed'' 1 (Some 1) None,
      stamp 2 101 ''program_created'' 1 None (Some (''program'', 1)),
      stamp 3 101 ''program_version_created'' 1 None (Some (''program_version'', 1)),
      stamp 4 101 ''program_version_published'' 1 None (Some (''program_version'', 1)),
      stamp 5 102 ''user_created'' 1 (Some 2) None, stamp 6 104 ''reset_code_issued'' 1 (Some 2) None,
      stamp 7 101 ''enrollment_created'' 1 (Some 2) (Some (''enrollment'', 1)),
      stamp 8 101 ''login_succeeded'' 2 (Some 2) None, stamp 9 102 ''reset_code_used'' 2 (Some 2) None,
      stamp 10 101 ''task_signoff_recorded'' 1 (Some 2) (Some (''enrollment'', 1)),
      stamp 11 102 ''retention_authority_granted'' 1 (Some 1) None,
      stamp 12 101 ''record_hold_created'' 1 None (Some (''record_hold'', 1)),
      stamp 13 101 ''record_hold_replaced'' 1 None (Some (''record_hold'', 2)),
      stamp 14 101 ''phase_event_recorded'' 1 (Some 2) (Some (''enrollment'', 1)),
      stamp 15 101 ''phase_event_recorded'' 1 (Some 2) (Some (''enrollment'', 1))]"

definition ann_grants :: "grant_row list" where
  "ann_grants = map (granted_to 1 102 None)
     [''manage_users'', ''manage_programs'', ''assign_training'', ''export_records'']"

definition cy_grants :: "grant_row list" where
  "cy_grants = map (granted_to 2 101 (Some 1)) [''view_own_records'', ''acknowledge_own_record'']"

definition doc1 :: version_content where
  "doc1 = \<lparr>vc_name = ''Basics'', vc_label = ''v1'', vc_description = [],
     vc_phases = [\<lparr>hd_name = ''P'', hd_description = [], hd_number = 1\<rparr>], vc_transitions = [],
     vc_competencies = [\<lparr>md_category = ''C'', md_name = ''N'', md_description = [],
       md_tasks = [\<lparr>kd_prompt = ''p'', kd_citations = []\<rparr>], md_citations = []\<rparr>],
     vc_scales = [], vc_modifiers = [], vc_forms = [], vc_citations = [], vc_policy = default_policy\<rparr>"

text \<open>A document with every part, some of it not in the order of an export.\<close>

definition doc2 :: version_content where
  "doc2 = \<lparr>vc_name = ''Advanced'', vc_label = ''v2'', vc_description = ''d'',
     vc_phases = [\<lparr>hd_name = ''B'', hd_description = [], hd_number = 2\<rparr>, \<lparr>hd_name = ''A'', hd_description = [], hd_number = 1\<rparr>],
     vc_transitions = [\<lparr>td_from = ''A'', td_to = ''B'', td_kind = TkAdvance\<rparr>],
     vc_competencies = [\<lparr>md_category = ''C'', md_name = ''N'', md_description = [],
       md_tasks = [\<lparr>kd_prompt = ''q'', kd_citations = [\<lparr>cd_body = ''S'', cd_edition = [], cd_clause = ''2'', cd_note = []\<rparr>,
         \<lparr>cd_body = ''S'', cd_edition = [], cd_clause = ''1'', cd_note = []\<rparr>]\<rparr>, \<lparr>kd_prompt = ''p'', kd_citations = []\<rparr>],
       md_citations = []\<rparr>],
     vc_scales = [\<lparr>sd_name = ''S'', sd_kind = AnchoredNumeric, sd_min = Some 1, sd_max = Some 5,
       sd_anchors = [\<lparr>nd_value = 3, nd_label = ''mid'', nd_definition = []\<rparr>, \<lparr>nd_value = 1, nd_label = ''low'', nd_definition = []\<rparr>]\<rparr>],
     vc_modifiers = [\<lparr>od_code = ''M'', od_label = ''m'', od_description = []\<rparr>],
     vc_forms = [\<lparr>fd_record_type = DailyReport, fd_name = ''F'', fd_instructions = [],
       fd_competencies = [\<lparr>bd_competency = ''N'', bd_scale = ''S''\<rparr>],
       fd_narratives = [\<lparr>rd_prompt = ''why'', rd_required = True\<rparr>]\<rparr>],
     vc_citations = [\<lparr>cd_body = ''S'', cd_edition = [], cd_clause = ''1'', cd_note = []\<rparr>], vc_policy = default_policy\<rparr>"

definition basics :: "int option \<Rightarrow> int option \<Rightarrow> catalog" where
  "basics t by = empty_catalog\<lparr>
     program_versions := [\<lparr>pv_id = 1, pv_program_id = 1, pv_version_number = 1, pv_label = ''v1'',
       pv_name = ''Basics'', pv_description = [], pv_created_at = 100, pv_created_by = Some 1,
       pv_published_at = t, pv_published_by = by\<rparr>],
     phases := [\<lparr>ph_id = 1, ph_version_id = 1, ph_name = ''P'', ph_description = [], ph_number = 1\<rparr>],
     competencies := [\<lparr>co_id = 1, co_version_id = 1, co_category = ''C'', co_name = ''N'', co_description = [],
       co_sort = 0\<rparr>],
     tasks := [\<lparr>tk_id = 1, tk_version_id = 1, tk_competency_id = 1, tk_prompt = ''p'', tk_sort = 0\<rparr>],
     policies := [\<lparr>fp_version_id = 1, fp_review_approved = True, fp_required_narratives = True,
       fp_ratings_complete = True\<rparr>]\<rparr>"

definition day_db :: "catalog \<Rightarrow> user_row list \<Rightarrow> grant_row list \<Rightarrow> enrollment_row list \<Rightarrow> nat \<Rightarrow> db" where
  "day_db c us gs es n =
     empty_db\<lparr>catalog := c, users := us, grants := gs, enrollments := es, audits := take n day_log\<rparr>"

definition founded :: "program_row list \<Rightarrow> reset_code_row list \<Rightarrow> db \<Rightarrow> office" where
  "founded ps cs d = office0\<lparr>base := d, programs := ps, reset_codes := cs,
     agency := Some \<lparr>ag_name = ''Agency'', ag_created_at = 100\<rparr>\<rparr>"

definition ops :: "program_row list" where
  "ops = [\<lparr>pg_id = 1, pg_name = ''Ops'', pg_created_at = 100, pg_created_by = Some 1\<rparr>]"

definition code1 :: "int option \<Rightarrow> reset_code_row list" where
  "code1 t = [\<lparr>rc_id = 1, rc_user_id = 2, rc_code_hash = digest_hex sha1 ''42'', rc_issued_via = ViaAdministrator,
     rc_issued_by = Some 1, rc_issued_at = 103, rc_expires_at = 1003, rc_used_at = t\<rparr>]"

definition enrolled1 :: "enrollment_row list" where
  "enrolled1 = [\<lparr>e_id = 1, e_user_id = 2, e_version_id = 1, e_enrolled_at = 100, e_enrolled_by = Some 1\<rparr>]"

definition observed :: "signoff_row list" where
  "observed = [\<lparr>so_id = 1, so_enrollment_id = 1, so_task_id = 1, so_kind = Observed, so_reason = [],
     so_signed_by = 1, so_signed_by_name = ''ann'', so_signed_at = 100\<rparr>]"

definition counsel :: "authority_event_row list" where
  "counsel = [\<lparr>ra_event_id = 1, ra_user_id = 1, ra_granted = True, ra_actor = 1, ra_reason = ''counsel'',
     ra_recorded_at = 101\<rparr>]"

definition keepers :: "grant_row list" where
  "keepers = ann_grants @ cy_grants @ [granted_to 1 100 (Some 1) ''manage_retention'']"

definition hold1 :: "int \<Rightarrow> int option \<Rightarrow> string \<Rightarrow> int option \<Rightarrow> hold_row" where
  "hold1 i e reason replaces = \<lparr>rh_id = i, rh_enrollment_id = e, rh_record_id = None, rh_kind = Litigation,
     rh_authority = ''order'', rh_reason = reason, rh_created_by = 1, rh_created_at = 100, rh_replaces = replaces\<rparr>"

definition hold_on :: "hold_scope \<Rightarrow> string \<Rightarrow> hold_input" where
  "hold_on scope reason =
     \<lparr>hin_scope = scope, hin_kind = Litigation, hin_authority = ''order'', hin_reason = reason\<rparr>"

definition cy_login :: "int option \<Rightarrow> login_row" where
  "cy_login t = \<lparr>lg_token_hash = digest_hex sha1 ''43'', lg_user_id = 2, lg_created_at = 100,
     lg_expires_at = 43300, lg_revoked_at = t\<rparr>"

definition ann :: user_row where "ann = member 1 ''ann'' ''phc1'' 101"

definition cy :: "string \<Rightarrow> user_row" where "cy phc = member 2 ''cy'' phc 100"

definition office1 :: office where
  "office1 = office0\<lparr>setup_code := Some \<lparr>sc_code_hash = digest_hex sha1 ''41'', sc_expires_at = 1000\<rparr>\<rparr>"

definition office2 :: office where
  "office2 = founded [] [] (day_db empty_catalog [ann] ann_grants [] 1)"

definition office3 :: office where
  "office3 = founded ops [] (day_db empty_catalog [ann] ann_grants [] 2)"

definition office4 :: office where
  "office4 = founded ops [] (day_db (basics None None) [ann] ann_grants [] 3)"

definition office5 :: office where
  "office5 = founded ops [] (day_db (basics (Some 100) (Some 1)) [ann] ann_grants [] 4)"

definition office6 :: office where
  "office6 = founded ops (code1 None) (day_db (basics (Some 100) (Some 1)) [ann, cy ''phc2'']
     (ann_grants @ cy_grants) [] 6)"

definition office7 :: office where
  "office7 = founded ops (code1 None) (day_db (basics (Some 100) (Some 1)) [ann, cy ''phc2'']
     (ann_grants @ cy_grants) enrolled1 7)"

definition office8 :: office where
  "office8 = (founded ops (code1 None) (day_db (basics (Some 100) (Some 1)) [ann, cy ''phc2'']
     (ann_grants @ cy_grants) enrolled1 8))\<lparr>logins := [cy_login None]\<rparr>"

definition office9 :: office where
  "office9 = (founded ops (code1 (Some 100)) (day_db (basics (Some 100) (Some 1)) [ann, cy ''phc3'']
     (ann_grants @ cy_grants) enrolled1 9))\<lparr>logins := [cy_login (Some 101)]\<rparr>"

definition office10 :: office where
  "office10 = (founded ops (code1 (Some 100)) (day_db (basics (Some 100) (Some 1)) [ann, cy ''phc3'']
     (ann_grants @ cy_grants) enrolled1 10))\<lparr>logins := [cy_login (Some 101)], signoffs := observed\<rparr>"

definition office11 :: office where
  "office11 = (founded ops (code1 (Some 100)) (day_db (basics (Some 100) (Some 1)) [ann, cy ''phc3'']
     keepers enrolled1 11))\<lparr>logins := [cy_login (Some 101)], signoffs := observed, authority_events := counsel\<rparr>"

definition office12 :: office where
  "office12 = (founded ops (code1 (Some 100)) (day_db (basics (Some 100) (Some 1)) [ann, cy ''phc3'']
     keepers enrolled1 12))
     \<lparr>logins := [cy_login (Some 101)], signoffs := observed, authority_events := counsel, record_holds := [hold1 1 None ''case'' None]\<rparr>"

definition office13 :: office where
  "office13 = (founded ops (code1 (Some 100)) (day_db (basics (Some 100) (Some 1)) [ann, cy ''phc3'']
     keepers enrolled1 13))
     \<lparr>logins := [cy_login (Some 101)], signoffs := observed, authority_events := counsel,
       record_holds := [hold1 1 None ''case'' None, hold1 2 (Some 1) ''narrowed'' (Some 1)],
       hold_releases := [\<lparr>hr_hold_id = 1, hr_released_by = 1, hr_released_at = 100, hr_reason = ''narrowed'',
         hr_replacement = Some 2\<rparr>]\<rparr>"

definition phase_log :: "phase_event_row list" where
  "phase_log =
     [\<lparr>pe_id = 1, pe_enrollment_id = 1, pe_kind = PkAdvance, pe_from_phase = None, pe_to_phase = Some 1,
       pe_effective_at = 100, pe_recorded_at = 100, pe_actor = Some 1, pe_reason = [], pe_epoch = None\<rparr>,
      \<lparr>pe_id = 2, pe_enrollment_id = 1, pe_kind = PkPause, pe_from_phase = Some 1, pe_to_phase = None,
       pe_effective_at = 100, pe_recorded_at = 100, pe_actor = Some 1, pe_reason = [], pe_epoch = None\<rparr>]"

definition phased :: "nat \<Rightarrow> office" where
  "phased n = office13\<lparr>base := (base office13)\<lparr>phase_events := take n phase_log, audits := take (13 + n) day_log\<rparr>\<rparr>"

section \<open>Each call, evaluated\<close>

text \<open>One evaluation of all of them: most of its cost is in preparing the code equations.\<close>

lemma days:
  "(issue_setup_code sha1 100 office0 ''A'' = Some (office1, opaque sha1 ''A'', 1000)) \<and>
   (initialize sha1 clk1 office1 ''41'' ''Agency'' ''ann'' '''' ''long enough pw'' (Inr ''phc1'') = Inr (office2, 1)) \<and>
   (create_program office2 clk1 office2 1 ''Ops'' = Inr (office3, 1)) \<and>
   (create_version office3 clk1 office3 1 1 doc1 = Inr (office4, 1)) \<and>
   (publish_version office4 clk1 office4 1 1 = Inr office5) \<and>
   (create_with_reset_code sha1 office5 clk1 office5 1 ''cy'' '''' '''' '''' RbTrainee (Inr ''phc2'') ''B'' =
      (office6, Inr (2, opaque sha1 ''B'', 1003))) \<and>
   (enroll (base office6) clk1 (base office6) 1 1 2 = Inr (base office7, 1)) \<and>
   (login sha1 (=) office7 clk1 office7 ''cy'' ''phc2'' PlainCookie ''C'' =
      Inr (office8, LoggedIn (cy ''phc2'') [''acknowledge_own_record'', ''view_own_records''] 43300 (opaque sha1 ''C''))) \<and>
   (use_reset_code sha1 office8 clk1 office8 ''cy'' ''42'' ''another long pw'' (Inr ''phc3'') = Inr office9) \<and>
   (record_signoff office9 clk1 office9 1 1 1 Observed '''' = Inr office10) \<and>
   (set_authority clk1 office10 1 1 True ''counsel'' = Inr office11) \<and>
   (create_hold clk1 office11 1 (hold_on ScopeInstallation ''case'') = Inr (office12, 1)) \<and>
   (replace_hold clk1 office12 1 1 (hold_on (ScopeEnrollment 1) ''narrowed'') = Inr (office13, 2)) \<and>
   (record_phase_event (base office13) clk1 (base office13) 1 1 PkAdvance (Some 1) None [] = Inr (base (phased 1), 1)) \<and>
   (record_phase_event (base (phased 1)) clk1 (base (phased 1)) 1 1 PkPause None None [] = Inr (base (phased 2), 2))"
  by code_simp

lemmas day1 = days [THEN conjunct1]
lemmas day2 = days [THEN conjunct2, THEN conjunct1]
lemmas day3 = days [THEN conjunct2, THEN conjunct2, THEN conjunct1]
lemmas day4 = days [THEN conjunct2, THEN conjunct2, THEN conjunct2, THEN conjunct1]
lemmas days5 = days [THEN conjunct2, THEN conjunct2, THEN conjunct2, THEN conjunct2]
lemmas day5 = days5 [THEN conjunct1]
lemmas day6 = days5 [THEN conjunct2, THEN conjunct1]
lemmas day7 = days5 [THEN conjunct2, THEN conjunct2, THEN conjunct1]
lemmas day8 = days5 [THEN conjunct2, THEN conjunct2, THEN conjunct2, THEN conjunct1]
lemmas days9 = days5 [THEN conjunct2, THEN conjunct2, THEN conjunct2, THEN conjunct2]
lemmas day9 = days9 [THEN conjunct1]
lemmas day10 = days9 [THEN conjunct2, THEN conjunct1]
lemmas day11 = days9 [THEN conjunct2, THEN conjunct2, THEN conjunct1]
lemmas day12 = days9 [THEN conjunct2, THEN conjunct2, THEN conjunct2, THEN conjunct1]
lemmas days13 = days9 [THEN conjunct2, THEN conjunct2, THEN conjunct2, THEN conjunct2]
lemmas day13 = days13 [THEN conjunct1]
lemmas day14 = days13 [THEN conjunct2, THEN conjunct1]
lemmas day15 = days13 [THEN conjunct2, THEN conjunct2]

section \<open>The run\<close>

abbreviation day_step :: "office \<Rightarrow> office_call \<Rightarrow> office \<Rightarrow> bool" where
  "day_step \<equiv> installation jiff1 ser1 to_vec1 sha1 (=)"

lemma enroll7: "site jiff1 ser1 to_vec1 sha1 (base office6) (Service (Enroll 1 1 2)) (base office7)"
  by (rule site.service [OF service.enroll [OF day7]]) simp

lemma office7_base: "office7 = office6\<lparr>base := base office7\<rparr>"
  by (simp add: office7_def office6_def founded_def)

lemma phased_base: "w = office13 \<or> w = phased n \<Longrightarrow> phased m = w\<lparr>base := base (phased m)\<rparr>"
  by (auto simp: phased_def)

lemma phase_day:
  assumes "record_phase_event (base w) clk1 (base w) 1 1 k t None [] = Inr (base (phased m), i)"
    and "w = office13 \<or> w = phased n"
  shows "day_step w (Training (Service (Lifecycle (PhaseCall 1 k t)))) (phased m)"
proof -
  have "site jiff1 ser1 to_vec1 sha1 (base w) (Service (Lifecycle (PhaseCall 1 k t))) (base (phased m))"
    by (rule site.service [OF service.lifecycle [OF lifecycle_step.phase [OF assms(1)]]]) simp
  then show ?thesis
    using installation.training [where argon = "(=)"] phased_base [OF assms(2)] by (fastforce simp: own_call_def)
qed

lemma day_steps:
  "day_step office0 IssueSetup office1" "day_step office1 (Setup 1) office2"
  "day_step office2 (NewProgram 1) office3" "day_step office3 (NewVersion 1 1) office4"
  "day_step office4 (Publish 1 1) office5" "day_step office5 (NewUser 1) office6"
  "day_step office6 (Training (Service (Enroll 1 1 2))) office7"
  "day_step office7 (SignIn (LoggedIn (cy ''phc2'') [''acknowledge_own_record'', ''view_own_records''] 43300
     (opaque sha1 ''C''))) office8"
  "day_step office8 (ResetPassword ''cy'') office9" "day_step office9 (Signoff 1 1 1 Observed) office10"
  "day_step office10 (Authority 1 1 True) office11" "day_step office11 (Hold 1 None) office12"
  "day_step office12 (Hold 1 (Some 1)) office13"
proof -
  show "day_step office6 (Training (Service (Enroll 1 1 2))) office7"
    using installation.training [OF enroll7, where argon = "(=)"] office7_base by (simp add: own_call_def)
qed (rule installation.issue_setup [OF day1] installation.first_run [OF day2] installation.new_program [OF day3]
    installation.new_version [OF day4] installation.publish [OF day5] installation.new_user [OF day6]
    installation.sign_in [OF day8] installation.reset_password [OF day9] installation.signoff [OF day10] installation.authority [OF day11]
    installation.hold [OF day12 [unfolded create_hold_def]] installation.hold [OF day13 [unfolded replace_hold_def]])+

lemma new_office0: "new_office office0"
  by (simp add: new_office_def office0_def empty_db_def empty_catalog_def blank_def)

abbreviation opened :: "office \<Rightarrow> bool" where
  "opened \<equiv> open_office jiff1 ser1 to_vec1 sha1 (=)"

lemma opened_step: "opened w \<Longrightarrow> day_step w l w' \<Longrightarrow> opened w'"
  by (rule open_office_run [where ls = "[l]"]) auto

lemma opened0: "opened office0"
  unfolding open_office_def using new_office0 run_path.simps(1) by metis

lemmas opened1 = opened_step [OF opened0 day_steps(1)]
lemmas opened2 = opened_step [OF opened1 day_steps(2)]
lemmas opened3 = opened_step [OF opened2 day_steps(3)]
lemmas opened4 = opened_step [OF opened3 day_steps(4)]
lemmas opened5 = opened_step [OF opened4 day_steps(5)]
lemmas opened6 = opened_step [OF opened5 day_steps(6)]
lemmas opened7 = opened_step [OF opened6 day_steps(7)]
lemmas opened8 = opened_step [OF opened7 day_steps(8)]
lemmas opened9 = opened_step [OF opened8 day_steps(9)]
lemmas opened10 = opened_step [OF opened9 day_steps(10)]
lemmas opened11 = opened_step [OF opened10 day_steps(11)]
lemmas opened12 = opened_step [OF opened11 day_steps(12)]
lemmas opened13 = opened_step [OF opened12 day_steps(13)]
lemmas opened14 = opened_step [OF opened13 phase_day [OF day14 disjI1 [OF refl]]]
lemmas opened15 = opened_step [OF opened14 phase_day [OF day15 disjI2 [OF refl]]]

lemma rest_of_day: "run_path day_step office9 [Signoff 1 1 1 Observed, Authority 1 1 True, Hold 1 None, Hold 1 (Some 1)] office13"
  unfolding run_path.simps using day_steps(10-13) by blast

lemma after_publishing:
  "run_path day_step office5 [NewUser 1, Training (Service (Enroll 1 1 2)),
     SignIn (LoggedIn (cy ''phc2'') [''acknowledge_own_record'', ''view_own_records''] 43300 (opaque sha1 ''C'')),
     ResetPassword ''cy'', Signoff 1 1 1 Observed, Authority 1 1 True, Hold 1 None, Hold 1 (Some 1)] office13"
  using rest_of_day unfolding run_path.simps using day_steps(6-9) by blast

end
