(* ===== verification/Spec2Isabelle.thy ===== *)
theory Spec2Isabelle
  imports Sealing Correction Opening
begin

text \<open>
  A verification library for consolebook, a records server for field training programs: trainers
  write daily evaluations of trainees, reviewers approve them, and the approved copy is sealed
  into an immutable version whose hash chain anyone may recompute. The library models the
  services of \<open>src/crates/consolebook-server/src\<close> together with the constraints and triggers of
  \<open>migrations/\<close>, because the program states its guarantees in both places, and shows what the
  two together promise.

  State and effects. The database the record services share is one record, \<open>db\<close> of theory Schema:
  a list of rows for each table, in insertion order, and the \<open>catalog\<close> of program versions (phases,
  competencies, forms, scales). The record \<open>office\<close> of theory Office is that database with every
  other modelled table beside it: program identities and citations, sign-offs, retention policies
  and holds, accounts, codes and login sessions. A service function is a HOL function from a
  database to a result
  \<open>(refusal, value) outcome\<close>: \<open>Refused\<close> is the typed refusal the Rust function answers,
  \<open>Aborted\<close> an error it propagates (a constraint, a trigger, a missing row, a defect), and both
  roll the transaction back. A service that reads before it begins its write transaction takes
  that earlier database as a separate argument \<open>pre\<close>, so what it checked may be out of date by
  the time it writes; \<open>clk\<close> gives its successive readings of the clock. \<open>run\<close>, \<open>seq\<close>,
  \<open>fetch_one\<close> and \<open>demand\<close> (theory Prelude) are the question mark operator, statement order,
  \<open>fetch_one\<close> of sqlx, and a constraint. Two services commit more than one transaction (a login,
  the creation of an account with its first code); they return the database reached beside the
  answer, and what they commit one after the other is one step of \<open>installation\<close>.

  Parameters, for code outside the repository: \<open>ser\<close> (serde_json on the working copy), \<open>to_vec\<close>
  (serde_json on the envelope), \<open>sha\<close> (SHA-256), \<open>parse\<close> (serde_json reading stored bytes),
  \<open>labels\<close> (SQLite's \<open>json_extract\<close> on stored bytes), \<open>encode\<close> and \<open>decode\<close> (serde_json on an export
  document), \<open>j\<close> (the jiff crate's civil time), \<open>argon\<close> (Argon2's verification). What Argon2 made of
  a new password and the bytes of the entropy source are arguments of the call. None is assumed to
  be injective or total; a theorem about hashes says where a collision would be, and the one about
  export documents assumes that \<open>decode\<close> gives back what \<open>encode\<close> wrote.

  Which theory models what:
    \<^item> Prelude: outcomes, combinators, ids and latest rows, trimming, SQL's length; runs of a step
      relation and the locales for them: \<open>invariant_steps\<close>, extended by \<open>refinement\<close> and \<open>append_only\<close>.
    \<^item> Vocabulary (closed\_vocabulary.rs and the enums of capabilities.rs, audit.rs, notices.rs and
      the schema), Schema (the tables), Capabilities (capabilities.rs), Journal (audit.rs,
      notices.rs).
    \<^item> Lifecycle (lifecycle.rs), Histories (its streams as a machine on positions), Enrollments
      (enrollments.rs, assignments.rs, the enrollment page of lifecycle.rs).
    \<^item> Workflow (the derived status and the record tables: evaluation\_drafts.rs and the triggers of
      migrations 0008 to 0012), Access (draft\_access.rs), Content (draft\_content.rs), Completion
      (the completion rules of finalization.rs), Drafts (create, transfer and submit of
      evaluation\_drafts.rs), Workspace (its read, and the form skeleton of draft\_content.rs),
      Summaries (summaries.rs), Review (draft\_review.rs).
    \<^item> Canonical (canonical.rs), Envelope and Finalization (finalization.rs), Acknowledgments
      (acknowledgments.rs), Amendments (amendments.rs).
    \<^item> Changes: the write of each service on one record as one labelled relation \<open>writes\<close>, and that
      each service makes that write. Copies and Custody: what a save, a link edit and a transfer
      do to the copy, the owner and the acknowledgments. Records: the invariant of the record
      tables and that every write keeps it.
    \<^item> System: all calls on records and enrollments as one step relation \<open>service\<close>, the invariant
      \<open>db_ok\<close>, and \<open>reachable\<close> databases, those that calls lead to from a database with no
      enrollment and no record. Cycle: the review machine on statuses that the services refine.
      Sealing: what finalization and its gates give. Correction: what a reader of their own record
      is given while it is corrected.
    \<^item> Sessions (training\_sessions.rs, session\_membership.rs, session\_time.rs), Attendance (what its
      operations keep), Site (sessions together with \<open>service\<close> as the step relation \<open>site\<close>).
    \<^item> Office (the other tables, migrations 0002, 0004, 0013, 0015, 0016), Signoffs
      (task\_signoffs.rs), Retention (retention.rs and retention/), Accounts (users.rs, sessions.rs,
      setup.rs, secrets.rs, getting\_started.rs and the login handlers of http.rs).
    \<^item> Authoring (the content document of programs/content.rs and its validation), Publishing
      (programs.rs and programs/persistence.rs: the statements that write, delete and read a
      document, and the services), Exchange (program\_export.rs). Configuration and Programs: which
      rows each statement touches, that published versions stay, and the invariant \<open>config_ok\<close>.
      Storing and Documents: a well-formed document meets no constraint, and which rows it leaves.
      Reading: those rows read back as the document, through the slots of the loops. Versions: the
      services on one version.
    \<^item> Installation: everything that writes an installed database, the reading of notices included, as
      one step relation \<open>installation\<close> on an office, the invariant \<open>office_ok\<close>, and \<open>open_office\<close>, the
      offices such steps lead to from a new one. Standing: where enrollments stand in those offices.
    \<^item> Example, Shifts and Opening: three concrete runs, evaluated, on which the witnesses rest: a
      record from draft to amendment, the sessions of one site, and an installation from its setup
      code to a replaced hold.

  The step relation. A step of \<open>service\<close> is one committed write transaction of a modelled service
  with an arbitrary database \<open>pre\<close> for the checks before it, or \<open>Elsewhere\<close>, which stands for every
  other module: it may change anything but the tables of records and of the enrollment streams,
  which no other module writes, and may not remove a phase an event references, which a foreign
  key refuses. So a theorem about runs holds under any interleaving of committed calls. \<open>site\<close> and
  \<open>installation\<close> add to it the steps of the parts that \<open>Elsewhere\<close> stands for, and their proofs
  show that each of those is such a change; in \<open>installation\<close> only what is appended to the journal
  is left open.

  What the theorems show. C1 to C5: what is sealed is what was reviewed, versions chain and
  verify. C6 to C11: the workflow, frozen copies, review by others. C12 to C18: owners, lost
  updates, acknowledgments, and what a trainee may see. C19 to C23: enrollments and their
  histories. C24 to C28: program versions: what is published or pinned is fixed, validation decides
  well-formedness, a document is stored, replaced, exported and imported without loss. C29 to C33:
  the office: its well-formedness, password resets, setup, sign-off histories, chains of holds. C34
  and C35: canonical bytes and hashes. C36 shows a defect: the review queue keeps a record that was
  sealed without an approval. C17 marks the limit of another promise: the trainee's view of a record
  under correction hides all of the correction but the record's revision and owner. C37 to C40, in Shifts: training sessions.

  No loop of the modelled code needs fuel: every recursion is structural.

  Not modelled. Columns no modelled statement reads; the SQLite collation beyond ASCII case
  folding; row order where SQL leaves it open is table order; rows of 64-bit integers are
  unbounded, as no modelled sum comes near the bound. The HTTP layer besides login, logout and the
  current user only maps requests and answers. Record export, trainee packets, installation export
  and their verifiers, which stream archives through the zip, serde and SHA-256 crates, are left
  out; backups, restore, the scheduler and the doctor are file-system work; the command line, xtask
  and the web client hold no rules of their own.
\<close>

section \<open>What is sealed\<close>

text \<open>
  C1: under a policy that requires approval, finalization seals exactly the reviewed content.
  The record is approved, its working copy serializes to what its last submission anchored,
  and the one new version holds the canonical bytes of the envelope built from that copy.
\<close>

theorem sealed_as_reviewed:
  assumes "reachable ser to_vec sha d"
    and "finalize to_vec sha pre clk d actor r rv = Inr (d', m)"
    and "load_record pre r = Some w"
    and "po_review_approved (policy_of (catalog d) (r_version_id w))"
  shows "\<exists>s doc v n h. latest_submission d r = Some s \<and> ser (content d r) = Some (ds_content s) \<and>
    envelope d w actor (clk 0) (policy_of (catalog d) (r_version_id w)) n h
      = (Inr doc :: (finalize_refusal, json) outcome) \<and>
    to_vec doc = Some (v_bytes v) \<and> in_subset doc \<and> versions d' = versions d @ [v] \<and> v_record_id v = r"
proof -
  have st: "status_of d r = StApproved"
    using finalize_gate [OF assms(2)] assms(3,4) by auto
  have "reviewed ser d r"
    using reachable_ok [OF assms(1)] by (simp add: db_ok_def records_ok_def)
  then obtain s where "latest_submission d r = Some s" "ser (content d r) = Some (ds_content s)"
    using st by (auto simp: reviewed_def)
  then show ?thesis
    using finalize_document [OF assms(2,3)] by blast
qed

theorem sealed_as_reviewed_witness:
  "\<exists>s doc v n h. latest_submission db6 1 = Some s \<and> ser1 (content db6 1) = Some (ds_content s) \<and>
    envelope db6 (record1 1) 4 (clk1 0) (policy_of (catalog db6) 1) n h
      = (Inr doc :: (finalize_refusal, json) outcome) \<and>
    to_vec1 doc = Some (v_bytes v) \<and> in_subset doc \<and> versions db7 = versions db6 @ [v] \<and> v_record_id v = 1"
proof -
  have "load_record db6 1 = Some (record1 1)" "po_review_approved (policy_of (catalog db6) (r_version_id (record1 1)))"
    by code_simp+
  from sealed_as_reviewed [OF reach6 run7 this] show ?thesis
    by (simp add: record1_def)
qed

text \<open>
  C2: while a record is under review or approved, its working copy serializes to what its last
  submission anchored: nothing reaches the copy between submission and the decision's effect.
\<close>

theorem reviewed_copy_fixed:
  assumes "reachable ser to_vec sha d"
    and "status_of d r = StSubmitted \<or> status_of d r = StApproved"
  shows "\<exists>s. latest_submission d r = Some s \<and> ser (content d r) = Some (ds_content s)"
  using reachable_ok [OF assms(1)] assms(2) by (auto simp: db_ok_def records_ok_def reviewed_def)

theorem reviewed_copy_fixed_witness:
  "\<exists>s. latest_submission db5 1 = Some s \<and> ser1 (content db5 1) = Some (ds_content s)"
proof -
  have "status_of db5 1 = StSubmitted" by code_simp
  then show ?thesis using reviewed_copy_fixed [OF reach5, of 1] by blast
qed

text \<open>
  C3: the version chain. A record's versions are numbered from one without gaps, each names the
  one before it, and every stored version's content hash and chain hash recompute.
\<close>

theorem version_chain:
  assumes "reachable ser to_vec sha d"
  shows "chained (record_versions d r) \<and> (\<forall>v \<in> set (versions d). sealed_ok sha d v)"
  using reachable_ok [OF assms] by (simp add: db_ok_def records_ok_def chains_ok_def)

theorem version_chain_witness:
  "chained (record_versions db9 1) \<and> list_all (sealed_ok sha1 db9) (versions db9)"
  using version_chain [OF reach9, of 1] by (simp add: list_all_iff)

text \<open>
  C4: verification succeeds. In every reachable database a reader who asks for a version of a
  record gets both checks passed, at any version number and for the latest.
\<close>

theorem verification_succeeds:
  assumes "reachable ser to_vec sha d" and "load_record d r = Some w" and "may_read d actor w"
    and "asked_version d r n = Some v"
  shows "verify_at sha d actor r n = Inr (Some \<lparr>content_hash_ok = True, chain_hash_ok = True\<rparr>)"
proof -
  have "v \<in> set (versions d)"
    using assms(4) by (auto simp: asked_version_def record_versions_def dest: latest_by_in)
  then have "sealed_ok sha d v"
    using reachable_ok [OF assms(1)] by (simp add: db_ok_def records_ok_def chains_ok_def)
  then have "verify_version sha d v =
      (Inr \<lparr>content_hash_ok = True, chain_hash_ok = True\<rparr> :: (finalize_refusal, verification) outcome)"
    by (rule sealed_verifies)
  with assms(2-4) show ?thesis by (simp add: verify_at_def)
qed

theorem verification_succeeds_witness:
  "verify_at sha1 db9 3 1 None = Inr (Some \<lparr>content_hash_ok = True, chain_hash_ok = True\<rparr>)"
proof -
  have "may_read db9 3 (record1 2)" by (simp add: may_read_def grant9)
  from verification_succeeds [OF reach9 own9(1) this asked9] show ?thesis .
qed

text \<open>
  C5: the gate of finalization. A success means that the caller reviews, read the current
  revision, the record is not sealed without an amendment, its status is approved when the
  policy asks, and its copy is complete by the policy's rules; the one new version carries the
  number the version's metadata reports.
\<close>

theorem finalize_requires:
  assumes "finalize to_vec sha pre clk d actor r rv = Inr (d', m)"
  shows "\<exists>w cur. load_record pre r = Some w \<and> user_has pre actor ReviewEvaluation \<and>
    record_of d r = Some cur \<and> rv = r_revision cur \<and>
    (record_versions d r \<noteq> [] \<longrightarrow> open_scope d r \<noteq> None) \<and>
    (po_review_approved (policy_of (catalog d) (r_version_id w)) \<longrightarrow> status_of d r = StApproved) \<and>
    complete d w"
  using finalize_gate [OF assms] by auto

theorem finalize_requires_witness:
  "\<exists>w cur. load_record db6 1 = Some w \<and> user_has db6 4 ReviewEvaluation \<and>
    record_of db6 1 = Some cur \<and> 1 = r_revision cur \<and>
    (record_versions db6 1 \<noteq> [] \<longrightarrow> open_scope db6 1 \<noteq> None) \<and>
    (po_review_approved (policy_of (catalog db6) (r_version_id w)) \<longrightarrow> status_of db6 1 = StApproved) \<and>
    complete db6 w"
  by (rule finalize_requires [OF run7])

section \<open>The workflow of a record\<close>

text \<open>
  C6: the service and the database derive the same frozen state: the view of migration 0012
  freezes a record exactly when the service refuses writes to it for its status.
\<close>

theorem frozen_views_agree:
  assumes "reachable ser to_vec sha d" and "record_of d r \<noteq> None"
  shows "record_frozen d r \<longleftrightarrow> frozen_refusal (status_of d r) \<noteq> None"
  using reachable_ok [OF assms(1)] assms(2) record_frozen_status
  by (simp add: db_ok_def records_ok_def tables_ok_def)

theorem frozen_views_agree_witness:
  "record_frozen db7 1 \<longleftrightarrow> frozen_refusal (status_of db7 1) \<noteq> None"
proof -
  have "record_of db7 1 \<noteq> None" by code_simp
  from frozen_views_agree [OF reach7 this] show ?thesis .
qed

text \<open>
  C7: a frozen record is frozen: no call of any service changes the content, the links or the
  coverage of a record that is submitted, approved or finalized.
\<close>

theorem frozen_copy_fixed:
  assumes "reachable ser to_vec sha d" and "service ser to_vec sha d l d'"
    and "record_of d q \<noteq> None" and "frozen_refusal (status_of d q) \<noteq> None"
  shows "copy_of d' q = copy_of d q"
  using service_frozen_copy reachable_ok assms by blast

theorem frozen_copy_fixed_witness: "copy_of db7 1 = copy_of db6 1"
proof -
  have "record_of db6 1 \<noteq> None" "frozen_refusal (status_of db6 1) \<noteq> None" by code_simp+
  from frozen_copy_fixed [OF reach6 steps1(7) this] show ?thesis .
qed

text \<open>
  C8: the services refine the review machine: along every run, the derived status of a record
  moves as the machine on statuses allows, whatever the other calls of the run do.
\<close>

theorem workflow_refines_cycle:
  assumes "reachable ser to_vec sha d" and "run_path (service ser to_vec sha) d ls d'"
    and "record_of d q \<noteq> None"
  shows "run_path (cycle_moves q) (status_of d q) ls (status_of d' q)"
  using record_cycle.path_simulates reachable_ok assms by blast

theorem workflow_refines_cycle_witness:
  "run_path (cycle_moves 1) (status_of db4 1) [Submit 2 1 1, Decide 4 1 Approved None] (status_of db6 1)"
proof -
  have "run_path step1 db4 [Submit 2 1 1, Decide 4 1 Approved None] db6"
    using steps1(5,6) by auto
  moreover have "record_of db4 1 \<noteq> None" by code_simp
  ultimately show ?thesis by (rule workflow_refines_cycle [OF reach4])
qed

text \<open>
  C9: approval has one way in. If a run takes a record that is neither submitted nor approved to
  approved, it contains a submission of that record and later an approving decision on it, with no
  write to the record in between or after but acknowledgments.
\<close>

theorem approval_takes_a_decision:
  assumes "reachable ser to_vec sha d" and "run_path (service ser to_vec sha) d ls d'"
    and "record_of d q \<noteq> None" and "status_of d q \<noteq> StSubmitted" and "status_of d q \<noteq> StApproved"
    and "status_of d' q = StApproved"
  shows "\<exists>xs l ys m zs. ls = xs @ l # ys @ m # zs \<and> call_write l = Some (q, WSubmit) \<and>
    call_write m = Some (q, WDecide Approved) \<and> list_all (quiet q) ys \<and> list_all (quiet q) zs"
proof -
  have "run_path (cycle_moves q) (status_of d q) ls StApproved"
    using record_cycle.path_simulates [OF _ assms(2)] reachable_ok [OF assms(1)] assms(3,6) by metis
  then show ?thesis
    by (rule run_approved) (fact assms)+
qed

theorem approval_takes_a_decision_witness:
  "\<exists>xs l ys m zs. [Submit 2 1 1, Decide 4 1 Approved None] = xs @ l # ys @ m # zs \<and>
    call_write l = Some (1, WSubmit) \<and> call_write m = Some (1, WDecide Approved) \<and>
    list_all (quiet 1) ys \<and> list_all (quiet 1) zs"
proof -
  have p: "run_path step1 db4 [Submit 2 1 1, Decide 4 1 Approved None] db6"
    using steps1(5,6) by auto
  have "record_of db4 1 \<noteq> None" "status_of db4 1 \<noteq> StSubmitted" "status_of db4 1 \<noteq> StApproved"
    "status_of db6 1 = StApproved"
    by code_simp+
  from approval_takes_a_decision [OF reach4 p this] show ?thesis .
qed

text \<open>
  C10: the histories only grow. Along every run, the contributor events, decisions, snapshots,
  versions, amendments and acknowledgments of the start are a prefix of those of the end.
\<close>

theorem histories_grow:
  assumes "reachable ser to_vec sha d" and "run_path (service ser to_vec sha) d ls d'"
  shows "prefix (contributor_events d) (contributor_events d') \<and> prefix (decisions d) (decisions d') \<and>
    prefix (snapshots d) (snapshots d') \<and> prefix (versions d) (versions d') \<and>
    prefix (amendments d) (amendments d') \<and> prefix (acks d) (acks d')"
  by (intro conjI contributor_history.path_prefix [OF reachable_ok [OF assms(1)] assms(2)]
      decision_history.path_prefix [OF reachable_ok [OF assms(1)] assms(2)]
      snapshot_history.path_prefix [OF reachable_ok [OF assms(1)] assms(2)]
      version_history.path_prefix [OF reachable_ok [OF assms(1)] assms(2)]
      amendment_history.path_prefix [OF reachable_ok [OF assms(1)] assms(2)]
      ack_history.path_prefix [OF reachable_ok [OF assms(1)] assms(2)])

theorem histories_grow_witness:
  "prefix (contributor_events db4) (contributor_events db6) \<and> prefix (decisions db4) (decisions db6) \<and>
    prefix (snapshots db4) (snapshots db6) \<and> prefix (versions db4) (versions db6) \<and>
    prefix (amendments db4) (amendments db6) \<and> prefix (acks db4) (acks db6)"
proof -
  have "run_path step1 db4 [Submit 2 1 1, Decide 4 1 Approved None] db6"
    using steps1(5,6) by auto
  then show ?thesis by (rule histories_grow [OF reach4])
qed

text \<open>
  C11: nobody decides on their own work. A decision succeeds only for a reviewer who neither
  owns the record nor created, edited, submitted or received it at any time, on a record that is
  submitted now; a change request carries a comment.
\<close>

theorem no_self_review:
  assumes "decide ser pre clk d actor r k comment = Inr d'"
  shows "user_has pre actor ReviewEvaluation \<and> status_of d r = StSubmitted \<and>
    (\<exists>x. record_of d r = Some x \<and> r_owner x \<noteq> actor) \<and>
    (\<forall>e \<in> set (record_events d r). \<not> contributed_by actor e) \<and>
    (k = ChangesRequested \<longrightarrow> (\<exists>c. comment = Some c \<and> trim c \<noteq> []))"
  using decide_gate [OF assms]
  by (auto simp: is_contributor_def list_ex_iff split: option.splits)

theorem no_self_review_witness:
  "user_has db5 4 ReviewEvaluation \<and> status_of db5 1 = StSubmitted \<and>
    (\<exists>x. record_of db5 1 = Some x \<and> r_owner x \<noteq> 4) \<and>
    list_all (\<lambda>e. \<not> contributed_by 4 e) (record_events db5 1)"
  using no_self_review [OF run6] by (simp add: list_all_iff)

text \<open>
  C12: the owner column repeats the stream: the owner of a record is the recipient of its last
  ownership transfer, or its creator.
\<close>

theorem owner_follows_stream:
  assumes "reachable ser to_vec sha d" and "record_of d r = Some x"
  shows "stream_owner d r = Some (r_owner x)"
proof -
  have "x \<in> set (records d)" "r_id x = r"
    using assms(2) by (auto simp: record_of_def dest: find_eq_SomeD)
  then show ?thesis
    using reachable_ok [OF assms(1)] by (auto simp: db_ok_def records_ok_def ownership_ok_def)
qed

theorem owner_follows_stream_witness: "stream_owner db9 1 = Some 2"
  using owner_follows_stream [OF reach9 own9(2)] by (simp add: record1_def)

theorem one_draft_per_session:
  assumes "reachable ser to_vec sha d"
  shows "distinct (map es_session_id (record_sessions d))"
  using reachable_ok [OF assms] by (simp add: db_ok_def records_ok_def tables_ok_def)

theorem one_draft_per_session_witness: "distinct (map es_session_id (record_sessions db9))"
  by (rule one_draft_per_session [OF reach9])

text \<open>
  C13: no lost update. A save succeeds only with the revision its caller read, and leaves the
  next one: of two saves that read the same revision, the second is never applied.
\<close>

theorem no_lost_update:
  assumes "reachable ser to_vec sha d"
    and "save pre clk d actor r rv input = Inr (d', n)"
  shows "map_option r_revision (record_of d r) = Some rv \<and> n = rv + 1 \<and>
    map_option r_revision (record_of d' r) = Some n \<and>
    save pre' clk' d' actor' r rv input' \<noteq> Inr x"
proof -
  have ok: "copy_ok d"
    using reachable_ok [OF assms(1)] by (simp add: db_ok_def records_ok_def tables_ok_def)
  have "n = rv + 1"
    using save_effect [OF assms(2) ok] by blast
  then show ?thesis
    using save_revision [OF assms(2) ok] save_stale [of d' r "rv + 1" rv] by simp
qed

theorem no_lost_update_witness:
  "map_option r_revision (record_of db3 1) = Some 0 \<and> (1 :: int) = 0 + 1 \<and>
    map_option r_revision (record_of db4 1) = Some 1 \<and>
    save db3 clk1 db4 2 1 0 input1 \<noteq> Inr (db4, 1)"
  by (rule no_lost_update [OF reach3 run4])

text \<open>
  C14: a saved copy reads back as what was saved, up to the order of its entries and repeated
  modifiers, and no other record's copy changes.
\<close>

theorem save_reads_back:
  assumes "reachable ser to_vec sha d"
    and "save pre clk d actor r rv input = Inr (d', n)"
  shows "content d' r = norm_content input \<and> (\<forall>q. q \<noteq> r \<longrightarrow> content d' q = content d q)"
proof -
  have "copy_ok d"
    using reachable_ok [OF assms(1)] by (simp add: db_ok_def records_ok_def tables_ok_def)
  then show ?thesis
    using save_content [OF assms(2)] by blast
qed

theorem save_reads_back_witness:
  "content db4 1 = norm_content input1 \<and> content db4 2 = content db3 2"
  using save_reads_back [OF reach3 run4] by simp

section \<open>People\<close>

text \<open>
  C15: an acknowledgment belongs to the trainee its version was sealed for, at most one for a
  version and a person, spoken by the trainee or attested by someone else as its kind says, and
  with a response exactly when its kind asks for one.
\<close>

theorem acknowledgments_bound:
  assumes "reachable ser to_vec sha d" and "a \<in> set (acks d)"
  shows "trainee_of_version d (ak_version_id a) = Some (ak_user_id a) \<and> ack_shape a \<and>
    (\<forall>b \<in> set (acks d). ak_version_id b = ak_version_id a \<and> ak_user_id b = ak_user_id a \<longrightarrow> b = a)"
proof -
  have "acks_ok d"
    using reachable_ok [OF assms(1)] by (simp add: db_ok_def records_ok_def)
  then show ?thesis
    using assms(2) by (auto simp: acks_ok_def distinct_map inj_on_def)
qed

theorem acknowledgments_bound_witness:
  "trainee_of_version db9 1 = Some 3 \<and> ack_shape (hd (acks db9))"
proof -
  have h: "hd (acks db9) \<in> set (acks db9)" "ak_version_id (hd (acks db9)) = 1" "ak_user_id (hd (acks db9)) = 3"
    by (simp_all add: db9_def db8_def)
  from acknowledgments_bound [OF reach9 h(1)] show ?thesis unfolding h(2,3) by blast
qed

text \<open>
  C16: only the trainee acknowledges: a trainee's acknowledgment succeeds only for the person
  the record is about, holding the capability, on a version they have not acknowledged.
\<close>

theorem acknowledge_own_record:
  assumes "acknowledge pre clk d actor r k response = Inr d'"
  shows "user_has pre actor AcknowledgeOwnRecord \<and> trainee_of_record d r = Some actor \<and>
    (\<exists>v. latest_version d r = Some v \<and> \<not> already_acknowledged d (v_id v) actor)"
  by (rule acknowledge_gate [OF assms])

theorem acknowledge_own_record_witness:
  "user_has db7 3 AcknowledgeOwnRecord \<and> trainee_of_record db7 1 = Some 3 \<and>
    (\<exists>v. latest_version db7 1 = Some v \<and> \<not> already_acknowledged db7 (v_id v) 3)"
  by (rule acknowledge_own_record [OF run8])

text \<open>
  C17: an in-progress correction is invisible to the trainee, but for who holds it. Once a record
  has a sealed version, a run of saves, link edits, transfers, submissions, decisions, amendment
  openings and acknowledgments on it leaves the answer to a reader of their own record as it was,
  error or workspace, except for the revision and the owner of the record, which the read takes
  from the record row as the correction left it.
\<close>

theorem correction_invisible:
  assumes "reachable ser to_vec sha d" and "record_versions d r \<noteq> []"
    and "run_path (service ser to_vec sha) d ls d'" and "list_all (corrects r) ls"
    and "record_of d r = Some x" "user_of d (r_owner x) \<noteq> None"
    and "record_of d' r = Some x'" "user_of d' (r_owner x') \<noteq> None"
    and "load_record pre r = Some r0" "read_grant pre actor r0 = Some RgOwnRecord"
    and "load_record pre' r = Some r1" "read_grant pre' actor r1 = Some RgOwnRecord"
  shows "map_sum id as_sealed (workspace labels pre' d' actor r) =
    map_sum id as_sealed (workspace labels pre d actor r)"
  using own_reader_blind [OF assms(9-12) correction_unseen [OF assms(3,4) reachable_ok [OF assms(1)] assms(2)] assms(5-8)] .

theorem correction_invisible_witness:
  "map_sum id as_sealed (workspace (\<lambda>_. (None, None)) db9 db10 3 1) =
    map_sum id as_sealed (workspace (\<lambda>_. (None, None)) db7 db7 3 1) \<and> record_of db10 1 \<noteq> record_of db7 1"
proof -
  have v: "record_versions db7 1 \<noteq> []" using versions9 by (simp add: record_versions_def kept8 kept9)
  have p: "run_path step1 db7 [Acknowledge 3 1 TaAcknowledged [], OpenAmendment 4 1 ''typo'', Save 2 1 2 input1] db10"
    unfolding run_path.simps using steps1(8,9) steps10 by blast
  have c: "list_all (corrects 1) [Acknowledge 3 1 TaAcknowledged [], OpenAmendment 4 1 ''typo'', Save 2 1 2 input1]"
    by (simp add: corrects_def)
  have u: "user_of db7 (r_owner (record1 1)) \<noteq> None" "user_of db10 (r_owner (record1 3)) \<noteq> None"
    by (simp_all add: user_of_def kept kept1 db10_def record1_def db0_def user1_def)
  from correction_invisible [OF reach7 v p c own7(2) u(1) own10 u(2) own7(1) grant7 own9(1) grant9]
  show ?thesis using own7(2) own10 by (simp add: record1_def)
qed

text \<open>
  C18: what a reader of their own record is given: the sealed status, and no working copy, no
  links, no snapshots, no roster of recipients, no amendment and no workflow action.
\<close>

theorem own_reader_sees_sealed:
  assumes "workspace labels pre d actor r = Inr w"
    and "load_record pre r = Some r0" and "read_grant pre actor r0 = Some RgOwnRecord"
  shows "wk_status w = StFinalized \<and> wk_links w = [] \<and> wk_snapshots w = [] \<and> wk_recipients w = [] \<and>
    wk_content w = \<lparr>dc_ratings = [], dc_narratives = []\<rparr> \<and> wk_amendment w = None \<and>
    \<not> wk_may_review w \<and> \<not> wk_may_finalize w \<and> \<not> wk_may_amend w"
  by (rule own_reader_redacted [OF assms])

theorem own_reader_sees_sealed_witness:
  "\<exists>w. workspace (\<lambda>_. (None, None)) db9 db9 3 1 = Inr w \<and> wk_status w = StFinalized \<and> wk_recipients w = []"
proof -
  have "case workspace (\<lambda>_. (None, None)) db9 db9 3 1 of Inl _ \<Rightarrow> False | Inr _ \<Rightarrow> True"
    by code_simp
  then obtain w where "workspace (\<lambda>_. (None, None)) db9 db9 3 1 = Inr w"
    by (auto split: sum.splits)
  with own_reader_sees_sealed [OF this own9(1) grant9] show ?thesis by blast
qed

text \<open>
  C19: enrolling pins one published version a person has no enrollment on, at a fresh id, and
  leaves them with the trainee capabilities.
\<close>

theorem enroll_pins_published:
  assumes "enroll pre clk d actor v u = Inr (d', i)" and "grants_ok d"
  shows "published d v \<and> i = next_id (map e_id (enrollments d)) \<and>
    (\<nexists>x. x \<in> set (enrollments d) \<and> e_user_id x = u \<and> e_version_id x = v) \<and>
    (\<exists>gs. journaled (d\<lparr>enrollments := enrollments d @ [new_enrollment d u v (clk 0) actor],
        grants := grants d @ gs\<rparr>) d') \<and>
    (\<forall>c \<in> set trainee_bundle. user_has d' u c)"
  by (rule enroll_effect [OF assms])

theorem enroll_pins_published_witness: "published db0 1 \<and> user_has db1 3 ViewOwnRecords"
proof -
  have "grants_ok db0" by code_simp
  from enroll_pins_published [OF run1 this] show ?thesis by (simp add: trainee_bundle_def)
qed

text \<open>
  A trainer has at most one open assignment to an enrollment, whatever assignments are
  created and ended.
\<close>

theorem one_open_assignment:
  assumes "active_unique d"
    and "create_assignment pre clk d actor i t = Inr (d1, n) \<or> end_assignment pre clk d actor m = Inr d1"
  shows "active_unique d1"
  using assms create_assignment_unique end_assignment_unique by blast

theorem one_open_assignment_witness:
  "\<exists>d1. create_assignment db1 clk1 db1 1 1 2 = Inr (d1, 1) \<and> active_unique d1"
proof -
  have "case create_assignment db1 clk1 db1 1 1 2 of Inl _ \<Rightarrow> False | Inr (_, n) \<Rightarrow> n = 1"
    by code_simp
  then obtain d1 where d1: "create_assignment db1 clk1 db1 1 1 2 = Inr (d1, 1)"
    by (auto split: sum.splits)
  have "active_unique db1" by code_simp
  from one_open_assignment [OF this disjI1 [OF d1]] d1 show ?thesis by blast
qed

section \<open>Enrollment lifecycle\<close>

text \<open>
  C20: lifecycle calls refine the position machine: along every run of recorded events the
  status, pinned version, phase and pause of an enrollment move as the machine says.
\<close>

theorem lifecycle_refines_machine:
  assumes "reachable ser to_vec sha d" and "run_path lifecycle_step d ls d'"
  shows "run_path (machine_moves (catalog d) i) (position_of d i) ls (position_of d' i)"
  by (rule machine.path_simulates) (use reachable_ok [OF assms(1)] assms(2) in \<open>simp_all add: db_ok_def\<close>)

theorem lifecycle_refines_machine_witness:
  "run_path (machine_moves (catalog db1) 1) (position_of db1 1) [PhaseCall 1 PkAdvance (Some 1)]
     (position_of db1p 1)"
proof -
  have "run_path lifecycle_step db1 [PhaseCall 1 PkAdvance (Some 1)] db1p"
    using lifecycle_step.phase [OF run1p] by simp
  then show ?thesis by (rule lifecycle_refines_machine [OF reach1])
qed

text \<open>
  C21: positions stay sound. In every office an installation reaches, an enrollment that is paused is
  in a phase, and the phase it is in is one of the version it is pinned to, whatever services
  wrote its events, its pin and the phases of program versions; that version is published.
\<close>

theorem positions_stay_sound:
  assumes "open_office j ser to_vec sha argon w" and "enrollment_of (base w) i = Some e"
  shows "(is_paused (base w) i \<longrightarrow> current_phase (base w) i \<noteq> None) \<and>
    (\<forall>t n. current_phase (base w) i = Some (t, n) \<longrightarrow> phase_in (cat w) (e_version_id e) t) \<and>
    frozen (cat w) (e_version_id e)"
proof -
  have "position_ok (cat w) (position_of (base w) i)"
    using open_office_placed [OF assms(1)] by (simp add: placed_def)
  moreover have "e_version_id e \<in> pins (base w)"
    using enrollment_of_in [OF assms(2)] by (auto simp: pins_def)
  ultimately show ?thesis
    using assms(2) open_office_ok [OF assms(1)]
    by (auto simp: position_ok_def machine_ok_def position_of_def office_ok_def)
qed

theorem positions_stay_sound_witness:
  "is_paused (base (phased 2)) 1 \<and> phase_in (cat (phased 2)) 1 1 \<and> frozen (cat (phased 2)) 1"
proof -
  have c: "enrollment_of (base (phased 2)) 1 = Some (hd enrolled1) \<and> is_paused (base (phased 2)) 1 \<and>
      current_phase (base (phased 2)) 1 = Some (1, ''P'') \<and> e_version_id (hd enrolled1) = 1"
    by code_simp
  from positions_stay_sound [OF opened15 conjunct1 [OF c]] c show ?thesis by simp
qed

text \<open>
  The pin repeats the stream: an enrollment with version changes is pinned to the target of
  the last one.
\<close>

theorem pin_is_last_change:
  assumes "reachable ser to_vec sha d" and "e \<in> set (enrollments d)"
    and "latest_by ee_id (version_changes d (e_id e)) = Some v"
  shows "ee_to_version v = Some (e_version_id e)"
proof -
  have "pin_follows_stream d"
    using reachable_ok [OF assms(1)] by (simp add: db_ok_def streams_ok_def)
  then show ?thesis
    using assms(2,3) by (auto simp: pin_follows_stream_def)
qed

theorem pin_is_last_change_witness: "ee_to_version (hd (enrollment_events db1v)) = Some 2"
proof -
  have h: "hd (enrollments db1v) \<in> set (enrollments db1v)"
    "latest_by ee_id (version_changes db1v (e_id (hd (enrollments db1v)))) = Some (hd (enrollment_events db1v))"
    "e_version_id (hd (enrollments db1v)) = 2"
    by code_simp+
  from pin_is_last_change [OF reach1v h(1,2)] show ?thesis unfolding h(3) .
qed

text \<open>
  C22: phase events of an enrollment are in effective order in the order they were recorded, and
  none is effective after it was recorded.
\<close>

theorem phase_events_ordered:
  assumes "reachable ser to_vec sha d" and "i < j" and "j < length (phase_events d)"
    and "pe_enrollment_id (phase_events d ! i) = pe_enrollment_id (phase_events d ! j)"
  shows "pe_effective_at (phase_events d ! i) \<le> pe_effective_at (phase_events d ! j) \<and>
    pe_effective_at (phase_events d ! j) \<le> pe_recorded_at (phase_events d ! j)"
proof -
  have "per_enrollment_order (phase_events d)"
    "\<forall>p \<in> set (phase_events d). pe_effective_at p \<le> pe_recorded_at p"
    using reachable_ok [OF assms(1)] by (simp_all add: db_ok_def streams_ok_def)
  then show ?thesis
    using assms(2-4) by (auto simp: per_enrollment_order_def sorted_wrt_iff_nth_less)
qed

theorem phase_events_ordered_witness:
  "pe_effective_at (phase_events db1q ! 0) \<le> pe_effective_at (phase_events db1q ! 1) \<and>
    pe_effective_at (phase_events db1q ! 1) \<le> pe_recorded_at (phase_events db1q ! 1)"
proof -
  have "1 < length (phase_events db1q)"
    "pe_enrollment_id (phase_events db1q ! 0) = pe_enrollment_id (phase_events db1q ! 1)"
    by (simp_all add: db1q_def db1p_def)
  from phase_events_ordered [OF reach1q zero_less_one this] show ?thesis .
qed

text \<open>
  C23: an admitted phase call never fails in the database: in a sound database whose actor and
  trainee exist, recording a phase event returns a result or a typed refusal, never an abort, so
  the checks of the service imply every trigger and constraint of the table.
\<close>

theorem phase_call_never_aborts:
  assumes "streams_ok d" and "distinct (map ph_id (phases (catalog d)))"
    and "position_ok (catalog d) (position_of d i)" and "user_of d actor \<noteq> None"
    and "\<And>e. enrollment_of d i = Some e \<Longrightarrow> user_of d (e_user_id e) \<noteq> None"
  shows "record_phase_event pre clk d actor i k to eff reason \<noteq> abort x"
  by (rule record_phase_event_no_abort [OF assms])

theorem phase_call_never_aborts_witness:
  "record_phase_event db1 clk1 db1 1 1 PkAdvance (Some 1) None [] \<noteq> abort RowNotFound"
proof (rule phase_call_never_aborts)
  show "streams_ok db1" using reachable_ok [OF reach1] by (simp add: db_ok_def)
  show "distinct (map ph_id (phases (catalog db1)))" "position_ok (catalog db1) (position_of db1 1)"
    "user_of db1 1 \<noteq> None" by code_simp+
  fix e assume "enrollment_of db1 1 = Some e"
  moreover have "enrollment_of db1 1 = Some (hd (enrollments db1))" "user_of db1 (e_user_id (hd (enrollments db1))) \<noteq> None"
    by code_simp+
  ultimately show "user_of db1 (e_user_id e) \<noteq> None" by simp
qed

section \<open>The installation\<close>

text \<open>
  C24: a version an enrollment is on, or that is published, is fixed. In every office reached from
  a new one, whatever is done afterwards by any service, it stays published, its rows in every
  table stay as they are, and it reads as the same document.
\<close>

theorem pinned_version_fixed:
  assumes "open_office j ser to_vec sha argon w" and "run_path (installation j ser to_vec sha argon) w ls w'"
    and "v \<in> pins (base w) \<or> frozen (cat w) v"
  shows "load_content w' v = load_content w v \<and> version_rows v w' = version_rows v w \<and> frozen (cat w') v"
proof -
  note ok = open_office_ok [OF assms(1)]
  have "frozen (cat w) v" using assms(3) ok by (auto simp: office_ok_def)
  then show ?thesis
    using run_content_fixed [OF assms(2) ok] run_frozen [OF assms(2) ok] by simp
qed

theorem pinned_version_fixed_witness: "load_content office13 1 = load_content office5 1 \<and> frozen (cat office13) 1"
proof -
  have "frozen (cat office5) 1" by code_simp
  then show ?thesis using pinned_version_fixed [OF opened5 after_publishing] by simp
qed

text \<open>
  C25: validation reports no problem exactly on the well-formed documents: names present and unique
  where they identify, references inside the document, scales and forms of their kinds' shapes.
\<close>

theorem valid_documents: "validate_content x = [] \<longleftrightarrow> well_formed x"
  by (rule validate_content_Nil)

text \<open>
  C26: a document that passes validation is stored by \<open>create_version\<close>, without any constraint or
  trigger in the way, as a draft that reads back as the document given, in the order of an export,
  exactly when it is \<open>storable\<close>: none of its required texts is one that SQL's \<open>length\<close> counts as
  empty although it is not, as of a text that starts with U+0000. Any other is not stored.
\<close>

theorem created_version_reads_back:
  assumes "open_office j ser to_vec sha argon w" and "holds_manage_programs pre a" and "validate_content x = []"
    and "program_of w p \<noteq> None" and "user_of (base w) a \<noteq> None"
  shows "if storable x
    then \<exists>w' v. create_version pre clk w a p x = Inr (w', v) \<and> load_content w' v = Inr (Some (export_order x)) \<and>
      version_state_of w' v = VsDraft
    else create_version pre clk w a p x \<noteq> Inr r"
proof (cases "storable x")
  case True
  have ok: "config_ok (config_of w)" using open_office_ok [OF assms(1)] by (simp add: office_ok_def)
  let ?v = "next_id (map pv_id (program_versions (cat w)))"
  obtain w' where w': "insert_program_version clk p x a EvProgramVersionCreated w = Inr (w', ?v)"
    "load_content w' ?v = Inr (Some (export_order x))" "version_of (base w') ?v = Some (new_version clk w a p x)"
    using insert_program_version_total [OF ok _ True assms(4,5)] assms(3) by (auto simp: validate_content_Nil)
  have "create_version pre clk w a p x = Inr (w', ?v)"
    using assms w'(1) by (simp add: create_version_def Let_def)
  moreover have "version_state_of w' ?v = VsDraft"
    using w'(3) by (simp add: version_state_of_def new_version_def)
  ultimately show ?thesis using w'(2) True by auto
next
  case False
  have "create_version pre clk w a p x \<noteq> Inr r"
  proof
    assume "create_version pre clk w a p x = Inr r"
    then obtain s where "insert_program_version clk p x a EvProgramVersionCreated w = Inr s"
      by (auto simp: create_version_def guard_simps Let_def)
    then show False using False insert_program_version_storable by blast
  qed
  then show ?thesis using False by simp
qed

theorem created_version_reads_back_witness:
  "\<exists>w' v. create_version office5 clk1 office5 1 1 doc2 = Inr (w', v) \<and>
     load_content w' v = Inr (Some (export_order doc2)) \<and> version_state_of w' v = VsDraft"
proof -
  have c: "(holds_manage_programs office5 1 \<and> validate_content doc2 = []) \<and> storable doc2 \<and>
      program_of office5 1 \<noteq> None \<and> user_of (base office5) 1 \<noteq> None"
    by code_simp
  from created_version_reads_back [OF opened5, where pre = office5 and x = doc2 and a = 1 and p = 1 and clk = clk1] c
  show ?thesis by simp
qed

text \<open>
  C27: a draft whose replacement succeeds reads back as the document it was replaced with: nothing
  of the former document is left, and nothing of the new one is lost.
\<close>

theorem replaced_draft_reads_back:
  assumes "open_office j ser to_vec sha argon w" and "replace_draft pre w a v x = Inr w'"
  shows "load_content w' v = Inr (Some (export_order x))"
  using open_office_ok [OF assms(1)] replace_draft_reads_back [OF _ assms(2)] by (simp add: office_ok_def)

theorem replaced_draft_reads_back_witness:
  "load_content (projr (replace_draft office4 office4 1 1 doc2)) 1 = Inr (Some (export_order doc2))"
proof -
  have "\<not> isl (replace_draft office4 office4 1 1 doc2)" by code_simp
  then have r: "replace_draft office4 office4 1 1 doc2 = Inr (projr (replace_draft office4 office4 1 1 doc2))"
    by (cases "replace_draft office4 office4 1 1 doc2") simp_all
  show ?thesis by (rule replaced_draft_reads_back [OF opened4 r])
qed

text \<open>
  C28: a version exported by one installation and imported by another is exported there as the same
  bytes, from a draft with the same content. serde_json is assumed to read back what it wrote as
  this document, and nothing else.
\<close>

theorem exports_travel:
  assumes "open_office j ser to_vec sha argon w" and "open_office j' ser' to_vec' sha' argon' u"
    and "export_version encode w v = Inr (Some doc)" and "\<And>e. encode e = Some doc \<Longrightarrow> decode doc = Inr e"
    and "import_version decode pre clk u a doc target = Inr (u', n)"
  shows "export_version encode u' n = Inr (Some doc) \<and> load_content u' n = load_content w v \<and>
    version_state_of u' n = VsDraft"
proof (rule export_import_export [OF _ _ assms(3) _ assms(5)])
  show "config_ok (config_of w)" "config_ok (config_of u)"
    using open_office_ok [OF assms(1)] open_office_ok [OF assms(2)] by (simp_all add: office_ok_def)
qed (rule assms(4))

theorem exports_travel_witness:
  "export_version (\<lambda>e. if e = exported doc1 then Some ''bytes'' else None)
     (fst (projr (import_version (\<lambda>_. Inr (exported doc1)) office3 clk1 office3 1 ''bytes'' (VersionOf 1)))) 1 =
   Inr (Some ''bytes'')"
proof -
  let ?encode = "\<lambda>e. if e = exported doc1 then Some ''bytes'' else None" and ?decode = "\<lambda>_ :: string. Inr (exported doc1)"
  let ?i = "import_version ?decode office3 clk1 office3 1 ''bytes'' (VersionOf 1)"
  have c: "(\<not> isl ?i \<and> snd (projr ?i) = 1) \<and> export_version ?encode office5 1 = Inr (Some ''bytes'')"
    by code_simp
  from conjunct1 [OF c] have i: "?i = Inr (fst (projr ?i), 1)" by (cases ?i) auto
  note e = conjunct2 [OF c]
  have "?decode ''bytes'' = Inr y" if "?encode y = Some ''bytes''" for y using that by (auto split: if_splits)
  from exports_travel [OF opened5 opened3 e this i] show ?thesis by simp
qed

text \<open>
  C29: every office reached from a new one is well-formed: row ids are positive and ascending, every
  reference of a configuration row resolves inside its version, usernames are unique without
  regard to case, reset codes and sessions belong to existing accounts under unique hashes, each
  task's sign-offs start with one that is no revocation and explain every later one, policy
  revisions form one chain per class, and a hold is released at most once.
\<close>

theorem office_well_formed:
  assumes "open_office j ser to_vec sha argon w"
  shows "config_ok (config_of w) \<and> accounts_ok w \<and> signoffs_ok w \<and> retention_ok w"
  using open_office_ok [OF assms] by (simp add: office_ok_def)

theorem office_well_formed_witness:
  "config_ok (config_of office13) \<and> accounts_ok office13 \<and> signoffs_ok office13 \<and> retention_ok office13"
  by (rule office_well_formed [OF opened13])

text \<open>
  C30: after a password reset no session of the user is accepted, whatever the clock says, until a
  login of that user completes; and the code that was used never works again, whoever logs in.
\<close>

theorem reset_locks_out:
  assumes "open_office j ser to_vec sha argon w" and "use_reset_code sha pre clk w n code pw phc = Inr w1"
    and "find_by_username (base pre) n = Some u" and "run_path (installation j ser to_vec sha argon) w1 ls w2"
  shows "((\<forall>l \<in> set ls. u_id u \<notin> signed_in l) \<longrightarrow>
      (\<forall>token l. validate_token sha now w2 token = Some l \<longrightarrow> lg_user_id l \<noteq> u_id u)) \<and>
    usable_code now w2 i (digest_hex sha code) = None"
proof -
  have "open_office j ser to_vec sha argon w1"
    by (rule open_office_run [OF assms(1), where ls = "[ResetPassword n]"])
      (use installation.reset_password [OF assms(2)] in auto)
  note ok1 = open_office_ok [OF this]
  note settled = use_reset_code_settles [OF assms(2,3)]
  have ok2: "accounts_ok w2" using office.inv_path [OF ok1 assms(4)] by (simp add: office_ok_def)
  have "usable_code now w2 i (digest_hex sha code) = None"
    using run_account_moves(2) [OF assms(4) ok1] settled spent_not_usable ok2 by blast
  moreover have "\<forall>token l. validate_token sha now w2 token = Some l \<longrightarrow> lg_user_id l \<noteq> u_id u"
    if "\<forall>l \<in> set ls. u_id u \<notin> signed_in l"
    using run_account_moves(1) [OF assms(4) ok1] settled that validate_locked_out by blast
  ultimately show ?thesis by blast
qed

theorem reset_locks_out_witness:
  "validate_token sha1 105 office13 ''43'' \<noteq> Some (cy_login None) \<and>
   usable_code 105 office13 2 (digest_hex sha1 ''42'') = None"
proof -
  have u: "find_by_username (base office8) ''cy'' = Some (cy ''phc2'')" by code_simp
  have "\<forall>l \<in> set [Signoff 1 1 1 Observed, Authority 1 1 True, Hold 1 None, Hold 1 (Some 1)].
      u_id (cy ''phc2'') \<notin> signed_in l"
    by (simp add: signed_in_def)
  with reset_locks_out [OF opened8 day9 u rest_of_day, of 105 2]
  have out: "\<forall>token l. validate_token sha1 105 office13 token = Some l \<longrightarrow> lg_user_id l \<noteq> u_id (cy ''phc2'')"
    "usable_code 105 office13 2 (digest_hex sha1 ''42'') = None" by blast+
  have "lg_user_id (cy_login None) = u_id (cy ''phc2'')" by (simp add: cy_login_def cy_def member_def)
  with out show ?thesis by blast
qed

text \<open>
  C31: setup happens once: the account it makes holds the administrator bundle, the agency it names
  stays, and no later attempt to initialize succeeds, whatever code it presents.
\<close>

theorem setup_once:
  assumes "open_office j ser to_vec sha argon w" and "initialize sha clk w code an n dn pw phc = Inr (w1, i)"
    and "run_path (installation j ser to_vec sha argon) w1 ls w2"
  shows "agency w2 = Some \<lparr>ag_name = trim an, ag_created_at = clk 0\<rparr> \<and>
    list_all (user_has (base w1) i) administrator_bundle \<and>
    initialize sha clk' w2 code' an' n' dn' pw' phc' \<noteq> Inr r"
proof -
  have "open_office j ser to_vec sha argon w1"
    by (rule open_office_run [OF assms(1), where ls = "[Setup i]"])
      (use installation.first_run [OF assms(2)] in auto)
  note ok1 = open_office_ok [OF this]
  obtain h d d1 d2 where g: "grant_bundle i administrator_bundle None (clk 2) d = Inr d1"
    and a: "record_audit EvSetupCompleted (Some i) (Some i) (clk 3) d1 = Inr d2"
    and w1: "w1 = w\<lparr>agency := Some \<lparr>ag_name = trim an, ag_created_at = clk 0\<rparr>, setup_code := None, base := d2\<rparr>"
    using initialize_effect [OF assms(2)] by blast
  have "agency w2 = agency w1" using run_agency [OF assms(3) ok1] by (simp add: w1)
  then have ag: "agency w2 = Some \<lparr>ag_name = trim an, ag_created_at = clk 0\<rparr>" by (simp add: w1)
  then have "initialize sha clk' w2 code' an' n' dn' pw' phc' \<noteq> Inr r"
    using initialize_effect [of sha clk' w2 code' an' n' dn' pw' phc'] by (cases r) auto
  moreover have "user_has (base w1) i c" if "c \<in> set administrator_bundle" for c
    using grant_bundle_holds [OF g] that journaled_tables(2) [OF journaled_record [OF a]]
    by (simp add: w1 user_has_def held_def)
  ultimately show ?thesis using ag by (simp add: list_all_iff)
qed

theorem setup_once_witness:
  "user_has (base office2) 1 ManageUsers \<and>
   initialize sha1 clk1 office2 ''41'' ''B'' ''bo'' [] ''long enough pw'' (Inr ''x'') \<noteq> Inr (office3, 2)"
proof -
  have "run_path day_step office2 [] office2" by simp
  from setup_once [OF opened1 day2 this] show ?thesis
    by (simp add: administrator_bundle_def)
qed

text \<open>
  C32: the history read is complete. The loop that groups the joined rows gives, for every task of the
  pinned version and every task with a sign-off, exactly that task's sign-offs in the order they
  were recorded, under the kind of the last.
\<close>

theorem signoff_history_complete:
  assumes "open_office j ser to_vec sha argon w" and "signoff_history_of w actor e = Inr h"
  shows "sh_tasks h = map (\<lambda>(t, c, v). task_history (sh_version_id h) t c v (signoffs_of w e (tk_id t)))
    (listed w e (sh_version_id h))"
proof (rule history_tasks [OF _ _ assms(2)])
  note ok = open_office_ok [OF assms(1)]
  have "ids_ok (map tk_id (tasks (cat w)))"
    using ok by (simp add: office_ok_def config_ok_def ids_sound_def config_of_def)
  then show "distinct (map tk_id (tasks (cat w)))" by (rule ids_ok_distinct)
  show "ids_ok (map so_id (signoffs w))" using ok by (simp add: office_ok_def signoffs_ok_def)
qed

theorem signoff_history_complete_witness:
  "map sg_current_kind (sh_tasks (projr (signoff_history_of office13 2 1))) = [Some Observed]"
proof -
  have c: "\<not> isl (signoff_history_of office13 2 1) \<and> sh_version_id (projr (signoff_history_of office13 2 1)) = 1"
    by code_simp
  from conjunct1 [OF c] have r: "signoff_history_of office13 2 1 = Inr (projr (signoff_history_of office13 2 1))"
    by (cases "signoff_history_of office13 2 1") simp_all
  note v = conjunct2 [OF c]
  have "map sg_current_kind (map (\<lambda>(t, c, v). task_history 1 t c v (signoffs_of office13 1 (tk_id t))) (listed office13 1 1)) =
      [Some Observed]" by code_simp
  then show ?thesis using signoff_history_complete [OF opened13 r] v by simp
qed

text \<open>
  C33: following replacements from any hold ends, at a hold that is still active or was released
  without one.
\<close>

theorem hold_replacements_end:
  assumes "open_office j ser to_vec sha argon w" and "hold_of w i \<noteq> None"
  shows "\<exists>n. (replaced_by w)\<^sup>*\<^sup>* i n \<and> hold_of w n \<noteq> None \<and>
    (release_of w n = None \<or> (\<exists>r. release_of w n = Some r \<and> hr_replacement r = None))"
  using hold_chain_ends [OF _ assms(2)] open_office_ok [OF assms(1)] by (simp add: office_ok_def retention_ok_def)

theorem hold_replacements_end_witness: "\<exists>n. (replaced_by office13)\<^sup>*\<^sup>* 1 n \<and> hold_of office13 n \<noteq> None"
proof -
  have "hold_of office13 1 \<noteq> None" by code_simp
  from hold_replacements_end [OF opened13 this] show ?thesis by blast
qed

section \<open>Canonical bytes\<close>

text \<open>
  C34: canonical bytes exist exactly for the closed subset of documents that serialize: every number
  that occurs in the document is an integer of magnitude at most 9007199254740991, every member
  name is ASCII, and the serializer gives bytes. \<open>in_subset\<close> states that of the numbers and names
  of a document without the validator's own reading of either.
\<close>

theorem canonical_subset:
  "(\<exists>b. canonical_bytes to_vec v = Inr b) \<longleftrightarrow> in_subset v \<and> to_vec v \<noteq> None"
  by (auto simp: canonical_bytes_Inr_iff)

text \<open>
  C35: the chain hash binds. Two equal chain hashes come from the same 32 predecessor bytes and the
  same content, or the two preimages hashed, which are then different, are themselves a collision
  of SHA-256.
\<close>

theorem chain_hash_binds:
  assumes "chain_hash_hex sha h a = Inr c" and "chain_hash_hex sha k b = Inr c"
  shows "\<exists>p q. predecessor_bytes h = Inr p \<and> predecessor_bytes k = Inr q \<and>
    (p = q \<and> a = b \<or>
     chain_preimage p a \<noteq> chain_preimage q b \<and> sha (chain_preimage p a) = sha (chain_preimage q b))"
proof -
  obtain p q where p: "predecessor_bytes h = Inr p" "predecessor_bytes k = Inr q"
    and c: "to_hex (sha (chain_preimage p a)) = to_hex (sha (chain_preimage q b))"
    using assms by (auto simp: chain_hash_hex_eq split: sum.splits)
  have "chain_preimage p a = chain_preimage q b \<longleftrightarrow> p = q \<and> a = b"
    using p predecessor_bytes_length by (intro chain_preimage_inject) simp
  then show ?thesis using p c to_hex_inject by blast
qed

text \<open>A digest that ignores its input collides on the preimages of two contents.\<close>

theorem chain_hash_binds_witness:
  "\<exists>p q. predecessor_bytes None = Inr p \<and> predecessor_bytes (Some (to_hex (replicate 32 CHR ''a''))) = Inr q \<and>
    chain_preimage p ''{}'' \<noteq> chain_preimage q ''[]''"
proof -
  let ?sha = "\<lambda>_ :: string. replicate 32 CHR ''z''" and ?k = "Some (to_hex (replicate 32 CHR ''a''))"
  have "chain_hash_hex ?sha None ''{}'' = Inr (to_hex (replicate 32 CHR ''z''))"
    "chain_hash_hex ?sha ?k ''[]'' = Inr (to_hex (replicate 32 CHR ''z''))"
    by (simp_all add: chain_hash_hex_def from_hex32_to_hex)
  from chain_hash_binds [OF this] show ?thesis by fastforce
qed

text \<open>Hex decoding inverts the encoding of a 32-byte digest.\<close>

theorem hex_round_trip:
  assumes "length digest = 32"
  shows "from_hex32 (to_hex digest) = Inr digest \<and> length (to_hex digest) = 64 \<and> lower_hex (to_hex digest)"
  using assms by (simp add: from_hex32_to_hex length_to_hex lower_hex_to_hex)

theorem hex_round_trip_witness:
  "from_hex32 (to_hex (replicate 32 CHR ''a'')) = Inr (replicate 32 CHR ''a'')"
  using hex_round_trip [of "replicate 32 CHR ''a''"] by simp

text \<open>
  The decoder takes more than hex: sixty-four characters that are not all hex digits decode,
  because each pair is read as a number and a number may start with a plus sign.
\<close>

theorem hex_decoder_takes_plus:
  "from_hex32 (concat (replicate 32 ''+a'')) = Inr (replicate 32 CHR 0x0A) \<and>
    \<not> list_all (\<lambda>c. digit_value c \<noteq> None) (concat (replicate 32 ''+a''))"
proof
  show "from_hex32 (concat (replicate 32 ''+a'')) = Inr (replicate 32 CHR 0x0A)"
    using hex_pairs_plus [of 32] by (simp add: from_hex32_def length_concat sum_list_replicate)
  have "CHR ''+'' \<in> set (concat (replicate 32 ''+a''))" "digit_value CHR ''+'' = None"
    by (simp_all add: digit_value_def)
  then show "\<not> list_all (\<lambda>c. digit_value c \<noteq> None) (concat (replicate 32 ''+a''))"
    unfolding list_all_iff by blast
qed

section \<open>Vocabularies and the queue\<close>

text \<open>
  Stored names are closed: parsing a stored capability, audit kind, subject kind or notice
  kind gives a value exactly when the text is that value's name.
\<close>

theorem stored_names_closed:
  "(capability_parse s = Some c \<longleftrightarrow> s = capability_as_str c) \<and>
   (event_kind_parse s = Some e \<longleftrightarrow> s = event_kind_as_str e) \<and>
   (subject_kind_parse s = Some k \<longleftrightarrow> s = subject_kind_as_str k) \<and>
   (notice_kind_parse s = Some n \<longleftrightarrow> s = notice_kind_as_str n)"
  by (intro conjI cap.parse_Some_iff evk.parse_Some_iff sbk.parse_Some_iff ntk.parse_Some_iff)

text \<open>
  C36: the review queue lists sealed records. Finalization leaves the queue as it was: a record that a
  reviewer's queue lists as awaiting review, which can be finalized because its policy asks for no
  approval, is still listed, with the same eligibility, once it is sealed, while any decision on it
  is refused, as not submitted unless for want of a comment.
\<close>

theorem queue_lists_sealed_record:
  assumes "reachable ser to_vec sha d" and "finalize to_vec sha pre clk d actor r rv = Inr (d', m)"
    and "queue d u = Inr rows" and "q \<in> set rows" and "q_record_id q = r"
  shows "queue d' u = Inr rows \<and> status_of d' r = StFinalized \<and>
    (\<exists>w. load_record pre r = Some w \<and> \<not> po_review_approved (policy_of (catalog d) (r_version_id w))) \<and>
    decide ser d' clk' d' u r k (Some c) =
      refuse (if k = ChangesRequested \<and> trim c = [] then DrCommentRequired else DrNotSubmitted)"
proof -
  note ok = reachable_ok [OF assms(1)]
  note f = finalize_queue [OF assms(2) ok]
  note l = queue_lists [OF assms(3,4), unfolded assms(5)]
  have so: "streams_sorted d" using ok by (simp add: db_ok_def records_ok_def tables_ok_def)
  obtain w cur where w: "load_record pre r = Some w" "record_of d r = Some cur"
    and p: "po_review_approved (policy_of (catalog d) (r_version_id w)) \<longrightarrow> status_of d r = StApproved"
    using finalize_gate [OF assms(2)] by blast
  have "queue d' u = Inr rows" using assms(3) f(1) by simp
  moreover have "decide ser d' clk' d' u r k (Some c) =
      refuse (if k = ChangesRequested \<and> trim c = [] then DrCommentRequired else DrNotSubmitted)"
    using w(2) f(2,3) queue_lists(1) [OF calculation assms(4)]
    by (intro decide_refuses) (simp_all add: load_record_def)
  moreover have "\<not> po_review_approved (policy_of (catalog d) (r_version_id w))"
    using p awaits_not_approved [OF l(2) so] by blast
  ultimately show ?thesis using f(2) w(1) by blast
qed

theorem queue_lists_sealed_record_witness:
  "queue db6f 4 = Inr [queue_row1] \<and> status_of db6f 1 = StFinalized \<and>
    decide ser1 db6f clk1 db6f 4 1 Approved (Some []) = refuse DrNotSubmitted"
proof -
  have q: "queue db5f 4 = Inr [queue_row1]" by code_simp
  have "queue_row1 \<in> set [queue_row1]" "q_record_id queue_row1 = 1" by (simp_all add: queue_row1_def)
  from queue_lists_sealed_record [OF reach5f run6f q this, of clk1 Approved "[]"] show ?thesis by simp
qed

end
